(* ===== verification/Prelude.thy ===== *)
theory Prelude
  imports Main "HOL-Library.AList" "HOL-Library.Word"
begin

text \<open>
  Shared vocabulary of the flare-core development.

  Rust strings are UTF-8 byte sequences, so a Rust \<open>String\<close> or \<open>&str\<close> is a HOL
  \<^typ>\<open>string\<close> whose characters are its bytes (a \<open>Vec<u8>\<close> has the same type); \<open>len\<close> of the source is \<^const>\<open>length\<close>.
  The helpers below are the standard-library string operations the program calls
  (ASCII case folding, decimal and hexadecimal formatting, trimming of Unicode white space, prefix stripping) and the
  generic facts on association lists and option-valued maps that the component
  proofs share.  A \<open>HashMap\<close> whose iteration order the code observes is an
  association list with distinct keys (updated with \<^const>\<open>AList.update\<close> and
  \<^const>\<open>AList.delete\<close>); a \<open>HashMap\<close> only looked up by key is a map.
\<close>

section \<open>Names for the model's types\<close>

type_synonym conn_id = string
type_synonym bytes = string
type_synonym ('k, 'v) amap = "('k \<times> 'v) list"

named_theorems inv_intro \<open>preservation lemmas of component invariants\<close>
named_theorems codec_simps \<open>encode/decode equations of the wire formats\<close>
named_theorems token_simps \<open>evaluation of string classifiers\<close>

section \<open>ASCII case folding\<close>

definition ascii_lower :: "char \<Rightarrow> char" where
  "ascii_lower c =
     (let n = (of_char c :: nat) in if 65 \<le> n \<and> n \<le> 90 then char_of (n + 32) else c)"

definition to_ascii_lowercase :: "string \<Rightarrow> string" where
  "to_ascii_lowercase s = map ascii_lower s"

definition eq_ignore_ascii_case :: "string \<Rightarrow> string \<Rightarrow> bool" where
  "eq_ignore_ascii_case s t = (to_ascii_lowercase s = to_ascii_lowercase t)"

lemma ascii_lower_idem [simp]: "ascii_lower (ascii_lower c) = ascii_lower c"
  by (auto simp: ascii_lower_def Let_def)

lemma to_ascii_lowercase_idem [simp]:
  "to_ascii_lowercase (to_ascii_lowercase s) = to_ascii_lowercase s"
  by (simp add: to_ascii_lowercase_def)

lemma eq_ignore_ascii_case_refl [simp]: "eq_ignore_ascii_case s s"
  by (simp add: eq_ignore_ascii_case_def)

section \<open>White space and trimming\<close>

text \<open>The UTF-8 encodings of the code points with the Unicode property White_Space.\<close>

definition byte_str :: "nat list \<Rightarrow> string" where
  "byte_str ns = map char_of ns"

definition white_space_encodings :: "string list" where
  "white_space_encodings =
     map byte_str
       ([[9], [10], [11], [12], [13], [32], [0xC2, 0x85], [0xC2, 0xA0], [0xE1, 0x9A, 0x80]] @
        map (\<lambda>b. [0xE2, 0x80, b]) [0x80, 0x81, 0x82, 0x83, 0x84, 0x85, 0x86, 0x87, 0x88, 0x89, 0x8A] @
        [[0xE2, 0x80, 0xA8], [0xE2, 0x80, 0xA9], [0xE2, 0x80, 0xAF], [0xE2, 0x81, 0x9F],
         [0xE3, 0x80, 0x80]])"

fun strip_prefix :: "string \<Rightarrow> string \<Rightarrow> string option" where
  "strip_prefix [] s = Some s"
| "strip_prefix (p # ps) [] = None"
| "strip_prefix (p # ps) (c # cs) = (if p = c then strip_prefix ps cs else None)"

definition starts_with :: "string \<Rightarrow> string \<Rightarrow> bool" where
  "starts_with p s = (strip_prefix p s \<noteq> None)"

definition contains_str :: "string \<Rightarrow> string \<Rightarrow> bool" where
  "contains_str p s = (\<exists>i \<in> set [0..<Suc (length s)]. starts_with p (drop i s))"

fun strip_any :: "string list \<Rightarrow> string \<Rightarrow> string option" where
  "strip_any [] s = None"
| "strip_any (w # ws) s =
     (if w = [] then strip_any ws s
      else case strip_prefix w s of Some r \<Rightarrow> Some r | None \<Rightarrow> strip_any ws s)"

lemma strip_prefix_append [simp]: "strip_prefix p (p @ s) = Some s"
  by (induction p) auto

lemma strip_prefix_Some: "strip_prefix p s = Some r \<longleftrightarrow> s = p @ r"
  by (induction p s rule: strip_prefix.induct) auto

lemma starts_with_append [simp]: "starts_with p (p @ s)"
  by (simp add: starts_with_def)

lemma starts_with_iff: "starts_with p s \<longleftrightarrow> (\<exists>r. s = p @ r)"
  by (auto simp: starts_with_def strip_prefix_Some)

lemma strip_any_shorter: "strip_any ws s = Some r \<Longrightarrow> length r < length s"
  by (induction ws) (auto simp: strip_prefix_Some split: if_splits option.splits)

function trim_start_with :: "string list \<Rightarrow> string \<Rightarrow> string" where
  "trim_start_with ws s =
     (case strip_any ws s of None \<Rightarrow> s | Some r \<Rightarrow> trim_start_with ws r)"
  by pat_completeness auto
termination
  by (relation "measure (\<lambda>(ws, s). length s)") (auto dest: strip_any_shorter)

declare trim_start_with.simps [simp del]

definition trim_start :: "string \<Rightarrow> string" where
  "trim_start s = trim_start_with white_space_encodings s"

definition trim_end :: "string \<Rightarrow> string" where
  "trim_end s = rev (trim_start_with (map rev white_space_encodings) (rev s))"

definition trim :: "string \<Rightarrow> string" where
  "trim s = trim_end (trim_start s)"

lemma trim_start_with_length: "length (trim_start_with ws s) \<le> length s"
proof (induction ws s rule: trim_start_with.induct)
  case (1 ws s)
  then show ?case
    by (subst trim_start_with.simps)
       (fastforce split: option.splits dest: strip_any_shorter intro: order_trans less_imp_le)
qed

lemma trim_start_with_stop:
  "strip_any ws (trim_start_with ws s) = None"
proof (induction ws s rule: trim_start_with.induct)
  case (1 ws s)
  then show ?case
    by (subst trim_start_with.simps) (auto split: option.splits)
qed

lemma trim_start_with_idem:
  "trim_start_with ws (trim_start_with ws s) = trim_start_with ws s"
  by (subst trim_start_with.simps) (simp add: trim_start_with_stop)

section \<open>Association lists\<close>

lemma set_update_fst [simp]: "fst ` set (AList.update k v al) = insert k (fst ` set al)"
  by (simp add: dom_update)

lemma set_delete_fst [simp]: "fst ` set (AList.delete k al) = fst ` set al - {k}"
  by (induction al) auto

lemma map_of_NoneI: "k \<notin> fst ` set al \<Longrightarrow> map_of al k = None"
  by (simp add: map_of_eq_None_iff)

lemma map_of_Some_fst: "map_of al k = Some v \<Longrightarrow> k \<in> fst ` set al"
  by (metis map_of_SomeD fst_conv image_eqI)

lemma fst_map_of_ex: "k \<in> fst ` set al \<Longrightarrow> \<exists>v. map_of al k = Some v"
  by (metis map_of_eq_None_iff option.exhaust)

lemma delete_eq_filter: "AList.delete k al = filter (\<lambda>p. fst p \<noteq> k) al"
  by (induction al) (auto simp: AList.delete_eq)

lemma fold_delete: "fold AList.delete ks al = filter (\<lambda>p. fst p \<notin> set ks) al"
proof (induction ks arbitrary: al)
  case (Cons k ks)
  then show ?case by (auto simp: delete_eq_filter intro: filter_cong)
qed simp

lemma fold_map_remove: "fold (\<lambda>k m. m(k := None)) ks m = m |` (- set ks)"
  by (induction ks arbitrary: m) (auto simp: restrict_map_def fun_eq_iff)

lemma map_of_filter_notin:
  "map_of (filter (\<lambda>p. fst p \<notin> K) al) k = (if k \<in> K then None else map_of al k)"
  by (induction al) auto

lemma fst_filter_set: "fst ` set (filter (\<lambda>p. P (fst p)) al) = {k \<in> fst ` set al. P k}"
  by force

lemma set_update_cases:
  "(k', v') \<in> set (AList.update k v al) \<Longrightarrow> k' = k \<and> v' = v \<or> (k', v') \<in> set al"
  by (induction al) (auto split: if_splits)

section \<open>Option-valued lookups\<close>

definition unwrap_or :: "'a \<Rightarrow> 'a option \<Rightarrow> 'a" where
  "unwrap_or d x = (case x of None \<Rightarrow> d | Some v \<Rightarrow> v)"

lemma unwrap_or_simps [simp]: "unwrap_or d None = d" "unwrap_or d (Some v) = v"
  by (simp_all add: unwrap_or_def)

lemma if_Some_elim:
  "(if b then Some x else y) = Some e \<Longrightarrow> (b \<Longrightarrow> x = e \<Longrightarrow> P) \<Longrightarrow> (y = Some e \<Longrightarrow> P) \<Longrightarrow> P"
  by (auto split: if_splits)

definition filter_option :: "('a \<Rightarrow> bool) \<Rightarrow> 'a option \<Rightarrow> 'a option" where
  "filter_option P x = (case x of None \<Rightarrow> None | Some v \<Rightarrow> if P v then Some v else None)"

lemma filter_option_simps [simp]:
  "filter_option P None = None"
  "filter_option P (Some v) = (if P v then Some v else None)"
  by (simp_all add: filter_option_def)

section \<open>Formatting of numbers\<close>

text \<open>\<open>dec_str\<close> is the decimal form \<open>{}\<close> of the formatting macros, \<open>hex_fixed w\<close> the
  zero-padded lower-case hexadecimal form \<open>{:0wx}\<close> of a number below \<open>16 ^ w\<close>.\<close>

definition digit_char :: "nat \<Rightarrow> char" where
  "digit_char d = (if d < 10 then char_of (48 + d) else char_of (87 + d))"

function dec_str :: "nat \<Rightarrow> string" where
  "dec_str n = (if n < 10 then [digit_char n] else dec_str (n div 10) @ [digit_char (n mod 10)])"
  by pat_completeness auto
termination by (relation "measure id") auto

declare dec_str.simps [simp del]

fun hex_fixed :: "nat \<Rightarrow> nat \<Rightarrow> string" where
  "hex_fixed 0 n = []"
| "hex_fixed (Suc w) n = hex_fixed w (n div 16) @ [digit_char (n mod 16)]"

lemma of_digit_char: "d < 16 \<Longrightarrow> (of_char (digit_char d) :: nat) = (if d < 10 then 48 + d else 87 + d)"
  by (auto simp: digit_char_def take_bit_eq_mod)

lemma digit_char_inj:
  assumes "a < 16" "b < 16"
  shows "digit_char a = digit_char b \<longleftrightarrow> a = b"
proof
  assume "digit_char a = digit_char b"
  with assms have "(if a < 10 then 48 + a else 87 + a) = (if b < 10 then 48 + b else 87 + b)"
    by (metis of_digit_char)
  with assms show "a = b" by (simp split: if_splits)
qed simp

lemma length_hex_fixed [simp]: "length (hex_fixed w n) = w"
  by (induction w arbitrary: n) auto

lemma hex_fixed_inj: "m < 16 ^ w \<Longrightarrow> n < 16 ^ w \<Longrightarrow> hex_fixed w m = hex_fixed w n \<Longrightarrow> m = n"
proof (induction w arbitrary: m n)
  case (Suc w)
  then have "m mod 16 = n mod 16"
    by (simp add: digit_char_inj)
  moreover have "m div 16 = n div 16"
    using Suc.prems by (intro Suc.IH) (auto simp: less_mult_imp_div_less mult.commute)
  ultimately show ?case by (metis div_mult_mod_eq)
qed simp

section \<open>UTF-8\<close>

text \<open>\<open>std::str::from_utf8\<close>: a byte string is a \<open>str\<close> exactly when it is well-formed UTF-8
  (no overlong forms, no surrogates, nothing above U+10FFFF).\<close>

definition utf8_cont :: "nat \<Rightarrow> bool" where
  "utf8_cont b = (0x80 \<le> b \<and> b \<le> 0xBF)"

definition utf8_second :: "nat \<Rightarrow> nat \<Rightarrow> bool" where
  "utf8_second b1 b2 =
     (if b1 = 0xE0 then 0xA0 \<le> b2 \<and> b2 \<le> 0xBF
      else if b1 = 0xED then 0x80 \<le> b2 \<and> b2 \<le> 0x9F
      else if b1 = 0xF0 then 0x90 \<le> b2 \<and> b2 \<le> 0xBF
      else if b1 = 0xF4 then 0x80 \<le> b2 \<and> b2 \<le> 0x8F
      else utf8_cont b2)"

fun utf8_ok :: "nat list \<Rightarrow> bool" where
  "utf8_ok [] = True"
| "utf8_ok (b1 # rest) =
     (if b1 < 0x80 then utf8_ok rest
      else if 0xC2 \<le> b1 \<and> b1 \<le> 0xDF then
        (case rest of b2 # r \<Rightarrow> utf8_cont b2 \<and> utf8_ok r | _ \<Rightarrow> False)
      else if 0xE0 \<le> b1 \<and> b1 \<le> 0xEF then
        (case rest of b2 # b3 # r \<Rightarrow> utf8_second b1 b2 \<and> utf8_cont b3 \<and> utf8_ok r | _ \<Rightarrow> False)
      else if 0xF0 \<le> b1 \<and> b1 \<le> 0xF4 then
        (case rest of b2 # b3 # b4 # r \<Rightarrow>
            utf8_second b1 b2 \<and> utf8_cont b3 \<and> utf8_cont b4 \<and> utf8_ok r | _ \<Rightarrow> False)
      else False)"

definition from_utf8 :: "bytes \<Rightarrow> string option" where
  "from_utf8 s = (if utf8_ok (map of_char s) then Some s else None)"

text \<open>\<open>str::to_lowercase\<close>, exact on ASCII letters; other letters are left as they are.\<close>

definition to_lowercase :: "string \<Rightarrow> string" where
  "to_lowercase s = to_ascii_lowercase s"

end
