(* ===== verification/Errors.thy ===== *)
theory Errors
  imports Prelude
begin

text \<open>
  Error codes and the unified error type of the program
  (\<open>src/src/common/error/code.rs\<close>, \<open>flare_error.rs\<close>, \<open>localized.rs\<close>,
  \<open>builder.rs\<close>).  A code is kept with its \<open>u32\<close> discriminant.  The creation
  time that a localized error carries comes from the clock and is not represented;
  the code, reason, details and parameters are.  Fallible operations of the other
  theories return \<open>flare_error + 'a\<close>, with \<^const>\<open>Inl\<close> for \<open>Err\<close>.
\<close>

section \<open>Error codes\<close>

datatype error_code =
  ConnectionFailed
  | ConnectionTimeout
  | ConnectionClosed
  | ConnectionRefused
  | ConnectionLimitExceeded
  | NotConnected
  | ConnectionReconnecting
  | AuthenticationFailed
  | AuthenticationExpired
  | AuthenticationInvalid
  | AuthenticationRequired
  | PermissionDenied
  | TokenInvalid
  | TokenExpired
  | ProtocolError
  | ProtocolVersionMismatch
  | ProtocolNotSupported
  | MessageFormatError
  | MessageTooLarge
  | InvalidCommand
  | MessageSendFailed
  | MessageDeliveryFailed
  | MessageNotFound
  | MessageExpired
  | MessageRateLimitExceeded
  | MessageDecodeFailed
  | UserNotFound
  | UserOffline
  | UserBlocked
  | UserQuotaExceeded
  | UserSessionLimitExceeded
  | InternalError
  | ServiceUnavailable
  | ResourceExhausted
  | ConfigurationError
  | DatabaseError
  | NetworkError
  | NetworkTimeout
  | NetworkUnreachable
  | NetworkConnectionLost
  | SerializationError
  | DeserializationError
  | EncodingError
  | GeneralError
  | InvalidParameter
  | OperationNotSupported
  | OperationFailed
  | OperationTimeout
  | UnknownError

datatype error_category =
  CatConnection | CatAuthentication | CatProtocol | CatMessage | CatUser
  | CatSystem | CatNetwork | CatSerialization | CatGeneral

primrec error_as_u32 :: "error_code \<Rightarrow> 32 word" where
  "error_as_u32 ConnectionFailed = 1000"
| "error_as_u32 ConnectionTimeout = 1001"
| "error_as_u32 ConnectionClosed = 1002"
| "error_as_u32 ConnectionRefused = 1003"
| "error_as_u32 ConnectionLimitExceeded = 1004"
| "error_as_u32 NotConnected = 1005"
| "error_as_u32 ConnectionReconnecting = 1006"
| "error_as_u32 AuthenticationFailed = 2000"
| "error_as_u32 AuthenticationExpired = 2001"
| "error_as_u32 AuthenticationInvalid = 2002"
| "error_as_u32 AuthenticationRequired = 2003"
| "error_as_u32 PermissionDenied = 2004"
| "error_as_u32 TokenInvalid = 2005"
| "error_as_u32 TokenExpired = 2006"
| "error_as_u32 ProtocolError = 3000"
| "error_as_u32 ProtocolVersionMismatch = 3001"
| "error_as_u32 ProtocolNotSupported = 3002"
| "error_as_u32 MessageFormatError = 3003"
| "error_as_u32 MessageTooLarge = 3004"
| "error_as_u32 InvalidCommand = 3005"
| "error_as_u32 MessageSendFailed = 4000"
| "error_as_u32 MessageDeliveryFailed = 4001"
| "error_as_u32 MessageNotFound = 4002"
| "error_as_u32 MessageExpired = 4003"
| "error_as_u32 MessageRateLimitExceeded = 4004"
| "error_as_u32 MessageDecodeFailed = 4005"
| "error_as_u32 UserNotFound = 5000"
| "error_as_u32 UserOffline = 5001"
| "error_as_u32 UserBlocked = 5002"
| "error_as_u32 UserQuotaExceeded = 5003"
| "error_as_u32 UserSessionLimitExceeded = 5004"
| "error_as_u32 InternalError = 6000"
| "error_as_u32 ServiceUnavailable = 6001"
| "error_as_u32 ResourceExhausted = 6002"
| "error_as_u32 ConfigurationError = 6003"
| "error_as_u32 DatabaseError = 6004"
| "error_as_u32 NetworkError = 7000"
| "error_as_u32 NetworkTimeout = 7001"
| "error_as_u32 NetworkUnreachable = 7002"
| "error_as_u32 NetworkConnectionLost = 7003"
| "error_as_u32 SerializationError = 8000"
| "error_as_u32 DeserializationError = 8001"
| "error_as_u32 EncodingError = 8002"
| "error_as_u32 GeneralError = 9000"
| "error_as_u32 InvalidParameter = 9001"
| "error_as_u32 OperationNotSupported = 9002"
| "error_as_u32 OperationFailed = 9003"
| "error_as_u32 OperationTimeout = 9004"
| "error_as_u32 UnknownError = 9999"

definition error_from_u32 :: "32 word \<Rightarrow> error_code option" where
  "error_from_u32 code =
    (if code = 1000 then Some ConnectionFailed
     else if code = 1001 then Some ConnectionTimeout
     else if code = 1002 then Some ConnectionClosed
     else if code = 1003 then Some ConnectionRefused
     else if code = 1004 then Some ConnectionLimitExceeded
     else if code = 1005 then Some NotConnected
     else if code = 1006 then Some ConnectionReconnecting
     else if code = 2000 then Some AuthenticationFailed
     else if code = 2001 then Some AuthenticationExpired
     else if code = 2002 then Some AuthenticationInvalid
     else if code = 2003 then Some AuthenticationRequired
     else if code = 2004 then Some PermissionDenied
     else if code = 2005 then Some TokenInvalid
     else if code = 2006 then Some TokenExpired
     else if code = 3000 then Some ProtocolError
     else if code = 3001 then Some ProtocolVersionMismatch
     else if code = 3002 then Some ProtocolNotSupported
     else if code = 3003 then Some MessageFormatError
     else if code = 3004 then Some MessageTooLarge
     else if code = 3005 then Some InvalidCommand
     else if code = 4000 then Some MessageSendFailed
     else if code = 4001 then Some MessageDeliveryFailed
     else if code = 4002 then Some MessageNotFound
     else if code = 4003 then Some MessageExpired
     else if code = 4004 then Some MessageRateLimitExceeded
     else if code = 4005 then Some MessageDecodeFailed
     else if code = 5000 then Some UserNotFound
     else if code = 5001 then Some UserOffline
     else if code = 5002 then Some UserBlocked
     else if code = 5003 then Some UserQuotaExceeded
     else if code = 5004 then Some UserSessionLimitExceeded
     else if code = 6000 then Some InternalError
     else if code = 6001 then Some ServiceUnavailable
     else if code = 6002 then Some ResourceExhausted
     else if code = 6003 then Some ConfigurationError
     else if code = 6004 then Some DatabaseError
     else if code = 7000 then Some NetworkError
     else if code = 7001 then Some NetworkTimeout
     else if code = 7002 then Some NetworkUnreachable
     else if code = 7003 then Some NetworkConnectionLost
     else if code = 8000 then Some SerializationError
     else if code = 8001 then Some DeserializationError
     else if code = 8002 then Some EncodingError
     else if code = 9000 then Some GeneralError
     else if code = 9001 then Some InvalidParameter
     else if code = 9002 then Some OperationNotSupported
     else if code = 9003 then Some OperationFailed
     else if code = 9004 then Some OperationTimeout
     else if code = 9999 then Some UnknownError
     else None)"

primrec error_as_str :: "error_code \<Rightarrow> string" where
  "error_as_str ConnectionFailed = ''CONNECTION_FAILED''"
| "error_as_str ConnectionTimeout = ''CONNECTION_TIMEOUT''"
| "error_as_str ConnectionClosed = ''CONNECTION_CLOSED''"
| "error_as_str ConnectionRefused = ''CONNECTION_REFUSED''"
| "error_as_str ConnectionLimitExceeded = ''CONNECTION_LIMIT_EXCEEDED''"
| "error_as_str NotConnected = ''NOT_CONNECTED''"
| "error_as_str ConnectionReconnecting = ''CONNECTION_RECONNECTING''"
| "error_as_str AuthenticationFailed = ''AUTHENTICATION_FAILED''"
| "error_as_str AuthenticationExpired = ''AUTHENTICATION_EXPIRED''"
| "error_as_str AuthenticationInvalid = ''AUTHENTICATION_INVALID''"
| "error_as_str AuthenticationRequired = ''AUTHENTICATION_REQUIRED''"
| "error_as_str PermissionDenied = ''PERMISSION_DENIED''"
| "error_as_str TokenInvalid = ''TOKEN_INVALID''"
| "error_as_str TokenExpired = ''TOKEN_EXPIRED''"
| "error_as_str ProtocolError = ''PROTOCOL_ERROR''"
| "error_as_str ProtocolVersionMismatch = ''PROTOCOL_VERSION_MISMATCH''"
| "error_as_str ProtocolNotSupported = ''PROTOCOL_NOT_SUPPORTED''"
| "error_as_str MessageFormatError = ''MESSAGE_FORMAT_ERROR''"
| "error_as_str MessageTooLarge = ''MESSAGE_TOO_LARGE''"
| "error_as_str InvalidCommand = ''INVALID_COMMAND''"
| "error_as_str MessageSendFailed = ''MESSAGE_SEND_FAILED''"
| "error_as_str MessageDeliveryFailed = ''MESSAGE_DELIVERY_FAILED''"
| "error_as_str MessageNotFound = ''MESSAGE_NOT_FOUND''"
| "error_as_str MessageExpired = ''MESSAGE_EXPIRED''"
| "error_as_str MessageRateLimitExceeded = ''MESSAGE_RATE_LIMIT_EXCEEDED''"
| "error_as_str MessageDecodeFailed = ''MESSAGE_DECODE_FAILED''"
| "error_as_str UserNotFound = ''USER_NOT_FOUND''"
| "error_as_str UserOffline = ''USER_OFFLINE''"
| "error_as_str UserBlocked = ''USER_BLOCKED''"
| "error_as_str UserQuotaExceeded = ''USER_QUOTA_EXCEEDED''"
| "error_as_str UserSessionLimitExceeded = ''USER_SESSION_LIMIT_EXCEEDED''"
| "error_as_str InternalError = ''INTERNAL_ERROR''"
| "error_as_str ServiceUnavailable = ''SERVICE_UNAVAILABLE''"
| "error_as_str ResourceExhausted = ''RESOURCE_EXHAUSTED''"
| "error_as_str ConfigurationError = ''CONFIGURATION_ERROR''"
| "error_as_str DatabaseError = ''DATABASE_ERROR''"
| "error_as_str NetworkError = ''NETWORK_ERROR''"
| "error_as_str NetworkTimeout = ''NETWORK_TIMEOUT''"
| "error_as_str NetworkUnreachable = ''NETWORK_UNREACHABLE''"
| "error_as_str NetworkConnectionLost = ''NETWORK_CONNECTION_LOST''"
| "error_as_str SerializationError = ''SERIALIZATION_ERROR''"
| "error_as_str DeserializationError = ''DESERIALIZATION_ERROR''"
| "error_as_str EncodingError = ''ENCODING_ERROR''"
| "error_as_str GeneralError = ''GENERAL_ERROR''"
| "error_as_str InvalidParameter = ''INVALID_PARAMETER''"
| "error_as_str OperationNotSupported = ''OPERATION_NOT_SUPPORTED''"
| "error_as_str OperationFailed = ''OPERATION_FAILED''"
| "error_as_str OperationTimeout = ''OPERATION_TIMEOUT''"
| "error_as_str UnknownError = ''UNKNOWN_ERROR''"

definition error_category_of :: "error_code \<Rightarrow> error_category" where
  "error_category_of e =
     (let code = error_as_u32 e in
      if 1000 \<le> code \<and> code \<le> 1999 then CatConnection
      else if 2000 \<le> code \<and> code \<le> 2999 then CatAuthentication
      else if 3000 \<le> code \<and> code \<le> 3999 then CatProtocol
      else if 4000 \<le> code \<and> code \<le> 4999 then CatMessage
      else if 5000 \<le> code \<and> code \<le> 5999 then CatUser
      else if 6000 \<le> code \<and> code \<le> 6999 then CatSystem
      else if 7000 \<le> code \<and> code \<le> 7999 then CatNetwork
      else if 8000 \<le> code \<and> code \<le> 8999 then CatSerialization
      else CatGeneral)"

definition error_is_retryable :: "error_code \<Rightarrow> bool" where
  "error_is_retryable e =
     (e \<in> {ConnectionTimeout, ConnectionClosed, NetworkTimeout, NetworkConnectionLost,
           ServiceUnavailable, ResourceExhausted})"

section \<open>The unified error\<close>

type_synonym params = "(string, string) amap"

record localized_error =
  le_code :: error_code
  le_reason :: string
  le_details :: "string option"
  le_params :: "params option"

datatype flare_error =
  Localized localized_error
  | SystemError string
  | IoError string

type_synonym 'a result = "flare_error + 'a"

definition localized_new :: "error_code \<Rightarrow> string \<Rightarrow> localized_error" where
  "localized_new c r = \<lparr>le_code = c, le_reason = r, le_details = None, le_params = None\<rparr>"

definition with_details :: "string \<Rightarrow> localized_error \<Rightarrow> localized_error" where
  "with_details d e = e\<lparr>le_details := Some d\<rparr>"

definition with_params :: "params \<Rightarrow> localized_error \<Rightarrow> localized_error" where
  "with_params ps e = e\<lparr>le_params := Some ps\<rparr>"

definition with_param :: "string \<Rightarrow> string \<Rightarrow> localized_error \<Rightarrow> localized_error" where
  "with_param k v e =
     (let e1 = (if le_params e = None then e\<lparr>le_params := Some []\<rparr> else e) in
      case le_params e1 of
        Some ps \<Rightarrow> e1\<lparr>le_params := Some (AList.update k v ps)\<rparr>
      | None \<Rightarrow> e1)"

definition localized :: "error_code \<Rightarrow> string \<Rightarrow> flare_error" where
  "localized c r = Localized (localized_new c r)"

definition user_not_found :: "string \<Rightarrow> flare_error" where
  "user_not_found u =
     Localized \<lparr>le_code = UserNotFound, le_reason = ''user not found'', le_details = None,
                le_params = Some [(''user_id'', u)]\<rparr>"

definition user_offline :: "string \<Rightarrow> flare_error" where
  "user_offline u =
     Localized \<lparr>le_code = UserOffline, le_reason = ''user offline'', le_details = None,
                le_params = Some [(''user_id'', u)]\<rparr>"

definition as_localized :: "flare_error \<Rightarrow> localized_error option" where
  "as_localized e = (case e of Localized l \<Rightarrow> Some l | _ \<Rightarrow> None)"

definition flare_error_code :: "flare_error \<Rightarrow> error_code option" where
  "flare_error_code e = (case e of Localized l \<Rightarrow> Some (le_code l) | _ \<Rightarrow> None)"

definition flare_error_reason :: "flare_error \<Rightarrow> string" where
  "flare_error_reason e =
     (case e of Localized l \<Rightarrow> le_reason l | SystemError m \<Rightarrow> m | IoError m \<Rightarrow> m)"

definition to_localized :: "flare_error \<Rightarrow> localized_error" where
  "to_localized e =
     (case e of Localized l \<Rightarrow> l
      | SystemError m \<Rightarrow> localized_new InternalError m
      | IoError m \<Rightarrow> localized_new NetworkError m)"

definition flare_error_is_retryable :: "flare_error \<Rightarrow> bool" where
  "flare_error_is_retryable e =
     (case flare_error_code e of Some c \<Rightarrow> error_is_retryable c | None \<Rightarrow> False)"

record error_builder =
  eb_code :: error_code
  eb_reason :: string
  eb_details :: "string option"
  eb_params :: "params option"

definition builder_new :: "error_code \<Rightarrow> string \<Rightarrow> error_builder" where
  "builder_new c r = \<lparr>eb_code = c, eb_reason = r, eb_details = None, eb_params = None\<rparr>"

definition builder_details :: "string \<Rightarrow> error_builder \<Rightarrow> error_builder" where
  "builder_details d b = b\<lparr>eb_details := Some d\<rparr>"

definition builder_param :: "string \<Rightarrow> string \<Rightarrow> error_builder \<Rightarrow> error_builder" where
  "builder_param k v b =
     (let b1 = (if eb_params b = None then b\<lparr>eb_params := Some []\<rparr> else b) in
      case eb_params b1 of
        Some ps \<Rightarrow> b1\<lparr>eb_params := Some (AList.update k v ps)\<rparr>
      | None \<Rightarrow> b1)"

definition builder_build :: "error_builder \<Rightarrow> flare_error" where
  "builder_build b =
     Localized \<lparr>le_code = eb_code b, le_reason = eb_reason b, le_details = eb_details b,
                le_params = eb_params b\<rparr>"

definition builder_build_localized :: "error_builder \<Rightarrow> localized_error" where
  "builder_build_localized b =
     (let l = localized_new (eb_code b) (eb_reason b);
          l = (case eb_details b of Some d \<Rightarrow> with_details d l | None \<Rightarrow> l);
          l = (case eb_params b of Some ps \<Rightarrow> with_params ps l | None \<Rightarrow> l)
      in l)"

section \<open>Facts on codes\<close>

lemma error_from_as_u32 [simp]: "error_from_u32 (error_as_u32 e) = Some e"
  by (cases e) (simp_all add: error_from_u32_def)

lemma error_from_u32_SomeD: "error_from_u32 n = Some e \<Longrightarrow> error_as_u32 e = n"
  unfolding error_from_u32_def
  by ((erule if_Some_elim, hypsubst, rule error_as_u32.simps)+) simp

lemma error_as_u32_inj: "inj error_as_u32"
  by (metis error_from_as_u32 injI option.inject)

lemma flare_error_code_localized [simp]: "flare_error_code (localized c r) = Some c"
  by (simp add: flare_error_code_def localized_def localized_new_def)

lemma retryable_category:
  "error_is_retryable e \<Longrightarrow> error_category_of e \<in> {CatConnection, CatNetwork, CatSystem}"
  by (cases e; simp add: error_is_retryable_def error_category_of_def)

end
