(* ===== verification/Device.thy ===== *)
theory Device
  imports Errors
begin

text \<open>
  Device platforms, device descriptions and the conflict strategies
  (\<open>src/src/common/device.rs\<close>).  A \<open>HashSet\<close> of platforms is a list of distinct
  platforms: the code only tests membership, emptiness, size and inclusion, and
  collects the elements in an unspecified order.
\<close>

section \<open>Platforms\<close>

datatype device_platform =
  Web | PC | H5 | Android | IOS | HarmonyOS | OtherPlatform string

definition platform_from_str :: "string \<Rightarrow> device_platform" where
  "platform_from_str s =
     (if eq_ignore_ascii_case s ''web'' then Web
      else if eq_ignore_ascii_case s ''pc'' \<or> eq_ignore_ascii_case s ''desktop'' then PC
      else if eq_ignore_ascii_case s ''h5'' \<or> eq_ignore_ascii_case s ''mobile_web'' then H5
      else if eq_ignore_ascii_case s ''android'' then Android
      else if eq_ignore_ascii_case s ''ios'' \<or> eq_ignore_ascii_case s ''iphone''
           \<or> eq_ignore_ascii_case s ''ipad'' then IOS
      else if eq_ignore_ascii_case s ''harmonyos'' \<or> eq_ignore_ascii_case s ''harmony''
           \<or> eq_ignore_ascii_case s ''openharmony'' then HarmonyOS
      else OtherPlatform s)"

fun platform_as_str :: "device_platform \<Rightarrow> string" where
  "platform_as_str Web = ''web''"
| "platform_as_str PC = ''pc''"
| "platform_as_str H5 = ''h5''"
| "platform_as_str Android = ''android''"
| "platform_as_str IOS = ''ios''"
| "platform_as_str HarmonyOS = ''harmonyos''"
| "platform_as_str (OtherPlatform s) = s"

definition is_mobile :: "device_platform \<Rightarrow> bool" where
  "is_mobile p = (case p of H5 \<Rightarrow> True | Android \<Rightarrow> True | IOS \<Rightarrow> True | HarmonyOS \<Rightarrow> True | _ \<Rightarrow> False)"

definition is_desktop :: "device_platform \<Rightarrow> bool" where
  "is_desktop p = (case p of Web \<Rightarrow> True | PC \<Rightarrow> True | _ \<Rightarrow> False)"

section \<open>Device descriptions\<close>

record device_info =
  di_device_id :: string
  di_platform :: device_platform
  di_model :: "string option"
  di_app_version :: "string option"
  di_system_version :: "string option"
  di_metadata :: "(string, string) amap"

definition device_info_new :: "string \<Rightarrow> device_platform \<Rightarrow> device_info" where
  "device_info_new i p =
     \<lparr>di_device_id = i, di_platform = p, di_model = None, di_app_version = None,
      di_system_version = None, di_metadata = []\<rparr>"

definition with_model :: "string \<Rightarrow> device_info \<Rightarrow> device_info" where
  "with_model m d = d\<lparr>di_model := Some m\<rparr>"

definition with_app_version :: "string \<Rightarrow> device_info \<Rightarrow> device_info" where
  "with_app_version v d = d\<lparr>di_app_version := Some v\<rparr>"

definition with_system_version :: "string \<Rightarrow> device_info \<Rightarrow> device_info" where
  "with_system_version v d = d\<lparr>di_system_version := Some v\<rparr>"

definition with_metadata :: "string \<Rightarrow> string \<Rightarrow> device_info \<Rightarrow> device_info" where
  "with_metadata k v d = d\<lparr>di_metadata := AList.update k v (di_metadata d)\<rparr>"

section \<open>Conflict strategies\<close>

datatype device_conflict_strategy =
  AllowAll
  | MobileExclusive
  | PlatformExclusive
  | FullyExclusive
  | MobileAndPcCoexist
  | Custom (allowed_combinations: "device_platform list list")
           (exclusive_groups: "device_platform list list")

definition get_mobile_devices :: "device_platform list \<Rightarrow> device_platform list" where
  "get_mobile_devices ds = filter is_mobile ds"

text \<open>The loop over the exclusive groups: the first group that holds the new platform
  and meets an existing one decides.\<close>

fun exclusive_group_conflicts ::
  "device_platform \<Rightarrow> device_platform list \<Rightarrow> device_platform list list \<Rightarrow> device_platform list option"
where
  "exclusive_group_conflicts n ex [] = None"
| "exclusive_group_conflicts n ex (g # gs) =
     (if n \<in> set g \<and> filter (\<lambda>p. p \<in> set g) ex \<noteq> []
      then Some (filter (\<lambda>p. p \<in> set g) ex)
      else exclusive_group_conflicts n ex gs)"

fun check_conflict ::
  "device_conflict_strategy \<Rightarrow> device_platform \<Rightarrow> device_platform list \<Rightarrow> device_platform list + unit"
where
  "check_conflict AllowAll n ex = Inr ()"
| "check_conflict MobileExclusive n ex =
     (if is_mobile n \<and> get_mobile_devices ex \<noteq> [] then Inl (get_mobile_devices ex) else Inr ())"
| "check_conflict PlatformExclusive n ex = (if n \<in> set ex then Inl [n] else Inr ())"
| "check_conflict FullyExclusive n ex = (if ex \<noteq> [] then Inl ex else Inr ())"
| "check_conflict MobileAndPcCoexist n ex =
     (if is_mobile n then
        (if get_mobile_devices ex \<noteq> [] then Inl (get_mobile_devices ex) else Inr ())
      else if is_desktop n then
        (if filter is_desktop ex \<noteq> [] then Inl (filter is_desktop ex) else Inr ())
      else if n \<in> set ex then Inl [n] else Inr ())"
| "check_conflict (Custom allowed groups) n ex =
     (case exclusive_group_conflicts n ex groups of
        Some cs \<Rightarrow> Inl cs
      | None \<Rightarrow>
          (let combined = List.insert n ex in
           if length combined > 1 \<and> \<not> list_ex (\<lambda>a. list_all (\<lambda>p. p \<in> set a) combined) allowed
           then Inl ex else Inr ()))"

section \<open>The strategy builder\<close>

record strategy_builder =
  sb_strategy :: device_conflict_strategy

definition strategy_builder_new :: strategy_builder where
  "strategy_builder_new = \<lparr>sb_strategy = AllowAll\<rparr>"

definition mobile_exclusive :: "strategy_builder \<Rightarrow> strategy_builder" where
  "mobile_exclusive b = b\<lparr>sb_strategy := MobileExclusive\<rparr>"

definition platform_exclusive :: "strategy_builder \<Rightarrow> strategy_builder" where
  "platform_exclusive b = b\<lparr>sb_strategy := PlatformExclusive\<rparr>"

definition fully_exclusive :: "strategy_builder \<Rightarrow> strategy_builder" where
  "fully_exclusive b = b\<lparr>sb_strategy := FullyExclusive\<rparr>"

definition mobile_and_pc_coexist :: "strategy_builder \<Rightarrow> strategy_builder" where
  "mobile_and_pc_coexist b = b\<lparr>sb_strategy := MobileAndPcCoexist\<rparr>"

definition custom_strategy ::
  "device_platform list list \<Rightarrow> device_platform list list \<Rightarrow> strategy_builder \<Rightarrow> strategy_builder" where
  "custom_strategy a e b = b\<lparr>sb_strategy := Custom a e\<rparr>"

definition strategy_build :: "strategy_builder \<Rightarrow> device_conflict_strategy" where
  "strategy_build b = sb_strategy b"

section \<open>What a strategy excludes\<close>

text \<open>The platforms a login displaces; none when the strategy admits the device.\<close>

definition conflict_platforms ::
  "device_conflict_strategy \<Rightarrow> device_platform \<Rightarrow> device_platform list \<Rightarrow> device_platform list" where
  "conflict_platforms s n ex = (case check_conflict s n ex of Inl cs \<Rightarrow> cs | Inr _ \<Rightarrow> [])"

text \<open>The documented meaning of the five fixed strategies as a symmetric relation:
  two devices of one user whose platforms are related may not both stay online.\<close>

definition mobile_excl :: "device_platform \<Rightarrow> device_platform \<Rightarrow> bool" where
  "mobile_excl p q = (is_mobile p \<and> is_mobile q)"

definition coexist_excl :: "device_platform \<Rightarrow> device_platform \<Rightarrow> bool" where
  "coexist_excl p q = (is_mobile p \<and> is_mobile q \<or> is_desktop p \<and> is_desktop q \<or> p = q)"

lemma is_mobile_simps [simp]:
  "\<not> is_mobile Web" "\<not> is_mobile PC" "is_mobile H5" "is_mobile Android" "is_mobile IOS"
  "is_mobile HarmonyOS" "\<not> is_mobile (OtherPlatform s)"
  by (simp_all add: is_mobile_def)

lemma is_desktop_simps [simp]:
  "is_desktop Web" "is_desktop PC" "\<not> is_desktop H5" "\<not> is_desktop Android" "\<not> is_desktop IOS"
  "\<not> is_desktop HarmonyOS" "\<not> is_desktop (OtherPlatform s)"
  by (simp_all add: is_desktop_def)

lemma mobile_not_desktop: "is_mobile p \<Longrightarrow> \<not> is_desktop p"
  by (cases p) auto

lemma exclusive_group_conflicts_subset:
  "exclusive_group_conflicts n ex gs = Some cs \<Longrightarrow> set cs \<subseteq> set ex \<and> cs \<noteq> []"
  by (induction gs) (auto split: if_splits)

lemma check_conflict_subset:
  assumes "check_conflict s n ex = Inl cs"
  shows "set cs \<subseteq> set ex"
proof (cases s)
  case (Custom allowed groups)
  with assms show ?thesis
    by (auto simp: Let_def split: option.splits if_splits
             dest: exclusive_group_conflicts_subset)
qed (use assms in \<open>auto simp: get_mobile_devices_def split: if_splits\<close>)

lemma conflict_platforms_subset: "set (conflict_platforms s n ex) \<subseteq> set ex"
  by (cases "check_conflict s n ex") (auto simp: conflict_platforms_def dest: check_conflict_subset)

lemma check_conflict_nonempty:
  assumes "check_conflict s n ex = Inl cs"
  shows "ex \<noteq> [] \<and> cs \<noteq> []"
proof (cases s)
  case (Custom allowed groups)
  with assms show ?thesis
    by (auto simp: Let_def List.insert_def split: option.splits if_splits
             dest: exclusive_group_conflicts_subset)
qed (use assms in \<open>auto simp: get_mobile_devices_def split: if_splits\<close>)

text \<open>The verdict does not depend on the order in which the set of existing platforms
  is traversed.\<close>

lemma exclusive_group_conflicts_order:
  assumes "set ex = set ex'"
  shows "map_option set (exclusive_group_conflicts n ex gs) =
         map_option set (exclusive_group_conflicts n ex' gs)"
  using assms by (induction gs) (auto simp: filter_empty_conv)

lemma conflict_platforms_order:
  assumes "distinct ex" "distinct ex'" "set ex = set ex'"
  shows "set (conflict_platforms s n ex) = set (conflict_platforms s n ex')"
proof (cases s)
  case (Custom allowed groups)
  have "length (List.insert n ex) = length (List.insert n ex')"
    using assms by (metis distinct_card distinct_insert set_insert)
  moreover have "list_all (\<lambda>p. p \<in> set a) (List.insert n ex) =
      list_all (\<lambda>p. p \<in> set a) (List.insert n ex')" for a
    using assms(3) by (simp add: list_all_iff)
  ultimately show ?thesis
    using exclusive_group_conflicts_order [OF assms(3), of n groups] assms(3)
    by (cases "exclusive_group_conflicts n ex groups"; cases "exclusive_group_conflicts n ex' groups")
       (simp_all add: Custom conflict_platforms_def Let_def)
qed (use assms in \<open>auto simp: conflict_platforms_def get_mobile_devices_def filter_empty_conv\<close>)

section \<open>The contract of a relational strategy\<close>

text \<open>A strategy whose verdict is given by a symmetric relation on platforms: the
  platforms it asks to displace are exactly the related ones.  The device manager's
  exclusivity guarantee rests on nothing else.\<close>

locale relational_strategy =
  fixes strat :: device_conflict_strategy
    and excl :: "device_platform \<Rightarrow> device_platform \<Rightarrow> bool"
  assumes excl_sym: "excl p q \<Longrightarrow> excl q p"
    and displaces: "set (conflict_platforms strat n ex) = {q \<in> set ex. excl n q}"
begin

lemma admitted_iff: "conflict_platforms strat n ex = [] \<longleftrightarrow> (\<forall>q \<in> set ex. \<not> excl n q)"
proof -
  have "conflict_platforms strat n ex = [] \<longleftrightarrow> set (conflict_platforms strat n ex) = {}"
    by simp
  then show ?thesis unfolding displaces by auto
qed

lemma survivors_compatible:
  "q \<in> set ex \<Longrightarrow> q \<notin> set (conflict_platforms strat n ex) \<Longrightarrow> \<not> excl n q \<and> \<not> excl q n"
  using displaces excl_sym by blast

end

interpretation allow_all: relational_strategy AllowAll "\<lambda>_ _. False"
  by unfold_locales (auto simp: conflict_platforms_def)

interpretation mobile_exclusive: relational_strategy MobileExclusive mobile_excl
  by unfold_locales
    (auto simp: conflict_platforms_def mobile_excl_def get_mobile_devices_def filter_empty_conv)

interpretation platform_exclusive: relational_strategy PlatformExclusive "(=)"
  by unfold_locales (auto simp: conflict_platforms_def)

interpretation fully_exclusive: relational_strategy FullyExclusive "\<lambda>_ _. True"
  by unfold_locales (auto simp: conflict_platforms_def)

interpretation coexist: relational_strategy MobileAndPcCoexist coexist_excl
proof
  fix n ex
  show "set (conflict_platforms MobileAndPcCoexist n ex) = {q \<in> set ex. coexist_excl n q}"
    by (cases n)
       (auto simp: conflict_platforms_def coexist_excl_def get_mobile_devices_def
          filter_empty_conv mobile_not_desktop split: if_splits)
qed (auto simp: coexist_excl_def)

section \<open>Platform names\<close>

lemma platform_from_as_str_fixed:
  "p \<in> {Web, PC, H5, Android, IOS, HarmonyOS} \<Longrightarrow> platform_from_str (platform_as_str p) = p"
  by (auto simp: platform_from_str_def eq_ignore_ascii_case_def
      to_ascii_lowercase_def ascii_lower_def)

lemma platform_from_str_Other:
  "platform_from_str s = OtherPlatform t \<Longrightarrow> t = s"
  by (auto simp: platform_from_str_def split: if_splits)

lemma platform_from_str_cases:
  "platform_from_str s \<in> {Web, PC, H5, Android, IOS, HarmonyOS} \<or> platform_from_str s = OtherPlatform s"
  by (simp add: platform_from_str_def)

end
