(* ===== verification/DeviceManager.thy ===== *)
theory DeviceManager
  imports Device
begin

text \<open>
  The device registry of the server (\<open>src/src/server/device/manager.rs\<close>): devices are
  bucketed by owner (tenant and user), with a reverse index from connections to owners
  under the same lock.  Every method of the source holds that lock for its whole body,
  so each is one atomic transition of the registry.  The iteration order of a bucket is
  the order of its association list; no theorem depends on it.
\<close>

section \<open>State\<close>

record device_owner =
  owner_tenant :: string
  owner_user :: string

definition DEFAULT_TENANT_ID :: string where
  "DEFAULT_TENANT_ID = ''0''"

definition owner_new :: "string option \<Rightarrow> string \<Rightarrow> device_owner" where
  "owner_new tenant user =
     \<lparr>owner_tenant = unwrap_or DEFAULT_TENANT_ID (filter_option (\<lambda>t. trim t \<noteq> []) tenant),
      owner_user = user\<rparr>"

record user_device =
  ud_connection_id :: conn_id
  ud_device_info :: device_info

record device_registry =
  reg_devices :: "device_owner \<rightharpoonup> (conn_id, user_device) amap"
  reg_owners :: "conn_id \<rightharpoonup> device_owner"

record device_manager =
  dm_registry :: device_registry
  dm_strategy :: device_conflict_strategy

section \<open>Operations\<close>

definition registry_default :: device_registry where
  "registry_default = \<lparr>reg_devices = Map.empty, reg_owners = Map.empty\<rparr>"

definition device_manager_new :: "device_conflict_strategy \<Rightarrow> device_manager" where
  "device_manager_new s = \<lparr>dm_registry = registry_default, dm_strategy = s\<rparr>"

definition detach :: "device_owner \<Rightarrow> conn_id \<Rightarrow> device_registry \<Rightarrow> device_registry \<times> bool" where
  "detach ow c r =
     (case reg_devices r ow of
        None \<Rightarrow> (r, False)
      | Some ds \<Rightarrow>
          (let removed = (map_of ds c \<noteq> None);
               ds' = AList.delete c ds
           in (r\<lparr>reg_devices := (reg_devices r)(ow := if ds' = [] then None else Some ds')\<rparr>,
               removed)))"

definition add_device ::
  "device_owner \<Rightarrow> conn_id \<Rightarrow> device_info \<Rightarrow> device_manager \<Rightarrow> device_manager \<times> conn_id list" where
  "add_device ow cid info dm =
     (let r0 = dm_registry dm;
          r1 = (case reg_owners r0 cid of
                  Some previous \<Rightarrow> if previous \<noteq> ow then fst (detach previous cid r0) else r0
                | None \<Rightarrow> r0);
          user_devices = unwrap_or [] (reg_devices r1 ow);
          existing = remdups (map (\<lambda>(_, d). di_platform (ud_device_info d))
                       (filter (\<lambda>(c, _). c \<noteq> cid) user_devices));
          conflicts =
            (case check_conflict (dm_strategy dm) (di_platform info) existing of
               Inr _ \<Rightarrow> []
             | Inl cps \<Rightarrow>
                 map fst (filter (\<lambda>(c, d). c \<noteq> cid \<and> di_platform (ud_device_info d) \<in> set cps)
                            user_devices));
          user_devices1 = fold AList.delete conflicts user_devices;
          owners1 = fold (\<lambda>c m. m(c := None)) conflicts (reg_owners r1);
          user_devices2 =
            AList.update cid \<lparr>ud_connection_id = cid, ud_device_info = info\<rparr> user_devices1
      in (dm\<lparr>dm_registry :=
               \<lparr>reg_devices = (reg_devices r1)(ow \<mapsto> user_devices2),
                reg_owners = owners1(cid \<mapsto> ow)\<rparr>\<rparr>,
          conflicts))"

definition remove_device :: "device_owner \<Rightarrow> conn_id \<Rightarrow> device_manager \<Rightarrow> device_manager" where
  "remove_device ow c dm =
     (let r = dm_registry dm in
      if reg_owners r c = Some ow
      then dm\<lparr>dm_registry := fst (detach ow c (r\<lparr>reg_owners := (reg_owners r)(c := None)\<rparr>))\<rparr>
      else dm)"

definition dm_remove_connection :: "conn_id \<Rightarrow> device_manager \<Rightarrow> device_manager \<times> device_owner option" where
  "dm_remove_connection c dm =
     (let r = dm_registry dm in
      case reg_owners r c of
        None \<Rightarrow> (dm, None)
      | Some ow \<Rightarrow>
          (dm\<lparr>dm_registry := fst (detach ow c (r\<lparr>reg_owners := (reg_owners r)(c := None)\<rparr>))\<rparr>,
           Some ow))"

definition get_user_devices :: "device_owner \<Rightarrow> device_manager \<Rightarrow> device_info list" where
  "get_user_devices ow dm =
     (case reg_devices (dm_registry dm) ow of
        None \<Rightarrow> [] | Some ds \<Rightarrow> map (\<lambda>(_, d). ud_device_info d) ds)"

definition dm_get_user_connections :: "device_owner \<Rightarrow> device_manager \<Rightarrow> conn_id list" where
  "dm_get_user_connections ow dm =
     (case reg_devices (dm_registry dm) ow of None \<Rightarrow> [] | Some ds \<Rightarrow> map fst ds)"

definition get_device_connection :: "device_owner \<Rightarrow> string \<Rightarrow> device_manager \<Rightarrow> conn_id option" where
  "get_device_connection ow dev dm =
     (case reg_devices (dm_registry dm) ow of
        None \<Rightarrow> None
      | Some ds \<Rightarrow>
          map_option ud_connection_id
            (find (\<lambda>d. di_device_id (ud_device_info d) = dev) (map snd ds)))"

definition update_strategy :: "device_conflict_strategy \<Rightarrow> device_manager \<Rightarrow> device_manager" where
  "update_strategy s dm = dm\<lparr>dm_strategy := s\<rparr>"

section \<open>Invariant and abstraction\<close>

definition bucket :: "device_registry \<Rightarrow> device_owner \<Rightarrow> (conn_id, user_device) amap" where
  "bucket r ow = unwrap_or [] (reg_devices r ow)"

definition registry_inv :: "device_registry \<Rightarrow> bool" where
  "registry_inv r \<longleftrightarrow>
     (\<forall>ow. reg_devices r ow \<noteq> Some []) \<and>
     (\<forall>ow. distinct (map fst (bucket r ow))) \<and>
     (\<forall>ow c d. (c, d) \<in> set (bucket r ow) \<longrightarrow> ud_connection_id d = c) \<and>
     (\<forall>ow c. c \<in> fst ` set (bucket r ow) \<longleftrightarrow> reg_owners r c = Some ow)"

text \<open>What the registry means: the online connections with their owner and device.\<close>

definition online :: "device_registry \<Rightarrow> conn_id \<rightharpoonup> device_owner \<times> device_info" where
  "online r c =
     (case reg_owners r c of
        None \<Rightarrow> None
      | Some ow \<Rightarrow> map_option (\<lambda>d. (ow, ud_device_info d)) (map_of (bucket r ow) c))"

text \<open>The login the registry promises, on that meaning: the new connection is entered,
  and exactly the other connections of the same owner on a displaced platform leave.\<close>

definition other_platforms ::
  "(conn_id \<rightharpoonup> device_owner \<times> device_info) \<Rightarrow> device_owner \<Rightarrow> conn_id \<Rightarrow> device_platform set" where
  "other_platforms m ow cid = {di_platform i |c i. c \<noteq> cid \<and> m c = Some (ow, i)}"

definition login_spec ::
  "device_owner \<Rightarrow> conn_id \<Rightarrow> device_info \<Rightarrow> device_platform set \<Rightarrow>
   (conn_id \<rightharpoonup> device_owner \<times> device_info) \<Rightarrow> (conn_id \<rightharpoonup> device_owner \<times> device_info)" where
  "login_spec ow cid info displaced m c =
     (if c = cid then Some (ow, info)
      else case m c of
             Some (ow', i) \<Rightarrow> if ow' = ow \<and> di_platform i \<in> displaced then None else Some (ow', i)
           | None \<Rightarrow> None)"

lemma bucket_None [simp]: "reg_devices r ow = None \<Longrightarrow> bucket r ow = []"
  by (simp add: bucket_def)

lemma bucket_Some [simp]: "reg_devices r ow = Some ds \<Longrightarrow> bucket r ow = ds"
  by (simp add: bucket_def)

lemma bucket_upd: 
  "bucket (r\<lparr>reg_devices := (reg_devices r)(ow := x)\<rparr>) ow' = (if ow' = ow then unwrap_or [] x else bucket r ow')"
  "bucket \<lparr>reg_devices = (reg_devices r)(ow := x), reg_owners = os\<rparr> ow' =
     (if ow' = ow then unwrap_or [] x else bucket r ow')"
  "bucket (r\<lparr>reg_owners := os\<rparr>) ow' = bucket r ow'"
  by (simp_all add: bucket_def)

lemma detach_bucket:
  "bucket (fst (detach ow c r)) ow' = (if ow' = ow then AList.delete c (bucket r ow) else bucket r ow')"
  by (auto simp: detach_def Let_def bucket_upd split: option.splits)

lemma detach_owners [simp]: "reg_owners (fst (detach ow c r)) = reg_owners r"
  by (auto simp: detach_def Let_def split: option.splits)

lemma detach_nonempty:
  "(\<And>o'. reg_devices r o' \<noteq> Some []) \<Longrightarrow> reg_devices (fst (detach ow c r)) o' \<noteq> Some []"
  by (auto simp: detach_def Let_def split: option.splits if_splits)

lemma detach_removed_iff: "snd (detach ow c r) \<longleftrightarrow> c \<in> fst ` set (bucket r ow)"
  by (auto simp: detach_def Let_def map_of_eq_None_iff split: option.splits)

lemma registry_invD:
  assumes "registry_inv r"
  shows "reg_devices r ow \<noteq> Some []" "distinct (map fst (bucket r ow))"
    "(c, d) \<in> set (bucket r ow) \<Longrightarrow> ud_connection_id d = c"
    "c \<in> fst ` set (bucket r ow) \<longleftrightarrow> reg_owners r c = Some ow"
  using assms unfolding registry_inv_def by blast+

lemma registry_inv_default [simp, inv_intro]: "registry_inv registry_default"
  by (simp add: registry_inv_def registry_default_def bucket_def)

lemma online_iff:
  assumes "registry_inv r"
  shows "online r c = Some (ow, i) \<longleftrightarrow> (\<exists>d. (c, d) \<in> set (bucket r ow) \<and> ud_device_info d = i)"
proof -
  have own: "c \<in> fst ` set (bucket r ow) \<longleftrightarrow> reg_owners r c = Some ow" for ow
    using assms by (rule registry_invD)
  have entry: "map_of (bucket r ow) c = Some d \<longleftrightarrow> (c, d) \<in> set (bucket r ow)" for d
    using registry_invD(2) [OF assms] by simp
  have "online r c = Some (ow, i) \<longleftrightarrow>
          reg_owners r c = Some ow \<and> (\<exists>d. map_of (bucket r ow) c = Some d \<and> ud_device_info d = i)"
    by (auto simp: online_def split: option.splits)
  also have "\<dots> \<longleftrightarrow> (\<exists>d. (c, d) \<in> set (bucket r ow) \<and> ud_device_info d = i)"
    unfolding own [symmetric] entry by force
  finally show ?thesis .
qed

section \<open>The effect of the operations\<close>

lemma add_device_parts:
  assumes inv: "registry_inv (dm_registry dm)"
    and res: "add_device ow cid info dm = (dm', kicked)"
  defines "r \<equiv> dm_registry dm"
  defines "others \<equiv> filter (\<lambda>(c, _). c \<noteq> cid) (bucket r ow)"
  defines "ex \<equiv> remdups (map (\<lambda>(_, d). di_platform (ud_device_info d)) others)"
  defines "cps \<equiv> conflict_platforms (dm_strategy dm) (di_platform info) ex"
  shows "kicked = map fst (filter (\<lambda>(c, d). di_platform (ud_device_info d) \<in> set cps) others)"
    and "bucket (dm_registry dm') ow' =
           (if ow' = ow
            then AList.update cid \<lparr>ud_connection_id = cid, ud_device_info = info\<rparr>
                   (filter (\<lambda>p. fst p \<notin> set kicked) (bucket r ow))
            else AList.delete cid (bucket r ow'))"
    and "reg_owners (dm_registry dm') = (reg_owners r |` (- set kicked))(cid \<mapsto> ow)"
    and "reg_devices (dm_registry dm') ow' \<noteq> Some []"
    and "dm_strategy dm' = dm_strategy dm"
proof -
  define r1 where "r1 = (case reg_owners r cid of
       Some previous \<Rightarrow> if previous \<noteq> ow then fst (detach previous cid r) else r
     | None \<Rightarrow> r)"
  have notin: "cid \<notin> fst ` set (bucket r o')" if "reg_owners r cid \<noteq> Some o'" for o'
    using registry_invD(4) [OF inv] that by (auto simp: r_def)
  have r1: "bucket r1 o' = (if o' = ow then bucket r ow else AList.delete cid (bucket r o'))" for o'
    using notin [of o'] by (auto simp: r1_def detach_bucket delete_idem split: option.splits)
  have own1: "reg_owners r1 = reg_owners r"
    by (auto simp: r1_def split: option.splits)
  have ne1: "reg_devices r1 o' \<noteq> Some []" for o'
    using registry_invD(1) [OF inv] detach_nonempty [OF registry_invD(1) [OF inv]]
    by (auto simp: r1_def r_def split: option.splits)
  have bow: "unwrap_or [] (reg_devices r1 ow) = bucket r ow"
    using r1 [of ow] by (simp add: bucket_def)
  define K where "K = map fst (filter (\<lambda>(c, d). di_platform (ud_device_info d) \<in> set cps) others)"
  have K: "(case check_conflict (dm_strategy dm) (di_platform info) ex of
               Inr _ \<Rightarrow> []
             | Inl cps \<Rightarrow>
                 map fst (filter (\<lambda>(c, d). c \<noteq> cid \<and> di_platform (ud_device_info d) \<in> set cps)
                            (bucket r ow))) = K"
    by (auto simp: K_def cps_def conflict_platforms_def others_def case_prod_beta' conj_commute
             split: sum.splits)
  have eq: "add_device ow cid info dm =
     (dm\<lparr>dm_registry :=
        \<lparr>reg_devices = (reg_devices r1)(ow \<mapsto> AList.update cid
             \<lparr>ud_connection_id = cid, ud_device_info = info\<rparr>
             (filter (\<lambda>p. fst p \<notin> set K) (bucket r ow))),
         reg_owners = (reg_owners r |` (- set K))(cid \<mapsto> ow)\<rparr>\<rparr>, K)"
    unfolding add_device_def Let_def r_def [symmetric] r1_def [symmetric] bow own1
      fold_delete fold_map_remove ex_def [unfolded others_def, symmetric] K ..
  then show "kicked = map fst (filter (\<lambda>(c, d). di_platform (ud_device_info d) \<in> set cps) others)"
    using res by (simp add: K_def)
  then have "kicked = K" by (simp add: K_def)
  with eq res show "bucket (dm_registry dm') ow' =
           (if ow' = ow
            then AList.update cid \<lparr>ud_connection_id = cid, ud_device_info = info\<rparr>
                   (filter (\<lambda>p. fst p \<notin> set kicked) (bucket r ow))
            else AList.delete cid (bucket r ow'))"
    and "reg_owners (dm_registry dm') = (reg_owners r |` (- set kicked))(cid \<mapsto> ow)"
    and "reg_devices (dm_registry dm') ow' \<noteq> Some []"
    and "dm_strategy dm' = dm_strategy dm"
    using r1 [of ow'] ne1 [of ow'] by (auto simp: bucket_upd)
qed

lemma add_device_kicked:
  assumes inv: "registry_inv (dm_registry dm)"
    and res: "add_device ow cid info dm = (dm', kicked)"
    and ex: "distinct ex" "set ex = other_platforms (online (dm_registry dm)) ow cid"
  shows "distinct kicked"
    and "set kicked = {c. c \<noteq> cid \<and> (\<exists>i. online (dm_registry dm) c = Some (ow, i) \<and>
           di_platform i \<in> set (conflict_platforms (dm_strategy dm) (di_platform info) ex))}"
proof -
  let ?r = "dm_registry dm"
  let ?others = "filter (\<lambda>(c, _). c \<noteq> cid) (bucket ?r ow)"
  let ?ex = "remdups (map (\<lambda>(_, d). di_platform (ud_device_info d)) ?others)"
  have "set ?ex = set ex"
    unfolding ex(2) other_platforms_def online_iff [OF inv] by force
  then have cps: "set (conflict_platforms (dm_strategy dm) (di_platform info) ?ex) =
      set (conflict_platforms (dm_strategy dm) (di_platform info) ex)"
    using ex(1) by (intro conflict_platforms_order) auto
  note kicked = add_device_parts(1) [OF inv res]
  show "distinct kicked"
    unfolding kicked using registry_invD(2) [OF inv, of ow]
    by (simp add: distinct_map_filter)
  show "set kicked = {c. c \<noteq> cid \<and> (\<exists>i. online ?r c = Some (ow, i) \<and>
           di_platform i \<in> set (conflict_platforms (dm_strategy dm) (di_platform info) ex))}"
    unfolding kicked cps [symmetric] online_iff [OF inv] by force
qed

lemma add_device_kicked_owned:
  assumes "registry_inv (dm_registry dm)" "add_device ow cid info dm = (dm', kicked)" "c \<in> set kicked"
  shows "c \<noteq> cid \<and> c \<in> fst ` set (bucket (dm_registry dm) ow)"
  using add_device_parts(1) [OF assms(1,2)] assms(3) by force

lemma add_device_inv [inv_intro]:
  assumes inv: "registry_inv (dm_registry dm)"
    and res: "add_device ow cid info dm = (dm', kicked)"
  shows "registry_inv (dm_registry dm')"
proof -
  note parts = add_device_parts(2-4) [OF inv res]
  note old = registry_invD [OF inv]
  have "cid \<notin> set kicked"
    using add_device_kicked_owned [OF inv res] by blast
  then have own: "c \<in> fst ` set (bucket (dm_registry dm') o') \<longleftrightarrow> reg_owners (dm_registry dm') c = Some o'"
    for c o'
    unfolding parts(1,2)
    using old(4) [of c o'] old(4) [of c ow] add_device_kicked_owned [OF inv res, of c]
    by (auto simp: restrict_map_def fst_filter_set)
  have "distinct (map fst (bucket (dm_registry dm') o'))" for o'
    unfolding parts(1) using old(2)
    by (auto intro!: distinct_update simp: distinct_map_filter delete_eq_filter)
  moreover have "ud_connection_id d = c" if "(c, d) \<in> set (bucket (dm_registry dm') o')" for c d o'
    using that old(3) unfolding parts(1)
    by (auto simp: delete_eq_filter split: if_splits dest!: set_update_cases)
  ultimately show ?thesis
    unfolding registry_inv_def using own parts(3) by blast
qed

lemma drop_connection_bucket:
  "bucket (fst (detach ow c (r\<lparr>reg_owners := (reg_owners r)(c := None)\<rparr>))) ow' =
     (if ow' = ow then AList.delete c (bucket r ow) else bucket r ow')"
  by (simp add: detach_bucket bucket_upd)

lemma drop_connection_inv:
  assumes inv: "registry_inv r" and own: "reg_owners r c = Some ow"
  shows "registry_inv (fst (detach ow c (r\<lparr>reg_owners := (reg_owners r)(c := None)\<rparr>)))"
proof -
  note old = registry_invD [OF inv]
  let ?r = "r\<lparr>reg_owners := (reg_owners r)(c := None)\<rparr>"
  have "reg_devices (fst (detach ow c ?r)) o' \<noteq> Some []" for o'
    using old(1) by (intro detach_nonempty) simp
  moreover have "c' \<in> fst ` set (bucket (fst (detach ow c ?r)) o') \<longleftrightarrow>
      reg_owners (fst (detach ow c ?r)) c' = Some o'" for c' o'
    unfolding drop_connection_bucket using old(4) own by auto
  ultimately show ?thesis
    unfolding registry_inv_def drop_connection_bucket
    using old(2,3) by (auto simp: delete_eq_filter distinct_map_filter)
qed

lemma drop_connection_online:
  assumes inv: "registry_inv r" and own: "reg_owners r c = Some ow"
  shows "online (fst (detach ow c (r\<lparr>reg_owners := (reg_owners r)(c := None)\<rparr>))) = (online r)(c := None)"
    (is "online ?r' = _")
proof
  fix c'
  show "online ?r' c' = ((online r)(c := None)) c'"
    by (simp add: online_def drop_connection_bucket delete_conv'
             split: option.splits)
qed

lemma remove_device_inv [inv_intro]:
  "registry_inv (dm_registry dm) \<Longrightarrow> registry_inv (dm_registry (remove_device ow c dm))"
  by (simp add: remove_device_def Let_def drop_connection_inv)

lemma dm_remove_connection_inv [inv_intro]:
  "registry_inv (dm_registry dm) \<Longrightarrow> dm_remove_connection c dm = (dm', res) \<Longrightarrow>
   registry_inv (dm_registry dm')"
  by (auto simp: dm_remove_connection_def Let_def drop_connection_inv split: option.splits)

lemma remove_device_online:
  assumes "registry_inv (dm_registry dm)"
  shows "online (dm_registry (remove_device ow c dm)) =
     (if reg_owners (dm_registry dm) c = Some ow then (online (dm_registry dm))(c := None)
      else online (dm_registry dm))"
  using assms by (simp add: remove_device_def Let_def drop_connection_online)

lemma dm_remove_connection_online:
  assumes "registry_inv (dm_registry dm)" "dm_remove_connection c dm = (dm', res)"
  shows "online (dm_registry dm') = (online (dm_registry dm))(c := None)"
proof (cases "reg_owners (dm_registry dm) c")
  case None
  then show ?thesis
    using assms(2) by (auto simp: dm_remove_connection_def fun_eq_iff online_def)
next
  case (Some ow)
  then show ?thesis
    using assms drop_connection_online [OF assms(1) Some]
    by (auto simp: dm_remove_connection_def Let_def)
qed

lemma add_device_online:
  assumes inv: "registry_inv (dm_registry dm)"
    and res: "add_device ow cid info dm = (dm', kicked)"
    and ex: "distinct ex" "set ex = other_platforms (online (dm_registry dm)) ow cid"
  shows "online (dm_registry dm') =
     login_spec ow cid info (set (conflict_platforms (dm_strategy dm) (di_platform info) ex))
       (online (dm_registry dm))"
proof
  fix c
  let ?r = "dm_registry dm"
  note parts = add_device_parts(2,3) [OF inv res]
  note kicked = add_device_kicked [OF inv res ex]
  have other: "online (dm_registry dm') c = (if c \<in> set kicked then None else online ?r c)" if "c \<noteq> cid"
    using that
    by (auto simp: online_def parts update_conv' map_of_filter_notin delete_conv' restrict_map_def
             split: option.splits)
  show "online (dm_registry dm') c =
     login_spec ow cid info (set (conflict_platforms (dm_strategy dm) (di_platform info) ex)) (online ?r) c"
  proof (cases "c = cid")
    case True
    then show ?thesis by (simp add: login_spec_def online_def parts update_conv')
  next
    case False
    then show ?thesis
      by (auto simp: other kicked(2) login_spec_def split: option.splits)
  qed
qed

section \<open>Runs of the registry\<close>

inductive dm_reachable :: "device_conflict_strategy \<Rightarrow> device_manager \<Rightarrow> bool" for s where
  init: "dm_reachable s (device_manager_new s)"
| add: "dm_reachable s dm \<Longrightarrow> add_device ow c i dm = (dm', kicked) \<Longrightarrow> dm_reachable s dm'"
| remove: "dm_reachable s dm \<Longrightarrow> dm_reachable s (remove_device ow c dm)"
| disconnect: "dm_reachable s dm \<Longrightarrow> dm_remove_connection c dm = (dm', res) \<Longrightarrow> dm_reachable s dm'"

lemma dm_reachable_inv: "dm_reachable s dm \<Longrightarrow> registry_inv (dm_registry dm)"
proof (induction rule: dm_reachable.induct)
  case init
  then show ?case by (simp add: device_manager_new_def)
qed (auto intro: inv_intro)

lemma dm_reachable_strategy: "dm_reachable s dm \<Longrightarrow> dm_strategy dm = s"
proof (induction rule: dm_reachable.induct)
  case (add dm ow c i dm' kicked)
  then show ?case using add_device_parts(5) [OF dm_reachable_inv] by blast
qed (auto simp: device_manager_new_def remove_device_def dm_remove_connection_def Let_def
         split: option.splits)

definition pairwise_compatible ::
  "(device_platform \<Rightarrow> device_platform \<Rightarrow> bool) \<Rightarrow> (conn_id \<rightharpoonup> device_owner \<times> device_info) \<Rightarrow> bool" where
  "pairwise_compatible E m \<longleftrightarrow>
     (\<forall>ow c i c' i'. m c = Some (ow, i) \<longrightarrow> m c' = Some (ow, i') \<longrightarrow> c \<noteq> c' \<longrightarrow>
        \<not> E (di_platform i) (di_platform i'))"

lemma pairwise_compatible_remove:
  "pairwise_compatible E m \<Longrightarrow> pairwise_compatible E (m(c := None))"
  by (auto simp: pairwise_compatible_def)

lemma other_platforms_finite:
  assumes "registry_inv r"
  shows "finite (other_platforms (online r) ow cid)"
proof -
  have "other_platforms (online r) ow cid \<subseteq> (\<lambda>p. di_platform (ud_device_info (snd p))) ` set (bucket r ow)"
    by (force simp: other_platforms_def online_iff [OF assms])
  then show ?thesis by (rule finite_subset) simp
qed

context relational_strategy
begin

lemma login_spec_compatible:
  assumes "pairwise_compatible excl m" "set ex = other_platforms m ow cid"
  shows "pairwise_compatible excl
           (login_spec ow cid info (set (conflict_platforms strat (di_platform info) ex)) m)"
proof -
  have new: "\<not> excl (di_platform info) (di_platform i) \<and> \<not> excl (di_platform i) (di_platform info)"
    if "m c = Some (ow, i)" "c \<noteq> cid"
       "di_platform i \<notin> set (conflict_platforms strat (di_platform info) ex)" for c i
    using that assms(2) by (intro survivors_compatible) (auto simp: other_platforms_def)
  show ?thesis
    using assms(1) new
    unfolding pairwise_compatible_def login_spec_def
    by (auto split: option.splits if_splits)
qed

lemma reachable_compatible:
  "dm_reachable strat dm \<Longrightarrow> pairwise_compatible excl (online (dm_registry dm))"
proof (induction rule: dm_reachable.induct)
  case init
  show ?case
    by (simp add: pairwise_compatible_def device_manager_new_def registry_default_def online_def)
next
  case (add dm ow c i dm' kicked)
  then have inv: "registry_inv (dm_registry dm)" and st: "dm_strategy dm = strat"
    by (auto dest: dm_reachable_inv dm_reachable_strategy)
  obtain ex where "distinct ex" "set ex = other_platforms (online (dm_registry dm)) ow c"
    using finite_distinct_list [OF other_platforms_finite [OF inv]] by blast
  with add inv st show ?case
    by (simp add: add_device_online login_spec_compatible)
next
  case (remove dm ow c)
  then show ?case
    by (auto simp: remove_device_online dm_reachable_inv intro: pairwise_compatible_remove)
next
  case (disconnect dm c dm' res)
  then show ?case
    by (simp add: dm_remove_connection_online [OF dm_reachable_inv] pairwise_compatible_remove
             del: fun_upd_apply)
qed

end

fun excl_of :: "device_conflict_strategy \<Rightarrow> device_platform \<Rightarrow> device_platform \<Rightarrow> bool" where
  "excl_of AllowAll = (\<lambda>_ _. False)"
| "excl_of MobileExclusive = mobile_excl"
| "excl_of PlatformExclusive = (=)"
| "excl_of FullyExclusive = (\<lambda>_ _. True)"
| "excl_of MobileAndPcCoexist = coexist_excl"
| "excl_of (Custom a g) = (\<lambda>_ _. False)"

lemma relational_excl_of:
  assumes "s \<in> {AllowAll, MobileExclusive, PlatformExclusive, FullyExclusive, MobileAndPcCoexist}"
  shows "relational_strategy s (excl_of s)"
  using assms allow_all.relational_strategy_axioms mobile_exclusive.relational_strategy_axioms
    platform_exclusive.relational_strategy_axioms fully_exclusive.relational_strategy_axioms
    coexist.relational_strategy_axioms
  by auto

section \<open>Properties\<close>

definition ex_owner :: device_owner where
  "ex_owner = owner_new (Some ''t1'') ''u1''"

definition ex_manager :: "device_conflict_strategy \<Rightarrow> device_manager" where
  "ex_manager s = fst (add_device ex_owner ''c1'' (device_info_new ''d1'' Android) (device_manager_new s))"

lemma ex_manager_reachable: "dm_reachable s (ex_manager s)"
  unfolding ex_manager_def by (metis dm_reachable.add dm_reachable.init surjective_pairing)

text \<open>C1: A login refines its specification. On the meaning of the registry (which connection is
  online for which owner with which device), add_device enters the new connection, removes exactly
  the other connections of the same (tenant, user) whose platform the strategy displaces, keeps
  every other entry, and reports precisely the removed connections, each once.\<close>

theorem add_device_refines_login:
  assumes "registry_inv (dm_registry dm)"
    and "add_device ow cid info dm = (dm', kicked)"
    and "distinct ex" "set ex = other_platforms (online (dm_registry dm)) ow cid"
  shows "online (dm_registry dm') =
           login_spec ow cid info (set (conflict_platforms (dm_strategy dm) (di_platform info) ex))
             (online (dm_registry dm))
         \<and> distinct kicked
         \<and> set kicked = dom (online (dm_registry dm)) - dom (online (dm_registry dm'))"
proof -
  note on = add_device_online [OF assms] and k = add_device_kicked [OF assms]
  have "set kicked = dom (online (dm_registry dm)) - dom (online (dm_registry dm'))"
    unfolding on k(2) by (auto simp: login_spec_def dom_def split: option.splits if_splits)
  with on k(1) show ?thesis by blast
qed

theorem add_device_refines_login_witness:
  "set (snd (add_device ex_owner ''c2'' (device_info_new ''d2'' IOS) (ex_manager MobileExclusive))) = {''c1''}
   \<and> online (dm_registry (fst (add_device ex_owner ''c2'' (device_info_new ''d2'' IOS)
       (ex_manager MobileExclusive)))) ''c2'' = Some (ex_owner, device_info_new ''d2'' IOS)"
proof -
  let ?dm = "ex_manager MobileExclusive"
  have on: "online (dm_registry ?dm) = [''c1'' \<mapsto> (ex_owner, device_info_new ''d1'' Android)]"
    by (simp add: fun_eq_iff ex_manager_def add_device_def device_manager_new_def registry_default_def
        online_def bucket_def)
  have st: "dm_strategy ?dm = MobileExclusive"
    using ex_manager_reachable dm_reachable_strategy by blast
  have "set [Android] = other_platforms (online (dm_registry ?dm)) ex_owner ''c2''"
    by (auto simp: on other_platforms_def device_info_new_def split: if_splits)
  then show ?thesis
    using add_device_refines_login [of ?dm ex_owner "''c2''" "device_info_new ''d2'' IOS" _ _ "[Android]",
        OF dm_reachable_inv [OF ex_manager_reachable] surjective_pairing]
    by (auto simp: on st login_spec_def conflict_platforms_def get_mobile_devices_def device_info_new_def
        dom_def split: if_splits)
qed

text \<open>C2: In every state a run of the registry reaches, the bucket table and the reverse index
  agree: a connection is in an owner's bucket exactly when the index names that owner, no bucket is
  empty, no connection is listed twice, and every entry carries its own connection id.\<close>

theorem device_registry_consistent:
  assumes "dm_reachable s dm"
  shows "registry_inv (dm_registry dm)"
  using assms by (rule dm_reachable_inv)

theorem device_registry_consistent_witness: "registry_inv (dm_registry (ex_manager FullyExclusive))"
  by (rule device_registry_consistent [OF ex_manager_reachable])

text \<open>C3: Under each fixed strategy, two different online connections of one (tenant, user) never
  have mutually exclusive platforms: at most one mobile device (MobileExclusive), one device per
  platform (PlatformExclusive), one device (FullyExclusive), one mobile and one desktop device
  (MobileAndPcCoexist), after any sequence of logins, removals and disconnects.\<close>

theorem strategy_exclusivity:
  assumes "s \<in> {AllowAll, MobileExclusive, PlatformExclusive, FullyExclusive, MobileAndPcCoexist}"
    and "dm_reachable s dm"
    and "online (dm_registry dm) c = Some (ow, i)" "online (dm_registry dm) c' = Some (ow, i')" "c \<noteq> c'"
  shows "\<not> excl_of s (di_platform i) (di_platform i')"
  using relational_strategy.reachable_compatible [OF relational_excl_of [OF assms(1)] assms(2)] assms(3-5)
  unfolding pairwise_compatible_def by blast

definition ex_two_devices :: device_manager where
  "ex_two_devices = fst (add_device ex_owner ''c2'' (device_info_new ''d2'' PC) (ex_manager MobileAndPcCoexist))"

theorem strategy_exclusivity_witness:
  "\<not> excl_of MobileAndPcCoexist Android PC"
proof -
  have reach: "dm_reachable MobileAndPcCoexist ex_two_devices"
    unfolding ex_two_devices_def
    by (metis dm_reachable.add ex_manager_reachable surjective_pairing)
  have "online (dm_registry ex_two_devices) ''c1'' = Some (ex_owner, device_info_new ''d1'' Android)"
       "online (dm_registry ex_two_devices) ''c2'' = Some (ex_owner, device_info_new ''d2'' PC)"
    by (simp_all add: ex_two_devices_def ex_manager_def add_device_def device_manager_new_def
        registry_default_def online_def bucket_def get_mobile_devices_def device_info_new_def)
  from strategy_exclusivity [OF _ reach this] show ?thesis
    by (simp add: device_info_new_def)
qed

text \<open>Tenant isolation of a login: every displaced connection belonged to the same (tenant,
  user) and is not the new connection, and for every other owner the devices and connections
  reported are unchanged except that the new connection itself no longer counts as theirs.\<close>

theorem add_device_isolation:
  assumes "registry_inv (dm_registry dm)"
    and "add_device ow cid info dm = (dm', kicked)"
  shows "set kicked \<subseteq> set (dm_get_user_connections ow dm) - {cid}
         \<and> (\<forall>ow'. ow' \<noteq> ow \<longrightarrow>
              dm_get_user_connections ow' dm' = removeAll cid (dm_get_user_connections ow' dm)
            \<and> (cid \<notin> set (dm_get_user_connections ow' dm) \<longrightarrow>
                 get_user_devices ow' dm' = get_user_devices ow' dm))"
proof -
  have conns: "dm_get_user_connections o' m = map fst (bucket (dm_registry m) o')" for o' m
    by (simp add: dm_get_user_connections_def bucket_def unwrap_or_def split: option.splits)
  have devs: "get_user_devices o' m = map (\<lambda>(_, d). ud_device_info d) (bucket (dm_registry m) o')" for o' m
    by (simp add: get_user_devices_def bucket_def unwrap_or_def split: option.splits)
  have del: "map fst (AList.delete cid al) = removeAll cid (map fst al)" for al :: "(conn_id, user_device) amap"
    by (induction al) auto
  show ?thesis
    unfolding conns devs add_device_parts(2) [OF assms]
    using add_device_kicked_owned [OF assms] by (auto simp: del delete_idem)
qed

theorem add_device_isolation_witness:
  "set (snd (add_device (owner_new (Some ''t2'') ''u1'') ''c9'' (device_info_new ''d9'' Android)
       (ex_manager FullyExclusive))) \<subseteq> {}
   \<and> dm_get_user_connections ex_owner (fst (add_device (owner_new (Some ''t2'') ''u1'') ''c9''
       (device_info_new ''d9'' Android) (ex_manager FullyExclusive))) = [''c1'']"
proof -
  let ?ow = "owner_new (Some ''t2'') ''u1''"
  have trims: "trim ''t1'' = ''t1''" "trim ''t2'' = ''t2''"
    by code_simp+
  then have ne: "ex_owner \<noteq> ?ow" by (simp add: ex_owner_def owner_new_def)
  have c: "dm_get_user_connections ex_owner (ex_manager FullyExclusive) = [''c1'']"
    "dm_get_user_connections ?ow (ex_manager FullyExclusive) = []"
    using ne by (simp_all add: ex_manager_def add_device_def device_manager_new_def registry_default_def
        dm_get_user_connections_def)
  show ?thesis
    using add_device_isolation [of "ex_manager FullyExclusive" ?ow "''c9''",
        OF dm_reachable_inv [OF ex_manager_reachable] surjective_pairing] ne
    by (auto simp: c)
qed

text \<open>A custom strategy with overlapping exclusive groups does not keep its groups exclusive:
  with the groups {Android, PC} and {Android, Web} and Web together with PC allowed, logging in PC,
  Web and then Android displaces only the PC device, leaving Android and Web of the second group
  online together.\<close>

theorem custom_groups_not_exclusive:
  "\<exists>dm i i'. dm_reachable (Custom [[Web, PC]] [[Android, PC], [Android, Web]]) dm
      \<and> online (dm_registry dm) ''web'' = Some (ex_owner, i) \<and> di_platform i = Web
      \<and> online (dm_registry dm) ''phone'' = Some (ex_owner, i') \<and> di_platform i' = Android"
proof -
  let ?s = "Custom [[Web, PC]] [[Android, PC], [Android, Web]]"
  let ?d1 = "fst (add_device ex_owner ''pc'' (device_info_new ''d1'' PC) (device_manager_new ?s))"
  let ?d2 = "fst (add_device ex_owner ''web'' (device_info_new ''d2'' Web) ?d1)"
  let ?d3 = "fst (add_device ex_owner ''phone'' (device_info_new ''d3'' Android) ?d2)"
  have "dm_reachable ?s ?d3"
    by (metis dm_reachable.add dm_reachable.init surjective_pairing)
  moreover have "online (dm_registry ?d3) ''web'' = Some (ex_owner, device_info_new ''d2'' Web)"
    "online (dm_registry ?d3) ''phone'' = Some (ex_owner, device_info_new ''d3'' Android)"
    by (simp_all add: add_device_def Let_def device_manager_new_def registry_default_def online_def
        bucket_def device_info_new_def)
  ultimately show ?thesis by (intro exI conjI) (auto simp: device_info_new_def)
qed

end
