(* ===== verification/Protocol.thy ===== *)
theory Protocol
  imports Errors
begin

text \<open>
  Frames and commands on the wire (\<open>src/src/common/protocol/flare.core.rs\<close>,
  \<open>flare.core.commands.rs\<close>) and their builders (\<open>builder.rs\<close>).  Enumeration fields of
  the messages are \<open>i32\<close> values that need not be a member of the enumeration, so they
  are kept as integers beside the enumerations themselves.  Message ids combine the
  wall clock with a process-wide \<open>u64\<close> counter, passed explicitly as a \<open>stamp\<close>.
\<close>

section \<open>Enumerations\<close>

datatype system_type =
  SysUnspecified
  | SysConnect
  | SysConnectAck
  | SysClose
  | SysPing
  | SysPong
  | SysError
  | SysEvent
  | SysAuth
  | SysAuthAck
  | SysKicked
  | SysNegotiationReady

primrec system_type_as_i32 :: "system_type \<Rightarrow> int" where
  "system_type_as_i32 SysUnspecified = 0"
| "system_type_as_i32 SysConnect = 1"
| "system_type_as_i32 SysConnectAck = 2"
| "system_type_as_i32 SysClose = 3"
| "system_type_as_i32 SysPing = 4"
| "system_type_as_i32 SysPong = 5"
| "system_type_as_i32 SysError = 6"
| "system_type_as_i32 SysEvent = 7"
| "system_type_as_i32 SysAuth = 8"
| "system_type_as_i32 SysAuthAck = 9"
| "system_type_as_i32 SysKicked = 10"
| "system_type_as_i32 SysNegotiationReady = 11"

definition system_type_from_i32 :: "int \<Rightarrow> system_type option" where
  "system_type_from_i32 n =
    (if n = 0 then Some SysUnspecified
     else if n = 1 then Some SysConnect
     else if n = 2 then Some SysConnectAck
     else if n = 3 then Some SysClose
     else if n = 4 then Some SysPing
     else if n = 5 then Some SysPong
     else if n = 6 then Some SysError
     else if n = 7 then Some SysEvent
     else if n = 8 then Some SysAuth
     else if n = 9 then Some SysAuthAck
     else if n = 10 then Some SysKicked
     else if n = 11 then Some SysNegotiationReady
     else None)"

primrec system_type_as_str_name :: "system_type \<Rightarrow> string" where
  "system_type_as_str_name SysUnspecified = ''UNSPECIFIED''"
| "system_type_as_str_name SysConnect = ''CONNECT''"
| "system_type_as_str_name SysConnectAck = ''CONNECT_ACK''"
| "system_type_as_str_name SysClose = ''CLOSE''"
| "system_type_as_str_name SysPing = ''PING''"
| "system_type_as_str_name SysPong = ''PONG''"
| "system_type_as_str_name SysError = ''ERROR''"
| "system_type_as_str_name SysEvent = ''EVENT''"
| "system_type_as_str_name SysAuth = ''AUTH''"
| "system_type_as_str_name SysAuthAck = ''AUTH_ACK''"
| "system_type_as_str_name SysKicked = ''KICKED''"
| "system_type_as_str_name SysNegotiationReady = ''NEGOTIATION_READY''"

definition system_type_from_str_name :: "string \<Rightarrow> system_type option" where
  "system_type_from_str_name s =
    (if s = ''UNSPECIFIED'' then Some SysUnspecified
     else if s = ''CONNECT'' then Some SysConnect
     else if s = ''CONNECT_ACK'' then Some SysConnectAck
     else if s = ''CLOSE'' then Some SysClose
     else if s = ''PING'' then Some SysPing
     else if s = ''PONG'' then Some SysPong
     else if s = ''ERROR'' then Some SysError
     else if s = ''EVENT'' then Some SysEvent
     else if s = ''AUTH'' then Some SysAuth
     else if s = ''AUTH_ACK'' then Some SysAuthAck
     else if s = ''KICKED'' then Some SysKicked
     else if s = ''NEGOTIATION_READY'' then Some SysNegotiationReady
     else None)"

datatype payload_type =
  PayUnspecified
  | PayMessage
  | PayEvent
  | PayAck
  | PayData

primrec payload_type_as_i32 :: "payload_type \<Rightarrow> int" where
  "payload_type_as_i32 PayUnspecified = 0"
| "payload_type_as_i32 PayMessage = 1"
| "payload_type_as_i32 PayEvent = 2"
| "payload_type_as_i32 PayAck = 3"
| "payload_type_as_i32 PayData = 4"

definition payload_type_from_i32 :: "int \<Rightarrow> payload_type option" where
  "payload_type_from_i32 n =
    (if n = 0 then Some PayUnspecified
     else if n = 1 then Some PayMessage
     else if n = 2 then Some PayEvent
     else if n = 3 then Some PayAck
     else if n = 4 then Some PayData
     else None)"

primrec payload_type_as_str_name :: "payload_type \<Rightarrow> string" where
  "payload_type_as_str_name PayUnspecified = ''UNSPECIFIED''"
| "payload_type_as_str_name PayMessage = ''MESSAGE''"
| "payload_type_as_str_name PayEvent = ''EVENT''"
| "payload_type_as_str_name PayAck = ''ACK''"
| "payload_type_as_str_name PayData = ''DATA''"

definition payload_type_from_str_name :: "string \<Rightarrow> payload_type option" where
  "payload_type_from_str_name s =
    (if s = ''UNSPECIFIED'' then Some PayUnspecified
     else if s = ''MESSAGE'' then Some PayMessage
     else if s = ''EVENT'' then Some PayEvent
     else if s = ''ACK'' then Some PayAck
     else if s = ''DATA'' then Some PayData
     else None)"

datatype notification_type =
  NtfSystem
  | NtfBroadcast
  | NtfAlert
  | NtfUser
  | NtfConnection

primrec notification_type_as_i32 :: "notification_type \<Rightarrow> int" where
  "notification_type_as_i32 NtfSystem = 0"
| "notification_type_as_i32 NtfBroadcast = 1"
| "notification_type_as_i32 NtfAlert = 2"
| "notification_type_as_i32 NtfUser = 3"
| "notification_type_as_i32 NtfConnection = 4"

definition notification_type_from_i32 :: "int \<Rightarrow> notification_type option" where
  "notification_type_from_i32 n =
    (if n = 0 then Some NtfSystem
     else if n = 1 then Some NtfBroadcast
     else if n = 2 then Some NtfAlert
     else if n = 3 then Some NtfUser
     else if n = 4 then Some NtfConnection
     else None)"

primrec notification_type_as_str_name :: "notification_type \<Rightarrow> string" where
  "notification_type_as_str_name NtfSystem = ''SYSTEM''"
| "notification_type_as_str_name NtfBroadcast = ''BROADCAST''"
| "notification_type_as_str_name NtfAlert = ''ALERT''"
| "notification_type_as_str_name NtfUser = ''USER''"
| "notification_type_as_str_name NtfConnection = ''CONNECTION''"

definition notification_type_from_str_name :: "string \<Rightarrow> notification_type option" where
  "notification_type_from_str_name s =
    (if s = ''SYSTEM'' then Some NtfSystem
     else if s = ''BROADCAST'' then Some NtfBroadcast
     else if s = ''ALERT'' then Some NtfAlert
     else if s = ''USER'' then Some NtfUser
     else if s = ''CONNECTION'' then Some NtfConnection
     else None)"

datatype reliability =
  BestEffort
  | AtLeastOnce
  | ExactlyOnce
  | Ordered

primrec reliability_as_i32 :: "reliability \<Rightarrow> int" where
  "reliability_as_i32 BestEffort = 0"
| "reliability_as_i32 AtLeastOnce = 1"
| "reliability_as_i32 ExactlyOnce = 2"
| "reliability_as_i32 Ordered = 3"

definition reliability_from_i32 :: "int \<Rightarrow> reliability option" where
  "reliability_from_i32 n =
    (if n = 0 then Some BestEffort
     else if n = 1 then Some AtLeastOnce
     else if n = 2 then Some ExactlyOnce
     else if n = 3 then Some Ordered
     else None)"

primrec reliability_as_str_name :: "reliability \<Rightarrow> string" where
  "reliability_as_str_name BestEffort = ''BEST_EFFORT''"
| "reliability_as_str_name AtLeastOnce = ''AT_LEAST_ONCE''"
| "reliability_as_str_name ExactlyOnce = ''EXACTLY_ONCE''"
| "reliability_as_str_name Ordered = ''ORDERED''"

definition reliability_from_str_name :: "string \<Rightarrow> reliability option" where
  "reliability_from_str_name s =
    (if s = ''BEST_EFFORT'' then Some BestEffort
     else if s = ''AT_LEAST_ONCE'' then Some AtLeastOnce
     else if s = ''EXACTLY_ONCE'' then Some ExactlyOnce
     else if s = ''ORDERED'' then Some Ordered
     else None)"

datatype serialization_format =
  Protobuf
  | Json

primrec serialization_format_as_i32 :: "serialization_format \<Rightarrow> int" where
  "serialization_format_as_i32 Protobuf = 0"
| "serialization_format_as_i32 Json = 1"

definition serialization_format_from_i32 :: "int \<Rightarrow> serialization_format option" where
  "serialization_format_from_i32 n =
    (if n = 0 then Some Protobuf
     else if n = 1 then Some Json
     else None)"

primrec serialization_format_as_str_name :: "serialization_format \<Rightarrow> string" where
  "serialization_format_as_str_name Protobuf = ''PROTOBUF''"
| "serialization_format_as_str_name Json = ''JSON''"

definition serialization_format_from_str_name :: "string \<Rightarrow> serialization_format option" where
  "serialization_format_from_str_name s =
    (if s = ''PROTOBUF'' then Some Protobuf
     else if s = ''JSON'' then Some Json
     else None)"

section \<open>Messages\<close>

type_synonym meta = "(string, bytes) amap"

record system_command =
  sc_type :: int
  sc_format :: int
  sc_message :: string
  sc_metadata :: meta
  sc_data :: bytes
  sc_compression :: string
  sc_encryption :: string

record payload_command =
  pc_type :: int
  pc_message_id :: string
  pc_payload :: bytes
  pc_metadata :: meta
  pc_seq :: "64 word"

record notification_command =
  nc_type :: int
  nc_title :: string
  nc_content :: bytes
  nc_metadata :: meta

record custom_command =
  cc_name :: string
  cc_data :: bytes
  cc_metadata :: meta

datatype command_type =
  CmdSystem system_command
  | CmdPayload payload_command
  | CmdNotification notification_command
  | CmdCustom custom_command

record command =
  cmd_type :: "command_type option"

record frame =
  fr_command :: "command option"
  fr_message_id :: string
  fr_reliability :: int
  fr_timestamp :: "64 word"
  fr_metadata :: meta

section \<open>Message ids\<close>

text \<open>The environment of one construction: the clock as read for the message id and for the
  timestamp, and the value of the counter.\<close>

record stamp =
  st_id_ms :: "64 word"
  st_ts_ms :: "64 word"
  st_counter :: "64 word"

definition generate_message_id :: "stamp \<Rightarrow> string \<times> stamp" where
  "generate_message_id st =
     (dec_str (unat (st_id_ms st)) @ ''-'' @ hex_fixed 16 (unat (st_counter st)),
      st\<lparr>st_counter := st_counter st + 1\<rparr>)"

definition current_timestamp :: "stamp \<Rightarrow> 64 word" where
  "current_timestamp st = st_ts_ms st"

section \<open>Command builders\<close>

definition create_base_system_command :: "system_type \<Rightarrow> serialization_format \<Rightarrow> system_command" where
  "create_base_system_command t f =
     \<lparr>sc_type = system_type_as_i32 t, sc_format = serialization_format_as_i32 f, sc_message = [],
      sc_metadata = [], sc_data = [], sc_compression = [], sc_encryption = []\<rparr>"

definition create_system_command_with_message ::
  "system_type \<Rightarrow> serialization_format \<Rightarrow> string \<Rightarrow> meta option \<Rightarrow> system_command" where
  "create_system_command_with_message t f m md =
     \<lparr>sc_type = system_type_as_i32 t, sc_format = serialization_format_as_i32 f, sc_message = m,
      sc_metadata = unwrap_or [] md, sc_data = [], sc_compression = [], sc_encryption = []\<rparr>"

definition create_system_command_with_data ::
  "system_type \<Rightarrow> serialization_format \<Rightarrow> string \<Rightarrow> meta option \<Rightarrow> bytes option \<Rightarrow> system_command" where
  "create_system_command_with_data t f m md d =
     \<lparr>sc_type = system_type_as_i32 t, sc_format = serialization_format_as_i32 f, sc_message = m,
      sc_metadata = unwrap_or [] md, sc_data = unwrap_or [] d, sc_compression = [],
      sc_encryption = []\<rparr>"

definition ping :: system_command where
  "ping = create_base_system_command SysPing Protobuf"

definition pong :: system_command where
  "pong = create_base_system_command SysPong Protobuf"

definition connect :: "serialization_format \<Rightarrow> meta \<Rightarrow> system_command" where
  "connect f md =
     \<lparr>sc_type = system_type_as_i32 SysConnect, sc_format = serialization_format_as_i32 f,
      sc_message = [], sc_metadata = md, sc_data = [], sc_compression = [], sc_encryption = []\<rparr>"

definition connect_ack ::
  "serialization_format \<Rightarrow> string option \<Rightarrow> string option \<Rightarrow> meta \<Rightarrow> system_command" where
  "connect_ack f compression encryption md =
     \<lparr>sc_type = system_type_as_i32 SysConnectAck, sc_format = serialization_format_as_i32 f,
      sc_message = [], sc_metadata = md, sc_data = [],
      sc_compression = unwrap_or ''none'' compression,
      sc_encryption = unwrap_or ''none'' encryption\<rparr>"

definition close :: "string option \<Rightarrow> meta option \<Rightarrow> system_command" where
  "close m md = create_system_command_with_message SysClose Protobuf (unwrap_or [] m) md"

definition error_command :: "string \<Rightarrow> meta option \<Rightarrow> system_command" where
  "error_command m md = create_system_command_with_message SysError Protobuf m md"

definition event_command :: "string \<Rightarrow> meta option \<Rightarrow> bytes option \<Rightarrow> system_command" where
  "event_command m md d = create_system_command_with_data SysEvent Protobuf m md d"

definition auth_command :: "meta \<Rightarrow> bytes option \<Rightarrow> system_command" where
  "auth_command md d =
     \<lparr>sc_type = system_type_as_i32 SysAuth, sc_format = serialization_format_as_i32 Protobuf,
      sc_message = [], sc_metadata = md, sc_data = unwrap_or [] d, sc_compression = [],
      sc_encryption = []\<rparr>"

definition auth_ack :: "string option \<Rightarrow> meta option \<Rightarrow> system_command" where
  "auth_ack m md = create_system_command_with_message SysAuthAck Protobuf (unwrap_or [] m) md"

definition kicked :: "string \<Rightarrow> meta option \<Rightarrow> system_command" where
  "kicked reason md = create_system_command_with_message SysKicked Protobuf reason md"

definition create_payload_command ::
  "payload_type \<Rightarrow> string \<Rightarrow> bytes \<Rightarrow> meta option \<Rightarrow> 64 word option \<Rightarrow> payload_command" where
  "create_payload_command t i p md seq =
     \<lparr>pc_type = payload_type_as_i32 t, pc_message_id = i, pc_payload = p,
      pc_metadata = unwrap_or [] md, pc_seq = unwrap_or 0 seq\<rparr>"

definition send_message ::
  "string \<Rightarrow> bytes \<Rightarrow> meta option \<Rightarrow> 64 word option \<Rightarrow> payload_command" where
  "send_message i p md seq = create_payload_command PayMessage i p md seq"

definition event_message ::
  "string \<Rightarrow> bytes \<Rightarrow> meta option \<Rightarrow> 64 word option \<Rightarrow> payload_command" where
  "event_message i p md seq = create_payload_command PayEvent i p md seq"

definition ack_message :: "string \<Rightarrow> meta option \<Rightarrow> payload_command" where
  "ack_message i md =
     \<lparr>pc_type = payload_type_as_i32 PayAck, pc_message_id = i, pc_payload = [],
      pc_metadata = unwrap_or [] md, pc_seq = 0\<rparr>"

definition data_message ::
  "string \<Rightarrow> bytes \<Rightarrow> meta option \<Rightarrow> 64 word option \<Rightarrow> payload_command" where
  "data_message i p md seq = create_payload_command PayData i p md seq"

definition notification ::
  "notification_type \<Rightarrow> string \<Rightarrow> bytes \<Rightarrow> meta option \<Rightarrow> notification_command" where
  "notification t title content md =
     \<lparr>nc_type = notification_type_as_i32 t, nc_title = title, nc_content = content,
      nc_metadata = unwrap_or [] md\<rparr>"

definition custom_command_new :: "string \<Rightarrow> bytes \<Rightarrow> meta option \<Rightarrow> custom_command" where
  "custom_command_new n d md = \<lparr>cc_name = n, cc_data = d, cc_metadata = unwrap_or [] md\<rparr>"

section \<open>The frame builder\<close>

record frame_builder =
  fb_command :: "command option"
  fb_message_id :: "string option"
  fb_reliability :: reliability
  fb_timestamp :: "64 word option"
  fb_metadata :: meta

definition frame_builder_new :: frame_builder where
  "frame_builder_new =
     \<lparr>fb_command = None, fb_message_id = None, fb_reliability = BestEffort, fb_timestamp = None,
      fb_metadata = []\<rparr>"

definition fb_with_command :: "command \<Rightarrow> frame_builder \<Rightarrow> frame_builder" where
  "fb_with_command c b = b\<lparr>fb_command := Some c\<rparr>"

definition fb_with_message_id :: "string \<Rightarrow> frame_builder \<Rightarrow> frame_builder" where
  "fb_with_message_id i b = b\<lparr>fb_message_id := Some i\<rparr>"

definition fb_with_reliability :: "reliability \<Rightarrow> frame_builder \<Rightarrow> frame_builder" where
  "fb_with_reliability r b = b\<lparr>fb_reliability := r\<rparr>"

definition fb_with_timestamp :: "64 word \<Rightarrow> frame_builder \<Rightarrow> frame_builder" where
  "fb_with_timestamp t b = b\<lparr>fb_timestamp := Some t\<rparr>"

definition fb_with_metadata :: "string \<Rightarrow> bytes \<Rightarrow> frame_builder \<Rightarrow> frame_builder" where
  "fb_with_metadata k v b = b\<lparr>fb_metadata := AList.update k v (fb_metadata b)\<rparr>"

definition frame_build :: "frame_builder \<Rightarrow> stamp \<Rightarrow> frame \<times> stamp" where
  "frame_build b st =
     (let (i, st') = (case fb_message_id b of Some i \<Rightarrow> (i, st) | None \<Rightarrow> generate_message_id st)
      in (\<lparr>fr_command = fb_command b, fr_message_id = i,
           fr_reliability = reliability_as_i32 (fb_reliability b),
           fr_timestamp = (case fb_timestamp b of Some t \<Rightarrow> t | None \<Rightarrow> current_timestamp st'),
           fr_metadata = fb_metadata b\<rparr>, st'))"

definition create_frame_with_command :: "command_type \<Rightarrow> reliability \<Rightarrow> stamp \<Rightarrow> frame \<times> stamp" where
  "create_frame_with_command t r st =
     frame_build (fb_with_reliability r (fb_with_command \<lparr>cmd_type = Some t\<rparr> frame_builder_new)) st"

definition frame_with_system_command :: "system_command \<Rightarrow> reliability \<Rightarrow> stamp \<Rightarrow> frame \<times> stamp" where
  "frame_with_system_command c r st = create_frame_with_command (CmdSystem c) r st"

definition frame_with_payload_command :: "payload_command \<Rightarrow> reliability \<Rightarrow> stamp \<Rightarrow> frame \<times> stamp" where
  "frame_with_payload_command p r st =
     (let (p', st') =
            (if pc_message_id p = []
             then (let (i, st1) = generate_message_id st in (p\<lparr>pc_message_id := i\<rparr>, st1))
             else (p, st))
      in frame_build
           (fb_with_reliability r
             (fb_with_message_id (pc_message_id p')
               (fb_with_command \<lparr>cmd_type = Some (CmdPayload p')\<rparr> frame_builder_new))) st')"

definition frame_with_notification_command ::
  "notification_command \<Rightarrow> reliability \<Rightarrow> stamp \<Rightarrow> frame \<times> stamp" where
  "frame_with_notification_command c r st = create_frame_with_command (CmdNotification c) r st"

definition frame_with_custom_command :: "custom_command \<Rightarrow> reliability \<Rightarrow> stamp \<Rightarrow> frame \<times> stamp" where
  "frame_with_custom_command c r st = create_frame_with_command (CmdCustom c) r st"

section \<open>Reading frames\<close>

text \<open>The \<open>command\<close> of a frame and the system command in it, where there is one (the
  nested \<open>if let\<close> chains of the handlers).\<close>

definition frame_command_type :: "frame \<Rightarrow> command_type option" where
  "frame_command_type f = Option.bind (fr_command f) cmd_type"

definition frame_system_command :: "frame \<Rightarrow> system_command option" where
  "frame_system_command f =
     (case frame_command_type f of Some (CmdSystem c) \<Rightarrow> Some c | _ \<Rightarrow> None)"

section \<open>Facts\<close>

lemma system_type_i32_roundtrip [simp]: "system_type_from_i32 (system_type_as_i32 t) = Some t"
  by (cases t) (simp_all add: system_type_from_i32_def)

lemma system_type_from_i32_SomeD: "system_type_from_i32 n = Some t \<Longrightarrow> n = system_type_as_i32 t"
  by (auto simp: system_type_from_i32_def split: if_splits)

lemma system_type_as_i32_inj [simp]: "system_type_as_i32 a = system_type_as_i32 b \<longleftrightarrow> a = b"
  by (metis option.inject system_type_i32_roundtrip)

lemma payload_type_i32_roundtrip [simp]: "payload_type_from_i32 (payload_type_as_i32 t) = Some t"
  by (cases t) (simp_all add: payload_type_from_i32_def)

lemma notification_type_i32_roundtrip [simp]:
  "notification_type_from_i32 (notification_type_as_i32 t) = Some t"
  by (cases t) (simp_all add: notification_type_from_i32_def)

lemma serialization_format_i32_roundtrip [simp]:
  "serialization_format_from_i32 (serialization_format_as_i32 t) = Some t"
  by (cases t) (simp_all add: serialization_format_from_i32_def)

lemma frame_with_system_command_cmd [simp]:
  "frame_system_command (fst (frame_with_system_command c r st)) = Some c"
  by (simp add: frame_with_system_command_def create_frame_with_command_def frame_build_def
      frame_builder_new_def fb_with_reliability_def fb_with_command_def frame_system_command_def
      frame_command_type_def generate_message_id_def Let_def)

lemma generate_message_id_counter:
  assumes "fst (generate_message_id a) = fst (generate_message_id b)"
  shows "st_counter a = st_counter b"
proof -
  have len: "length (hex_fixed 16 (unat (st_counter a))) = length (hex_fixed 16 (unat (st_counter b)))"
    by simp
  have "(dec_str (unat (st_id_ms a)) @ ''-'') @ hex_fixed 16 (unat (st_counter a)) =
        (dec_str (unat (st_id_ms b)) @ ''-'') @ hex_fixed 16 (unat (st_counter b))"
    using assms by (simp add: generate_message_id_def)
  then have "hex_fixed 16 (unat (st_counter a)) = hex_fixed 16 (unat (st_counter b))"
    unfolding append_eq_append_conv [OF disjI2 [OF len]] by blast
  moreover have "unat (st_counter a) < 16 ^ 16" "unat (st_counter b) < 16 ^ 16"
    using unsigned_less [of "st_counter a"] unsigned_less [of "st_counter b"] by simp_all
  ultimately show ?thesis
    using hex_fixed_inj by (metis unsigned_word_eqI)
qed

end
