(* ===== verification/Codec.thy ===== *)
theory Codec
  imports Protocol
begin

text \<open>
  Serializers, compressors and encryptors with their registries
  (\<open>src/src/common/serializer\<close>, \<open>compression\<close>, \<open>encryption\<close>).  A trait object is a record of
  functions.  The third-party codecs the built-in implementations call (prost, serde_json,
  flate2, aes-gcm) are one record of functions, \<open>codec_lib\<close>, that the definitions take as
  an argument; \<open>lib_laws\<close> states what is relied on of them.  The random nonce of AES-GCM is
  an argument of \<open>encrypt\<close>.  The features \<open>compression-gzip\<close> and \<open>encryption-aes-gcm\<close> are on.
\<close>

section \<open>Algorithms\<close>

datatype compression_algorithm =
  CompNone | Gzip | Zstd | CompCustom string

definition compression_from_str :: "string \<Rightarrow> compression_algorithm option" where
  "compression_from_str s =
     (let l = to_lowercase s in
      if l = ''none'' \<or> l = '''' then Some CompNone
      else if l = ''gzip'' then Some Gzip
      else if l = ''zstd'' then Some Zstd
      else Some (CompCustom l))"

fun compression_as_str :: "compression_algorithm \<Rightarrow> string" where
  "compression_as_str CompNone = ''none''"
| "compression_as_str Gzip = ''gzip''"
| "compression_as_str Zstd = ''zstd''"
| "compression_as_str (CompCustom n) = n"

datatype encryption_algorithm =
  EncNone | Aes256Gcm | EncCustom string

definition encryption_from_str :: "string \<Rightarrow> encryption_algorithm option" where
  "encryption_from_str s =
     (let l = to_lowercase s in
      if l = ''none'' \<or> l = '''' then Some EncNone
      else if l = ''aes256gcm'' \<or> l = ''aes-256-gcm'' then Some Aes256Gcm
      else Some (EncCustom l))"

fun encryption_as_str :: "encryption_algorithm \<Rightarrow> string" where
  "encryption_as_str EncNone = ''none''"
| "encryption_as_str Aes256Gcm = ''aes256gcm''"
| "encryption_as_str (EncCustom n) = n"

section \<open>Trait objects\<close>

record serializer =
  ser_serialize :: "frame \<Rightarrow> bytes result"
  ser_deserialize :: "bytes \<Rightarrow> frame result"
  ser_format :: serialization_format
  ser_name :: string
  ser_can_detect :: "bytes \<Rightarrow> bool"

record compressor =
  cp_compress :: "bytes \<Rightarrow> bytes result"
  cp_decompress :: "bytes \<Rightarrow> bytes result"
  cp_algorithm :: compression_algorithm
  cp_name :: string
  cp_can_detect :: "bytes \<Rightarrow> bool"

record encryptor =
  en_encrypt :: "bytes \<Rightarrow> bytes \<Rightarrow> bytes result"
  en_decrypt :: "bytes \<Rightarrow> bytes result"
  en_algorithm :: encryption_algorithm
  en_name :: string

section \<open>Third-party codecs\<close>

text \<open>\<open>lib_gz_read d n\<close> are the bytes that reading at most \<open>n\<close> bytes from the gzip decoder of
  \<open>d\<close> yields; \<open>lib_seal k n d\<close> and \<open>lib_open k n c\<close> are the AEAD with key and nonce.\<close>

record codec_lib =
  lib_pb_encode :: "frame \<Rightarrow> bytes option"
  lib_pb_decode :: "bytes \<Rightarrow> frame option"
  lib_json_encode :: "frame \<Rightarrow> bytes option"
  lib_json_decode :: "bytes \<Rightarrow> frame option"
  lib_gz_encode :: "bytes \<Rightarrow> bytes option"
  lib_gz_read :: "bytes \<Rightarrow> nat \<Rightarrow> bytes option"
  lib_seal :: "bytes \<Rightarrow> bytes \<Rightarrow> bytes \<Rightarrow> bytes option"
  lib_open :: "bytes \<Rightarrow> bytes \<Rightarrow> bytes \<Rightarrow> bytes option"

section \<open>Built-in implementations\<close>

definition ok_or :: "flare_error \<Rightarrow> 'a option \<Rightarrow> 'a result" where
  "ok_or e x = (case x of Some v \<Rightarrow> Inr v | None \<Rightarrow> Inl e)"

definition protobuf_serializer :: "codec_lib \<Rightarrow> serializer" where
  "protobuf_serializer lib =
     \<lparr>ser_serialize = (\<lambda>f. ok_or (localized EncodingError ''Protobuf encode error'') (lib_pb_encode lib f)),
      ser_deserialize = (\<lambda>d. ok_or (localized DeserializationError ''Protobuf decode error'') (lib_pb_decode lib d)),
      ser_format = Protobuf, ser_name = ''protobuf'', ser_can_detect = (\<lambda>d. d \<noteq> [])\<rparr>"

definition json_serializer :: "codec_lib \<Rightarrow> serializer" where
  "json_serializer lib =
     \<lparr>ser_serialize = (\<lambda>f. ok_or (localized SerializationError ''JSON encode error'') (lib_json_encode lib f)),
      ser_deserialize = (\<lambda>d. ok_or (localized DeserializationError ''JSON decode error'') (lib_json_decode lib d)),
      ser_format = Json, ser_name = ''json'',
      ser_can_detect = (\<lambda>d. case d of [] \<Rightarrow> False | c # _ \<Rightarrow> c = CHR ''{'' \<or> c = CHR ''['')\<rparr>"

text \<open>The length prefix \<open>prost::encoding::encode_varint\<close> writes is an argument.\<close>

definition framed_protobuf_serializer :: "(nat \<Rightarrow> bytes) \<Rightarrow> codec_lib \<Rightarrow> serializer" where
  "framed_protobuf_serializer encode_varint lib =
     \<lparr>ser_serialize =
        (\<lambda>f. case lib_pb_encode lib f of
               None \<Rightarrow> Inl (localized EncodingError ''Framed Protobuf encode error'')
             | Some buf \<Rightarrow> Inr (encode_varint (length buf) @ buf)),
      ser_deserialize = (\<lambda>d. ok_or (localized DeserializationError ''Framed Protobuf decode error'') (lib_pb_decode lib d)),
      ser_format = Protobuf, ser_name = ''framed_protobuf'', ser_can_detect = (\<lambda>d. d \<noteq> [])\<rparr>"

definition no_compressor :: compressor where
  "no_compressor =
     \<lparr>cp_compress = (\<lambda>d. Inr d), cp_decompress = (\<lambda>d. Inr d), cp_algorithm = CompNone,
      cp_name = ''none'', cp_can_detect = (\<lambda>_. False)\<rparr>"

definition MAX_GZIP_DECOMPRESSED_LEN :: nat where
  "MAX_GZIP_DECOMPRESSED_LEN = 16 * 1024 * 1024"

definition gzip_compress :: "codec_lib \<Rightarrow> bytes \<Rightarrow> bytes result" where
  "gzip_compress lib d = ok_or (localized EncodingError ''Gzip compression failed'') (lib_gz_encode lib d)"

definition gzip_decompress :: "codec_lib \<Rightarrow> bytes \<Rightarrow> bytes result" where
  "gzip_decompress lib d =
     (case lib_gz_read lib d (MAX_GZIP_DECOMPRESSED_LEN + 1) of
        None \<Rightarrow> Inl (localized EncodingError ''Gzip decompression failed'')
      | Some out \<Rightarrow>
          if length out > MAX_GZIP_DECOMPRESSED_LEN
          then Inl (localized EncodingError ''Gzip decompressed payload exceeds limit'')
          else Inr out)"

definition gzip_can_detect :: "bytes \<Rightarrow> bool" where
  "gzip_can_detect d = (length d \<ge> 2 \<and> d ! 0 = CHR 0x1F \<and> d ! 1 = CHR 0x8B)"

definition gzip_compressor :: "codec_lib \<Rightarrow> compressor" where
  "gzip_compressor lib =
     \<lparr>cp_compress = gzip_compress lib, cp_decompress = gzip_decompress lib, cp_algorithm = Gzip,
      cp_name = ''gzip'', cp_can_detect = gzip_can_detect\<rparr>"

definition no_encryptor :: encryptor where
  "no_encryptor =
     \<lparr>en_encrypt = (\<lambda>_ d. Inr d), en_decrypt = (\<lambda>d. Inr d), en_algorithm = EncNone,
      en_name = ''none''\<rparr>"

definition aes_encrypt :: "codec_lib \<Rightarrow> bytes \<Rightarrow> bytes \<Rightarrow> bytes \<Rightarrow> bytes result" where
  "aes_encrypt lib key nonce d =
     (case lib_seal lib key nonce d of
        None \<Rightarrow> Inl (localized EncodingError ''AES-GCM encryption failed'')
      | Some ct \<Rightarrow> Inr (nonce @ ct))"

definition aes_decrypt :: "codec_lib \<Rightarrow> bytes \<Rightarrow> bytes \<Rightarrow> bytes result" where
  "aes_decrypt lib key d =
     (if length d < 12
      then Inl (localized DeserializationError ''Encrypted data too short: expected at least 12 bytes'')
      else ok_or (localized DeserializationError ''AES-GCM decryption failed'')
             (lib_open lib key (take 12 d) (drop 12 d)))"

definition aes256gcm_new :: "codec_lib \<Rightarrow> bytes \<Rightarrow> encryptor result" where
  "aes256gcm_new lib key =
     (if length key \<noteq> 32
      then Inl (localized ProtocolError ''AES-256-GCM requires a 32-byte key'')
      else Inr \<lparr>en_encrypt = aes_encrypt lib key, en_decrypt = aes_decrypt lib key,
                en_algorithm = Aes256Gcm, en_name = ''aes256gcm''\<rparr>)"

text \<open>The key of \<open>from_password\<close> is one SHA-256 over password and salt.\<close>

definition aes256gcm_from_password ::
  "codec_lib \<Rightarrow> (bytes \<Rightarrow> bytes) \<Rightarrow> bytes \<Rightarrow> bytes option \<Rightarrow> encryptor result" where
  "aes256gcm_from_password lib sha256 password salt =
     aes256gcm_new lib (sha256 (password @ (case salt of Some s \<Rightarrow> s | None \<Rightarrow> [])))"

section \<open>Registries\<close>

text \<open>The three global registries as one environment.  Lookups are by name; the detection
  loops traverse the entries in the order of the list, which stands for the order of a hash map and is not fixed by
  the program.\<close>

record codec_env =
  ce_serializers :: "(string, serializer) amap"
  ce_compressors :: "(string, compressor) amap"
  ce_encryptors :: "(string, encryptor) amap"

definition register_serializer :: "string \<Rightarrow> serializer \<Rightarrow> codec_env \<Rightarrow> codec_env" where
  "register_serializer n s e = e\<lparr>ce_serializers := AList.update n s (ce_serializers e)\<rparr>"

definition register_compressor :: "string \<Rightarrow> compressor \<Rightarrow> codec_env \<Rightarrow> codec_env" where
  "register_compressor n c e = e\<lparr>ce_compressors := AList.update n c (ce_compressors e)\<rparr>"

definition register_encryptor :: "string \<Rightarrow> encryptor \<Rightarrow> codec_env \<Rightarrow> codec_env" where
  "register_encryptor n c e = e\<lparr>ce_encryptors := AList.update n c (ce_encryptors e)\<rparr>"

definition serializer_defaults :: "codec_lib \<Rightarrow> codec_env \<Rightarrow> codec_env" where
  "serializer_defaults lib e =
     register_serializer ''json'' (json_serializer lib)
       (register_serializer ''protobuf'' (protobuf_serializer lib) e)"

definition compressor_defaults :: "codec_lib \<Rightarrow> codec_env \<Rightarrow> codec_env" where
  "compressor_defaults lib e =
     register_compressor ''gzip'' (gzip_compressor lib) (register_compressor ''none'' no_compressor e)"

definition encryptor_defaults :: "codec_env \<Rightarrow> codec_env" where
  "encryptor_defaults e = register_encryptor ''none'' no_encryptor e"

definition global_codecs :: "codec_lib \<Rightarrow> codec_env" where
  "global_codecs lib =
     encryptor_defaults (compressor_defaults lib (serializer_defaults lib
       \<lparr>ce_serializers = [], ce_compressors = [], ce_encryptors = []\<rparr>))"

definition find_serializer :: "codec_env \<Rightarrow> string \<Rightarrow> serializer option" where
  "find_serializer e n = map_of (ce_serializers e) n"

definition find_by_format :: "codec_env \<Rightarrow> serialization_format \<Rightarrow> serializer option" where
  "find_by_format e f =
     find_serializer e (case f of Protobuf \<Rightarrow> ''protobuf'' | Json \<Rightarrow> ''json'')"

definition detect_serializers :: "codec_env \<Rightarrow> bytes \<Rightarrow> serializer list" where
  "detect_serializers e d = filter (\<lambda>s. ser_can_detect s d) (map snd (ce_serializers e))"

definition find_compressor :: "codec_env \<Rightarrow> string \<Rightarrow> compressor option" where
  "find_compressor e n = map_of (ce_compressors e) n"

definition get_compressor :: "codec_env \<Rightarrow> compression_algorithm \<Rightarrow> compressor" where
  "get_compressor e a = unwrap_or no_compressor (find_compressor e (compression_as_str a))"

definition compression_registered :: "codec_env \<Rightarrow> string \<Rightarrow> bool" where
  "compression_registered e n = (map_of (ce_compressors e) n \<noteq> None)"

definition detect_compressor :: "codec_env \<Rightarrow> bytes \<Rightarrow> compressor option" where
  "detect_compressor e d = find (\<lambda>c. cp_can_detect c d) (map snd (ce_compressors e))"

definition compress :: "codec_env \<Rightarrow> bytes \<Rightarrow> compression_algorithm \<Rightarrow> bytes result" where
  "compress e d a = cp_compress (get_compressor e a) d"

definition decompress :: "codec_env \<Rightarrow> bytes \<Rightarrow> compression_algorithm \<Rightarrow> bytes result" where
  "decompress e d a = cp_decompress (get_compressor e a) d"

definition auto_decompress :: "codec_env \<Rightarrow> bytes \<Rightarrow> (bytes \<times> compression_algorithm) result" where
  "auto_decompress e d =
     (case detect_compressor e d of
        Some c \<Rightarrow> (case cp_decompress c d of Inl err \<Rightarrow> Inl err | Inr out \<Rightarrow> Inr (out, cp_algorithm c))
      | None \<Rightarrow> Inr (d, CompNone))"

definition find_encryptor :: "codec_env \<Rightarrow> string \<Rightarrow> encryptor option" where
  "find_encryptor e n = map_of (ce_encryptors e) n"

definition encryption_registered :: "codec_env \<Rightarrow> string \<Rightarrow> bool" where
  "encryption_registered e n = (map_of (ce_encryptors e) n \<noteq> None)"

definition register_custom_serializer :: "serializer \<Rightarrow> codec_env \<Rightarrow> codec_env" where
  "register_custom_serializer s e = register_serializer (ser_name s) s e"

definition register_custom_compressor :: "compressor \<Rightarrow> codec_env \<Rightarrow> codec_env" where
  "register_custom_compressor c e = register_compressor (cp_name c) c e"

definition register_custom_encryptor :: "encryptor \<Rightarrow> codec_env \<Rightarrow> codec_env" where
  "register_custom_encryptor c e =
     (if encryption_registered e (en_name c) then e else register_encryptor (en_name c) c e)"

section \<open>What is relied on of the third-party codecs\<close>

text \<open>What an encoder writes its decoder reads back; a protobuf message of a frame starts with the tag of one of its
  fields, a JSON object with a brace; reading from a gzip decoder yields a prefix of the data; opening inverts sealing.
  Nothing is assumed of a decoder on data that its encoder did not write.\<close>

definition lib_laws :: "codec_lib \<Rightarrow> bool" where
  "lib_laws lib \<longleftrightarrow>
     (\<forall>f d. lib_pb_encode lib f = Some d \<longrightarrow> lib_pb_decode lib d = Some f \<and>
        (\<forall>c r. d = c # r \<longrightarrow> c \<noteq> CHR ''{'' \<and> c \<noteq> CHR ''['')) \<and>
     (\<forall>f d. lib_json_encode lib f = Some d \<longrightarrow> lib_json_decode lib d = Some f \<and>
        (\<exists>r. d = CHR ''{'' # r)) \<and>
     (\<forall>d z n. lib_gz_encode lib d = Some z \<longrightarrow> gzip_can_detect z \<and>
        lib_gz_read lib z n = Some (take n d)) \<and>
     (\<forall>k n d c. lib_seal lib k n d = Some c \<longrightarrow> lib_open lib k n c = Some d)"

section \<open>Facts\<close>

lemma compression_str_roundtrip:
  "compression_from_str (compression_as_str a) = Some a" if "a \<in> {CompNone, Gzip, Zstd}"
  using that
  by (auto simp: compression_from_str_def to_lowercase_def to_ascii_lowercase_def ascii_lower_def)

lemma encryption_str_roundtrip:
  "encryption_from_str (encryption_as_str a) = Some a" if "a \<in> {EncNone, Aes256Gcm}"
  using that
  by (auto simp: encryption_from_str_def to_lowercase_def to_ascii_lowercase_def ascii_lower_def)

lemma ok_or_Inr [simp]: "ok_or e x = Inr v \<longleftrightarrow> x = Some v"
  by (auto simp: ok_or_def split: option.splits)

lemma find_by_format_global [simp]:
  "find_by_format (global_codecs lib) Protobuf = Some (protobuf_serializer lib)"
  "find_by_format (global_codecs lib) Json = Some (json_serializer lib)"
  by (simp_all add: find_by_format_def find_serializer_def global_codecs_def encryptor_defaults_def
      compressor_defaults_def serializer_defaults_def register_serializer_def
      register_compressor_def register_encryptor_def)

lemma serializers_global [simp]:
  "map snd (ce_serializers (global_codecs lib)) = [protobuf_serializer lib, json_serializer lib]"
  by (simp add: global_codecs_def encryptor_defaults_def compressor_defaults_def
      serializer_defaults_def register_serializer_def register_compressor_def
      register_encryptor_def)

lemma compressors_global [simp]:
  "ce_compressors (global_codecs lib) = [(''none'', no_compressor), (''gzip'', gzip_compressor lib)]"
  by (simp add: global_codecs_def encryptor_defaults_def compressor_defaults_def
      serializer_defaults_def register_serializer_def register_compressor_def
      register_encryptor_def)

lemma encryptors_global [simp]: "ce_encryptors (global_codecs lib) = [(''none'', no_encryptor)]"
  by (simp add: global_codecs_def encryptor_defaults_def compressor_defaults_def
      serializer_defaults_def register_serializer_def register_compressor_def
      register_encryptor_def)

lemma gzip_roundtrip:
  assumes "lib_laws lib" "gzip_compress lib d = Inr z" "length d \<le> MAX_GZIP_DECOMPRESSED_LEN"
  shows "gzip_decompress lib z = Inr d \<and> gzip_can_detect z"
  using assms by (simp add: gzip_compress_def gzip_decompress_def lib_laws_def)

lemma gzip_bomb_rejected:
  assumes "lib_laws lib" "gzip_compress lib d = Inr z" "length d > MAX_GZIP_DECOMPRESSED_LEN"
  shows "\<exists>e. gzip_decompress lib z = Inl e"
  using assms by (simp add: gzip_compress_def gzip_decompress_def lib_laws_def)

lemma aes_roundtrip:
  assumes "lib_laws lib" "aes_encrypt lib key nonce d = Inr c" "length nonce = 12"
  shows "aes_decrypt lib key c = Inr d"
proof -
  from assms(2) obtain ct where "lib_seal lib key nonce d = Some ct" "c = nonce @ ct"
    by (auto simp: aes_encrypt_def split: option.splits)
  with assms(1,3) show ?thesis by (simp add: aes_decrypt_def lib_laws_def)
qed

lemma register_custom_encryptor_keeps:
  "find_encryptor e n = Some c \<Longrightarrow> find_encryptor (register_custom_encryptor c' e) n = Some c"
  by (auto simp: register_custom_encryptor_def encryption_registered_def find_encryptor_def
      register_encryptor_def update_conv')

end
