(* ===== verification/Config.thy ===== *)
theory Config
  imports Prelude
begin

text \<open>
  Configuration types shared by client and server (\<open>src/src/common/config_types.rs\<close>): transport
  protocols with the normalisation of their addresses, the TLS configuration, and the heartbeat
  policy with its effective interval.  A \<open>Duration\<close> is its number of nanoseconds.
\<close>

section \<open>Transport protocols\<close>

datatype transport_protocol = WebSocket | QUIC | TCP

definition protocol_from_str :: "string \<Rightarrow> transport_protocol option" where
  "protocol_from_str s =
     (let l = to_lowercase s in
      if l = ''websocket'' \<or> l = ''ws'' then Some WebSocket
      else if l = ''quic'' then Some QUIC
      else if l = ''tcp'' then Some TCP
      else None)"

primrec protocol_as_str :: "transport_protocol \<Rightarrow> string" where
  "protocol_as_str WebSocket = ''websocket''"
| "protocol_as_str QUIC = ''quic''"
| "protocol_as_str TCP = ''tcp''"

definition SCHEMES :: "string list" where
  "SCHEMES = [''ws://'', ''wss://'', ''quic://'', ''tcp://'', ''http://'', ''https://'']"

definition strip_known_scheme :: "string \<Rightarrow> string" where
  "strip_known_scheme endpoint =
     (case List.find (\<lambda>scheme. starts_with scheme endpoint) SCHEMES of
        Some scheme \<Rightarrow> drop (length scheme) endpoint
      | None \<Rightarrow> endpoint)"

definition normalize_websocket_client_url :: "string \<Rightarrow> string" where
  "normalize_websocket_client_url endpoint =
     (if starts_with ''ws://'' endpoint \<or> starts_with ''wss://'' endpoint then endpoint
      else (let scheme = (if starts_with ''https://'' endpoint then ''wss'' else ''ws'')
            in scheme @ ''://'' @ strip_known_scheme endpoint))"

definition normalize_client_url :: "transport_protocol \<Rightarrow> string \<Rightarrow> string" where
  "normalize_client_url p endpoint0 =
     (let endpoint = trim endpoint0 in
      case p of
        WebSocket \<Rightarrow> normalize_websocket_client_url endpoint
      | QUIC \<Rightarrow> ''quic://'' @ strip_known_scheme endpoint
      | TCP \<Rightarrow> ''tcp://'' @ strip_known_scheme endpoint)"

definition normalize_server_bind_address :: "string \<Rightarrow> string" where
  "normalize_server_bind_address endpoint = strip_known_scheme (trim endpoint)"

section \<open>TLS\<close>

record tls_config =
  tls_cert_path :: "string option"
  tls_key_path :: "string option"
  tls_cert_data :: "bytes option"
  tls_key_data :: "bytes option"
  tls_verify_cert :: bool
  tls_ca_cert_path :: "string option"
  tls_ca_cert_data :: "bytes option"
  tls_spki_sha256_pins :: "string list"
  tls_certificate_sha256_pins :: "string list"

definition tls_default :: tls_config where
  "tls_default =
     \<lparr>tls_cert_path = None, tls_key_path = None, tls_cert_data = None, tls_key_data = None,
      tls_verify_cert = True, tls_ca_cert_path = None, tls_ca_cert_data = None,
      tls_spki_sha256_pins = [], tls_certificate_sha256_pins = []\<rparr>"

definition tls_from_files :: "string \<Rightarrow> string \<Rightarrow> tls_config" where
  "tls_from_files cert key = tls_default\<lparr>tls_cert_path := Some cert, tls_key_path := Some key\<rparr>"

definition tls_from_data :: "bytes \<Rightarrow> bytes \<Rightarrow> tls_config" where
  "tls_from_data cert key = tls_default\<lparr>tls_cert_data := Some cert, tls_key_data := Some key\<rparr>"

definition tls_with_ca_cert :: "string \<Rightarrow> tls_config \<Rightarrow> tls_config" where
  "tls_with_ca_cert p c = c\<lparr>tls_ca_cert_path := Some p\<rparr>"

definition with_spki_sha256_pin :: "string \<Rightarrow> tls_config \<Rightarrow> tls_config" where
  "with_spki_sha256_pin pin c = c\<lparr>tls_spki_sha256_pins := tls_spki_sha256_pins c @ [pin]\<rparr>"

definition with_spki_sha256_pins :: "string list \<Rightarrow> tls_config \<Rightarrow> tls_config" where
  "with_spki_sha256_pins pins c = c\<lparr>tls_spki_sha256_pins := pins\<rparr>"

definition with_certificate_sha256_pin :: "string \<Rightarrow> tls_config \<Rightarrow> tls_config" where
  "with_certificate_sha256_pin pin c =
     c\<lparr>tls_certificate_sha256_pins := tls_certificate_sha256_pins c @ [pin]\<rparr>"

definition with_certificate_sha256_pins :: "string list \<Rightarrow> tls_config \<Rightarrow> tls_config" where
  "with_certificate_sha256_pins pins c = c\<lparr>tls_certificate_sha256_pins := pins\<rparr>"

definition has_certificate_pins :: "tls_config \<Rightarrow> bool" where
  "has_certificate_pins c \<longleftrightarrow> tls_spki_sha256_pins c \<noteq> [] \<or> tls_certificate_sha256_pins c \<noteq> []"

definition requires_custom_client_tls :: "tls_config \<Rightarrow> bool" where
  "requires_custom_client_tls c \<longleftrightarrow>
     has_certificate_pins c \<or> tls_ca_cert_path c \<noteq> None \<or> tls_ca_cert_data c \<noteq> None"

definition disable_verification :: "tls_config \<Rightarrow> tls_config" where
  "disable_verification c = c\<lparr>tls_verify_cert := False\<rparr>"

section \<open>Heartbeat policy\<close>

type_synonym duration = nat

definition from_millis :: "nat \<Rightarrow> duration" where "from_millis n = n * 1000000"
definition from_secs :: "nat \<Rightarrow> duration" where "from_secs n = n * 1000000000"
definition as_millis :: "duration \<Rightarrow> nat" where "as_millis d = d div 1000000"

datatype app_state = Foreground | Background

record heartbeat_config =
  hc_interval :: duration
  hc_timeout :: duration
  hc_enabled :: bool
  hc_adaptive :: bool
  hc_foreground_interval :: "duration option"
  hc_background_interval :: "duration option"
  hc_min_interval :: "duration option"
  hc_max_interval :: "duration option"
  hc_nat_timeout :: "duration option"
  hc_app_state :: app_state

definition heartbeat_default :: heartbeat_config where
  "heartbeat_default =
     \<lparr>hc_interval = from_secs 30, hc_timeout = from_secs 90, hc_enabled = True, hc_adaptive = True,
      hc_foreground_interval = None, hc_background_interval = Some (from_secs 120),
      hc_min_interval = Some (from_secs 15), hc_max_interval = Some (from_secs 120),
      hc_nat_timeout = None, hc_app_state = Foreground\<rparr>"

definition lower_min :: "duration \<Rightarrow> heartbeat_config \<Rightarrow> heartbeat_config" where
  "lower_min i c =
     (if (case hc_min_interval c of None \<Rightarrow> True | Some m \<Rightarrow> i < m)
      then c\<lparr>hc_min_interval := Some i\<rparr> else c)"

definition with_interval :: "duration \<Rightarrow> heartbeat_config \<Rightarrow> heartbeat_config" where
  "with_interval i c = lower_min i (c\<lparr>hc_interval := i, hc_foreground_interval := Some i\<rparr>)"

definition with_timeout :: "duration \<Rightarrow> heartbeat_config \<Rightarrow> heartbeat_config" where
  "with_timeout t c = c\<lparr>hc_timeout := t\<rparr>"

definition with_adaptive :: "bool \<Rightarrow> heartbeat_config \<Rightarrow> heartbeat_config" where
  "with_adaptive b c = c\<lparr>hc_adaptive := b\<rparr>"

definition with_foreground_interval :: "duration \<Rightarrow> heartbeat_config \<Rightarrow> heartbeat_config" where
  "with_foreground_interval i c = lower_min i (c\<lparr>hc_foreground_interval := Some i\<rparr>)"

definition with_background_interval :: "duration \<Rightarrow> heartbeat_config \<Rightarrow> heartbeat_config" where
  "with_background_interval i c = c\<lparr>hc_background_interval := Some i\<rparr>"

definition with_interval_bounds :: "duration \<Rightarrow> duration \<Rightarrow> heartbeat_config \<Rightarrow> heartbeat_config" where
  "with_interval_bounds lo hi c = c\<lparr>hc_min_interval := Some lo, hc_max_interval := Some hi\<rparr>"

definition with_nat_timeout :: "duration \<Rightarrow> heartbeat_config \<Rightarrow> heartbeat_config" where
  "with_nat_timeout t c = c\<lparr>hc_nat_timeout := Some t\<rparr>"

definition without_nat_timeout :: "heartbeat_config \<Rightarrow> heartbeat_config" where
  "without_nat_timeout c = c\<lparr>hc_nat_timeout := None\<rparr>"

definition with_app_state :: "app_state \<Rightarrow> heartbeat_config \<Rightarrow> heartbeat_config" where
  "with_app_state s c = c\<lparr>hc_app_state := s\<rparr>"

definition disable_heartbeat :: "heartbeat_config \<Rightarrow> heartbeat_config" where
  "disable_heartbeat c = c\<lparr>hc_enabled := False\<rparr>"

definition positive_duration :: "duration \<Rightarrow> duration" where
  "positive_duration d = (if d = 0 then from_millis 1 else d)"

text \<open>The product saturates at \<open>u128::MAX\<close>, the result at \<open>u64::MAX\<close> milliseconds.\<close>

definition nat_safe_interval :: "duration \<Rightarrow> duration" where
  "nat_safe_interval timeout =
     (let millis = min (as_millis timeout * 70) (2 ^ 128 - 1) div 100;
          millis = max 1 (min millis (2 ^ 64 - 1))
      in from_millis millis)"

definition effective_interval :: "heartbeat_config \<Rightarrow> duration" where
  "effective_interval c =
     (if \<not> hc_adaptive c then positive_duration (hc_interval c)
      else
        (let base = (case hc_app_state c of
                       Foreground \<Rightarrow> unwrap_or (hc_interval c) (hc_foreground_interval c)
                     | Background \<Rightarrow> unwrap_or (from_secs 120) (hc_background_interval c));
             nat_limited = (case hc_nat_timeout c of
                              Some t \<Rightarrow> nat_safe_interval t
                            | None \<Rightarrow> positive_duration base);
             candidate = min (positive_duration base) nat_limited;
             lo = positive_duration (unwrap_or (min (hc_interval c) (from_secs 15)) (hc_min_interval c));
             hi = max (unwrap_or (from_secs 120) (hc_max_interval c)) lo
         in max lo (min candidate hi)))"

section \<open>Facts about addresses\<close>

lemma strip_known_scheme_cases:
  obtains (known) scheme where "scheme \<in> set SCHEMES" "s = scheme @ strip_known_scheme s"
  | (plain) "strip_known_scheme s = s" "\<forall>scheme \<in> set SCHEMES. \<not> starts_with scheme s"
proof (cases "List.find (\<lambda>scheme. starts_with scheme s) SCHEMES")
  case None
  then have "strip_known_scheme s = s" by (simp add: strip_known_scheme_def)
  with None show thesis using plain by (auto simp: find_None_iff)
next
  case (Some scheme)
  then have "scheme \<in> set SCHEMES" "starts_with scheme s" by (auto simp: find_Some_iff)
  then show thesis using known [of scheme] Some by (auto simp: strip_known_scheme_def starts_with_iff)
qed

lemma strip_known_scheme_add:
  "scheme \<in> set SCHEMES \<Longrightarrow> strip_known_scheme (scheme @ s) = s"
  by (auto simp: strip_known_scheme_def SCHEMES_def starts_with_def)

lemma strip_any_none_iff:
  "strip_any ws s = None \<longleftrightarrow> (\<forall>w \<in> set ws. w \<noteq> [] \<longrightarrow> \<not> starts_with w s)"
  by (induction ws) (auto simp: starts_with_def split: option.splits)

lemma trim_start_with_id: "strip_any ws s = None \<Longrightarrow> trim_start_with ws s = s"
  by (subst trim_start_with.simps) simp

lemma starts_with_longer: "starts_with w s \<Longrightarrow> starts_with w (s @ t)"
  by (auto simp: starts_with_iff)

text \<open>A suffix of a trimmed string has no trailing white space.\<close>

lemma trim_end_suffix:
  assumes "trim_end (p @ s) = p @ s"
  shows "trim_end s = s"
proof -
  have "strip_any (map rev white_space_encodings) (rev s @ rev p) = None"
    using assms trim_start_with_stop [of "map rev white_space_encodings" "rev s @ rev p"]
    by (simp add: trim_end_def rev_swap)
  then have "strip_any (map rev white_space_encodings) (rev s) = None"
    using starts_with_longer by (auto simp: strip_any_none_iff)
  then show ?thesis by (simp add: trim_end_def trim_start_with_id)
qed

lemma trim_end_trim [simp]: "trim_end (trim s) = trim s"
  by (simp add: trim_def trim_end_def trim_start_with_idem)

lemma starts_with_overlap:
  assumes "starts_with w (a @ c # t)" and "\<not> starts_with w a"
  shows "c \<in> set w"
  using assms
proof (induction w arbitrary: a)
  case Nil
  then show ?case by (simp add: starts_with_iff)
next
  case (Cons x w)
  then show ?case by (cases a) (auto simp: starts_with_def split: if_splits)
qed

lemma white_space_bytes_all:
  "list_all (\<lambda>w. w \<noteq> [] \<and> CHR ''/'' \<notin> set w \<and> hd w \<notin> set ''hqtw'') white_space_encodings"
  by code_simp

lemma white_space_bytes:
  assumes "w \<in> set white_space_encodings"
  shows "w \<noteq> []" and "CHR ''/'' \<notin> set w" and "hd w \<notin> set ''hqtw''"
  using assms white_space_bytes_all by (auto simp only: list_all_iff)

lemma scheme_bytes:
  assumes "scheme \<in> set SCHEMES"
  obtains x y where "scheme = x # y @ ''/''" and "x \<in> set ''hqtw''"
proof -
  have "list_all (\<lambda>s. s = hd s # butlast (tl s) @ ''/'' \<and> hd s \<in> set ''hqtw'') SCHEMES" by code_simp
  with assms have "scheme = hd scheme # butlast (tl scheme) @ ''/''" "hd scheme \<in> set ''hqtw''"
    by (auto simp only: list_all_iff)
  then show thesis by (rule that)
qed

text \<open>A known scheme in front of a trimmed rest survives another trim.\<close>

lemma trim_scheme:
  assumes "scheme \<in> set SCHEMES" and "trim_end s = s"
  shows "trim (scheme @ s) = scheme @ s"
proof -
  obtain x y where xy: "scheme = x # y @ ''/''" "x \<in> set ''hqtw''"
    using scheme_bytes [OF assms(1)] by blast
  have "\<not> starts_with w (scheme @ s)" if "w \<in> set white_space_encodings" for w
    using white_space_bytes [OF that] xy by (cases w) (auto simp: starts_with_def)
  then have *: "trim_start (scheme @ s) = scheme @ s"
    by (auto simp: trim_start_def strip_any_none_iff intro!: trim_start_with_id)
  have "strip_any (map rev white_space_encodings) (rev s) = None"
    using assms(2) trim_start_with_stop [of "map rev white_space_encodings" "rev s"]
    by (simp add: trim_end_def rev_swap)
  then have "\<not> starts_with (rev w) (rev s @ CHR ''/'' # rev (x # y))" if "w \<in> set white_space_encodings" for w
    using starts_with_overlap [of "rev w" "rev s" "CHR ''/''" "rev (x # y)"] white_space_bytes [OF that] that
    by (auto simp: strip_any_none_iff)
  then have "trim_end (scheme @ s) = scheme @ s"
    using xy by (auto simp: trim_end_def strip_any_none_iff intro!: trim_start_with_id)
  with * show ?thesis by (simp add: trim_def)
qed

lemma trim_end_strip: "trim_end (strip_known_scheme (trim e)) = strip_known_scheme (trim e)"
proof (cases "trim e" rule: strip_known_scheme_cases)
  case (known scheme)
  then show ?thesis using trim_end_suffix [of scheme "strip_known_scheme (trim e)"] by simp
next
  case plain
  then show ?thesis by simp
qed

text \<open>Every client URL is a known scheme before the bare address.\<close>

lemma normalize_client_url_form:
  obtains scheme where "scheme \<in> set SCHEMES"
    and "normalize_client_url p e = scheme @ strip_known_scheme (trim e)"
proof (cases "p = WebSocket \<and> (starts_with ''ws://'' (trim e) \<or> starts_with ''wss://'' (trim e))")
  case True
  then have n: "normalize_client_url p e = trim e"
    by (auto simp: normalize_client_url_def normalize_websocket_client_url_def)
  show thesis
  proof (cases "trim e" rule: strip_known_scheme_cases)
    case (known scheme)
    then show thesis using n that [of scheme] by simp
  next
    case plain
    then show thesis using True by (simp add: SCHEMES_def)
  qed
next
  case False
  then show thesis
    using that [of "''ws://''"] that [of "''wss://''"] that [of "''quic://''"] that [of "''tcp://''"]
    by (cases p; cases "starts_with ''https://'' (trim e)")
       (auto simp: normalize_client_url_def normalize_websocket_client_url_def SCHEMES_def Let_def)
qed

section \<open>Facts about intervals\<close>

text \<open>The lower bound of the adaptive policy.\<close>

definition interval_floor :: "heartbeat_config \<Rightarrow> duration" where
  "interval_floor c = positive_duration (unwrap_or (min (hc_interval c) (from_secs 15)) (hc_min_interval c))"

lemma positive_duration_pos [simp]: "0 < positive_duration d"
  by (simp add: positive_duration_def from_millis_def)

lemma nat_safe_le: "2 \<le> as_millis t \<Longrightarrow> nat_safe_interval t * 10 \<le> t * 7"
proof -
  assume a: "2 \<le> as_millis t"
  define m where "m = as_millis t"
  have "min (m * 70) (2 ^ 128 - 1) div 100 \<le> m * 70 div 100" by (intro div_le_mono) simp
  moreover have "1 \<le> m * 70 div 100" using a by (simp add: m_def)
  ultimately have "max 1 (min (min (m * 70) (2 ^ 128 - 1) div 100) (2 ^ 64 - 1)) \<le> m * 70 div 100"
    by simp
  then have "nat_safe_interval t \<le> m * 70 div 100 * 1000000"
    by (simp add: nat_safe_interval_def from_millis_def Let_def m_def)
  moreover have "m * 70 div 100 * 1000000 * 10 \<le> m * 1000000 * 7" by simp
  moreover have "m * 1000000 \<le> t" by (simp add: m_def as_millis_def)
  ultimately show ?thesis by linarith
qed

section \<open>Properties\<close>

text \<open>Normalising an address for one protocol keeps what it denotes: the bind address a server
  derives from a client URL is the one it derives from the original text, normalising a second
  time changes nothing, and the URL of one protocol turned into that of TCP or QUIC equals the URL
  obtained from the original text (protocol racing starts from a WebSocket URL).\<close>

theorem address_normalisation:
  "normalize_server_bind_address (normalize_client_url p e) = normalize_server_bind_address e
   \<and> normalize_client_url p (normalize_client_url p e) = normalize_client_url p e
   \<and> normalize_client_url TCP (normalize_client_url p e) = normalize_client_url TCP e
   \<and> normalize_client_url QUIC (normalize_client_url p e) = normalize_client_url QUIC e"
proof -
  obtain scheme where sch: "scheme \<in> set SCHEMES"
    and form: "normalize_client_url p e = scheme @ strip_known_scheme (trim e)"
    by (rule normalize_client_url_form)
  have t: "trim (normalize_client_url p e) = normalize_client_url p e"
    unfolding form using sch trim_end_strip by (rule trim_scheme)
  have st: "strip_known_scheme (normalize_client_url p e) = strip_known_scheme (trim e)"
    unfolding form using sch by (rule strip_known_scheme_add)
  have ws: "p = WebSocket \<Longrightarrow> starts_with ''ws://'' (normalize_client_url p e) \<or> starts_with ''wss://'' (normalize_client_url p e)"
    by (auto simp: normalize_client_url_def normalize_websocket_client_url_def Let_def starts_with_def)
  have "normalize_client_url p (normalize_client_url p e) = normalize_client_url p e"
  proof (cases p)
    case WebSocket
    with ws t show ?thesis
      by (subst normalize_client_url_def) (auto simp: normalize_websocket_client_url_def)
  qed (use t st in \<open>simp_all add: normalize_client_url_def\<close>)
  with t st show ?thesis by (simp add: normalize_server_bind_address_def normalize_client_url_def)
qed

text \<open>The effective heartbeat interval is positive whatever the configuration; with the
  adaptive policy it stays between the configured bounds, and below seventy percent of the NAT
  timeout whenever the lower bound is (and the timeout has at least two milliseconds).\<close>

theorem effective_interval_bounds:
  "0 < effective_interval c
    \<and> (hc_adaptive c \<longrightarrow> interval_floor c \<le> effective_interval c
        \<and> effective_interval c \<le> max (interval_floor c) (unwrap_or (from_secs 120) (hc_max_interval c)))
    \<and> (\<forall>t. hc_adaptive c \<and> hc_nat_timeout c = Some t \<and> 2 \<le> as_millis t \<and> interval_floor c * 10 \<le> t * 7
        \<longrightarrow> effective_interval c * 10 \<le> t * 7)"
proof (intro conjI allI impI)
  show "0 < effective_interval c"
    by (auto simp: effective_interval_def Let_def less_max_iff_disj)
next
  assume "hc_adaptive c"
  then show "interval_floor c \<le> effective_interval c"
    and "effective_interval c \<le> max (interval_floor c) (unwrap_or (from_secs 120) (hc_max_interval c))"
    by (auto simp: effective_interval_def Let_def interval_floor_def)
next
  fix t assume a: "hc_adaptive c \<and> hc_nat_timeout c = Some t \<and> 2 \<le> as_millis t \<and> interval_floor c * 10 \<le> t * 7"
  then have "effective_interval c \<le> max (interval_floor c) (nat_safe_interval t)"
    by (auto simp: effective_interval_def Let_def interval_floor_def le_max_iff_disj min_le_iff_disj)
  with a nat_safe_le [of t] show "effective_interval c * 10 \<le> t * 7" by linarith
qed

theorem effective_interval_bounds_witness:
  "effective_interval (heartbeat_default\<lparr>hc_nat_timeout := Some (from_secs 40)\<rparr>) * 10 \<le> from_secs 40 * 7
   \<and> effective_interval (heartbeat_default\<lparr>hc_nat_timeout := Some (from_secs 40)\<rparr>) = from_secs 28"
proof
  let ?c = "heartbeat_default\<lparr>hc_nat_timeout := Some (from_secs 40)\<rparr>"
  have "hc_adaptive ?c \<and> hc_nat_timeout ?c = Some (from_secs 40) \<and> 2 \<le> as_millis (from_secs 40)
      \<and> interval_floor ?c * 10 \<le> from_secs 40 * 7"
    by (simp add: heartbeat_default_def as_millis_def from_secs_def interval_floor_def positive_duration_def)
  with effective_interval_bounds [of ?c] show "effective_interval ?c * 10 \<le> from_secs 40 * 7" by blast
  show "effective_interval ?c = from_secs 28"
    by (simp add: effective_interval_def heartbeat_default_def from_secs_def positive_duration_def
        nat_safe_interval_def as_millis_def from_millis_def Let_def)
qed

text \<open>The floor takes precedence over the NAT timeout: with the default configuration and a NAT
  that forgets a mapping after ten seconds, the heartbeat is sent every fifteen seconds, longer
  than the mapping lives.\<close>

theorem nat_timeout_below_floor:
  "effective_interval (with_nat_timeout (from_secs 10) heartbeat_default) = from_secs 15
   \<and> from_secs 10 < effective_interval (with_nat_timeout (from_secs 10) heartbeat_default)"
  by (simp add: effective_interval_def heartbeat_default_def from_secs_def positive_duration_def
      nat_safe_interval_def as_millis_def from_millis_def Let_def with_nat_timeout_def)

end
