(* ===== verification/ClientConfig.thy ===== *)
theory ClientConfig
  imports Codec Config Device
begin

text \<open>
  The client's configuration (\<open>src/src/client/config.rs\<close>), its connection state manager
  (\<open>src/src/client/connection/state.rs\<close>) and its message router (\<open>src/src/client/router.rs\<close>).  Instants are
  numbers of nanoseconds and arguments of the operations that read the clock.
\<close>

section \<open>Configuration\<close>

record client_config =
  cl_server_url :: string
  cl_transport :: transport_protocol
  cl_transports :: "transport_protocol list option"
  cl_protocol_urls :: "(transport_protocol, string) amap option"
  cl_race_timeout :: "duration option"
  cl_serialization_format :: serialization_format
  cl_compression :: compression_algorithm
  cl_force_serialization_format :: "serialization_format option"
  cl_force_compression :: "compression_algorithm option"
  cl_connect_timeout :: duration
  cl_reconnect_interval :: duration
  cl_max_reconnect_attempts :: "32 word option"
  cl_reconnect_on_send :: bool
  cl_heartbeat :: heartbeat_config
  cl_tls :: tls_config
  cl_connection_id :: "string option"
  cl_user_id :: "string option"
  cl_metadata :: "(string, string) amap"
  cl_enable_router :: bool
  cl_device_info :: "device_info option"
  cl_token :: "string option"

definition client_config_default :: client_config where
  "client_config_default =
     \<lparr>cl_server_url = ''ws://localhost:8080'', cl_transport = WebSocket, cl_transports = None,
      cl_protocol_urls = None, cl_race_timeout = Some (from_secs 5), cl_serialization_format = Json,
      cl_compression = CompNone, cl_force_serialization_format = None, cl_force_compression = None,
      cl_connect_timeout = from_secs 30, cl_reconnect_interval = from_secs 5,
      cl_max_reconnect_attempts = Some 5, cl_reconnect_on_send = True, cl_heartbeat = heartbeat_default,
      cl_tls = tls_default, cl_connection_id = None, cl_user_id = None, cl_metadata = [],
      cl_enable_router = False, cl_device_info = None, cl_token = None\<rparr>"

definition client_config_new :: "string \<Rightarrow> client_config" where
  "client_config_new url = client_config_default\<lparr>cl_server_url := url\<rparr>"

definition cl_websocket :: "client_config \<Rightarrow> client_config" where
  "cl_websocket c = c\<lparr>cl_transport := WebSocket\<rparr>"

definition cl_quic :: "client_config \<Rightarrow> client_config" where
  "cl_quic c = c\<lparr>cl_transport := QUIC\<rparr>"

definition cl_tcp :: "client_config \<Rightarrow> client_config" where
  "cl_tcp c = c\<lparr>cl_transport := TCP\<rparr>"

definition cl_with_format :: "serialization_format \<Rightarrow> client_config \<Rightarrow> client_config" where
  "cl_with_format f c = c\<lparr>cl_serialization_format := f\<rparr>"

definition cl_with_compression :: "compression_algorithm \<Rightarrow> client_config \<Rightarrow> client_config" where
  "cl_with_compression a c = c\<lparr>cl_compression := a\<rparr>"

definition cl_with_user_id :: "string \<Rightarrow> client_config \<Rightarrow> client_config" where
  "cl_with_user_id u c = c\<lparr>cl_user_id := Some u\<rparr>"

definition cl_with_token :: "string \<Rightarrow> client_config \<Rightarrow> client_config" where
  "cl_with_token t c = c\<lparr>cl_token := Some t\<rparr>"

definition with_protocol_race :: "transport_protocol list \<Rightarrow> client_config \<Rightarrow> client_config" where
  "with_protocol_race ps c = c\<lparr>cl_transports := Some ps\<rparr>"

definition with_protocol_url :: "transport_protocol \<Rightarrow> string \<Rightarrow> client_config \<Rightarrow> client_config" where
  "with_protocol_url p url c =
     c\<lparr>cl_protocol_urls := Some (AList.update p url (unwrap_or [] (cl_protocol_urls c)))\<rparr>"

definition with_protocol_urls :: "(transport_protocol, string) amap \<Rightarrow> client_config \<Rightarrow> client_config" where
  "with_protocol_urls urls c = c\<lparr>cl_protocol_urls := Some urls\<rparr>"

definition get_protocol_url :: "transport_protocol \<Rightarrow> client_config \<Rightarrow> string" where
  "get_protocol_url p c =
     normalize_client_url p
       (case Option.bind (cl_protocol_urls c) (\<lambda>urls. map_of urls p) of
          Some url \<Rightarrow> url
        | None \<Rightarrow> cl_server_url c)"

definition with_race_timeout :: "duration \<Rightarrow> client_config \<Rightarrow> client_config" where
  "with_race_timeout t c = c\<lparr>cl_race_timeout := Some t\<rparr>"

definition cl_with_heartbeat :: "heartbeat_config \<Rightarrow> client_config \<Rightarrow> client_config" where
  "cl_with_heartbeat h c = c\<lparr>cl_heartbeat := h\<rparr>"

definition cl_with_tls :: "tls_config \<Rightarrow> client_config \<Rightarrow> client_config" where
  "cl_with_tls t c = c\<lparr>cl_tls := t\<rparr>"

definition with_connect_timeout :: "duration \<Rightarrow> client_config \<Rightarrow> client_config" where
  "with_connect_timeout t c = c\<lparr>cl_connect_timeout := t\<rparr>"

definition with_reconnect_interval :: "duration \<Rightarrow> client_config \<Rightarrow> client_config" where
  "with_reconnect_interval i c = c\<lparr>cl_reconnect_interval := i\<rparr>"

definition with_max_reconnect_attempts :: "32 word option \<Rightarrow> client_config \<Rightarrow> client_config" where
  "with_max_reconnect_attempts m c = c\<lparr>cl_max_reconnect_attempts := m\<rparr>"

definition with_reconnect_on_send :: "bool \<Rightarrow> client_config \<Rightarrow> client_config" where
  "with_reconnect_on_send e c = c\<lparr>cl_reconnect_on_send := e\<rparr>"

definition enable_router :: "client_config \<Rightarrow> client_config" where
  "enable_router c = c\<lparr>cl_enable_router := True\<rparr>"

definition cl_with_device_info :: "device_info \<Rightarrow> client_config \<Rightarrow> client_config" where
  "cl_with_device_info d c = c\<lparr>cl_device_info := Some d\<rparr>"

definition force_format :: "serialization_format \<Rightarrow> client_config \<Rightarrow> client_config" where
  "force_format f c = c\<lparr>cl_force_serialization_format := Some f\<rparr>"

definition force_compression :: "compression_algorithm \<Rightarrow> client_config \<Rightarrow> client_config" where
  "force_compression a c = c\<lparr>cl_force_compression := Some a\<rparr>"

definition is_force_format :: "client_config \<Rightarrow> bool" where
  "is_force_format c \<longleftrightarrow> cl_force_serialization_format c \<noteq> None \<or> cl_force_compression c \<noteq> None"

definition get_serialization_format :: "client_config \<Rightarrow> serialization_format" where
  "get_serialization_format c = unwrap_or (cl_serialization_format c) (cl_force_serialization_format c)"

definition cl_get_compression :: "client_config \<Rightarrow> compression_algorithm" where
  "cl_get_compression c = unwrap_or (cl_compression c) (cl_force_compression c)"

definition get_protocols :: "client_config \<Rightarrow> transport_protocol list" where
  "get_protocols c = (case cl_transports c of Some ps \<Rightarrow> ps | None \<Rightarrow> [cl_transport c])"

definition is_race_mode :: "client_config \<Rightarrow> bool" where
  "is_race_mode c = (case cl_transports c of None \<Rightarrow> False | Some ps \<Rightarrow> length ps > 1)"

section \<open>Connection state\<close>

datatype connection_state =
  StDisconnected | StConnecting | StConnected | StDisconnecting | StFailed | StReconnecting

definition can_send :: "connection_state \<Rightarrow> bool" where
  "can_send s \<longleftrightarrow> s = StConnected"

definition can_connect :: "connection_state \<Rightarrow> bool" where
  "can_connect s = (case s of StDisconnected \<Rightarrow> True | StFailed \<Rightarrow> True | _ \<Rightarrow> False)"

definition is_connecting :: "connection_state \<Rightarrow> bool" where
  "is_connecting s = (case s of StConnecting \<Rightarrow> True | StReconnecting \<Rightarrow> True | _ \<Rightarrow> False)"

record state_manager =
  sm_state :: connection_state
  sm_state_changed_at :: nat
  sm_connect_started_at :: "nat option"

definition state_manager_new :: "nat \<Rightarrow> state_manager" where
  "state_manager_new now = \<lparr>sm_state = StDisconnected, sm_state_changed_at = now, sm_connect_started_at = None\<rparr>"

definition set_state :: "nat \<Rightarrow> connection_state \<Rightarrow> state_manager \<Rightarrow> state_manager" where
  "set_state now s m = m\<lparr>sm_state := s, sm_state_changed_at := now\<rparr>"

definition start_connecting :: "nat \<Rightarrow> state_manager \<Rightarrow> state_manager" where
  "start_connecting now m = (set_state now StConnecting m)\<lparr>sm_connect_started_at := Some now\<rparr>"

definition set_connected :: "nat \<Rightarrow> state_manager \<Rightarrow> state_manager" where
  "set_connected now m = (set_state now StConnected m)\<lparr>sm_connect_started_at := None\<rparr>"

definition set_disconnected :: "nat \<Rightarrow> state_manager \<Rightarrow> state_manager" where
  "set_disconnected now m = (set_state now StDisconnected m)\<lparr>sm_connect_started_at := None\<rparr>"

definition set_failed :: "nat \<Rightarrow> state_manager \<Rightarrow> state_manager" where
  "set_failed now m = (set_state now StFailed m)\<lparr>sm_connect_started_at := None\<rparr>"

definition set_reconnecting :: "nat \<Rightarrow> state_manager \<Rightarrow> state_manager" where
  "set_reconnecting now m = (set_state now StReconnecting m)\<lparr>sm_connect_started_at := Some now\<rparr>"

definition connect_duration :: "nat \<Rightarrow> state_manager \<Rightarrow> duration option" where
  "connect_duration now m = map_option (\<lambda>start. now - start) (sm_connect_started_at m)"

section \<open>Message router\<close>

text \<open>A handler is user code: a function of the frame.\<close>

type_synonym message_handler = "frame \<Rightarrow> frame option result"

record message_router =
  ro_handlers :: "(string, message_handler list) amap"
  ro_default_handler :: "message_handler option"

definition router_new :: message_router where
  "router_new = \<lparr>ro_handlers = [], ro_default_handler = None\<rparr>"

definition router_register :: "string \<Rightarrow> message_handler \<Rightarrow> message_router \<Rightarrow> message_router" where
  "router_register route h r =
     r\<lparr>ro_handlers := AList.update route (unwrap_or [] (map_of (ro_handlers r) route) @ [h]) (ro_handlers r)\<rparr>"

definition set_default_handler :: "message_handler \<Rightarrow> message_router \<Rightarrow> message_router" where
  "set_default_handler h r = r\<lparr>ro_default_handler := Some h\<rparr>"

definition int_str :: "int \<Rightarrow> string" where
  "int_str i = (if i < 0 then CHR ''-'' # dec_str (nat (- i)) else dec_str (nat i))"

definition extract_route_key :: "frame \<Rightarrow> string" where
  "extract_route_key f =
     (case fr_command f of
        None \<Rightarrow> ''unknown''
      | Some command \<Rightarrow>
          (case cmd_type command of
             Some (CmdSystem c) \<Rightarrow>
               (case system_type_from_i32 (sc_type c) of
                  Some SysConnect \<Rightarrow> ''system.connect''
                | Some SysConnectAck \<Rightarrow> ''system.connect_ack''
                | Some SysClose \<Rightarrow> ''system.close''
                | Some SysPing \<Rightarrow> ''system.ping''
                | Some SysPong \<Rightarrow> ''system.pong''
                | Some SysError \<Rightarrow> ''system.error''
                | Some SysEvent \<Rightarrow> ''system.event''
                | Some SysAuth \<Rightarrow> ''system.auth''
                | Some SysAuthAck \<Rightarrow> ''system.auth_ack''
                | _ \<Rightarrow> ''system.unknown'')
           | Some (CmdPayload c) \<Rightarrow>
               (case payload_type_from_i32 (pc_type c) of
                  Some PayMessage \<Rightarrow> ''payload.message''
                | Some PayEvent \<Rightarrow> ''payload.event''
                | Some PayAck \<Rightarrow> ''payload.ack''
                | Some PayData \<Rightarrow> ''payload.data''
                | _ \<Rightarrow> ''payload.'' @ int_str (pc_type c))
           | Some (CmdNotification c) \<Rightarrow>
               (case notification_type_from_i32 (nc_type c) of
                  Some NtfSystem \<Rightarrow> ''notification.system''
                | Some NtfBroadcast \<Rightarrow> ''notification.broadcast''
                | Some NtfAlert \<Rightarrow> ''notification.alert''
                | Some NtfUser \<Rightarrow> ''notification.user''
                | Some NtfConnection \<Rightarrow> ''notification.connection''
                | _ \<Rightarrow> ''notification.'' @ int_str (nc_type c))
           | Some (CmdCustom c) \<Rightarrow> ''custom.'' @ cc_name c
           | None \<Rightarrow> ''unknown''))"

text \<open>The replies of the handlers that answer, in order; an error of a handler is only logged.\<close>

definition handler_reply :: "frame \<Rightarrow> message_handler \<Rightarrow> frame option" where
  "handler_reply f h = (case h f of Inr reply \<Rightarrow> reply | Inl _ \<Rightarrow> None)"

definition route :: "frame \<Rightarrow> message_router \<Rightarrow> frame list result" where
  "route f r =
     Inr (case map_of (ro_handlers r) (extract_route_key f) of
            Some handlers \<Rightarrow> List.map_filter (handler_reply f) handlers
          | None \<Rightarrow>
              (case ro_default_handler r of
                 Some h \<Rightarrow> List.map_filter (handler_reply f) [h]
               | None \<Rightarrow> []))"

definition remove_route :: "string \<Rightarrow> message_router \<Rightarrow> message_router" where
  "remove_route key r = r\<lparr>ro_handlers := AList.delete key (ro_handlers r)\<rparr>"

definition router_clear :: "message_router \<Rightarrow> message_router" where
  "router_clear r = r\<lparr>ro_handlers := [], ro_default_handler := None\<rparr>"

lemma route_after_register:
  "map_of (ro_handlers (router_register k h r)) k = Some (unwrap_or [] (map_of (ro_handlers r) k) @ [h])"
  by (simp add: router_register_def update_conv)

end
