(* ===== verification/Parser.thy ===== *)
theory Parser
  imports Codec "HOL-Library.Multiset"
begin

text \<open>
  The message parser (\<open>src/src/common/message/parser.rs\<close>): a frame goes out through
  serialize, compress, encrypt and comes in through decrypt, decompress, deserialize,
  either strictly or with the fallbacks that accept unencrypted, uncompressed and
  differently serialized data.
\<close>

section \<open>State\<close>

record message_parser =
  mp_default_format :: serialization_format
  mp_default_compression :: compression_algorithm
  mp_default_encryption :: encryption_algorithm
  mp_custom_format_name :: "string option"

definition parser_new ::
  "serialization_format \<Rightarrow> compression_algorithm \<Rightarrow> encryption_algorithm \<Rightarrow> message_parser" where
  "parser_new f c e =
     \<lparr>mp_default_format = f, mp_default_compression = c, mp_default_encryption = e,
      mp_custom_format_name = None\<rparr>"

definition with_custom_format ::
  "string \<Rightarrow> compression_algorithm \<Rightarrow> encryption_algorithm \<Rightarrow> message_parser" where
  "with_custom_format n c e =
     \<lparr>mp_default_format = Json, mp_default_compression = c, mp_default_encryption = e,
      mp_custom_format_name = Some n\<rparr>"

definition new_with_format_compression ::
  "serialization_format \<Rightarrow> compression_algorithm \<Rightarrow> message_parser" where
  "new_with_format_compression f c = parser_new f c EncNone"

definition parser_protobuf :: message_parser where
  "parser_protobuf = parser_new Protobuf CompNone EncNone"

definition parser_json :: message_parser where
  "parser_json = parser_new Json CompNone EncNone"

definition PRE_NEGOTIATION_PARSER :: message_parser where
  "PRE_NEGOTIATION_PARSER = parser_new Json CompNone EncNone"

section \<open>Outbound\<close>

definition should_compress_payload :: "nat \<Rightarrow> compression_algorithm \<Rightarrow> bool" where
  "should_compress_payload payload_len c = (c \<noteq> CompNone)"

definition encrypt_data :: "codec_env \<Rightarrow> bytes \<Rightarrow> bytes \<Rightarrow> encryption_algorithm \<Rightarrow> bytes result" where
  "encrypt_data env nonce d e =
     (if e = EncNone then Inr d
      else case find_encryptor env (encryption_as_str e) of
             None \<Rightarrow> Inl (localized EncodingError ''Encryptor not found'')
           | Some c \<Rightarrow> en_encrypt c nonce d)"

definition pick_serializer ::
  "codec_env \<Rightarrow> message_parser \<Rightarrow> serialization_format \<Rightarrow> serializer option" where
  "pick_serializer env p f =
     (case mp_custom_format_name p of
        Some n \<Rightarrow> find_serializer env n
      | None \<Rightarrow> find_by_format env f)"

definition serialize_with_format ::
  "codec_env \<Rightarrow> bytes \<Rightarrow> message_parser \<Rightarrow> frame \<Rightarrow> serialization_format \<Rightarrow> compression_algorithm
   \<Rightarrow> encryption_algorithm \<Rightarrow> bytes result" where
  "serialize_with_format env nonce p fr f c e =
     (case pick_serializer env p f of
        None \<Rightarrow> Inl (localized EncodingError ''Serializer not found'')
      | Some s \<Rightarrow>
          (case ser_serialize s fr of
             Inl err \<Rightarrow> Inl err
           | Inr data \<Rightarrow>
               (case (if should_compress_payload (length data) c then compress env data c
                      else Inr data) of
                  Inl err \<Rightarrow> Inl err
                | Inr compressed \<Rightarrow> encrypt_data env nonce compressed e)))"

definition serialize :: "codec_env \<Rightarrow> bytes \<Rightarrow> message_parser \<Rightarrow> frame \<Rightarrow> bytes result" where
  "serialize env nonce p fr =
     serialize_with_format env nonce p fr (mp_default_format p) (mp_default_compression p)
       (mp_default_encryption p)"

section \<open>Inbound\<close>

definition decrypt_data_with_fallback ::
  "codec_env \<Rightarrow> message_parser \<Rightarrow> bytes \<Rightarrow> bool \<Rightarrow> bytes result" where
  "decrypt_data_with_fallback env p d allow_fallback =
     (if mp_default_encryption p = EncNone then Inr d
      else case find_encryptor env (encryption_as_str (mp_default_encryption p)) of
             None \<Rightarrow> Inl (localized DeserializationError ''Encryptor not found'')
           | Some c \<Rightarrow>
               (case en_decrypt c d of
                  Inr out \<Rightarrow> Inr out
                | Inl _ \<Rightarrow>
                    if allow_fallback then Inr d
                    else Inl (localized DeserializationError ''decryption failed'')))"

definition decompress_data_with_fallback ::
  "codec_env \<Rightarrow> message_parser \<Rightarrow> bytes \<Rightarrow> bool \<Rightarrow> bytes result" where
  "decompress_data_with_fallback env p d allow_fallback =
     (if mp_default_compression p = CompNone then Inr d
      else case auto_decompress env d of
             Inr (out, detected) \<Rightarrow>
               if detected \<noteq> CompNone then Inr out
               else if allow_fallback then Inr d
               else Inl (localized DeserializationError ''compression configured but data is not compressed'')
           | Inl _ \<Rightarrow>
               if allow_fallback then Inr d
               else Inl (localized DeserializationError ''decompression failed (strict)''))"

fun first_ok :: "('a \<Rightarrow> 'b option) \<Rightarrow> 'a list \<Rightarrow> 'b option" where
  "first_ok f [] = None"
| "first_ok f (x # xs) = (case f x of Some y \<Rightarrow> Some y | None \<Rightarrow> first_ok f xs)"

definition deserialize_ok :: "bytes \<Rightarrow> serializer \<Rightarrow> frame option" where
  "deserialize_ok d s = (case ser_deserialize s d of Inr f \<Rightarrow> Some f | Inl _ \<Rightarrow> None)"

definition try_all_serializers :: "codec_env \<Rightarrow> bytes \<Rightarrow> frame result" where
  "try_all_serializers env d =
     ok_or (localized DeserializationError ''no compatible serializer found'')
       (first_ok (\<lambda>f. Option.bind (find_by_format env f) (deserialize_ok d)) [Protobuf, Json])"

definition parse_decompressed_with_fallback ::
  "codec_env \<Rightarrow> message_parser \<Rightarrow> bytes \<Rightarrow> bool \<Rightarrow> frame result" where
  "parse_decompressed_with_fallback env p d allow_fallback =
     (case first_ok (deserialize_ok d) (detect_serializers env d) of
        Some f \<Rightarrow> Inr f
      | None \<Rightarrow>
          if allow_fallback then try_all_serializers env d
          else case pick_serializer env p (mp_default_format p) of
                 None \<Rightarrow> Inl (localized DeserializationError ''Serializer not found'')
               | Some s \<Rightarrow>
                   (case ser_deserialize s d of
                      Inr f \<Rightarrow> Inr f
                    | Inl _ \<Rightarrow> Inl (localized DeserializationError ''deserialization failed (strict)'')))"

definition parse_with_fallback :: "codec_env \<Rightarrow> message_parser \<Rightarrow> bytes \<Rightarrow> bool \<Rightarrow> frame result" where
  "parse_with_fallback env p d allow_fallback =
     (case decrypt_data_with_fallback env p d allow_fallback of
        Inl e \<Rightarrow> Inl e
      | Inr decrypted \<Rightarrow>
          (case decompress_data_with_fallback env p decrypted allow_fallback of
             Inl e \<Rightarrow> Inl e
           | Inr decompressed \<Rightarrow> parse_decompressed_with_fallback env p decompressed allow_fallback))"

definition parse :: "codec_env \<Rightarrow> message_parser \<Rightarrow> bytes \<Rightarrow> frame result" where
  "parse env p d = parse_with_fallback env p d True"

definition parse_with_format ::
  "codec_env \<Rightarrow> message_parser \<Rightarrow> bytes \<Rightarrow> serialization_format \<Rightarrow> frame result" where
  "parse_with_format env p d f =
     (case decrypt_data_with_fallback env p d True of
        Inl e \<Rightarrow> Inl e
      | Inr decrypted \<Rightarrow>
          (case decompress_data_with_fallback env p decrypted True of
             Inl e \<Rightarrow> Inl e
           | Inr decompressed \<Rightarrow>
               (case pick_serializer env p f of
                  None \<Rightarrow> Inl (localized DeserializationError ''Serializer not found'')
                | Some s \<Rightarrow> ser_deserialize s decompressed)))"

section \<open>Reading parameters from frame metadata\<close>

definition get_compression_from_frame :: "frame \<Rightarrow> compression_algorithm" where
  "get_compression_from_frame f =
     unwrap_or CompNone
       (Option.bind (Option.bind (map_of (fr_metadata f) ''compression'') from_utf8) compression_from_str)"

definition get_format_from_frame :: "frame \<Rightarrow> serialization_format option" where
  "get_format_from_frame f =
     Option.bind (Option.bind (map_of (fr_metadata f) ''format'') from_utf8)
       (\<lambda>s. if eq_ignore_ascii_case s ''protobuf'' then Some Protobuf
            else if eq_ignore_ascii_case s ''json'' then Some Json
            else None)"

definition get_encryption_from_frame :: "frame \<Rightarrow> encryption_algorithm" where
  "get_encryption_from_frame f =
     unwrap_or EncNone
       (Option.bind (Option.bind (map_of (fr_metadata f) ''encryption'') from_utf8) encryption_from_str)"

section \<open>The stages of a round trip\<close>

text \<open>The registries as a process has them after registering an AES encryptor with a key.\<close>

definition codecs_with_key :: "codec_lib \<Rightarrow> bytes \<Rightarrow> codec_env" where
  "codecs_with_key lib key =
     (case aes256gcm_new lib key of
        Inl _ \<Rightarrow> global_codecs lib
      | Inr c \<Rightarrow> register_custom_encryptor c (global_codecs lib))"

lemma codecs_with_key_serializers [simp]:
  "find_by_format (codecs_with_key lib key) = find_by_format (global_codecs lib)"
  "detect_serializers (codecs_with_key lib key) = detect_serializers (global_codecs lib)"
  "ce_compressors (codecs_with_key lib key) = ce_compressors (global_codecs lib)"
  by (auto simp: codecs_with_key_def aes256gcm_new_def register_custom_encryptor_def
      register_encryptor_def find_by_format_def find_serializer_def detect_serializers_def
      fun_eq_iff)

lemma codecs_with_key_aes:
  "length key = 32 \<Longrightarrow> find_encryptor (codecs_with_key lib key) ''aes256gcm'' =
     Some \<lparr>en_encrypt = aes_encrypt lib key, en_decrypt = aes_decrypt lib key,
           en_algorithm = Aes256Gcm, en_name = ''aes256gcm''\<rparr>"
  by (simp add: codecs_with_key_def aes256gcm_new_def register_custom_encryptor_def
      encryption_registered_def register_encryptor_def find_encryptor_def)

lemma detect_compressor_global:
  "detect_compressor (codecs_with_key lib key) d = (if gzip_can_detect d then Some (gzip_compressor lib) else None)"
  by (simp add: detect_compressor_def no_compressor_def gzip_compressor_def)

lemma decrypt_encrypt:
  assumes "lib_laws lib" "length key = 32" "length nonce = 12"
    and "mp_default_encryption p \<in> {EncNone, Aes256Gcm}"
    and "encrypt_data (codecs_with_key lib key) nonce d (mp_default_encryption p) = Inr c"
  shows "decrypt_data_with_fallback (codecs_with_key lib key) p c fb = Inr d"
  using assms
  by (auto simp: encrypt_data_def decrypt_data_with_fallback_def codecs_with_key_aes
      dest: aes_roundtrip)

lemma decompress_compress:
  assumes "lib_laws lib" "mp_default_compression p \<in> {CompNone, Gzip}"
    and "length d \<le> MAX_GZIP_DECOMPRESSED_LEN"
    and "(if should_compress_payload (length d) (mp_default_compression p)
          then compress (codecs_with_key lib key) d (mp_default_compression p) else Inr d) = Inr z"
  shows "decompress_data_with_fallback (codecs_with_key lib key) p z fb = Inr d"
proof (cases "mp_default_compression p = CompNone")
  case True
  with assms show ?thesis by (simp add: should_compress_payload_def decompress_data_with_fallback_def)
next
  case False
  with assms(2) have gz: "mp_default_compression p = Gzip" by simp
  with assms(4) have "gzip_compress lib d = Inr z"
    by (simp add: should_compress_payload_def compress_def get_compressor_def find_compressor_def
        gzip_compressor_def)
  with gzip_roundtrip [OF assms(1) _ assms(3)] gz show ?thesis
    by (simp add: decompress_data_with_fallback_def auto_decompress_def detect_compressor_global)
       (simp add: gzip_compressor_def)
qed

text \<open>The registries of a process, with the serializers in any order.\<close>

definition codecs_in_order :: "(string \<times> serializer) list \<Rightarrow> codec_lib \<Rightarrow> bytes \<Rightarrow> codec_env" where
  "codecs_in_order ss lib key = (codecs_with_key lib key)\<lparr>ce_serializers := ss\<rparr>"

definition serializer_order :: "codec_lib \<Rightarrow> (string \<times> serializer) list \<Rightarrow> bool" where
  "serializer_order lib ss \<longleftrightarrow> mset ss = mset (ce_serializers (global_codecs lib))"

lemma ce_serializers_global:
  "ce_serializers (global_codecs lib) = [(''protobuf'', protobuf_serializer lib), (''json'', json_serializer lib)]"
  by (simp add: global_codecs_def encryptor_defaults_def compressor_defaults_def serializer_defaults_def
      register_serializer_def register_compressor_def register_encryptor_def)

lemma mset_pairE:
  assumes "mset ss = {#a, b#}"
  obtains "ss = [a, b]" | "ss = [b, a]"
proof -
  have "length ss = 2" using arg_cong [OF assms, of size] by simp
  then obtain x y where ss: "ss = [x, y]" by (auto simp: length_Suc_conv eval_nat_numeral)
  with assms have "x = a \<and> y = b \<or> x = b \<and> y = a" by (auto simp: add_eq_conv_diff)
  with ss that show thesis by blast
qed

lemma serializer_orderE:
  assumes "serializer_order lib ss"
  obtains "ss = [(''protobuf'', protobuf_serializer lib), (''json'', json_serializer lib)]"
    | "ss = [(''json'', json_serializer lib), (''protobuf'', protobuf_serializer lib)]"
proof -
  have "mset ss = {#(''protobuf'', protobuf_serializer lib), (''json'', json_serializer lib)#}"
    using assms by (simp add: serializer_order_def ce_serializers_global)
  then show thesis using that by (rule mset_pairE)
qed

lemma codecs_in_order_simps [simp]:
  "ce_compressors (codecs_in_order ss lib key) = ce_compressors (codecs_with_key lib key)"
  "find_encryptor (codecs_in_order ss lib key) = find_encryptor (codecs_with_key lib key)"
  "compress (codecs_in_order ss lib key) = compress (codecs_with_key lib key)"
  "encrypt_data (codecs_in_order ss lib key) = encrypt_data (codecs_with_key lib key)"
  "auto_decompress (codecs_in_order ss lib key) = auto_decompress (codecs_with_key lib key)"
  by (simp_all add: codecs_in_order_def find_encryptor_def compress_def get_compressor_def find_compressor_def
      encrypt_data_def auto_decompress_def detect_compressor_def fun_eq_iff)

lemma codecs_in_order_inbound [simp]:
  "decrypt_data_with_fallback (codecs_in_order ss lib key) = decrypt_data_with_fallback (codecs_with_key lib key)"
  "decompress_data_with_fallback (codecs_in_order ss lib key) = decompress_data_with_fallback (codecs_with_key lib key)"
  by (simp_all add: decrypt_data_with_fallback_def decompress_data_with_fallback_def fun_eq_iff)

lemma find_in_order:
  assumes "serializer_order lib ss"
  shows "find_by_format (codecs_in_order ss lib key) Protobuf = Some (protobuf_serializer lib)"
    and "find_by_format (codecs_in_order ss lib key) Json = Some (json_serializer lib)"
  using assms by (elim serializer_orderE; simp add: find_by_format_def find_serializer_def codecs_in_order_def)+

text \<open>The data of a serialized frame.  Detection offers data that starts with a brace to both decoders, so that a JSON
  text is read back if the protobuf decoder refuses it.\<close>

lemma parse_decompressed_serialized:
  assumes laws: "lib_laws lib" and order: "serializer_order lib ss" and custom: "mp_custom_format_name p = None"
    and ser: "pick_serializer (codecs_in_order ss lib key) p (mp_default_format p) = Some s" "ser_serialize s fr = Inr d"
    and json: "mp_default_format p = Json \<Longrightarrow> lib_pb_decode lib d = None"
  shows "parse_decompressed_with_fallback (codecs_in_order ss lib key) p d fb = Inr fr"
proof (cases "mp_default_format p")
  case Protobuf
  then have s: "s = protobuf_serializer lib"
    using ser(1) custom by (simp add: pick_serializer_def find_in_order [OF order])
  with ser(2) have "lib_pb_encode lib fr = Some d" by (simp add: protobuf_serializer_def)
  with laws have dec: "lib_pb_decode lib d = Some fr"
    and brace: "\<And>c r. d = c # r \<Longrightarrow> c \<noteq> CHR ''{'' \<and> c \<noteq> CHR ''[''" unfolding lib_laws_def by blast+
  have "json_serializer lib \<in> set xs \<Longrightarrow> \<not> ser_can_detect (json_serializer lib) d" for xs
    using brace by (simp add: json_serializer_def split: list.splits)
  with order show ?thesis
    using dec Protobuf custom brace
    by (elim serializer_orderE; cases d)
       (simp_all add: parse_decompressed_with_fallback_def detect_serializers_def codecs_in_order_def deserialize_ok_def
         protobuf_serializer_def json_serializer_def try_all_serializers_def find_by_format_def find_serializer_def
         pick_serializer_def ok_or_def)
next
  case Json
  then have s: "s = json_serializer lib"
    using ser(1) custom by (simp add: pick_serializer_def find_in_order [OF order])
  with ser(2) have "lib_json_encode lib fr = Some d" by (simp add: json_serializer_def)
  with laws obtain r where "d = CHR ''{'' # r" "lib_json_decode lib d = Some fr" unfolding lib_laws_def by blast
  with order json [OF Json] show ?thesis
    by (elim serializer_orderE)
       (simp_all add: parse_decompressed_with_fallback_def detect_serializers_def codecs_in_order_def deserialize_ok_def
         protobuf_serializer_def json_serializer_def ok_or_def)
qed

section \<open>Concrete codecs for the witnesses\<close>

definition ex_frame :: frame where
  "ex_frame = \<lparr>fr_command = None, fr_message_id = ''m'', fr_reliability = 0, fr_timestamp = 1,
     fr_metadata = []\<rparr>"

definition ex_lib :: codec_lib where
  "ex_lib =
     \<lparr>lib_pb_encode = (\<lambda>f. if f = ex_frame then Some ''pb'' else None),
      lib_pb_decode = (\<lambda>d. if d = ''pb'' then Some ex_frame else None),
      lib_json_encode = (\<lambda>f. if f = ex_frame then Some ''{}'' else None),
      lib_json_decode = (\<lambda>d. if d = ''{}'' then Some ex_frame else None),
      lib_gz_encode = (\<lambda>d. Some (CHR 0x1F # CHR 0x8B # d)),
      lib_gz_read = (\<lambda>d n. if gzip_can_detect d then Some (take n (drop 2 d)) else None),
      lib_seal = (\<lambda>k n d. Some (''tag'' @ d)),
      lib_open = (\<lambda>k n c. strip_prefix ''tag'' c)\<rparr>"

lemma ex_lib_laws: "lib_laws ex_lib"
  by (auto simp: lib_laws_def ex_lib_def gzip_can_detect_def split: if_splits)

definition ex_key :: bytes where
  "ex_key = replicate 32 CHR ''k''"

definition ex_nonce :: bytes where
  "ex_nonce = replicate 12 CHR ''n''"

section \<open>Properties\<close>

text \<open>C8: Wire round trip. With the built-in serializers, gzip or no compression, and AES-256-GCM
  or no encryption, what a parser serializes is parsed back to the same frame by a parser with the
  same configuration, in strict mode as well as with fallbacks and in whatever order the serializers are tried, as long
  as the serialized frame is within the 16 MiB decompression limit and, for JSON, its text is not a protobuf message as
  well. A JSON text that the protobuf decoder also accepts is read as that other frame, even by a strict parser that is
  configured for JSON, when protobuf happens to be tried first.\<close>

theorem parser_roundtrip:
  assumes "lib_laws lib" "serializer_order lib ss" "length key = 32" "length nonce = 12"
    and "p = parser_new fmt c e" "c \<in> {CompNone, Gzip}" "e \<in> {EncNone, Aes256Gcm}"
    and "serialize (codecs_in_order ss lib key) nonce p fr = Inr wire"
    and "find_by_format (codecs_in_order ss lib key) fmt = Some s" "ser_serialize s fr = Inr d"
    and "length d \<le> MAX_GZIP_DECOMPRESSED_LEN"
  shows "((fmt = Json \<longrightarrow> lib_pb_decode lib d = None) \<longrightarrow>
      parse_with_fallback (codecs_in_order ss lib key) p wire allow_fallback = Inr fr)
    \<and> (fmt = Json \<and> lib_pb_decode lib d = Some fr' \<and> fst (hd ss) = ''protobuf'' \<longrightarrow>
      parse_with_fallback (codecs_in_order ss lib key) p wire allow_fallback = Inr fr')"
proof -
  let ?env = "codecs_in_order ss lib key"
  have p: "mp_default_format p = fmt" "mp_default_compression p = c" "mp_default_encryption p = e"
    "mp_custom_format_name p = None"
    by (simp_all add: assms(5) parser_new_def)
  have s: "pick_serializer ?env p (mp_default_format p) = Some s"
    using assms(9) p by (simp add: pick_serializer_def)
  obtain z where z: "(if should_compress_payload (length d) (mp_default_compression p)
             then compress ?env d (mp_default_compression p) else Inr d) = Inr z"
    and w: "encrypt_data ?env nonce z (mp_default_encryption p) = Inr wire"
    using assms(8) s assms(10) p by (auto simp: serialize_def serialize_with_format_def split: option.splits sum.splits)
  have dec: "decompress_data_with_fallback ?env p z allow_fallback = Inr d"
    using decompress_compress [OF assms(1) _ assms(11), of p] z [unfolded codecs_in_order_simps] assms(6) p by simp
  have "decrypt_data_with_fallback ?env p wire allow_fallback = Inr z"
    using decrypt_encrypt [OF assms(1,3,4)] w assms(7) p by simp
  with dec have parse: "parse_with_fallback ?env p wire allow_fallback = parse_decompressed_with_fallback ?env p d allow_fallback"
    by (simp add: parse_with_fallback_def)
  have "(fmt = Json \<longrightarrow> lib_pb_decode lib d = None) \<longrightarrow> parse_with_fallback ?env p wire allow_fallback = Inr fr"
    unfolding parse using parse_decompressed_serialized [OF assms(1,2) p(4) s assms(10)] p(1) by simp
  moreover have "fmt = Json \<and> lib_pb_decode lib d = Some fr' \<and> fst (hd ss) = ''protobuf'' \<longrightarrow>
      parse_with_fallback ?env p wire allow_fallback = Inr fr'"
  proof
    assume *: "fmt = Json \<and> lib_pb_decode lib d = Some fr' \<and> fst (hd ss) = ''protobuf''"
    then have "s = json_serializer lib" using assms(9) by (simp add: find_in_order [OF assms(2)])
    with assms(10) have "lib_json_encode lib fr = Some d" by (simp add: json_serializer_def)
    with assms(1) have "d \<noteq> []" unfolding lib_laws_def by blast
    with * assms(2) show "parse_with_fallback ?env p wire allow_fallback = Inr fr'"
      unfolding parse
      by (elim serializer_orderE)
         (simp_all add: parse_decompressed_with_fallback_def detect_serializers_def codecs_in_order_def deserialize_ok_def
           protobuf_serializer_def ok_or_def)
  qed
  ultimately show ?thesis by blast
qed

theorem parser_roundtrip_witness:
  "parse_with_fallback (codecs_in_order (ce_serializers (global_codecs ex_lib)) ex_lib ex_key) (parser_new Json Gzip Aes256Gcm)
     (ex_nonce @ ''tag'' @ [CHR 0x1F, CHR 0x8B] @ ''{}'') False = Inr ex_frame"
proof -
  let ?ss = "ce_serializers (global_codecs ex_lib)"
  have key: "length ex_key = 32" and nonce: "length ex_nonce = 12"
    by (simp_all add: ex_key_def ex_nonce_def)
  have order: "serializer_order ex_lib ?ss" by (simp add: serializer_order_def)
  have js: "find_by_format (codecs_in_order ?ss ex_lib ex_key) Json = Some (json_serializer ex_lib)"
    by (rule find_in_order [OF order])
  have d: "ser_serialize (json_serializer ex_lib) ex_frame = Inr ''{}''"
    by (simp add: json_serializer_def ex_lib_def)
  have z: "compress (codecs_with_key ex_lib ex_key) ''{}'' Gzip = Inr [CHR 0x1F, CHR 0x8B, CHR ''{'', CHR ''}'']"
    by (simp add: compress_def get_compressor_def find_compressor_def gzip_compressor_def gzip_compress_def ok_or_def)
       (simp add: ex_lib_def)
  have ser: "serialize (codecs_in_order ?ss ex_lib ex_key) ex_nonce (parser_new Json Gzip Aes256Gcm) ex_frame
      = Inr (ex_nonce @ ''tag'' @ [CHR 0x1F, CHR 0x8B] @ ''{}'')"
    using z by (simp add: serialize_def serialize_with_format_def parser_new_def pick_serializer_def js d
        should_compress_payload_def encrypt_data_def codecs_with_key_aes [OF key] aes_encrypt_def)
       (simp add: ex_lib_def)
  show ?thesis
    using parser_roundtrip [OF ex_lib_laws order key nonce refl _ _ ser js d, of False]
    by (simp add: ex_lib_def MAX_GZIP_DECOMPRESSED_LEN_def)
qed

text \<open>C9: No downgrade in strict mode. When encryption is configured, a strictly parsed frame was
  obtained from data the registered encryptor decrypted; when compression is configured, the
  decrypted data was recognised and decompressed by a registered compressor; and the frame is what the remaining data
  is deserialized to. Plaintext or uncompressed data is never accepted.\<close>

theorem strict_parse_no_downgrade:
  assumes "parse_with_fallback env p d False = Inr fr"
  shows "\<exists>pt out. (if mp_default_encryption p = EncNone then pt = d
               else \<exists>c. find_encryptor env (encryption_as_str (mp_default_encryption p)) = Some c
                        \<and> en_decrypt c d = Inr pt)
            \<and> (if mp_default_compression p = CompNone then out = pt
               else \<exists>cp. detect_compressor env pt = Some cp \<and> cp_decompress cp pt = Inr out \<and> cp_algorithm cp \<noteq> CompNone)
            \<and> parse_decompressed_with_fallback env p out False = Inr fr"
proof -
  from assms obtain pt out where
    pt: "decrypt_data_with_fallback env p d False = Inr pt"
    and out: "decompress_data_with_fallback env p pt False = Inr out"
    and fr: "parse_decompressed_with_fallback env p out False = Inr fr"
    by (auto simp: parse_with_fallback_def split: sum.splits)
  from pt have "if mp_default_encryption p = EncNone then pt = d
               else \<exists>c. find_encryptor env (encryption_as_str (mp_default_encryption p)) = Some c
                        \<and> en_decrypt c d = Inr pt"
    by (auto simp: decrypt_data_with_fallback_def split: option.splits sum.splits if_splits)
  moreover from out have "if mp_default_compression p = CompNone then out = pt
      else \<exists>cp. detect_compressor env pt = Some cp \<and> cp_decompress cp pt = Inr out \<and> cp_algorithm cp \<noteq> CompNone"
    by (auto simp: decompress_data_with_fallback_def auto_decompress_def
        split: option.splits sum.splits if_splits)
  ultimately show ?thesis using fr by blast
qed

theorem strict_parse_no_downgrade_witness:
  "\<exists>pt c. find_encryptor (codecs_with_key ex_lib ex_key) ''aes256gcm'' = Some c
        \<and> en_decrypt c (ex_nonce @ ''tag{}'') = Inr pt
        \<and> parse_decompressed_with_fallback (codecs_with_key ex_lib ex_key) (parser_new Json CompNone Aes256Gcm) pt False = Inr ex_frame"
proof -
  have key: "length ex_key = 32" by (simp add: ex_key_def)
  let ?p = "parser_new Json CompNone Aes256Gcm"
  have "parse_with_fallback (codecs_with_key ex_lib ex_key) ?p (ex_nonce @ ''tag{}'') False = Inr ex_frame"
    by (simp add: parse_with_fallback_def decrypt_data_with_fallback_def parser_new_def
        codecs_with_key_aes [OF key] aes_decrypt_def ex_nonce_def ex_lib_def ok_or_def
        decompress_data_with_fallback_def parse_decompressed_with_fallback_def
        detect_serializers_def protobuf_serializer_def json_serializer_def deserialize_ok_def)
  from strict_parse_no_downgrade [OF this] show ?thesis
    by (auto simp: parser_new_def)
qed

text \<open>A negotiated algorithm that is not registered breaks the connection. With the built-in
  registries, a parser configured for zstd (or any unregistered compression) sends its frames
  uncompressed, and the peer's strict parser with the same configuration rejects every one of them
  that does not happen to look like gzip.\<close>

theorem unregistered_compression_rejected:
  assumes "c \<noteq> CompNone" "\<not> compression_registered (codecs_with_key lib key) (compression_as_str c)"
    and "serialize (codecs_with_key lib key) nonce (parser_new fmt c EncNone) fr = Inr wire"
    and "\<not> gzip_can_detect wire"
  shows "(\<exists>s. find_by_format (global_codecs lib) fmt = Some s \<and> ser_serialize s fr = Inr wire)
         \<and> (\<exists>e. parse_with_fallback (codecs_with_key lib key) (parser_new fmt c EncNone) wire False = Inl e)"
proof -
  have "get_compressor (codecs_with_key lib key) c = no_compressor"
    using assms(2) by (auto simp: compression_registered_def get_compressor_def find_compressor_def)
  with assms(1,3) have "\<exists>s. find_by_format (global_codecs lib) fmt = Some s \<and> ser_serialize s fr = Inr wire"
    by (auto simp: serialize_def serialize_with_format_def parser_new_def pick_serializer_def
        should_compress_payload_def compress_def no_compressor_def encrypt_data_def
        split: option.splits sum.splits)
  moreover have "\<exists>e. parse_with_fallback (codecs_with_key lib key) (parser_new fmt c EncNone) wire False = Inl e"
    using assms(1,4)
    by (simp add: parse_with_fallback_def decrypt_data_with_fallback_def parser_new_def
        decompress_data_with_fallback_def auto_decompress_def detect_compressor_global)
  ultimately show ?thesis by blast
qed

theorem unregistered_compression_rejected_witness:
  "\<exists>e. parse_with_fallback (codecs_with_key ex_lib ex_key) (parser_new Json Zstd EncNone) ''{}'' False = Inl e"
proof -
  have ser: "serialize (codecs_with_key ex_lib ex_key) [] (parser_new Json Zstd EncNone) ex_frame = Inr ''{}''"
    by (simp add: serialize_def serialize_with_format_def parser_new_def pick_serializer_def
        json_serializer_def ex_lib_def should_compress_payload_def compress_def get_compressor_def
        find_compressor_def no_compressor_def encrypt_data_def ok_or_def)
  show ?thesis
    using unregistered_compression_rejected [OF _ _ ser]
    by (simp add: compression_registered_def gzip_can_detect_def)
qed

text \<open>C10: Decompression is bounded. Whatever bytes a peer sends, auto_decompress with the built-in
  compressors returns at most 16 MiB, everything the decoder has to give, or, for data that is not gzip, the input
  itself. Compressed data is returned in full up to the limit and refused beyond it, never cut off.\<close>

theorem auto_decompress_bounded:
  "(\<forall>out a. auto_decompress (codecs_with_key lib key) d = Inr (out, a) \<longrightarrow>
      length out \<le> MAX_GZIP_DECOMPRESSED_LEN \<and> a = Gzip \<and> lib_gz_read lib d (MAX_GZIP_DECOMPRESSED_LEN + 1) = Some out
      \<or> out = d \<and> a = CompNone \<and> \<not> gzip_can_detect d)
   \<and> (lib_laws lib \<and> lib_gz_encode lib plain = Some d \<longrightarrow>
      (if length plain \<le> MAX_GZIP_DECOMPRESSED_LEN then auto_decompress (codecs_with_key lib key) d = Inr (plain, Gzip)
       else \<exists>e. auto_decompress (codecs_with_key lib key) d = Inl e))"
proof -
  have auto: "auto_decompress (codecs_with_key lib key) d =
      (if gzip_can_detect d then (case gzip_decompress lib d of Inl e \<Rightarrow> Inl e | Inr out \<Rightarrow> Inr (out, Gzip)) else Inr (d, CompNone))"
    by (auto simp: auto_decompress_def detect_compressor_global gzip_compressor_def split: sum.splits)
  have gz: "lib_laws lib \<and> lib_gz_encode lib plain = Some d \<longrightarrow> gzip_can_detect d \<and> gzip_compress lib plain = Inr d"
    by (auto simp: gzip_compress_def lib_laws_def)
  show ?thesis unfolding auto
    using gz gzip_roundtrip [of lib plain d] gzip_bomb_rejected [of lib plain d]
    by (auto simp: gzip_decompress_def not_le split: if_splits option.splits)
qed

theorem auto_decompress_bounded_witness:
  "auto_decompress (codecs_with_key ex_lib ex_key) [CHR 0x1F, CHR 0x8B, CHR ''{'', CHR ''}''] = Inr (''{}'', Gzip)
   \<and> (\<exists>e. auto_decompress (codecs_with_key ex_lib ex_key)
        (CHR 0x1F # CHR 0x8B # replicate (MAX_GZIP_DECOMPRESSED_LEN + 1) CHR ''a'') = Inl e)"
proof -
  let ?big = "replicate (MAX_GZIP_DECOMPRESSED_LEN + 1) CHR ''a''"
  have enc: "lib_gz_encode ex_lib x = Some (CHR 0x1F # CHR 0x8B # x)" for x by (simp add: ex_lib_def)
  have "\<exists>e. auto_decompress (codecs_with_key ex_lib ex_key) (CHR 0x1F # CHR 0x8B # ?big) = Inl e"
    using conjunct2 [OF auto_decompress_bounded [of ex_lib ex_key "CHR 0x1F # CHR 0x8B # ?big" ?big]] ex_lib_laws enc
    by simp
  moreover have "auto_decompress (codecs_with_key ex_lib ex_key) (CHR 0x1F # CHR 0x8B # ''{}'') = Inr (''{}'', Gzip)"
    using conjunct2 [OF auto_decompress_bounded [of ex_lib ex_key "CHR 0x1F # CHR 0x8B # ''{}''" "''{}''"]] ex_lib_laws enc
    by (simp add: MAX_GZIP_DECOMPRESSED_LEN_def)
  ultimately show ?thesis by simp
qed

end
