(* ===== verification/Kick.thy ===== *)
theory Kick
  imports Protocol Device Config
begin

text \<open>
  Typed reasons of disconnections: KICKED commands (\<open>src/src/common/kick.rs\<close>) and the CLOSE command of a
  server that shuts down (\<open>src/src/common/shutdown.rs\<close>), as the server builds them and as the client
  classifies them.  The debug text of a platform and the random number of the reconnect delay are
  arguments.
\<close>

section \<open>Kicks\<close>

definition DEVICE_CONFLICT_REASON :: string where "DEVICE_CONFLICT_REASON = ''DEVICE_CONFLICT''"
definition TENANT_UNAVAILABLE_REASON :: string where "TENANT_UNAVAILABLE_REASON = ''TENANT_UNAVAILABLE''"
definition LEGACY_DEVICE_CONFLICT_REASON :: string where "LEGACY_DEVICE_CONFLICT_REASON = ''device_conflict''"
definition UNSPECIFIED_KICK_REASON :: string where "UNSPECIFIED_KICK_REASON = ''KICKED''"

definition device_conflict_kicked :: "(device_platform \<Rightarrow> string) \<Rightarrow> device_platform \<Rightarrow> string \<Rightarrow> system_command" where
  "device_conflict_kicked debug platform new_device_id =
     kicked DEVICE_CONFLICT_REASON
       (Some [(''reason'', DEVICE_CONFLICT_REASON), (''platform'', debug platform),
              (''new_device_id'', new_device_id)])"

definition has_reason_token :: "string \<Rightarrow> string \<Rightarrow> bool" where
  "has_reason_token reason token =
     (case strip_prefix token (trim reason) of
        None \<Rightarrow> False
      | Some rest \<Rightarrow> rest = [] \<or> starts_with '':'' rest)"

definition is_device_conflict_reason :: "string \<Rightarrow> bool" where
  "is_device_conflict_reason reason = has_reason_token reason DEVICE_CONFLICT_REASON"

definition ends_session :: "string \<Rightarrow> bool" where
  "ends_session reason \<longleftrightarrow>
     has_reason_token reason DEVICE_CONFLICT_REASON \<or> has_reason_token reason TENANT_UNAVAILABLE_REASON"

definition metadata_reason :: "system_command \<Rightarrow> string option" where
  "metadata_reason c = Option.bind (map_of (sc_metadata c) ''reason'') from_utf8"

definition is_device_conflict_kick :: "system_command \<Rightarrow> bool" where
  "is_device_conflict_kick c \<longleftrightarrow>
     sc_type c = system_type_as_i32 SysKicked \<and>
     (is_device_conflict_reason (sc_message c) \<or>
      (case metadata_reason c of
         None \<Rightarrow> False
       | Some reason \<Rightarrow> eq_ignore_ascii_case (trim reason) LEGACY_DEVICE_CONFLICT_REASON))"

definition kick_reason :: "system_command \<Rightarrow> string" where
  "kick_reason c =
     (if is_device_conflict_kick c then DEVICE_CONFLICT_REASON
      else (let message = trim (sc_message c) in
            if message \<noteq> [] then message
            else unwrap_or UNSPECIFIED_KICK_REASON
                   (filter_option (\<lambda>r. r \<noteq> []) (map_option trim (metadata_reason c)))))"

section \<open>Shutdown\<close>

definition SERVER_SHUTDOWN_REASON :: string where "SERVER_SHUTDOWN_REASON = ''SERVER_SHUTDOWN''"
definition SERVER_SHUTDOWN_CODE :: string where "SERVER_SHUTDOWN_CODE = ''SERVICE_UNAVAILABLE''"
definition SERVER_SHUTDOWN_CLOSE_GRACE :: duration where "SERVER_SHUTDOWN_CLOSE_GRACE = from_secs 1"
definition SERVER_SHUTDOWN_RECONNECT_MIN :: duration where "SERVER_SHUTDOWN_RECONNECT_MIN = from_secs 1"
definition SERVER_SHUTDOWN_RECONNECT_MAX :: duration where "SERVER_SHUTDOWN_RECONNECT_MAX = from_secs 5"

definition server_shutdown_close :: system_command where
  "server_shutdown_close =
     close (Some SERVER_SHUTDOWN_REASON)
       (Some [(''reason'', SERVER_SHUTDOWN_REASON), (''code'', SERVER_SHUTDOWN_CODE)])"

definition server_shutdown_close_frame :: "stamp \<Rightarrow> frame \<times> stamp" where
  "server_shutdown_close_frame st = frame_with_system_command server_shutdown_close BestEffort st"

definition is_server_shutdown_close :: "system_command \<Rightarrow> bool" where
  "is_server_shutdown_close c \<longleftrightarrow>
     sc_type c = system_type_as_i32 SysClose \<and>
     (trim (sc_message c) = SERVER_SHUTDOWN_REASON
      \<or> map_of (sc_metadata c) ''reason'' = Some SERVER_SHUTDOWN_REASON)"

definition is_server_shutdown_reason :: "string \<Rightarrow> bool" where
  "is_server_shutdown_reason reason = has_reason_token reason SERVER_SHUTDOWN_REASON"

text \<open>\<open>gen_range(min..=max)\<close> on milliseconds; \<open>r\<close> is the random number drawn.\<close>

definition server_shutdown_reconnect_delay :: "nat \<Rightarrow> duration" where
  "server_shutdown_reconnect_delay r =
     (let lo = as_millis SERVER_SHUTDOWN_RECONNECT_MIN;
          hi = as_millis SERVER_SHUTDOWN_RECONNECT_MAX
      in from_millis (lo + r mod (hi - lo + 1)))"

lemmas reason_defs =
  DEVICE_CONFLICT_REASON_def TENANT_UNAVAILABLE_REASON_def LEGACY_DEVICE_CONFLICT_REASON_def
  UNSPECIFIED_KICK_REASON_def SERVER_SHUTDOWN_REASON_def SERVER_SHUTDOWN_CODE_def

text \<open>A text that begins and ends with an upper-case letter is its own trimming.\<close>

abbreviation upper_letters :: string where
  "upper_letters \<equiv> ''ABCDEFGHIJKLMNOPQRSTUVWXYZ''"

lemma white_space_not_upper:
  "list_all (\<lambda>w. w \<noteq> [] \<and> hd w \<notin> set upper_letters \<and> hd (rev w) \<notin> set upper_letters) white_space_encodings"
  by code_simp

lemma not_starts_with_hd: "w \<noteq> [] \<Longrightarrow> hd w \<noteq> hd s \<Longrightarrow> \<not> starts_with w s"
  by (auto simp: starts_with_iff)

lemma trim_hd_last:
  assumes "\<forall>w \<in> set white_space_encodings. w \<noteq> [] \<and> hd w \<notin> U \<and> hd (rev w) \<notin> U"
    and "hd s \<in> U" and "hd (rev s) \<in> U"
  shows "trim s = s"
proof -
  have 1: "\<not> starts_with w s" if "w \<in> set white_space_encodings" for w
    using assms(1) [rule_format, OF that] assms(2) by (intro not_starts_with_hd) auto
  have 2: "\<not> starts_with (rev w) (rev s)" if "w \<in> set white_space_encodings" for w
    using assms(1) [rule_format, OF that] assms(3) by (intro not_starts_with_hd) auto
  have "strip_any white_space_encodings s = None" "strip_any (map rev white_space_encodings) (rev s) = None"
    using 1 2 by (auto simp: strip_any_none_iff)
  then show ?thesis by (simp add: trim_def trim_start_def trim_end_def trim_start_with_id)
qed

lemmas trim_upper = trim_hd_last [OF white_space_not_upper [unfolded list_all_iff]]

lemma trim_reasons [simp]:
  "trim DEVICE_CONFLICT_REASON = DEVICE_CONFLICT_REASON"
  "trim TENANT_UNAVAILABLE_REASON = TENANT_UNAVAILABLE_REASON"
  "trim SERVER_SHUTDOWN_REASON = SERVER_SHUTDOWN_REASON"
  by (simp_all add: trim_upper reason_defs)

lemma token_unique: "has_reason_token r ''SERVER_SHUTDOWN'' \<Longrightarrow> \<not> ends_session r"
  by (auto simp: ends_session_def has_reason_token_def reason_defs strip_prefix_Some split: option.splits)

section \<open>Properties\<close>

text \<open>What the server says when it drops a connection, the client understands: the KICKED command
  of a device conflict is read back as that typed reason, which ends the session, whatever platform
  and device id it carries; the CLOSE command of a shutdown is recognised and is no kick; and no
  reason is both a shutdown (reconnect after a random delay of one to five seconds) and the end of
  the session (no reconnect).\<close>

theorem typed_reasons_understood:
  "kick_reason (device_conflict_kicked debug platform dev) = DEVICE_CONFLICT_REASON
   \<and> ends_session (kick_reason (device_conflict_kicked debug platform dev))
   \<and> \<not> is_server_shutdown_close (device_conflict_kicked debug platform dev)
   \<and> is_server_shutdown_close server_shutdown_close \<and> \<not> is_device_conflict_kick server_shutdown_close
   \<and> is_server_shutdown_reason (sc_message server_shutdown_close)
   \<and> \<not> (is_server_shutdown_reason r \<and> ends_session r)
   \<and> SERVER_SHUTDOWN_RECONNECT_MIN \<le> server_shutdown_reconnect_delay rnd
   \<and> server_shutdown_reconnect_delay rnd \<le> SERVER_SHUTDOWN_RECONNECT_MAX"
proof (intro conjI)
  have tok: "has_reason_token DEVICE_CONFLICT_REASON DEVICE_CONFLICT_REASON"
    "has_reason_token SERVER_SHUTDOWN_REASON SERVER_SHUTDOWN_REASON"
    using strip_prefix_append [of _ "[]"] by (simp_all add: has_reason_token_def)
  then show r: "kick_reason (device_conflict_kicked debug platform dev) = DEVICE_CONFLICT_REASON"
    by (simp add: kick_reason_def is_device_conflict_kick_def is_device_conflict_reason_def
        device_conflict_kicked_def kicked_def create_system_command_with_message_def)
  show "ends_session (kick_reason (device_conflict_kicked debug platform dev))"
    using tok r by (simp add: ends_session_def)
  show "\<not> is_server_shutdown_close (device_conflict_kicked debug platform dev)"
    by (simp add: is_server_shutdown_close_def device_conflict_kicked_def kicked_def
        create_system_command_with_message_def)
  show "is_server_shutdown_close server_shutdown_close" "\<not> is_device_conflict_kick server_shutdown_close"
    "is_server_shutdown_reason (sc_message server_shutdown_close)"
    using tok by (simp_all add: is_server_shutdown_close_def is_device_conflict_kick_def server_shutdown_close_def
        close_def create_system_command_with_message_def is_server_shutdown_reason_def)
  show "\<not> (is_server_shutdown_reason r \<and> ends_session r)"
    using token_unique [of r] by (auto simp: is_server_shutdown_reason_def SERVER_SHUTDOWN_REASON_def)
  have "rnd mod 4001 \<le> 4000" by (simp add: less_Suc_eq_le [symmetric])
  then show "SERVER_SHUTDOWN_RECONNECT_MIN \<le> server_shutdown_reconnect_delay rnd"
    "server_shutdown_reconnect_delay rnd \<le> SERVER_SHUTDOWN_RECONNECT_MAX"
    by (simp_all add: server_shutdown_reconnect_delay_def SERVER_SHUTDOWN_RECONNECT_MIN_def
        SERVER_SHUTDOWN_RECONNECT_MAX_def from_secs_def from_millis_def as_millis_def Let_def)
qed

end
