(* ===== verification/ClientConnect.thy ===== *)
theory ClientConnect
  imports ClientConfig Parser Kick
begin

text \<open>
  The client's side of the negotiation (\<open>src/src/client/transports/client_core_connect.rs\<close>, and the errors
  of a refused CONNECT in \<open>src/src/client/transports/client_core.rs\<close>): the metadata of CONNECT, the reading
  of CONNECT_ACK, NEGOTIATION_READY.  Texts that the source only logs are left out.
\<close>

section \<open>CONNECT\<close>

definition determine_initial_format :: "client_config \<Rightarrow> serialization_format \<times> compression_algorithm" where
  "determine_initial_format cfg =
     (if is_force_format cfg then (get_serialization_format cfg, cl_get_compression cfg) else (Json, CompNone))"

definition determine_connect_format ::
  "client_config \<Rightarrow> serialization_format \<times> compression_algorithm \<times> bool" where
  "determine_connect_format cfg =
     (if is_force_format cfg then (get_serialization_format cfg, cl_get_compression cfg, True)
      else if cl_serialization_format cfg \<noteq> Json then (cl_serialization_format cfg, cl_compression cfg, True)
      else (cl_serialization_format cfg, cl_compression cfg, False))"

definition accepted_compressions :: "codec_env \<Rightarrow> string list" where
  "accepted_compressions env =
     filter (compression_registered env) (map compression_as_str [Gzip, Zstd])"

fun join_str :: "string \<Rightarrow> string list \<Rightarrow> string" where
  "join_str sep [] = []"
| "join_str sep [x] = x"
| "join_str sep (x # xs) = x @ sep @ join_str sep xs"

definition insert_all :: "(string, string) amap \<Rightarrow> meta \<Rightarrow> meta" where
  "insert_all kvs md = fold (\<lambda>(k, v). AList.update k v) kvs md"

definition insert_opt :: "string \<Rightarrow> string option \<Rightarrow> meta \<Rightarrow> meta" where
  "insert_opt k v md = (case v of None \<Rightarrow> md | Some x \<Rightarrow> AList.update k x md)"

definition add_device_metadata :: "client_config \<Rightarrow> meta \<Rightarrow> meta" where
  "add_device_metadata cfg md =
     (case cl_device_info cfg of
        None \<Rightarrow> md
      | Some d \<Rightarrow>
          insert_all (di_metadata d)
            (insert_opt ''system_version'' (di_system_version d)
              (insert_opt ''app_version'' (di_app_version d)
                (insert_opt ''model'' (di_model d)
                  (AList.update ''platform'' (platform_as_str (di_platform d))
                    (AList.update ''device_id'' (di_device_id d) md))))))"

fun format_name :: "serialization_format \<Rightarrow> string" where
  "format_name Protobuf = ''protobuf''"
| "format_name Json = ''json''"

definition build_connect_metadata :: "codec_env \<Rightarrow> client_config \<Rightarrow> meta" where
  "build_connect_metadata env cfg =
     (case determine_connect_format cfg of
        (fmt, cmpr, should_send_format) \<Rightarrow>
          (let md0 = (if should_send_format then AList.update ''format'' (format_name fmt) [] else []);
               md1 = (if cmpr \<noteq> CompNone then AList.update ''compression'' (compression_as_str cmpr) md0 else md0);
               accepted = accepted_compressions env;
               md2 = (if accepted \<noteq> [] then AList.update ''accept_compression'' (join_str '','' accepted) md1
                      else md1);
               md3 = (if is_force_format cfg then AList.update ''force_format'' ''true'' md2 else md2);
               md4 = add_device_metadata cfg md3;
               md5 = insert_opt ''user_id'' (cl_user_id cfg) md4;
               md6 = insert_opt ''token'' (cl_token cfg) md5
           in insert_all (cl_metadata cfg) md6))"

definition connect_frame :: "codec_env \<Rightarrow> client_config \<Rightarrow> stamp \<Rightarrow> frame" where
  "connect_frame env cfg st =
     fst (frame_with_system_command (connect Json (build_connect_metadata env cfg)) AtLeastOnce st)"

text \<open>\<open>parser\<close> is the client's current parser; only a client with a forced format uses it here.\<close>

definition serialize_connect_frame ::
  "codec_env \<Rightarrow> bytes \<Rightarrow> client_config \<Rightarrow> message_parser \<Rightarrow> frame \<Rightarrow> bytes result" where
  "serialize_connect_frame env nonce cfg parser f =
     serialize env nonce (if is_force_format cfg then parser else PRE_NEGOTIATION_PARSER) f"

section \<open>CONNECT_ACK and the answer to it\<close>

definition protocol_error :: "string \<Rightarrow> flare_error" where
  "protocol_error m = localized ProtocolError m"

definition connection_failed :: "string \<Rightarrow> flare_error" where
  "connection_failed m = localized ConnectionFailed m"

definition handle_connect_ack ::
  "frame \<Rightarrow> (serialization_format \<times> compression_algorithm \<times> encryption_algorithm) result" where
  "handle_connect_ack f =
     (case frame_system_command f of
        None \<Rightarrow> Inl (protocol_error ''Not a CONNECT_ACK message'')
      | Some c \<Rightarrow>
          (case system_type_from_i32 (sc_type c) of
             None \<Rightarrow> Inl (protocol_error ''Invalid system command type'')
           | Some t \<Rightarrow>
               if t \<noteq> SysConnectAck then Inl (protocol_error ''Not a CONNECT_ACK message'')
               else Inr (unwrap_or Json (serialization_format_from_i32 (sc_format c)),
                         unwrap_or CompNone (compression_from_str (sc_compression c)),
                         unwrap_or EncNone (encryption_from_str (sc_encryption c)))))"

definition negotiation_ready_command :: system_command where
  "negotiation_ready_command =
     \<lparr>sc_type = system_type_as_i32 SysNegotiationReady, sc_format = 0, sc_message = [], sc_metadata = [],
      sc_data = [], sc_compression = [], sc_encryption = []\<rparr>"

definition negotiation_ready_data :: "codec_env \<Rightarrow> bytes \<Rightarrow> stamp \<Rightarrow> bytes result" where
  "negotiation_ready_data env nonce st =
     serialize env nonce PRE_NEGOTIATION_PARSER
       (fst (frame_with_system_command negotiation_ready_command AtLeastOnce st))"

section \<open>A refused CONNECT\<close>

text \<open>Deserializing an error code from a string: its serde name is its \<open>as_str\<close> name.\<close>

definition all_error_codes :: "error_code list" where
  "all_error_codes =
     [ConnectionFailed, ConnectionTimeout, ConnectionClosed, ConnectionRefused,
      ConnectionLimitExceeded, NotConnected, ConnectionReconnecting, AuthenticationFailed,
      AuthenticationExpired, AuthenticationInvalid, AuthenticationRequired, PermissionDenied,
      TokenInvalid, TokenExpired, ProtocolError, ProtocolVersionMismatch, ProtocolNotSupported,
      MessageFormatError, MessageTooLarge, InvalidCommand, MessageSendFailed,
      MessageDeliveryFailed, MessageNotFound, MessageExpired, MessageRateLimitExceeded,
      MessageDecodeFailed, UserNotFound, UserOffline, UserBlocked, UserQuotaExceeded,
      UserSessionLimitExceeded, InternalError, ServiceUnavailable, ResourceExhausted,
      ConfigurationError, DatabaseError, NetworkError, NetworkTimeout, NetworkUnreachable,
      NetworkConnectionLost, SerializationError, DeserializationError, EncodingError,
      GeneralError, InvalidParameter, OperationNotSupported, OperationFailed, OperationTimeout,
      UnknownError]"

definition parse_error_code :: "string \<Rightarrow> error_code option" where
  "parse_error_code value = List.find (\<lambda>c. error_as_str c = value) all_error_codes"

definition connect_rejection_error :: "string \<Rightarrow> string option \<Rightarrow> flare_error" where
  "connect_rejection_error reason0 code0 =
     (let reason = trim reason0;
          code = filter_option (\<lambda>c. c \<noteq> []) (map_option trim code0);
          error_code =
            (if reason = TENANT_UNAVAILABLE_REASON then PermissionDenied
             else case parse_error_code reason of
                    Some c \<Rightarrow> c
                  | None \<Rightarrow> unwrap_or ConnectionRefused (Option.bind code parse_error_code));
          label = (if reason = [] then unwrap_or (error_as_str error_code) code else reason)
      in localized error_code (label @ '': server rejected CONNECT''))"

definition closed_before_connect_ack_error :: "string \<Rightarrow> flare_error" where
  "closed_before_connect_ack_error detail =
     connection_failed (''server closed the connection before CONNECT_ACK without a reason ('' @ detail @ '')'')"

definition close_reason :: "system_command \<Rightarrow> string" where
  "close_reason c =
     (let message = trim (sc_message c) in
      if message \<noteq> [] then message
      else unwrap_or ''CLOSE''
             (filter_option (\<lambda>r. r \<noteq> [])
                (map_option trim (Option.bind (map_of (sc_metadata c) ''reason'') from_utf8))))"

lemma all_error_codes_complete: "c \<in> set all_error_codes"
  by (cases c) (simp_all add: all_error_codes_def)

lemma error_as_str_inj: "error_as_str c = error_as_str d \<Longrightarrow> c = d"
proof -
  have "distinct (map error_as_str all_error_codes)" by code_simp
  then show "error_as_str c = error_as_str d \<Longrightarrow> c = d"
    using all_error_codes_complete [of c] all_error_codes_complete [of d] by (auto simp: distinct_map inj_on_def)
qed

lemma find_key: "x \<in> set xs \<Longrightarrow> \<forall>y \<in> set xs. f y = f x \<longrightarrow> y = x \<Longrightarrow> List.find (\<lambda>y. f y = f x) xs = Some x"
  by (induction xs) auto

lemma parse_error_code_as_str [simp]: "parse_error_code (error_as_str c) = Some c"
  unfolding parse_error_code_def by (rule find_key) (auto simp: all_error_codes_complete dest: error_as_str_inj)

end
