(* ===== verification/Heartbeat.thy ===== *)
theory Heartbeat
  imports Config
begin

text \<open>
  The client heartbeat (\<open>src/src/client/heartbeat/manager.rs\<close>) as a timed step relation.  An instant is
  a number of nanoseconds.  The loop task is in one of the phases below; a step is the work of the
  task between two suspensions (the \<open>select!\<close> of the sleep, the probe notification and the stop
  channel; the send; the bounded wait of a probe), and \<open>record_pong\<close>, \<open>update_config\<close> and \<open>stop\<close> are
  called by other tasks in between.  Whether the ping could be serialized and sent is an argument.
\<close>

section \<open>State\<close>

definition PROBE_TIMEOUT :: duration where "PROBE_TIMEOUT = from_secs 8"

definition HEARTBEAT_TIMEOUT_REASON :: string where
  "HEARTBEAT_TIMEOUT_REASON = ''heartbeat timeout: no PONG''"

definition HEARTBEAT_SEND_FAILED_REASON :: string where
  "HEARTBEAT_SEND_FAILED_REASON = ''heartbeat send failed''"

text \<open>\<open>HSleep due\<close>: in the \<open>select!\<close>, the sleep ends at \<open>due\<close>; \<open>HSend probe\<close>: sending a ping, for a
  probe with its time stamp; \<open>HProbe at due\<close>: waiting for the answer to the probe sent at \<open>at\<close>.\<close>

datatype hb_phase = HIdle | HSleep nat | HSend "nat option" | HProbe nat nat | HStopped

record heartbeat_manager =
  hb_config :: heartbeat_config
  hb_last_ping :: "nat option"
  hb_last_pong :: "nat option"
  hb_stop_tx :: bool
  hb_stop_sent :: bool
  hb_phase :: hb_phase
  hb_closed :: "(string \<times> nat) option"

definition hb_with_config :: "heartbeat_config \<Rightarrow> heartbeat_manager" where
  "hb_with_config c =
     \<lparr>hb_config = c, hb_last_ping = None, hb_last_pong = None, hb_stop_tx = False, hb_stop_sent = False,
      hb_phase = HIdle, hb_closed = None\<rparr>"

definition hb_new :: "duration \<Rightarrow> duration \<Rightarrow> heartbeat_manager" where
  "hb_new i t = hb_with_config (with_timeout t (with_interval i heartbeat_default))"

section \<open>Operations\<close>

definition update_config :: "(heartbeat_config \<Rightarrow> heartbeat_config) \<Rightarrow> heartbeat_manager \<Rightarrow> heartbeat_manager" where
  "update_config f h = h\<lparr>hb_config := f (hb_config h)\<rparr>"

definition set_app_state :: "app_state \<Rightarrow> heartbeat_manager \<Rightarrow> heartbeat_manager" where
  "set_app_state s h = update_config (\<lambda>c. c\<lparr>hc_app_state := s\<rparr>) h"

definition set_nat_timeout :: "duration option \<Rightarrow> heartbeat_manager \<Rightarrow> heartbeat_manager" where
  "set_nat_timeout t h = update_config (\<lambda>c. c\<lparr>hc_nat_timeout := t\<rparr>) h"

definition record_pong :: "nat \<Rightarrow> heartbeat_manager \<Rightarrow> heartbeat_manager" where
  "record_pong now h = h\<lparr>hb_last_pong := Some now\<rparr>"

definition pong_covers_ping :: "nat option \<Rightarrow> nat \<Rightarrow> bool" where
  "pong_covers_ping pong ping = (case pong of None \<Rightarrow> False | Some t \<Rightarrow> t \<ge> ping)"

definition unanswered_ping_timed_out :: "nat \<Rightarrow> nat option \<Rightarrow> nat option \<Rightarrow> duration \<Rightarrow> bool" where
  "unanswered_ping_timed_out now ping pong timeout =
     (case ping of
        None \<Rightarrow> False
      | Some t \<Rightarrow> if pong_covers_ping pong t then False else now - t > timeout)"

definition hb_is_timeout :: "nat \<Rightarrow> heartbeat_manager \<Rightarrow> bool" where
  "hb_is_timeout now h =
     unanswered_ping_timed_out now (hb_last_ping h) (hb_last_pong h) (hc_timeout (hb_config h))"

definition record_ping_start_if_idle :: "nat \<Rightarrow> heartbeat_manager \<Rightarrow> heartbeat_manager" where
  "record_ping_start_if_idle now h =
     (case hb_last_ping h of
        Some t \<Rightarrow> if \<not> pong_covers_ping (hb_last_pong h) t then h else h\<lparr>hb_last_ping := Some now\<rparr>
      | None \<Rightarrow> h\<lparr>hb_last_ping := Some now\<rparr>)"

definition close_hb :: "string \<Rightarrow> nat \<Rightarrow> heartbeat_manager \<Rightarrow> heartbeat_manager" where
  "close_hb reason now h = h\<lparr>hb_closed := Some (reason, now), hb_phase := HStopped\<rparr>"

text \<open>The top of the loop: the interval is read once per iteration.\<close>

definition loop_top :: "nat \<Rightarrow> heartbeat_manager \<Rightarrow> heartbeat_manager" where
  "loop_top now h = h\<lparr>hb_phase := HSleep (now + effective_interval (hb_config h))\<rparr>"

definition hb_start :: "nat \<Rightarrow> heartbeat_manager \<Rightarrow> heartbeat_manager" where
  "hb_start now h = loop_top now (h\<lparr>hb_stop_tx := True\<rparr>)"

definition hb_stop :: "heartbeat_manager \<Rightarrow> heartbeat_manager" where
  "hb_stop h = (if hb_stop_tx h then h\<lparr>hb_stop_tx := False, hb_stop_sent := True\<rparr> else h)"

text \<open>The sleep branch, up to the send; \<open>ser\<close> tells whether the ping could be serialized.\<close>

definition tick_fire :: "nat \<Rightarrow> bool \<Rightarrow> heartbeat_manager \<Rightarrow> heartbeat_manager" where
  "tick_fire now ser h =
     (if hb_is_timeout now h then close_hb HEARTBEAT_TIMEOUT_REASON now h
      else if \<not> ser then loop_top now h
      else (record_ping_start_if_idle now h)\<lparr>hb_phase := HSend None\<rparr>)"

text \<open>The probe branch, up to the send: the ping is stamped whether or not one is outstanding.\<close>

definition probe_fire :: "nat \<Rightarrow> bool \<Rightarrow> heartbeat_manager \<Rightarrow> heartbeat_manager" where
  "probe_fire now ser h =
     (if hb_is_timeout now h then close_hb HEARTBEAT_TIMEOUT_REASON now h
      else if \<not> ser then loop_top now h
      else h\<lparr>hb_last_ping := Some now, hb_phase := HSend (Some now)\<rparr>)"

definition send_done :: "nat \<Rightarrow> bool \<Rightarrow> nat option \<Rightarrow> heartbeat_manager \<Rightarrow> heartbeat_manager" where
  "send_done now ok probe h =
     (if \<not> ok then close_hb HEARTBEAT_SEND_FAILED_REASON now h
      else case probe of
        None \<Rightarrow> loop_top now h
      | Some at \<Rightarrow> h\<lparr>hb_phase := HProbe at (now + min (hc_timeout (hb_config h)) PROBE_TIMEOUT)\<rparr>)"

definition probe_check :: "nat \<Rightarrow> nat \<Rightarrow> heartbeat_manager \<Rightarrow> heartbeat_manager" where
  "probe_check now at h =
     (if \<not> pong_covers_ping (hb_last_pong h) at then close_hb HEARTBEAT_TIMEOUT_REASON now h
      else loop_top now h)"

section \<open>Runs\<close>

text \<open>The state at time \<open>now\<close> of a manager whose configured timeout never falls below \<open>T\<close>.  Time
  passes between steps; a PONG may be recorded at any moment, and \<open>pongs\<close> lists when, latest first.\<close>

inductive hb_run :: "duration \<Rightarrow> nat \<Rightarrow> nat list \<Rightarrow> heartbeat_manager \<Rightarrow> bool" for T where
  new: "T \<le> hc_timeout c \<Longrightarrow> hb_run T now [] (hb_with_config c)"
| pass: "hb_run T now ps h \<Longrightarrow> now \<le> later \<Longrightarrow> hb_run T later ps h"
| start: "hb_run T now ps h \<Longrightarrow> hb_phase h = HIdle \<Longrightarrow> hb_run T now ps (hb_start now h)"
| configure: "hb_run T now ps h \<Longrightarrow> T \<le> hc_timeout (f (hb_config h)) \<Longrightarrow> hb_run T now ps (update_config f h)"
| pong: "hb_run T now ps h \<Longrightarrow> hb_run T now (now # ps) (record_pong now h)"
| tick: "hb_run T now ps h \<Longrightarrow> hb_phase h = HSleep due \<Longrightarrow> due \<le> now \<Longrightarrow> hb_run T now ps (tick_fire now ser h)"
| probe: "hb_run T now ps h \<Longrightarrow> hb_phase h = HSleep due \<Longrightarrow> hb_run T now ps (probe_fire now ser h)"
| sent: "hb_run T now ps h \<Longrightarrow> hb_phase h = HSend p \<Longrightarrow> hb_run T now ps (send_done now ok p h)"
| check: "hb_run T now ps h \<Longrightarrow> hb_phase h = HProbe at due \<Longrightarrow> due \<le> now \<Longrightarrow> hb_run T now ps (probe_check now at h)"
| stop: "hb_run T now ps h \<Longrightarrow> hb_run T now ps (hb_stop h)"
| stopped: "hb_run T now ps h \<Longrightarrow> hb_phase h = HSleep due \<Longrightarrow> hb_stop_sent h
    \<Longrightarrow> hb_run T now ps (h\<lparr>hb_phase := HStopped\<rparr>)"

lemmas hb_ops =
  hb_start_def update_config_def record_pong_def tick_fire_def probe_fire_def send_done_def
  probe_check_def hb_stop_def close_hb_def loop_top_def record_ping_start_if_idle_def hb_with_config_def

text \<open>The parts of the invariant: the last PONG is the newest of the list; a probe under way is the
  last ping; a close for want of a PONG names a ping that had been out for the window.\<close>

definition pongs_ok :: "nat \<Rightarrow> nat list \<Rightarrow> heartbeat_manager \<Rightarrow> bool" where
  "pongs_ok now ps h \<longleftrightarrow>
     hb_last_pong h = (case ps of [] \<Rightarrow> None | t # _ \<Rightarrow> Some t) \<and> (\<forall>t \<in> set ps. t \<le> hd ps \<and> t \<le> now)"

fun phase_ok :: "duration \<Rightarrow> nat \<Rightarrow> nat option \<Rightarrow> hb_phase \<Rightarrow> bool" where
  "phase_ok T now ping (HSend (Some at)) = (ping = Some at \<and> at \<le> now)"
| "phase_ok T now ping (HProbe at due) = (ping = Some at \<and> at + min T PROBE_TIMEOUT \<le> due)"
| "phase_ok T now ping _ = True"

definition unanswered :: "duration \<Rightarrow> nat option \<Rightarrow> nat list \<Rightarrow> nat \<Rightarrow> bool" where
  "unanswered T ping ps at \<longleftrightarrow>
     (\<exists>p. ping = Some p \<and> p + min T PROBE_TIMEOUT \<le> at \<and> (\<forall>t \<in> set ps. \<not> (p \<le> t \<and> t < at)))"

definition closing_ok :: "duration \<Rightarrow> nat \<Rightarrow> nat list \<Rightarrow> heartbeat_manager \<Rightarrow> bool" where
  "closing_ok T now ps h =
     (case hb_closed h of
        None \<Rightarrow> True
      | Some (reason, at) \<Rightarrow>
          hb_phase h = HStopped \<and> at \<le> now \<and>
          (reason = HEARTBEAT_SEND_FAILED_REASON
           \<or> reason = HEARTBEAT_TIMEOUT_REASON \<and> unanswered T (hb_last_ping h) ps at))"

definition hb_inv :: "duration \<Rightarrow> nat \<Rightarrow> nat list \<Rightarrow> heartbeat_manager \<Rightarrow> bool" where
  "hb_inv T now ps h \<longleftrightarrow>
     T \<le> hc_timeout (hb_config h) \<and> pongs_ok now ps h
     \<and> phase_ok T now (hb_last_ping h) (hb_phase h) \<and> closing_ok T now ps h"

section \<open>The invariant\<close>

lemma phase_ok_later: "phase_ok T now ping ph \<Longrightarrow> now \<le> later \<Longrightarrow> phase_ok T later ping ph"
  by (cases "(T, now, ping, ph)" rule: phase_ok.cases) (auto split: option.splits)

lemma not_covered:
  assumes "pongs_ok now ps h" and "\<not> pong_covers_ping (hb_last_pong h) p"
  shows "\<forall>t \<in> set ps. \<not> (p \<le> t \<and> t < at)"
  using assms by (cases ps) (fastforce simp: pongs_ok_def pong_covers_ping_def)+

lemma timed_out_unanswered:
  assumes "hb_is_timeout now h" and "T \<le> hc_timeout (hb_config h)" and "pongs_ok now ps h"
  shows "unanswered T (hb_last_ping h) ps now"
proof -
  obtain p where p: "hb_last_ping h = Some p" "\<not> pong_covers_ping (hb_last_pong h) p"
    "hc_timeout (hb_config h) < now - p"
    using assms(1) by (auto simp: hb_is_timeout_def unanswered_ping_timed_out_def split: option.splits if_splits)
  then show ?thesis using not_covered [OF assms(3)] assms(2) by (auto simp: unanswered_def)
qed

text \<open>Unless the loop stops, it is enough that the phase is in order; a live manager has not closed.\<close>

lemma hb_inv_live:
  assumes "hb_inv T now ps h" and "hb_phase h \<noteq> HStopped" and "hb_config h' = hb_config h"
    and "hb_last_pong h' = hb_last_pong h" and "hb_closed h' = hb_closed h"
    and "phase_ok T now (hb_last_ping h') (hb_phase h')"
  shows "hb_inv T now ps h'"
  using assms by (auto simp: hb_inv_def pongs_ok_def closing_ok_def split: option.splits prod.splits)

lemma hb_inv_close:
  assumes "hb_inv T now ps h"
    and "reason = HEARTBEAT_SEND_FAILED_REASON
      \<or> reason = HEARTBEAT_TIMEOUT_REASON \<and> unanswered T (hb_last_ping h) ps now"
  shows "hb_inv T now ps (close_hb reason now h)"
  using assms by (auto simp: hb_inv_def pongs_ok_def closing_ok_def close_hb_def)

lemma hb_inv_timeout:
  assumes "hb_inv T now ps h" and "hb_is_timeout now h"
  shows "hb_inv T now ps (close_hb HEARTBEAT_TIMEOUT_REASON now h)"
proof (rule hb_inv_close [OF assms(1)])
  from assms have "unanswered T (hb_last_ping h) ps now"
    by (intro timed_out_unanswered) (auto simp: hb_inv_def)
  then show "HEARTBEAT_TIMEOUT_REASON = HEARTBEAT_SEND_FAILED_REASON
      \<or> HEARTBEAT_TIMEOUT_REASON = HEARTBEAT_TIMEOUT_REASON \<and> unanswered T (hb_last_ping h) ps now" by simp
qed

lemma hb_inv_top: "hb_inv T now ps h \<Longrightarrow> hb_phase h \<noteq> HStopped \<Longrightarrow> hb_inv T now ps (loop_top now h)"
  by (erule hb_inv_live) (auto simp: loop_top_def)

lemma hb_run_inv: "hb_run T now ps h \<Longrightarrow> hb_inv T now ps h"
proof (induction rule: hb_run.induct)
  case (new c now)
  then show ?case by (simp add: hb_inv_def pongs_ok_def closing_ok_def hb_with_config_def)
next
  case (pass now ps h later)
  then have "phase_ok T later (hb_last_ping h) (hb_phase h)" by (auto simp: hb_inv_def intro: phase_ok_later)
  moreover have "pongs_ok later ps h" and "closing_ok T later ps h"
    using pass by (auto simp: hb_inv_def pongs_ok_def closing_ok_def split: option.splits)
  ultimately show ?case using pass by (simp add: hb_inv_def)
next
  case (start now ps h)
  show ?case by (rule hb_inv_live [OF start.IH]) (use start in \<open>auto simp: hb_start_def loop_top_def\<close>)
next
  case (configure now ps h f)
  then show ?case
    by (auto simp: hb_inv_def pongs_ok_def closing_ok_def update_config_def split: option.splits prod.splits)
next
  case (pong now ps h)
  then show ?case
    by (auto simp: hb_inv_def pongs_ok_def closing_ok_def record_pong_def unanswered_def split: option.splits prod.splits)
next
  case (tick now ps h due ser)
  then show ?case
  proof (cases "hb_is_timeout now h \<or> \<not> ser")
    case True
    then show ?thesis using tick by (auto simp: tick_fire_def intro: hb_inv_timeout hb_inv_top)
  next
    case False
    show ?thesis
      by (rule hb_inv_live [OF tick.IH])
         (use tick False in \<open>auto simp: tick_fire_def record_ping_start_if_idle_def hb_inv_def split: option.splits\<close>)
  qed
next
  case (probe now ps h due ser)
  then show ?case
  proof (cases "hb_is_timeout now h \<or> \<not> ser")
    case True
    then show ?thesis using probe by (auto simp: probe_fire_def intro: hb_inv_timeout hb_inv_top)
  next
    case False
    show ?thesis
      by (rule hb_inv_live [OF probe.IH]) (use probe False in \<open>auto simp: probe_fire_def\<close>)
  qed
next
  case (sent now ps h p ok)
  show ?case
  proof (cases "ok \<and> p \<noteq> None")
    case True
    show ?thesis
      by (rule hb_inv_live [OF sent.IH]) (use sent True in \<open>auto simp: send_done_def hb_inv_def\<close>)
  next
    case False
    then show ?thesis using sent by (auto simp: send_done_def intro: hb_inv_close hb_inv_top)
  qed
next
  case (check now ps h at due)
  then have "hb_last_ping h = Some at" "at + min T PROBE_TIMEOUT \<le> now" and "pongs_ok now ps h"
    by (auto simp: hb_inv_def)
  then have "\<not> pong_covers_ping (hb_last_pong h) at \<Longrightarrow> unanswered T (hb_last_ping h) ps now"
    using not_covered by (auto simp: unanswered_def)
  with check show ?case by (auto simp: probe_check_def intro: hb_inv_close hb_inv_top)
next
  case (stop now ps h)
  then show ?case
    by (auto simp: hb_stop_def hb_inv_def pongs_ok_def closing_ok_def split: option.splits prod.splits)
next
  case (stopped now ps h due)
  show ?case by (rule hb_inv_live [OF stopped.IH]) (use stopped in auto)
qed

section \<open>A silent peer\<close>

text \<open>The loop when nothing comes back: every tick happens when it is due, the ping is serialized and
  sent, and the \<open>k\<close>-th send takes \<open>\<delta> k\<close>.  The result is the state after at most \<open>n\<close> ticks.\<close>

fun silent_ticks :: "(nat \<Rightarrow> nat) \<Rightarrow> nat \<Rightarrow> nat \<Rightarrow> heartbeat_manager \<Rightarrow> heartbeat_manager" where
  "silent_ticks \<delta> k 0 h = h"
| "silent_ticks \<delta> k (Suc n) h =
     (case hb_phase h of
        HSleep due \<Rightarrow>
          (let h1 = tick_fire due True h in
           case hb_phase h1 of
             HSend p \<Rightarrow> silent_ticks \<delta> (Suc k) n (send_done (due + \<delta> k) True p h1)
           | _ \<Rightarrow> h1)
      | _ \<Rightarrow> h)"

definition outstanding :: "nat \<Rightarrow> heartbeat_manager \<Rightarrow> bool" where
  "outstanding p h \<longleftrightarrow> hb_last_ping h = Some p \<and> \<not> pong_covers_ping (hb_last_pong h) p"

lemma tick_closes:
  assumes "outstanding p h" and "p + hc_timeout (hb_config h) < now"
  shows "tick_fire now True h = close_hb HEARTBEAT_TIMEOUT_REASON now h"
  using assms by (auto simp: tick_fire_def hb_is_timeout_def unanswered_ping_timed_out_def outstanding_def)

lemma tick_waits:
  assumes "outstanding p h" and "now \<le> p + hc_timeout (hb_config h)"
  shows "tick_fire now True h = h\<lparr>hb_phase := HSend None\<rparr>"
  using assms
  by (auto simp: tick_fire_def hb_is_timeout_def unanswered_ping_timed_out_def outstanding_def
      record_ping_start_if_idle_def)

lemma outstanding_upd [simp]: "outstanding p (h\<lparr>hb_phase := x\<rparr>) = outstanding p h"
  by (simp add: outstanding_def)

lemma effective_interval_pos: "0 < effective_interval c"
  by (auto simp: effective_interval_def Let_def less_max_iff_disj)

text \<open>With a ping outstanding, the tick after the timeout closes the connection.\<close>

lemma silent_outstanding:
  assumes "outstanding p h" and "hb_phase h = HSleep due" and "\<forall>k. \<delta> k \<le> \<Delta>"
    and "due \<le> p + hc_timeout (hb_config h) + \<Delta> + effective_interval (hb_config h)"
  shows "\<exists>n at. hb_closed (silent_ticks \<delta> k n h) = Some (HEARTBEAT_TIMEOUT_REASON, at)
      \<and> at \<le> p + hc_timeout (hb_config h) + \<Delta> + effective_interval (hb_config h)"
  using assms
proof (induction "p + hc_timeout (hb_config h) + 1 - due" arbitrary: h due k rule: less_induct)
  case less
  show ?case
  proof (cases "p + hc_timeout (hb_config h) < due")
    case True
    with less.prems have "silent_ticks \<delta> k (Suc 0) h = close_hb HEARTBEAT_TIMEOUT_REASON due h"
      by (simp add: tick_closes close_hb_def Let_def)
    then have "hb_closed (silent_ticks \<delta> k (Suc 0) h) = Some (HEARTBEAT_TIMEOUT_REASON, due)"
      by (simp add: close_hb_def)
    with less.prems show ?thesis by blast
  next
    case False
    let ?h = "loop_top (due + \<delta> k) (h\<lparr>hb_phase := HSend None\<rparr>)"
    let ?I = "effective_interval (hb_config h)"
    have ph: "hb_phase ?h = HSleep (due + \<delta> k + ?I)" and o: "outstanding p ?h" and c: "hb_config ?h = hb_config h"
      using less.prems by (simp_all add: loop_top_def)
    have I: "0 < ?I" by (rule effective_interval_pos)
    have d: "\<delta> k \<le> \<Delta>" using less.prems by blast
    have "\<exists>n at. hb_closed (silent_ticks \<delta> (Suc k) n ?h) = Some (HEARTBEAT_TIMEOUT_REASON, at)
        \<and> at \<le> p + hc_timeout (hb_config ?h) + \<Delta> + effective_interval (hb_config ?h)"
      by (rule less.hyps [OF _ o ph less.prems(3)]) (use False I d c in auto)
    moreover have "silent_ticks \<delta> k (Suc n) h = silent_ticks \<delta> (Suc k) n ?h" for n
      using False less.prems by (simp add: tick_waits send_done_def Let_def)
    ultimately show ?thesis using c by metis
  qed
qed

lemma silent_idle:
  assumes "\<not> (\<exists>p. outstanding p h)" and "hb_phase h = HSleep due"
    and "\<forall>p. hb_last_pong h = Some p \<longrightarrow> p < due"
  shows "silent_ticks \<delta> k (Suc n) h = silent_ticks \<delta> (Suc k) n (loop_top (due + \<delta> k) (h\<lparr>hb_last_ping := Some due\<rparr>))"
    and "outstanding due (loop_top (due + \<delta> k) (h\<lparr>hb_last_ping := Some due\<rparr>))"
proof -
  have "tick_fire due True h = h\<lparr>hb_last_ping := Some due, hb_phase := HSend None\<rparr>"
    using assms(1) by (auto simp: tick_fire_def hb_is_timeout_def unanswered_ping_timed_out_def
        outstanding_def record_ping_start_if_idle_def split: option.splits)
  then show "silent_ticks \<delta> k (Suc n) h = silent_ticks \<delta> (Suc k) n (loop_top (due + \<delta> k) (h\<lparr>hb_last_ping := Some due\<rparr>))"
    using assms(2) by (simp add: send_done_def loop_top_def Let_def)
  show "outstanding due (loop_top (due + \<delta> k) (h\<lparr>hb_last_ping := Some due\<rparr>))"
    using assms(3) by (auto simp: outstanding_def loop_top_def pong_covers_ping_def split: option.splits)
qed

section \<open>Properties\<close>

text \<open>C30: The heartbeat never gives up a live connection: whatever the interleaving of ticks,
  probes, configuration changes (that keep the timeout at T or more), pongs and stops, when the
  manager closes the connection for want of a PONG, its last ping had been out for at least the
  smaller of T and the probe window of eight seconds, and no PONG was recorded since that ping.\<close>

theorem heartbeat_closes_only_silent:
  assumes "hb_run T now pongs h" and "hb_closed h = Some (HEARTBEAT_TIMEOUT_REASON, at)"
  shows "hb_phase h = HStopped \<and> (\<exists>p. hb_last_ping h = Some p \<and> p + min T PROBE_TIMEOUT \<le> at
    \<and> (\<forall>t \<in> set pongs. \<not> (p \<le> t \<and> t < at)))"
  using hb_run_inv [OF assms(1)] assms(2)
  by (auto simp: hb_inv_def closing_ok_def unanswered_def HEARTBEAT_TIMEOUT_REASON_def
      HEARTBEAT_SEND_FAILED_REASON_def)

definition ex_probed :: heartbeat_manager where
  "ex_probed = probe_check (from_secs 8) 0
     (send_done 0 True (Some 0) (probe_fire 0 True (hb_start 0 (hb_with_config heartbeat_default))))"

lemma ex_probed_run: "hb_run (from_secs 90) (from_secs 8) [] ex_probed"
proof -
  let ?T = "from_secs 90" and ?h0 = "hb_with_config heartbeat_default"
  let ?h1 = "hb_start 0 ?h0"
  let ?h2 = "probe_fire 0 True ?h1"
  have 0: "hb_run ?T 0 [] ?h0" by (rule hb_run.new) (simp add: heartbeat_default_def)
  have 1: "hb_run ?T 0 [] ?h1" by (rule hb_run.start [OF 0]) (simp add: hb_with_config_def)
  have 2: "hb_run ?T 0 [] ?h2" by (rule hb_run.probe [OF 1]) (simp add: hb_start_def loop_top_def)
  have 3: "hb_run ?T 0 [] (send_done 0 True (Some 0) ?h2)"
    by (rule hb_run.sent [OF 2])
       (simp add: hb_ops hb_is_timeout_def unanswered_ping_timed_out_def)
  have 4: "hb_run ?T (from_secs 8) [] (send_done 0 True (Some 0) ?h2)" by (rule hb_run.pass [OF 3]) simp
  show ?thesis unfolding ex_probed_def
    by (rule hb_run.check [OF 4])
       (auto simp: hb_ops hb_is_timeout_def unanswered_ping_timed_out_def heartbeat_default_def
          PROBE_TIMEOUT_def from_secs_def)
qed

theorem heartbeat_closes_only_silent_witness:
  "hb_closed ex_probed = Some (HEARTBEAT_TIMEOUT_REASON, from_secs 8)
   \<and> (\<exists>p. hb_last_ping ex_probed = Some p \<and> p + min (from_secs 90) PROBE_TIMEOUT \<le> from_secs 8)"
proof
  show c: "hb_closed ex_probed = Some (HEARTBEAT_TIMEOUT_REASON, from_secs 8)"
    by (simp add: ex_probed_def hb_ops hb_is_timeout_def unanswered_ping_timed_out_def pong_covers_ping_def)
  show "\<exists>p. hb_last_ping ex_probed = Some p \<and> p + min (from_secs 90) PROBE_TIMEOUT \<le> from_secs 8"
    using heartbeat_closes_only_silent [OF ex_probed_run c] by auto
qed

text \<open>C31: A dead connection is found out.  If the peer falls silent (no PONG at or after the next
  tick, due at time due) and sends take at most Delta, the loop closes the connection for want of a PONG
  no later than one heartbeat interval, one timeout and one send after that tick.\<close>

theorem silent_peer_detected:
  assumes "hb_phase h = HSleep due" and "\<forall>t. hb_last_pong h = Some t \<longrightarrow> t < due"
    and "\<forall>p. hb_last_ping h = Some p \<longrightarrow> p \<le> due" and "\<forall>k. \<delta> k \<le> \<Delta>"
  shows "\<exists>n at. hb_closed (silent_ticks \<delta> 0 n h) = Some (HEARTBEAT_TIMEOUT_REASON, at)
    \<and> at \<le> due + hc_timeout (hb_config h) + \<Delta> + effective_interval (hb_config h)"
proof (cases "\<exists>p. outstanding p h")
  case True
  then obtain p where p: "outstanding p h" "p \<le> due" using assms(3) by (auto simp: outstanding_def)
  show ?thesis
  proof (cases "due \<le> p + hc_timeout (hb_config h)")
    case True
    then have "due \<le> p + hc_timeout (hb_config h) + \<Delta> + effective_interval (hb_config h)" by simp
    from silent_outstanding [OF p(1) assms(1,4) this, of 0] p(2) show ?thesis
      by (meson add_le_mono1 order_trans)
  next
    case False
    then have "hb_closed (silent_ticks \<delta> 0 (Suc 0) h) = Some (HEARTBEAT_TIMEOUT_REASON, due)"
      using p assms(1) by (simp add: tick_closes close_hb_def Let_def)
    then show ?thesis using le_add1 [of due "hc_timeout (hb_config h) + \<Delta> + effective_interval (hb_config h)"]
      by (metis add.assoc)
  qed
next
  case False
  let ?h = "loop_top (due + \<delta> 0) (h\<lparr>hb_last_ping := Some due\<rparr>)"
  have c: "hb_config ?h = hb_config h" and ph: "hb_phase ?h = HSleep (due + \<delta> 0 + effective_interval (hb_config h))"
    by (simp_all add: loop_top_def)
  have "due + \<delta> 0 + effective_interval (hb_config h)
      \<le> due + hc_timeout (hb_config ?h) + \<Delta> + effective_interval (hb_config ?h)"
    using assms(4) [rule_format, of 0] c by simp
  moreover have "outstanding due ?h" by (rule silent_idle(2) [OF False assms(1,2)])
  ultimately have "\<exists>n at. hb_closed (silent_ticks \<delta> (Suc 0) n ?h) = Some (HEARTBEAT_TIMEOUT_REASON, at)
      \<and> at \<le> due + hc_timeout (hb_config ?h) + \<Delta> + effective_interval (hb_config ?h)"
    using ph assms(4) by (intro silent_outstanding) auto
  then show ?thesis using silent_idle(1) [OF False assms(1,2), of \<delta> 0] c by metis
qed

theorem silent_peer_detected_witness:
  "\<exists>n at. hb_closed (silent_ticks (\<lambda>_. 5) 0 n (hb_start 0 (hb_with_config heartbeat_default)))
       = Some (HEARTBEAT_TIMEOUT_REASON, at) \<and> at \<le> from_secs 150 + 5"
proof -
  let ?h = "hb_start 0 (hb_with_config heartbeat_default)"
  have "hb_phase ?h = HSleep (from_secs 30)" and "hb_config ?h = heartbeat_default"
    and "effective_interval heartbeat_default = from_secs 30"
    by (simp_all add: hb_start_def loop_top_def hb_with_config_def effective_interval_def heartbeat_default_def
        from_secs_def positive_duration_def Let_def)
  with silent_peer_detected [of ?h "from_secs 30" "\<lambda>_. 5" 5] show ?thesis
    by (simp add: hb_start_def loop_top_def hb_with_config_def heartbeat_default_def from_secs_def)
qed

end
