(* ===== verification/Framing.thy ===== *)
theory Framing
  imports Errors "HOL-Library.Word"
begin

text \<open>
  Framing of byte streams: the length-prefixed frames of the TCP and QUIC transports
  (\<open>src/src/transport/framing.rs\<close>) with the read loop of the TCP transport
  (\<open>receiver_task\<close> in \<open>src/src/transport/tcp.rs\<close>), and the varint-prefixed protobuf stream
  decoder (\<open>src/src/common/protobuf_decoder.rs\<close>).  A reader is the bytes still to come and how
  the stream ends; \<open>usize\<close> and \<open>u64\<close> are 64-bit words.
\<close>

unbundle bit_operations_syntax

section \<open>Streams\<close>

datatype io_kind = ConnectionReset | ConnectionAborted | BrokenPipe | UnexpectedEof | OtherIo

record byte_reader =
  rd_data :: bytes
  rd_end :: "io_kind \<times> string"

text \<open>How a stream ends: the error of a read that wants more than there is.  A closed peer
  gives \<open>UnexpectedEof\<close>.\<close>

definition read_exact :: "nat \<Rightarrow> byte_reader \<Rightarrow> byte_reader \<times> ((io_kind \<times> string) + bytes)" where
  "read_exact n r =
     (if n \<le> length (rd_data r) then (r\<lparr>rd_data := drop n (rd_data r)\<rparr>, Inr (take n (rd_data r)))
      else (r\<lparr>rd_data := []\<rparr>, Inl (rd_end r)))"

record byte_writer =
  wr_data :: bytes
  wr_error :: "string option"

definition write_all :: "bytes \<Rightarrow> byte_writer \<Rightarrow> byte_writer \<times> unit result" where
  "write_all d w =
     (case wr_error w of
        Some e \<Rightarrow> (w, Inl (IoError e))
      | None \<Rightarrow> (w\<lparr>wr_data := wr_data w @ d\<rparr>, Inr ()))"

definition to_be_bytes :: "32 word \<Rightarrow> bytes" where
  "to_be_bytes w =
     [char_of (unat (drop_bit 24 w)), char_of (unat (drop_bit 16 w)), char_of (unat (drop_bit 8 w)),
      char_of (unat w)]"

definition from_be_bytes :: "bytes \<Rightarrow> 32 word" where
  "from_be_bytes bs = fold (\<lambda>c acc. push_bit 8 acc OR of_nat (of_char c)) bs 0"

section \<open>Length-prefixed frames\<close>

definition MAX_FRAME_LENGTH :: nat where "MAX_FRAME_LENGTH = 10 * 1024 * 1024"

datatype connection_event = Connected | Disconnected string | Message bytes | ErrorEvent flare_error

definition event_from_io_error :: "io_kind \<times> string \<Rightarrow> connection_event" where
  "event_from_io_error err =
     (if fst err \<in> {ConnectionReset, ConnectionAborted, BrokenPipe, UnexpectedEof}
      then Disconnected (''TCP peer disconnected: '' @ snd err)
      else ErrorEvent (IoError (snd err)))"

definition read_length_prefixed :: "byte_reader \<Rightarrow> byte_reader \<times> bytes result" where
  "read_length_prefixed r =
     (case read_exact 4 r of
        (r1, Inl e) \<Rightarrow> if fst e = UnexpectedEof then (r1, Inr []) else (r1, Inl (IoError (snd e)))
      | (r1, Inr length_buf) \<Rightarrow>
          (let len = unat (from_be_bytes length_buf) in
           if len = 0 then (r1, Inr [])
           else if len > MAX_FRAME_LENGTH then (r1, Inl (IoError (''Frame too large'')))
           else (case read_exact len r1 of
                   (r2, Inl e) \<Rightarrow> (r2, Inl (IoError (snd e)))
                 | (r2, Inr payload) \<Rightarrow> (r2, Inr payload))))"

definition write_length_prefixed :: "bytes \<Rightarrow> byte_writer \<Rightarrow> byte_writer \<times> unit result" where
  "write_length_prefixed d w =
     (if length d > MAX_FRAME_LENGTH then (w, Inl (IoError ''Frame too large''))
      else (case write_all (to_be_bytes (of_nat (length d))) w of
              (w1, Inl e) \<Rightarrow> (w1, Inl e)
            | (w1, Inr _) \<Rightarrow> write_all d w1))"

section \<open>The read loop\<close>

lemma read_length_prefixed_shorter:
  "read_length_prefixed r = (r', Inr d) \<Longrightarrow> d \<noteq> [] \<Longrightarrow> length (rd_data r') < length (rd_data r)"
  by (auto simp: read_length_prefixed_def read_exact_def Let_def split: prod.splits sum.splits if_splits)

text \<open>The classification of a read error, by its message.\<close>

definition read_error_event :: "flare_error \<Rightarrow> string \<Rightarrow> connection_event" where
  "read_error_event e err_str =
     (if contains_str ''peer disconnected'' err_str \<or> contains_str ''Connection reset'' err_str
         \<or> contains_str ''Broken pipe'' err_str
      then Disconnected err_str else ErrorEvent e)"

text \<open>The events the loop reports when it is not closed locally; \<open>show\<close> is the display text of an
  error.\<close>

function receive_loop :: "(flare_error \<Rightarrow> string) \<Rightarrow> byte_reader \<Rightarrow> connection_event list" where
  "receive_loop disp r =
     (case read_length_prefixed r of
        (r', Inl e) \<Rightarrow> [read_error_event e (disp e)]
      | (r', Inr d) \<Rightarrow>
          if d = [] then [Disconnected ''TCP connection closed by peer'']
          else Message d # receive_loop disp r')"
  by pat_completeness auto
termination
  by (relation "measure (\<lambda>(_, r). length (rd_data r))") (auto dest!: read_length_prefixed_shorter [OF sym])

declare receive_loop.simps [simp del]

section \<open>Facts about frames\<close>

lemma length_to_be_bytes [simp]: "length (to_be_bytes w) = 4"
  by (simp add: to_be_bytes_def)

lemma low_byte: "(of_nat (of_char (char_of (unat w) :: char)) :: 32 word) = take_bit 8 w"
proof -
  have "of_char (char_of (unat w) :: char) = unat (w mod 256)" by (simp add: unat_mod)
  then show ?thesis by (simp add: take_bit_eq_mod)
qed

lemma from_to_be_bytes [simp]: "from_be_bytes (to_be_bytes w) = w"
proof -
  have "from_be_bytes (to_be_bytes w) =
      push_bit 8 (push_bit 8 (push_bit 8 (take_bit 8 (drop_bit 24 w)) OR take_bit 8 (drop_bit 16 w))
        OR take_bit 8 (drop_bit 8 w)) OR take_bit 8 w"
    by (simp add: from_be_bytes_def to_be_bytes_def low_byte del: of_char_of)
  also have "\<dots> = w"
  proof (rule bit_word_eqI)
    fix n assume "n < LENGTH(32)"
    then consider "n < 8" | "8 \<le> n" "n < 16" | "16 \<le> n" "n < 24" | "24 \<le> n" "n < 32" by fastforce
    then show "bit (push_bit 8 (push_bit 8 (push_bit 8 (take_bit 8 (drop_bit 24 w)) OR take_bit 8 (drop_bit 16 w))
        OR take_bit 8 (drop_bit 8 w)) OR take_bit 8 w) n = bit w n"
      by cases (auto simp: bit_simps)
  qed
  finally show ?thesis .
qed

definition frame_bytes :: "bytes \<Rightarrow> bytes" where
  "frame_bytes d = to_be_bytes (of_nat (length d)) @ d"

lemma write_length_prefixed_ok:
  assumes "length d \<le> MAX_FRAME_LENGTH" "wr_error w = None"
  shows "write_length_prefixed d w = (w\<lparr>wr_data := wr_data w @ frame_bytes d\<rparr>, Inr ())"
  using assms by (simp add: write_length_prefixed_def write_all_def frame_bytes_def)

lemma unat_len32: "length d \<le> MAX_FRAME_LENGTH \<Longrightarrow> unat (of_nat (length d) :: 32 word) = length d"
  by (simp add: unsigned_of_nat take_bit_nat_eq_self_iff MAX_FRAME_LENGTH_def)

lemma read_frame:
  assumes "d \<noteq> []" "length d \<le> MAX_FRAME_LENGTH" "rd_data r = frame_bytes d @ rest"
  shows "read_length_prefixed r = (r\<lparr>rd_data := rest\<rparr>, Inr d)"
  using assms unat_len32 [OF assms(2)]
  by (simp add: read_length_prefixed_def read_exact_def frame_bytes_def Let_def)

lemma receive_frames:
  assumes "\<And>d. d \<in> set ds \<Longrightarrow> d \<noteq> [] \<and> length d \<le> MAX_FRAME_LENGTH" "rd_data r = concat (map frame_bytes ds) @ rest"
  shows "receive_loop disp r = map Message ds @ receive_loop disp (r\<lparr>rd_data := rest\<rparr>)"
  using assms
proof (induction ds arbitrary: r)
  case (Cons d ds)
  have "read_length_prefixed r = (r\<lparr>rd_data := concat (map frame_bytes ds) @ rest\<rparr>, Inr d)"
    by (rule read_frame) (use Cons.prems in auto)
  then have "receive_loop disp r = Message d # receive_loop disp (r\<lparr>rd_data := concat (map frame_bytes ds) @ rest\<rparr>)"
    using Cons.prems(1) [of d] by (simp add: receive_loop.simps [of disp r])
  also have "receive_loop disp (r\<lparr>rd_data := concat (map frame_bytes ds) @ rest\<rparr>) =
      map Message ds @ receive_loop disp (r\<lparr>rd_data := rest\<rparr>)"
    using Cons.IH [of "r\<lparr>rd_data := concat (map frame_bytes ds) @ rest\<rparr>"] Cons.prems(1) by simp
  finally show ?case by simp
qed (metis append_Nil byte_reader.surjective byte_reader.update_convs(1) concat.simps(1) list.simps(8))

fun write_frames :: "bytes list \<Rightarrow> byte_writer \<Rightarrow> byte_writer" where
  "write_frames [] w = w"
| "write_frames (d # ds) w = write_frames ds (fst (write_length_prefixed d w))"

lemma write_frames_data:
  assumes "\<And>d. d \<in> set ds \<Longrightarrow> length d \<le> MAX_FRAME_LENGTH" "wr_error w = None"
  shows "write_frames ds w = w\<lparr>wr_data := wr_data w @ concat (map frame_bytes ds)\<rparr>"
  using assms by (induction ds arbitrary: w) (simp_all add: write_length_prefixed_ok)

definition is_terminal :: "connection_event \<Rightarrow> bool" where
  "is_terminal e = (case e of Disconnected _ \<Rightarrow> True | ErrorEvent _ \<Rightarrow> True | _ \<Rightarrow> False)"

lemma read_error_event_terminal [simp]: "is_terminal (read_error_event e s)"
  by (simp add: read_error_event_def is_terminal_def)

text \<open>What is read is never longer than the limit.\<close>

lemma read_length_prefixed_bounded:
  "read_length_prefixed r = (r', Inr d) \<Longrightarrow> length d \<le> MAX_FRAME_LENGTH"
  by (auto simp: read_length_prefixed_def read_exact_def Let_def split: prod.splits sum.splits if_splits)

lemma receive_loop_shape:
  "\<exists>ds e. receive_loop disp r = map Message ds @ [e] \<and> is_terminal e
     \<and> (\<forall>d \<in> set ds. d \<noteq> [] \<and> length d \<le> MAX_FRAME_LENGTH)"
proof (induction disp r rule: receive_loop.induct)
  case (1 disp r)
  obtain r' x where rd: "read_length_prefixed r = (r', x)" by fastforce
  show ?case
  proof (cases x)
    case (Inl e)
    then have "receive_loop disp r = map Message [] @ [read_error_event e (disp e)]"
      by (simp add: receive_loop.simps [of disp r] rd)
    then show ?thesis by (intro exI [of _ "[]"] exI [of _ "read_error_event e (disp e)"]) simp
  next
    case (Inr d)
    show ?thesis
    proof (cases "d = []")
      case True
      then have "receive_loop disp r = map Message [] @ [Disconnected ''TCP connection closed by peer'']"
        by (simp add: receive_loop.simps [of disp r] rd Inr)
      then show ?thesis
        by (intro exI [of _ "[]"] exI [of _ "Disconnected ''TCP connection closed by peer''"]) (simp add: is_terminal_def)
    next
      case False
      from 1 [OF rd [symmetric] Inr False] obtain ds e
        where "receive_loop disp r' = map Message ds @ [e]" "is_terminal e"
          "\<forall>d \<in> set ds. d \<noteq> [] \<and> length d \<le> MAX_FRAME_LENGTH" by blast
      with False Inr rd read_length_prefixed_bounded [of r r' d] show ?thesis
        by (intro exI [of _ "d # ds"] exI [of _ e]) (simp add: receive_loop.simps [of disp r])
    qed
  qed
qed

section \<open>The varint-prefixed protobuf stream\<close>

text \<open>\<open>dec\<close> is the message type's decoder.  A sum \<open>offset + message_len\<close> beyond \<open>usize\<close> panics: the
  addition overflows in a checked build, and in a wrapping one the split leaves fewer than
  \<open>offset\<close> bytes, so that the slice from \<open>offset\<close> on is out of range.\<close>

datatype decode_error = VarintTooLong | DecodeFailed | Panic

record pb_decoder =
  pd_buffer :: bytes

definition decoder_new :: pb_decoder where
  "decoder_new = \<lparr>pd_buffer = []\<rparr>"

definition add_data :: "bytes \<Rightarrow> pb_decoder \<Rightarrow> pb_decoder" where
  "add_data d p = p\<lparr>pd_buffer := pd_buffer p @ d\<rparr>"

fun varint_loop :: "nat \<Rightarrow> bytes \<Rightarrow> nat \<Rightarrow> 64 word \<Rightarrow> nat \<Rightarrow> decode_error + (64 word \<times> nat) option" where
  "varint_loop 0 buf pos acc shift = Inl VarintTooLong"
| "varint_loop (Suc n) buf pos acc shift =
     (if pos \<ge> length buf then Inr None
      else (let byte = of_nat (of_char (buf ! pos)) :: 64 word;
                value = byte AND 0x7F;
                acc' = acc OR push_bit shift value
            in if byte AND 0x80 = 0 then Inr (Some (acc', Suc pos))
               else varint_loop n buf (Suc pos) acc' (shift + 7)))"

definition read_varint :: "pb_decoder \<Rightarrow> decode_error + (64 word \<times> nat) option" where
  "read_varint p = varint_loop 10 (pd_buffer p) 0 0 0"

definition decode_next ::
  "(bytes \<Rightarrow> 'm option) \<Rightarrow> pb_decoder \<Rightarrow> pb_decoder \<times> (decode_error + 'm option)" where
  "decode_next dec p =
     (case read_varint p of
        Inl e \<Rightarrow> (p, Inl e)
      | Inr None \<Rightarrow> (p, Inr None)
      | Inr (Some (message_len, off)) \<Rightarrow>
          (let len = unat message_len in
           if off + len \<ge> 2 ^ 64 then (p, Inl Panic)
           else if length (pd_buffer p) < off + len then (p, Inr None)
           else (let message_data = take (off + len) (pd_buffer p);
                     p' = p\<lparr>pd_buffer := drop (off + len) (pd_buffer p)\<rparr>
                 in case dec (drop off message_data) of
                      None \<Rightarrow> (p', Inl DecodeFailed)
                    | Some m \<Rightarrow> (p', Inr (Some m)))))"

definition has_remaining :: "pb_decoder \<Rightarrow> bool" where
  "has_remaining p = (pd_buffer p \<noteq> [])"

definition remaining_len :: "pb_decoder \<Rightarrow> nat" where
  "remaining_len p = length (pd_buffer p)"

definition clear :: "pb_decoder \<Rightarrow> pb_decoder" where
  "clear p = p\<lparr>pd_buffer := []\<rparr>"

section \<open>Reading a varint\<close>

text \<open>The base-128 encoding of the protobuf wire format, as a reference.\<close>

fun varint :: "nat \<Rightarrow> bytes" where
  "varint n = (if n < 128 then [char_of n] else char_of (128 + n mod 128) # varint (n div 128))"

declare varint.simps [simp del]

lemma varint_nonempty [simp]: "varint n \<noteq> []"
  by (simp add: varint.simps [of n])

lemma take_bit_of_nat_word: "take_bit k (of_nat m :: 64 word) = of_nat (take_bit k m)"
  by (rule bit_word_eqI) (auto simp: bit_simps)

lemma low_bits: "(of_nat m :: 64 word) AND 0x7F = of_nat (m mod 128)"
proof -
  have "(0x7F :: 64 word) = mask 7" by (simp add: mask_eq_exp_minus_1)
  then have "(of_nat m :: 64 word) AND 0x7F = take_bit 7 (of_nat m)" by (simp only: take_bit_eq_mask)
  then show ?thesis by (simp add: take_bit_of_nat_word take_bit_eq_mod [of 7 m])
qed

lemma high_bit: "m < 256 \<Longrightarrow> (of_nat m :: 64 word) AND 0x80 = 0 \<longleftrightarrow> m < 128"
proof -
  assume m: "m < 256"
  have "(0x80 :: 64 word) = 2 ^ 7" by simp
  then have "(of_nat m :: 64 word) AND 0x80 = 0 \<longleftrightarrow> \<not> bit (of_nat m :: 64 word) 7"
    by (simp only: and_exp_eq_0_iff_not_bit)
  also have "\<dots> \<longleftrightarrow> \<not> bit m 7" by (simp add: bit_simps)
  also have "\<dots> \<longleftrightarrow> even (m div 128)" by (simp add: bit_iff_odd)
  also have "\<dots> \<longleftrightarrow> m < 128" 
  proof (cases "m < 128")
    case False
    with m have "m div 128 = 1" by (intro div_nat_eqI) auto
    with False show ?thesis by simp
  qed simp
  finally show ?thesis .
qed

lemma word_split7: "(of_nat n :: 64 word) = of_nat (n mod 128) OR push_bit 7 (of_nat (n div 128))"
proof -
  have eq: "n mod 128 = take_bit 7 n" "n div 128 = drop_bit 7 n" by (simp_all add: take_bit_eq_mod drop_bit_eq_div)
  show ?thesis
    unfolding eq
  proof (rule bit_word_eqI)
    fix j assume "j < LENGTH(64)"
    then show "bit (of_nat n :: 64 word) j = bit (of_nat (take_bit 7 n) OR push_bit 7 (of_nat (drop_bit 7 n)) :: 64 word) j"
      by (cases "j < 7") (auto simp: bit_simps)
  qed
qed

lemma varint_loop_varint:
  assumes "length (varint n) \<le> k"
  shows "varint_loop k (pre @ varint n @ rest) (length pre) acc shift =
     Inr (Some (acc OR push_bit shift (of_nat n), length pre + length (varint n)))"
  using assms
proof (induction n arbitrary: k pre acc shift rule: varint.induct)
  case (1 n)
  then obtain k' where k: "k = Suc k'" by (cases k) auto
  show ?case
  proof (cases "n < 128")
    case True
    then show ?thesis
      by (simp add: k varint.simps [of n] Let_def nth_append high_bit low_bits)
  next
    case False
    let ?c = "char_of (128 + n mod 128) :: char"
    have "n mod 128 < 128" by simp
    then have lt: "128 + n mod 128 < 256" by linarith
    then have c: "of_char ?c = (128 + n mod 128 :: nat)" by simp
    have step: "varint n = ?c # varint (n div 128)" using False by (simp add: varint.simps [of n])
    have "varint_loop k' ((pre @ [?c]) @ varint (n div 128) @ rest) (length (pre @ [?c]))
        (acc OR push_bit shift (of_nat (n mod 128))) (shift + 7) =
      Inr (Some ((acc OR push_bit shift (of_nat (n mod 128))) OR push_bit (shift + 7) (of_nat (n div 128)),
            length (pre @ [?c]) + length (varint (n div 128))))"
      using 1 False by (intro "1.IH") (simp_all add: k step)
    moreover have "(acc OR push_bit shift (of_nat (n mod 128))) OR push_bit (shift + 7) (of_nat (n div 128)) =
        acc OR push_bit shift (of_nat n :: 64 word)"
      unfolding word_split7 [of n] by (simp add: push_bit_or or.assoc add.commute)
    moreover have "(of_nat (128 + n mod 128) :: 64 word) AND 0x80 \<noteq> 0" using high_bit [OF lt] by simp
    moreover have "(of_nat (128 + n mod 128) :: 64 word) AND 0x7F = of_nat (n mod 128)"
      using low_bits [of "128 + n mod 128"] by (simp only: mod_add_self1 mod_mod_trivial)
    ultimately show ?thesis
      by (simp add: k step Let_def nth_append c del: of_nat_add)
  qed
qed

lemma varint_loop_incomplete:
  assumes "j < length (varint n)" "j < k"
  shows "varint_loop k (pre @ take j (varint n)) (length pre) acc shift = Inr None"
  using assms
proof (induction n arbitrary: k j pre acc shift rule: varint.induct)
  case (1 n)
  then obtain k' where k: "k = Suc k'" by (cases k) auto
  show ?case
  proof (cases j)
    case 0
    then show ?thesis by (simp add: k)
  next
    case (Suc j')
    with 1 have big: "\<not> n < 128" by (cases "n < 128") (auto simp: varint.simps [of n])
    let ?c = "char_of (128 + n mod 128) :: char"
    have "n mod 128 < 128" by simp
    then have lt: "128 + n mod 128 < 256" by linarith
    then have c: "of_char ?c = (128 + n mod 128 :: nat)" by simp
    have step: "varint n = ?c # varint (n div 128)" using big by (simp add: varint.simps [of n])
    have "varint_loop k' ((pre @ [?c]) @ take j' (varint (n div 128))) (length (pre @ [?c])) a s = Inr None" for a s
      using 1 big Suc by (intro "1.IH") (simp_all add: k step)
    moreover have "(of_nat (128 + n mod 128) :: 64 word) AND 0x80 \<noteq> 0" using high_bit [OF lt] by simp
    ultimately show ?thesis by (simp add: k step Suc Let_def nth_append c del: of_nat_add)
  qed
qed

lemma length_varint: "n < 128 ^ k \<Longrightarrow> 0 < k \<Longrightarrow> length (varint n) \<le> k"
proof (induction k arbitrary: n)
  case (Suc k)
  show ?case
  proof (cases "n < 128")
    case False
    with Suc.prems have "0 < k" by (cases k) auto
    moreover have "n div 128 < 128 ^ k" using Suc.prems by (simp add: less_mult_imp_div_less mult.commute)
    ultimately show ?thesis using Suc.IH [of "n div 128"] False by (simp add: varint.simps [of n])
  qed (simp add: varint.simps [of n])
qed simp

lemma length_varint64: "n < 2 ^ 64 \<Longrightarrow> length (varint n) \<le> 10"
  by (rule length_varint) simp_all

section \<open>Decoding a stream in chunks\<close>

definition wire :: "bytes \<Rightarrow> bytes" where
  "wire b = varint (length b) @ b"

lemma unat_len64: "length b < 2 ^ 64 \<Longrightarrow> unat (of_nat (length b) :: 64 word) = length b"
  by (simp add: unsigned_of_nat take_bit_nat_eq_self_iff)

lemma decode_next_message:
  assumes "length b < 2 ^ 63" "dec b = Some m"
  shows "decode_next dec \<lparr>pd_buffer = wire b @ rest\<rparr> = (\<lparr>pd_buffer = rest\<rparr>, Inr (Some m))"
proof -
  have v: "read_varint \<lparr>pd_buffer = varint (length b) @ b @ rest\<rparr> = Inr (Some (of_nat (length b), length (varint (length b))))"
    using varint_loop_varint [of "length b" 10 "[]" "b @ rest" 0 0] length_varint64 [of "length b"] assms(1)
    by (simp add: read_varint_def)
  have "length (varint (length b)) \<le> 10" using length_varint64 [of "length b"] assms(1) by simp
  then have "length (varint (length b)) + length b < 2 ^ 64" using assms(1) by simp
  then show ?thesis
    using unat_len64 [of b] assms by (simp add: decode_next_def v Let_def wire_def)
qed

lemma decode_next_incomplete:
  assumes "length b < 2 ^ 63" "j < length (wire b)"
  shows "decode_next dec \<lparr>pd_buffer = take j (wire b)\<rparr> = (\<lparr>pd_buffer = take j (wire b)\<rparr>, Inr None)"
proof -
  have len: "length (varint (length b)) \<le> 10" using length_varint64 [of "length b"] assms(1) by simp
  show ?thesis
  proof (cases "j < length (varint (length b))")
    case True
    then show ?thesis
      using varint_loop_incomplete [OF True, of 10 "[]" 0 0] len
      by (simp add: decode_next_def read_varint_def wire_def)
  next
    case False
    let ?buf = "varint (length b) @ take (j - length (varint (length b))) b"
    have buf: "take j (wire b) = ?buf" using False by (simp add: wire_def)
    have v: "read_varint \<lparr>pd_buffer = ?buf\<rparr> = Inr (Some (of_nat (length b), length (varint (length b))))"
      using varint_loop_varint [OF len, of "[]" "take (j - length (varint (length b))) b" 0 0]
      by (simp add: read_varint_def)
    have lens: "length (varint (length b)) + length b < 2 ^ 64" "j - length (varint (length b)) < length b"
      "unat (of_nat (length b) :: 64 word) = length b"
      using unat_len64 [of b] assms len False by (simp_all add: wire_def)
    show ?thesis
      unfolding buf decode_next_def v using lens by (simp add: Let_def)
  qed
qed

text \<open>A receiver takes every complete message after each chunk.\<close>

lemma varint_loop_pos: "varint_loop k buf pos acc shift = Inr (Some (n, off)) \<Longrightarrow> pos < off"
  by (induction k buf pos acc shift rule: varint_loop.induct)
     (auto simp: Let_def split: if_splits dest: Suc_lessD)

lemma decode_next_shorter:
  assumes "decode_next dec p = (p', Inr (Some m))"
  shows "length (pd_buffer p') < length (pd_buffer p)"
proof -
  from assms obtain n off where v: "read_varint p = Inr (Some (n, off))"
    by (auto simp: decode_next_def split: sum.splits option.splits)
  then have "0 < off" unfolding read_varint_def by (rule varint_loop_pos)
  with assms v show ?thesis by (auto simp: decode_next_def Let_def split: if_splits option.splits)
qed

function drain :: "(bytes \<Rightarrow> 'm option) \<Rightarrow> pb_decoder \<Rightarrow> pb_decoder \<times> 'm list" where
  "drain dec p =
     (case decode_next dec p of
        (p', Inr (Some m)) \<Rightarrow> (case drain dec p' of (p'', ms) \<Rightarrow> (p'', m # ms))
      | (p', _) \<Rightarrow> (p', []))"
  by pat_completeness auto
termination
  by (relation "measure (\<lambda>(_, p). length (pd_buffer p))") (auto dest!: decode_next_shorter [OF sym])

declare drain.simps [simp del]

fun feed :: "(bytes \<Rightarrow> 'm option) \<Rightarrow> bytes list \<Rightarrow> pb_decoder \<Rightarrow> pb_decoder \<times> 'm list" where
  "feed dec [] p = (p, [])"
| "feed dec (d # ds) p =
     (case drain dec (add_data d p) of (p1, ms1) \<Rightarrow>
        (case feed dec ds p1 of (p2, ms2) \<Rightarrow> (p2, ms1 @ ms2)))"

lemma read_varint_empty: "read_varint \<lparr>pd_buffer = []\<rparr> = Inr None"
  by (simp add: read_varint_def numeral_eq_Suc)

lemma drain_prefix:
  assumes "\<And>b m. (b, m) \<in> set bs \<Longrightarrow> length b < 2 ^ 63 \<and> dec b = Some m"
    and "data @ later = concat (map (\<lambda>x. wire (fst x)) bs)"
  shows "\<exists>got rest ahead. bs = got @ ahead \<and> data = concat (map (\<lambda>x. wire (fst x)) got) @ rest
     \<and> drain dec \<lparr>pd_buffer = data\<rparr> = (\<lparr>pd_buffer = rest\<rparr>, map snd got)
     \<and> (ahead = [] \<longrightarrow> rest = []) \<and> (\<forall>x bs'. ahead = x # bs' \<longrightarrow> length rest < length (wire (fst x)))"
  using assms
proof (induction bs arbitrary: data)
  case Nil
  then have "drain dec \<lparr>pd_buffer = data\<rparr> = (\<lparr>pd_buffer = []\<rparr>, [])"
    by (subst drain.simps) (simp add: decode_next_def read_varint_empty)
  with Nil show ?case by simp
next
  case (Cons x bs)
  obtain b m where x: "x = (b, m)" by (cases x)
  have bm: "length b < 2 ^ 63" "dec b = Some m" using Cons.prems(1) [of b m] x by auto
  show ?case
  proof (cases "length (wire b) \<le> length data")
    case True
    define data' where "data' = drop (length (wire b)) data"
    have "take (length (wire b)) data = take (length (wire b)) (data @ later)" using True by simp
    then have d: "data = wire b @ data'"
      using Cons.prems(2) append_take_drop_id [of "length (wire b)" data] by (simp add: data'_def x)
    then have "data' @ later = concat (map (\<lambda>x. wire (fst x)) bs)" using Cons.prems(2) by (simp add: x)
    moreover have "length b < 2 ^ 63 \<and> dec b = Some m" if "(b, m) \<in> set bs" for b m
      using that by (intro Cons.prems(1)) simp
    ultimately obtain got rest ahead where
      IH: "bs = got @ ahead" "data' = concat (map (\<lambda>x. wire (fst x)) got) @ rest"
        "drain dec \<lparr>pd_buffer = data'\<rparr> = (\<lparr>pd_buffer = rest\<rparr>, map snd got)"
        "ahead = [] \<longrightarrow> rest = []" "\<forall>x bs'. ahead = x # bs' \<longrightarrow> length rest < length (wire (fst x))"
      using Cons.IH [of data'] by blast
    have "drain dec \<lparr>pd_buffer = data\<rparr> = (\<lparr>pd_buffer = rest\<rparr>, map snd (x # got))"
      using IH(3) decode_next_message [of b dec m data', OF bm] unfolding d by (subst drain.simps) (simp add: x)
    with IH d show ?thesis by (intro exI [of _ "x # got"] exI [of _ rest] exI [of _ ahead]) (simp add: x)
  next
    case False
    then have "data = take (length data) (wire b)"
      using Cons.prems(2) by (simp add: x append_eq_append_conv_if)
    with decode_next_incomplete [OF bm(1), of "length data" dec] False
    have "decode_next dec \<lparr>pd_buffer = data\<rparr> = (\<lparr>pd_buffer = data\<rparr>, Inr None)" by (metis not_le)
    then have "drain dec \<lparr>pd_buffer = data\<rparr> = (\<lparr>pd_buffer = data\<rparr>, [])"
      by (subst drain.simps) simp
    with False show ?thesis by (intro exI [of _ "[]"] exI [of _ data] exI [of _ "x # bs"]) (auto simp: x)
  qed
qed

lemma feed_messages:
  assumes "\<And>b m. (b, m) \<in> set bs \<Longrightarrow> length b < 2 ^ 63 \<and> dec b = Some m"
    and "buf @ concat chunks = concat (map (\<lambda>x. wire (fst x)) bs)"
    and "bs = [] \<longrightarrow> buf = []" "\<forall>x bs'. bs = x # bs' \<longrightarrow> length buf < length (wire (fst x))"
  shows "feed dec chunks \<lparr>pd_buffer = buf\<rparr> = (\<lparr>pd_buffer = []\<rparr>, map snd bs)"
  using assms
proof (induction chunks arbitrary: buf bs)
  case Nil
  have "bs = []"
  proof (rule ccontr)
    assume "bs \<noteq> []"
    then obtain x bs' where "bs = x # bs'" by (cases bs) auto
    with Nil(2,4) show False by simp
  qed
  with Nil show ?case by simp
next
  case (Cons d ds)
  have "(buf @ d) @ concat ds = concat (map (\<lambda>x. wire (fst x)) bs)" using Cons.prems(2) by simp
  from drain_prefix [OF Cons.prems(1) this] obtain got rest ahead where
    dr: "bs = got @ ahead" "buf @ d = concat (map (\<lambda>x. wire (fst x)) got) @ rest"
      "drain dec \<lparr>pd_buffer = buf @ d\<rparr> = (\<lparr>pd_buffer = rest\<rparr>, map snd got)"
      "ahead = [] \<longrightarrow> rest = []" "\<forall>x bs'. ahead = x # bs' \<longrightarrow> length rest < length (wire (fst x))"
    by blast
  have "rest @ concat ds = concat (map (\<lambda>x. wire (fst x)) ahead)"
  proof -
    have "concat (map (\<lambda>x. wire (fst x)) got) @ rest @ concat ds = concat (map (\<lambda>x. wire (fst x)) got) @ concat (map (\<lambda>x. wire (fst x)) ahead)"
      using Cons.prems(2) dr(1,2) by (metis append.assoc concat.simps(2) concat_append map_append)
    then show ?thesis by simp
  qed
  moreover have "length b < 2 ^ 63 \<and> dec b = Some m" if "(b, m) \<in> set ahead" for b m
    using that dr(1) by (intro Cons.prems(1)) simp
  ultimately have "feed dec ds \<lparr>pd_buffer = rest\<rparr> = (\<lparr>pd_buffer = []\<rparr>, map snd ahead)"
    using dr(4,5) by (intro Cons.IH)
  with dr show ?case by (simp add: add_data_def)
qed

section \<open>Properties\<close>

text \<open>C24: Frame transmission over a byte stream. Non-empty payloads within the frame limit that are
  written to a stream arrive at the read loop of the receiver as the same messages in the same
  order, followed by exactly one Disconnected event when the peer closes. Whatever bytes arrive,
  the loop ends, with exactly one terminal event, last, and never reports a message that is empty
  or larger than the limit.\<close>

theorem frame_stream_roundtrip:
  "((\<forall>d \<in> set ds. d \<noteq> [] \<and> length d \<le> MAX_FRAME_LENGTH) \<longrightarrow>
      receive_loop disp \<lparr>rd_data = wr_data (write_frames ds \<lparr>wr_data = [], wr_error = None\<rparr>), rd_end = (UnexpectedEof, e)\<rparr>
      = map Message ds @ [Disconnected ''TCP connection closed by peer''])
   \<and> (\<exists>ms t. receive_loop disp r = map Message ms @ [t] \<and> is_terminal t
         \<and> (\<forall>d \<in> set ms. d \<noteq> [] \<and> length d \<le> MAX_FRAME_LENGTH))"
proof (intro conjI impI)
  assume ds: "\<forall>d \<in> set ds. d \<noteq> [] \<and> length d \<le> MAX_FRAME_LENGTH"
  let ?r = "\<lparr>rd_data = wr_data (write_frames ds \<lparr>wr_data = [], wr_error = None\<rparr>), rd_end = (UnexpectedEof, e)\<rparr>"
  have "rd_data ?r = concat (map frame_bytes ds) @ []" using ds by (simp add: write_frames_data)
  then have "receive_loop disp ?r = map Message ds @ receive_loop disp (?r\<lparr>rd_data := []\<rparr>)"
    using ds by (intro receive_frames) auto
  also have "receive_loop disp (?r\<lparr>rd_data := []\<rparr>) = [Disconnected ''TCP connection closed by peer'']"
    by (simp add: receive_loop.simps read_length_prefixed_def read_exact_def)
  finally show "receive_loop disp ?r = map Message ds @ [Disconnected ''TCP connection closed by peer'']" .
qed (rule receive_loop_shape)

theorem frame_stream_roundtrip_witness:
  "receive_loop (\<lambda>_. []) \<lparr>rd_data = wr_data (write_frames [''ab'', ''c''] \<lparr>wr_data = [], wr_error = None\<rparr>), rd_end = (UnexpectedEof, [])\<rparr>
     = [Message ''ab'', Message ''c'', Disconnected ''TCP connection closed by peer'']"
  using frame_stream_roundtrip [of "[''ab'', ''c'']" "\<lambda>_. []" "[]"] by (simp add: MAX_FRAME_LENGTH_def)

text \<open>An empty payload ends the connection. The sender accepts it and writes a frame of length
  zero, which the receiver takes for the end of the stream: everything sent after it is lost.\<close>

theorem empty_frame_ends_stream:
  "receive_loop disp \<lparr>rd_data = wr_data (write_frames ([] # ds) \<lparr>wr_data = [], wr_error = None\<rparr>), rd_end = e\<rparr>
     = [Disconnected ''TCP connection closed by peer'']"
proof -
  have app: "\<exists>x. wr_data (write_frames ds w) = wr_data w @ x" for w
  proof (induction ds arbitrary: w)
    case (Cons d ds)
    have "\<exists>y. wr_data (fst (write_length_prefixed d w)) = wr_data w @ y"
      by (auto simp: write_length_prefixed_def write_all_def split: option.splits)
    with Cons.IH [of "fst (write_length_prefixed d w)"] show ?case by auto
  qed simp
  obtain x where "wr_data (write_frames ([] # ds) \<lparr>wr_data = [], wr_error = None\<rparr>) = to_be_bytes 0 @ x"
    using app [of "fst (write_length_prefixed [] \<lparr>wr_data = [], wr_error = None\<rparr>)"]
    by (auto simp: write_length_prefixed_ok frame_bytes_def)
  then show ?thesis
    by (simp add: receive_loop.simps read_length_prefixed_def read_exact_def)
qed

text \<open>The protobuf stream decoder reassembles messages independently of how the stream is cut.
  When length-prefixed messages arrive in any chunks and the complete messages are taken after
  each chunk, exactly the sent messages come out, in order, and the buffer is empty at the end.\<close>

theorem decoder_chunking:
  assumes "\<forall>(b, m) \<in> set bs. length b < 2 ^ 63 \<and> dec b = Some m"
    and "concat chunks = concat (map (\<lambda>(b, m). varint (length b) @ b) bs)"
  shows "feed dec chunks decoder_new = (decoder_new, map snd bs)"
proof -
  have "[] @ concat chunks = concat (map (\<lambda>x. wire (fst x)) bs)"
    using assms(2) by (simp add: wire_def case_prod_unfold)
  then show ?thesis
    unfolding decoder_new_def using assms(1) by (intro feed_messages) (auto simp: wire_def)
qed

theorem decoder_chunking_witness:
  "feed Some [varint 2 @ ''h'', ''i'' @ varint 1, ''x''] decoder_new = (decoder_new, [''hi'', ''x''])"
proof -
  let ?bs = "[(''hi'', ''hi''), (''x'', ''x'')]"
  have ok: "\<forall>(b, m) \<in> set ?bs. length b < 2 ^ 63 \<and> Some b = Some m" by simp
  have "concat [varint 2 @ ''h'', ''i'' @ varint 1, ''x''] = concat (map (\<lambda>(b, m). varint (length b) @ b) ?bs)"
    by (simp add: numeral_2_eq_2)
  from decoder_chunking [OF ok this] show ?thesis by (simp only: list.map snd_conv)
qed

text \<open>A hostile length prefix stops the decoder with a panic: the ten bytes below announce a
  message of 2 ^ 64 - 1 bytes, and adding the length of the prefix overflows.\<close>

theorem decoder_length_overflow:
  "snd (decode_next dec (add_data [CHR 0xFF, CHR 0xFF, CHR 0xFF, CHR 0xFF, CHR 0xFF, CHR 0xFF,
     CHR 0xFF, CHR 0xFF, CHR 0xFF, CHR 0x01] decoder_new)) = Inl Panic"
proof -
  let ?n = "2 ^ 64 - 1 :: nat"
  have bytes: "[CHR 0xFF, CHR 0xFF, CHR 0xFF, CHR 0xFF, CHR 0xFF, CHR 0xFF, CHR 0xFF, CHR 0xFF, CHR 0xFF, CHR 0x01] = varint ?n"
    by (simp add: varint.simps char_of_def bit_0)
  have "read_varint \<lparr>pd_buffer = varint ?n\<rparr> = Inr (Some (of_nat ?n, length (varint ?n)))"
    using varint_loop_varint [of ?n 10 "[]" "[]" 0 0] length_varint64 [of ?n] by (simp add: read_varint_def)
  moreover have "unat (of_nat ?n :: 64 word) = ?n" by (simp add: unsigned_of_nat take_bit_nat_eq_self_iff)
  moreover have "Suc 0 \<le> length (varint ?n)" by (simp add: Suc_le_eq)
  ultimately show ?thesis
    unfolding bytes by (simp add: decode_next_def add_data_def decoder_new_def Let_def)
qed

end
