(* ===== verification/ClientCore.thy ===== *)
theory ClientCore
  imports ClientConnect Heartbeat Framing
begin

text \<open>
  The client core (\<open>src/src/client/transports/client_core.rs\<close>, with the sending half of
  \<open>client_core_connect.rs\<close>): negotiation state, kicks and server shutdowns, waiting requests, heartbeat
  slot, and the handling of frames and of connection events.  The observer through which a transport
  drives the core is \<open>ClientMessageObserver\<close> of \<open>src/src/client/transports/common.rs\<close>; the rest of that
  file are the operations of a transport client on the core.

  A connection is a handle; it is open as long as its transport has not taken its observers to report
  the terminal event, which it does once (\<open>Transport.observer_terminal_once\<close>).  Tasks that the source
  spawns are kept in \<open>co_tasks\<close>.  What leaves the core is recorded: notifications with the snapshot of the
  observers they go to, calls of the event handler, frames written, answers given to waiting requests.
\<close>

section \<open>State\<close>

datatype handler_call =
    OnSystem system_type frame
  | OnMessage payload_type frame
  | OnNotification notification_type frame
  | OnConnection connection_event

text \<open>Tasks under way: a frame that has been read, with the negotiation state at that moment; the parts
  of the handling of KICKED after the reason is registered, with what the closing is to report and the
  data of the frame; a terminal event that the transport is about to report; a terminal event that waits
  for the frames in flight; the clearing of the waiting requests; the parts of a disconnect that the
  application has asked for.\<close>

datatype client_task =
    TFrame bytes bool
  | TKickState "string option" bytes
  | TKickClose "string option" bytes
  | TKickEvent connection_event "string option" bytes
  | TKickEnd "string option" bytes
  | TTerminal connection_event
  | TDeferred connection_event
  | TClearPending
  | TAppClose
  | TAppEvent connection_event
  | TAppEnd

record client_core =
  co_state :: state_manager
  co_parser :: message_parser
  co_heartbeat :: "heartbeat_manager option"
  co_heartbeat_config :: heartbeat_config
  co_probe_wake :: bool
  co_router :: "message_router option"
  co_observers :: "nat list"
  co_config :: client_config
  co_has_handler :: bool
  co_connection :: "nat option"
  co_pending :: "(string, nat) amap"
  co_negotiated :: bool
  co_failure :: "flare_error option"
  co_disconnect_requested :: bool
  co_server_shutdown :: bool
  co_session_ended :: "string option"
  co_pending_kick :: "string option"
  co_kick_reported :: bool
  co_in_flight :: nat
  co_open :: "nat list"
  co_tasks :: "client_task list"
  co_retired :: "heartbeat_manager list"
  co_log :: "(nat list \<times> connection_event) list"
  co_calls :: "handler_call list"
  co_routed :: "frame list result list"
  co_answers :: "(nat \<times> frame) list"
  co_sent :: "(nat \<times> bytes) list"

text \<open>What an operation depends on: the codecs, nonce and stamp of frames it builds, the clock, the
  outcome of a write to a connection, whether the receiver of a waiting request is still there, the
  display text of an error, and the reason a transport gives when it is closed without one.\<close>

record client_env =
  ce_codecs :: codec_env
  ce_nonce :: bytes
  ce_stamp :: stamp
  ce_now :: nat
  ce_send :: "nat \<Rightarrow> bytes \<Rightarrow> unit result"
  ce_waiting :: "nat \<Rightarrow> bool"
  ce_display :: "flare_error \<Rightarrow> string"
  ce_closed_text :: string

definition client_core_new :: "nat \<Rightarrow> client_config \<Rightarrow> client_core" where
  "client_core_new now cfg =
     (case determine_initial_format cfg of
        (fmt, cmpr) \<Rightarrow>
          \<lparr>co_state = state_manager_new now, co_parser = parser_new fmt cmpr EncNone, co_heartbeat = None,
           co_heartbeat_config = cl_heartbeat cfg, co_probe_wake = False,
           co_router = (if cl_enable_router cfg then Some router_new else None), co_observers = [],
           co_config = cfg, co_has_handler = False, co_connection = None, co_pending = [],
           co_negotiated = False, co_failure = None, co_disconnect_requested = False,
           co_server_shutdown = False, co_session_ended = None, co_pending_kick = None,
           co_kick_reported = False, co_in_flight = 0, co_open = [], co_tasks = [], co_retired = [],
           co_log = [], co_calls = [], co_routed = [], co_answers = [], co_sent = []\<rparr>)"

section \<open>Parts\<close>

definition call_handler :: "handler_call \<Rightarrow> client_core \<Rightarrow> client_core" where
  "call_handler k c = (if co_has_handler c then c\<lparr>co_calls := co_calls c @ [k]\<rparr> else c)"

definition spawn :: "client_task \<Rightarrow> client_core \<Rightarrow> client_core" where
  "spawn t c = c\<lparr>co_tasks := co_tasks c @ [t]\<rparr>"

definition notify_observers :: "connection_event \<Rightarrow> client_core \<Rightarrow> client_core" where
  "notify_observers e c = c\<lparr>co_log := co_log c @ [(co_observers c, e)]\<rparr>"

definition core_add_observer :: "nat \<Rightarrow> client_core \<Rightarrow> client_core" where
  "core_add_observer x c = c\<lparr>co_observers := co_observers c @ [x]\<rparr>"

definition core_remove_observer :: "nat \<Rightarrow> client_core \<Rightarrow> client_core" where
  "core_remove_observer x c = c\<lparr>co_observers := filter (\<lambda>y. y \<noteq> x) (co_observers c)\<rparr>"

definition set_disconnect_requested :: "bool \<Rightarrow> client_core \<Rightarrow> client_core" where
  "set_disconnect_requested v c = c\<lparr>co_disconnect_requested := v\<rparr>"

text \<open>\<open>r\<close> is the random number of a delay after a shutdown.\<close>

definition reconnect_delay :: "duration \<Rightarrow> nat \<Rightarrow> client_core \<Rightarrow> client_core \<times> duration" where
  "reconnect_delay configured r c =
     (c\<lparr>co_server_shutdown := False\<rparr>,
      if co_server_shutdown c then server_shutdown_reconnect_delay r else configured)"

definition end_session_by_server :: "string \<Rightarrow> client_core \<Rightarrow> client_core" where
  "end_session_by_server reason c = c\<lparr>co_session_ended := Some reason\<rparr>"

definition set_pending_kick :: "string \<Rightarrow> client_core \<Rightarrow> client_core" where
  "set_pending_kick reason c = c\<lparr>co_pending_kick := Some reason\<rparr>"

definition take_unreported_kick :: "client_core \<Rightarrow> client_core \<times> string option" where
  "take_unreported_kick c =
     (case co_pending_kick c of
        None \<Rightarrow> (c, None)
      | Some reason \<Rightarrow> (c\<lparr>co_pending_kick := None, co_kick_reported := True\<rparr>, Some reason))"

datatype close_report = AsIs | ReportKick string | AlreadyKicked

definition close_report_of :: "client_core \<Rightarrow> client_core \<times> close_report" where
  "close_report_of c =
     (case co_pending_kick c of
        Some reason \<Rightarrow> (c\<lparr>co_pending_kick := None, co_kick_reported := True\<rparr>, ReportKick reason)
      | None \<Rightarrow> (c, if co_kick_reported c \<and> \<not> co_disconnect_requested c then AlreadyKicked else AsIs))"

definition inbound_frame_read :: "client_core \<Rightarrow> client_core" where
  "inbound_frame_read c = c\<lparr>co_in_flight := co_in_flight c + 1\<rparr>"

text \<open>The drop of the guard: \<open>checked_sub\<close> leaves a zero as it is.\<close>

definition inbound_frame_done :: "client_core \<Rightarrow> client_core" where
  "inbound_frame_done c = c\<lparr>co_in_flight := co_in_flight c - 1\<rparr>"

definition set_client_connection :: "nat \<Rightarrow> client_core \<Rightarrow> client_core" where
  "set_client_connection n c = c\<lparr>co_connection := Some n\<rparr>"

definition clear_client_connection :: "client_core \<Rightarrow> client_core" where
  "clear_client_connection c = c\<lparr>co_connection := None\<rparr>"

definition take_client_connection :: "client_core \<Rightarrow> client_core \<times> nat option" where
  "take_client_connection c = (c\<lparr>co_connection := None\<rparr>, co_connection c)"

subsection \<open>Heartbeat\<close>

definition try_start_heartbeat :: "client_env \<Rightarrow> client_core \<Rightarrow> client_core" where
  "try_start_heartbeat ce c =
     (if \<not> hc_enabled (co_heartbeat_config c) \<or> \<not> co_negotiated c \<or> co_heartbeat c \<noteq> None then c
      else case co_connection c of
        None \<Rightarrow> c
      | Some _ \<Rightarrow> c\<lparr>co_heartbeat := Some (hb_start (ce_now ce) (hb_with_config (co_heartbeat_config c)))\<rparr>)"

definition start_heartbeat :: "client_env \<Rightarrow> nat \<Rightarrow> client_core \<Rightarrow> client_core" where
  "start_heartbeat ce n c = try_start_heartbeat ce (c\<lparr>co_connection := Some n\<rparr>)"

definition stop_heartbeat :: "client_core \<Rightarrow> client_core" where
  "stop_heartbeat c =
     (case co_heartbeat c of
        None \<Rightarrow> c
      | Some h \<Rightarrow> c\<lparr>co_heartbeat := None, co_retired := hb_stop h # co_retired c\<rparr>)"

text \<open>The configuration is shared with the running manager.\<close>

definition update_heartbeat_config :: "(heartbeat_config \<Rightarrow> heartbeat_config) \<Rightarrow> client_core \<Rightarrow> client_core" where
  "update_heartbeat_config f c =
     c\<lparr>co_heartbeat_config := f (co_heartbeat_config c), co_heartbeat := map_option (update_config f) (co_heartbeat c)\<rparr>"

definition set_heartbeat_app_state :: "app_state \<Rightarrow> client_core \<Rightarrow> client_core" where
  "set_heartbeat_app_state s c =
     (let c1 = update_heartbeat_config (\<lambda>h. h\<lparr>hc_app_state := s\<rparr>) c
      in if s = Foreground then c1\<lparr>co_probe_wake := True\<rparr> else c1)"

definition set_heartbeat_nat_timeout :: "duration option \<Rightarrow> client_core \<Rightarrow> client_core" where
  "set_heartbeat_nat_timeout t c = update_heartbeat_config (\<lambda>h. h\<lparr>hc_nat_timeout := t\<rparr>) c"

definition core_record_pong :: "client_env \<Rightarrow> client_core \<Rightarrow> client_core" where
  "core_record_pong ce c = c\<lparr>co_heartbeat := map_option (record_pong (ce_now ce)) (co_heartbeat c)\<rparr>"

subsection \<open>Waiting requests\<close>

definition register_pending_response :: "string \<Rightarrow> nat \<Rightarrow> client_core \<Rightarrow> client_core" where
  "register_pending_response message_id waiter c = c\<lparr>co_pending := AList.update message_id waiter (co_pending c)\<rparr>"

definition cancel_pending_response :: "string \<Rightarrow> client_core \<Rightarrow> client_core" where
  "cancel_pending_response message_id c = c\<lparr>co_pending := AList.delete message_id (co_pending c)\<rparr>"

definition cancel_all_pending_responses :: "client_core \<Rightarrow> client_core" where
  "cancel_all_pending_responses c = c\<lparr>co_pending := []\<rparr>"

definition answer_pending :: "client_env \<Rightarrow> frame \<Rightarrow> client_core \<Rightarrow> client_core \<times> bool" where
  "answer_pending ce f c =
     (case map_of (co_pending c) (fr_message_id f) of
        None \<Rightarrow> (c, False)
      | Some w \<Rightarrow>
          (let c1 = c\<lparr>co_pending := AList.delete (fr_message_id f) (co_pending c)\<rparr> in
           if ce_waiting ce w then (c1\<lparr>co_answers := co_answers c1 @ [(w, f)]\<rparr>, True) else (c1, False)))"

subsection \<open>Negotiation state\<close>

definition reset_negotiation_state :: "client_core \<Rightarrow> client_core" where
  "reset_negotiation_state c = c\<lparr>co_negotiated := False, co_failure := None\<rparr>"

definition record_connect_rejection :: "system_command \<Rightarrow> client_core \<Rightarrow> client_core" where
  "record_connect_rejection s c =
     (if co_failure c \<noteq> None then c
      else c\<lparr>co_failure :=
               Some (connect_rejection_error (sc_message s)
                       (Option.bind (map_of (sc_metadata s) ''code'') from_utf8))\<rparr>)"

definition fail_negotiation_on_close :: "string \<Rightarrow> client_core \<Rightarrow> client_core" where
  "fail_negotiation_on_close detail c =
     c\<lparr>co_failure := Some (unwrap_or (closed_before_connect_ack_error detail) (co_failure c))\<rparr>"

definition closed_during_negotiation :: "client_core \<Rightarrow> bool" where
  "closed_during_negotiation c \<longleftrightarrow>
     sm_state (co_state c) = StConnected \<and> \<not> co_negotiated c \<and> \<not> co_disconnect_requested c"

definition should_defer_close_until_inbound_drained :: "client_core \<Rightarrow> bool" where
  "should_defer_close_until_inbound_drained c \<longleftrightarrow>
     sm_state (co_state c) = StConnected \<and> co_negotiated c \<and> \<not> co_disconnect_requested c \<and> co_in_flight c > 0"

definition core_update_parser ::
  "client_env \<Rightarrow> serialization_format \<Rightarrow> compression_algorithm \<Rightarrow> encryption_algorithm \<Rightarrow> client_core
   \<Rightarrow> client_core" where
  "core_update_parser ce fmt cmpr enc c =
     try_start_heartbeat ce (c\<lparr>co_parser := parser_new fmt cmpr enc, co_negotiated := True\<rparr>)"

text \<open>The result a waiter for CONNECT_ACK sees in a state, if any; the waiter looks at the states in
  which it is woken, and gives up after the timeout.\<close>

definition negotiation_poll :: "client_core \<Rightarrow> unit result option" where
  "negotiation_poll c = (if co_negotiated c then Some (Inr ()) else map_option Inl (co_failure c))"

definition negotiation_timeout_error :: "string \<Rightarrow> flare_error" where
  "negotiation_timeout_error timeout =
     localized ConnectionTimeout
       (''Negotiation timeout after '' @ timeout @ '' (CONNECT_ACK not received). '' @
        ''Ensure `flare_chat_server` is running, not `simple_server`.'')"

fun wait_for_negotiation :: "string \<Rightarrow> client_core list \<Rightarrow> unit result" where
  "wait_for_negotiation timeout [] = Inl (negotiation_timeout_error timeout)"
| "wait_for_negotiation timeout (c # cs) =
     (case negotiation_poll c of Some r \<Rightarrow> r | None \<Rightarrow> wait_for_negotiation timeout cs)"

section \<open>Connection events\<close>

definition on_connected :: "client_env \<Rightarrow> client_core \<Rightarrow> client_core" where
  "on_connected ce c =
     (let c1 = c\<lparr>co_state := set_connected (ce_now ce) (co_state c)\<rparr> in
      if sm_state (co_state c) = StConnected then c1
      else (reset_negotiation_state c1)
             \<lparr>co_server_shutdown := False, co_session_ended := None, co_pending_kick := None,
              co_kick_reported := False\<rparr>)"

text \<open>What \<open>Disconnected\<close> and \<open>Error\<close> have in common, after the decision what to report: \<open>detail\<close> is the
  reason or the text of the error, \<open>during\<close> whether CONNECT_ACK was still awaited.\<close>

definition connection_gone ::
  "(state_manager \<Rightarrow> state_manager) \<Rightarrow> bool \<Rightarrow> string \<Rightarrow> client_core \<Rightarrow> client_core" where
  "connection_gone set_st during detail c =
     (let c1 = stop_heartbeat (c\<lparr>co_state := set_st (co_state c), co_negotiated := False\<rparr>);
          c2 = (if during then fail_negotiation_on_close detail c1 else c1)
      in spawn TClearPending c2)"

definition report_event :: "close_report \<Rightarrow> connection_event \<Rightarrow> client_core \<Rightarrow> client_core" where
  "report_event r e c =
     (case r of
        AsIs \<Rightarrow> notify_observers e c
      | ReportKick reason \<Rightarrow> notify_observers (Disconnected reason) c
      | AlreadyKicked \<Rightarrow> c)"

definition handle_connection_event :: "client_env \<Rightarrow> connection_event \<Rightarrow> client_core \<Rightarrow> client_core" where
  "handle_connection_event ce e c0 =
     (let c = call_handler (OnConnection e) c0 in
      case e of
        Connected \<Rightarrow> report_event AsIs e (on_connected ce c)
      | Disconnected reason \<Rightarrow>
          (let during = closed_during_negotiation c;
               c1 = (if is_server_shutdown_reason reason then c\<lparr>co_server_shutdown := True\<rparr> else c)
           in case close_report_of c1 of
                (c2, r) \<Rightarrow> report_event r e (connection_gone (set_disconnected (ce_now ce)) during reason c2))
      | ErrorEvent error \<Rightarrow>
          (case close_report_of c of
             (c1, r) \<Rightarrow>
               report_event r e
                 (connection_gone (set_failed (ce_now ce)) (closed_during_negotiation c1) (ce_display ce error) c1))
      | Message _ \<Rightarrow> report_event AsIs e c)"

subsection \<open>The observer of the transport\<close>

definition record_pre_negotiation_rejection :: "client_env \<Rightarrow> bytes \<Rightarrow> client_core \<Rightarrow> client_core" where
  "record_pre_negotiation_rejection ce d c =
     (case parse (ce_codecs ce) PRE_NEGOTIATION_PARSER d of
        Inl _ \<Rightarrow> c
      | Inr f \<Rightarrow>
          (case frame_system_command f of
             None \<Rightarrow> c
           | Some s \<Rightarrow>
               if sc_type s = system_type_as_i32 SysError \<or> sc_type s = system_type_as_i32 SysClose
               then record_connect_rejection s c else c))"

definition on_event :: "client_env \<Rightarrow> connection_event \<Rightarrow> client_core \<Rightarrow> client_core" where
  "on_event ce e c =
     (case e of
        Message d \<Rightarrow>
          (let negotiated = co_negotiated c;
               c1 = (if \<not> negotiated then record_pre_negotiation_rejection ce d c else c)
           in spawn (TFrame d negotiated) (inbound_frame_read c1))
      | Connected \<Rightarrow> handle_connection_event ce e c
      | _ \<Rightarrow> if should_defer_close_until_inbound_drained c then spawn (TDeferred e) c
             else handle_connection_event ce e c)"

text \<open>Closing a connection from this end: an open one reports to its observer.\<close>

definition close_connection :: "client_env \<Rightarrow> nat \<Rightarrow> string \<Rightarrow> client_core \<Rightarrow> client_core" where
  "close_connection ce n reason c =
     (if n \<in> set (co_open c) then on_event ce (Disconnected reason) (c\<lparr>co_open := removeAll n (co_open c)\<rparr>) else c)"

definition send_on :: "client_env \<Rightarrow> nat \<Rightarrow> bytes \<Rightarrow> client_core \<Rightarrow> client_core \<times> unit result" where
  "send_on ce n d c = (c\<lparr>co_sent := co_sent c @ [(n, d)]\<rparr>, ce_send ce n d)"

section \<open>Frames\<close>

definition send_negotiation_ready :: "client_env \<Rightarrow> client_core \<Rightarrow> client_core \<times> unit result" where
  "send_negotiation_ready ce c =
     (case negotiation_ready_data (ce_codecs ce) (ce_nonce ce) (ce_stamp ce) of
        Inl e \<Rightarrow> (c, Inl e)
      | Inr d \<Rightarrow>
          (case co_connection c of
             None \<Rightarrow> (c, Inl (connection_failed ''Client connection not set''))
           | Some n \<Rightarrow> send_on ce n d c))"

definition fail_negotiation :: "client_env \<Rightarrow> string \<Rightarrow> client_core \<Rightarrow> client_core" where
  "fail_negotiation ce reason c =
     (let error = protocol_error reason in
      handle_connection_event ce (ErrorEvent error)
        (cancel_all_pending_responses (stop_heartbeat (c\<lparr>co_failure := Some error\<rparr>))))"

definition handle_connect_ack_command :: "client_env \<Rightarrow> frame \<Rightarrow> client_core \<Rightarrow> client_core" where
  "handle_connect_ack_command ce f c0 =
     (let c = call_handler (OnSystem SysConnectAck f) c0 in
      case handle_connect_ack f of
        Inr (fmt, cmpr, enc) \<Rightarrow>
          (let c1 = (if \<not> is_force_format (co_config c) then core_update_parser ce fmt cmpr enc c
                     else c\<lparr>co_negotiated := True\<rparr>)
           in try_start_heartbeat ce (fst (send_negotiation_ready ce c1)))
      | Inl e \<Rightarrow> fail_negotiation ce (ce_display ce e) c)"

definition handle_pong_command :: "client_env \<Rightarrow> frame \<Rightarrow> client_core \<Rightarrow> client_core" where
  "handle_pong_command ce f c = core_record_pong ce (call_handler (OnSystem SysPong f) c)"

definition handle_close_command ::
  "client_env \<Rightarrow> frame \<Rightarrow> system_command \<Rightarrow> bool \<Rightarrow> client_core \<Rightarrow> client_core" where
  "handle_close_command ce f s negotiated_at_receipt c0 =
     (let c = call_handler (OnSystem SysClose f) c0;
          c1 = (if is_server_shutdown_close s then c\<lparr>co_server_shutdown := True\<rparr> else c)
      in if \<not> negotiated_at_receipt then record_connect_rejection s c1
         else case take_client_connection c1 of
                (c2, None) \<Rightarrow> c2
              | (c2, Some n) \<Rightarrow> close_connection ce n (close_reason s @ '': server closed the connection'') c2)"

subsection \<open>KICKED\<close>

text \<open>Its handling in the parts between which other tasks can run: the reason is registered; the state
  is set; the connection is closed; waiting requests are cancelled and a kick that no event has
  reported is reported.  The first part gives what is to be reported.\<close>

definition kicked_register ::
  "frame \<Rightarrow> system_command \<Rightarrow> bool \<Rightarrow> client_core \<Rightarrow> client_core \<times> string option" where
  "kicked_register f s negotiated_at_receipt c0 =
     (let reason = kick_reason s;
          c = call_handler (OnSystem SysKicked f) c0;
          should_notify = (negotiated_at_receipt \<and> \<not> co_disconnect_requested c)
      in if should_notify
         then (set_pending_kick reason (if ends_session reason then end_session_by_server reason c else c), Some reason)
         else (c, None))"

definition kicked_state :: "client_env \<Rightarrow> client_core \<Rightarrow> client_core" where
  "kicked_state ce c = c\<lparr>co_state := set_disconnected (ce_now ce) (co_state c)\<rparr>"

definition disconnect_on_kicked :: "client_env \<Rightarrow> string option \<Rightarrow> client_core \<Rightarrow> client_core" where
  "disconnect_on_kicked ce reason c =
     (case take_client_connection c of
        (c1, None) \<Rightarrow> c1
      | (c1, Some n) \<Rightarrow> close_connection ce n (unwrap_or (ce_closed_text ce) reason) c1)"

definition kicked_end :: "string option \<Rightarrow> client_core \<Rightarrow> client_core" where
  "kicked_end notify c =
     (let c1 = cancel_all_pending_responses c in
      if notify = None then c1
      else case take_unreported_kick c1 of
             (c2, None) \<Rightarrow> c2
           | (c2, Some reason) \<Rightarrow> notify_observers (Disconnected reason) c2)"

definition handle_kicked_command ::
  "client_env \<Rightarrow> frame \<Rightarrow> system_command \<Rightarrow> bool \<Rightarrow> client_core \<Rightarrow> client_core" where
  "handle_kicked_command ce f s negotiated_at_receipt c =
     (case kicked_register f s negotiated_at_receipt c of
        (c1, notify) \<Rightarrow> kicked_end notify (disconnect_on_kicked ce notify (kicked_state ce c1)))"

subsection \<open>Dispatch\<close>

definition handle_system_commands :: "client_env \<Rightarrow> frame \<Rightarrow> bool \<Rightarrow> client_core \<Rightarrow> client_core \<times> bool" where
  "handle_system_commands ce f negotiated_at_receipt c =
     (case frame_system_command f of
        None \<Rightarrow> (c, False)
      | Some s \<Rightarrow>
          (case system_type_from_i32 (sc_type s) of
             Some SysConnectAck \<Rightarrow> (handle_connect_ack_command ce f c, True)
           | Some SysPong \<Rightarrow> (handle_pong_command ce f c, True)
           | Some SysKicked \<Rightarrow> (handle_kicked_command ce f s negotiated_at_receipt c, True)
           | Some SysError \<Rightarrow> if \<not> negotiated_at_receipt then (record_connect_rejection s c, True) else (c, False)
           | Some SysClose \<Rightarrow> (handle_close_command ce f s negotiated_at_receipt c, True)
           | _ \<Rightarrow> (c, False)))"

definition handle_business_commands :: "frame \<Rightarrow> client_core \<Rightarrow> client_core" where
  "handle_business_commands f c =
     (case frame_command_type f of
        Some (CmdPayload p) \<Rightarrow>
          (case payload_type_from_i32 (pc_type p) of Some t \<Rightarrow> call_handler (OnMessage t f) c | None \<Rightarrow> c)
      | Some (CmdNotification n) \<Rightarrow>
          (case notification_type_from_i32 (nc_type n) of Some t \<Rightarrow> call_handler (OnNotification t f) c | None \<Rightarrow> c)
      | _ \<Rightarrow> c)"

text \<open>The replies of the router are counted in the log and dropped.\<close>

definition handle_message_routing :: "frame \<Rightarrow> client_core \<Rightarrow> client_core" where
  "handle_message_routing f c =
     (case co_router c of None \<Rightarrow> c | Some r \<Rightarrow> c\<lparr>co_routed := co_routed c @ [route f r]\<rparr>)"

definition parse_received :: "client_env \<Rightarrow> bytes \<Rightarrow> bool \<Rightarrow> client_core \<Rightarrow> frame result" where
  "parse_received ce d negotiated_at_receipt c =
     (if \<not> negotiated_at_receipt then
        (case parse (ce_codecs ce) PRE_NEGOTIATION_PARSER d of
           Inr f \<Rightarrow> Inr f
         | Inl e \<Rightarrow> if co_negotiated c then parse (ce_codecs ce) (co_parser c) d else Inl e)
      else parse (ce_codecs ce) (co_parser c) d)"

definition handle_received_message :: "client_env \<Rightarrow> bytes \<Rightarrow> bool \<Rightarrow> client_core \<Rightarrow> client_core" where
  "handle_received_message ce d negotiated_at_receipt c =
     (case parse_received ce d negotiated_at_receipt c of
        Inl _ \<Rightarrow> c
      | Inr f \<Rightarrow>
          (case answer_pending ce f c of
             (c1, True) \<Rightarrow> notify_observers (Message d) c1
           | (c1, False) \<Rightarrow>
               (case handle_system_commands ce f negotiated_at_receipt c1 of
                  (c2, is_system_command) \<Rightarrow>
                    (let c3 = notify_observers (Message d) c2 in
                     if is_system_command then c3
                     else handle_message_routing f (handle_business_commands f c3)))))"

definition handle_message :: "client_env \<Rightarrow> bytes \<Rightarrow> client_core \<Rightarrow> client_core" where
  "handle_message ce d c = handle_received_message ce d (co_negotiated c) c"

section \<open>Operations of a transport client\<close>

definition send_connect_message :: "client_env \<Rightarrow> nat \<Rightarrow> client_core \<Rightarrow> client_core \<times> unit result" where
  "send_connect_message ce n c =
     (case serialize_connect_frame (ce_codecs ce) (ce_nonce ce) (co_config c) (co_parser c)
             (connect_frame (ce_codecs ce) (co_config c) (ce_stamp ce)) of
        Inl e \<Rightarrow> (c, Inl e)
      | Inr d \<Rightarrow> send_on ce n d c)"

text \<open>Attaching an observer to an open transport reports \<open>Connected\<close> to it.\<close>

definition setup_connection_and_send_connect ::
  "client_env \<Rightarrow> nat \<Rightarrow> client_core \<Rightarrow> client_core \<times> unit result" where
  "setup_connection_and_send_connect ce n c =
     (let c1 = set_client_connection n c;
          c2 = on_event ce Connected (c1\<lparr>co_open := n # co_open c1\<rparr>)
      in send_connect_message ce n c2)"

definition send_frame_internal ::
  "client_env \<Rightarrow> nat option \<Rightarrow> frame \<Rightarrow> client_core \<Rightarrow> client_core \<times> unit result" where
  "send_frame_internal ce connection f c =
     (if \<not> can_send (sm_state (co_state c)) then
        (c, Inl (connection_failed ''Cannot send: connection state is not ready''))
      else case serialize (ce_codecs ce) (ce_nonce ce) (co_parser c) f of
        Inl e \<Rightarrow> (c, Inl e)
      | Inr d \<Rightarrow>
          (case connection of
             None \<Rightarrow> (c, Inl (connection_failed ''Not connected''))
           | Some n \<Rightarrow> send_on ce n d c))"

definition disconnect_internal :: "client_env \<Rightarrow> nat option \<Rightarrow> client_core \<Rightarrow> client_core" where
  "disconnect_internal ce connection c =
     (let c1 = set_disconnect_requested True (c\<lparr>co_state := set_state (ce_now ce) StDisconnecting (co_state c)\<rparr>);
          c2 = clear_client_connection (stop_heartbeat c1);
          c3 = (case connection of None \<Rightarrow> c2 | Some n \<Rightarrow> close_connection ce n (ce_closed_text ce) c2)
      in handle_connection_event ce (Disconnected ''Client disconnected'') (cancel_all_pending_responses c3))"

definition can_reconnect :: "32 word option \<Rightarrow> bool" where
  "can_reconnect max_attempts = (case max_attempts of None \<Rightarrow> True | Some n \<Rightarrow> n > 0)"

definition should_reconnect_before_send :: "bool \<Rightarrow> client_core \<Rightarrow> client_config \<Rightarrow> bool" where
  "should_reconnect_before_send connected c cfg \<longleftrightarrow>
     \<not> connected \<and> cl_reconnect_on_send cfg \<and> \<not> co_disconnect_requested c \<and> co_session_ended c = None
     \<and> can_reconnect (cl_max_reconnect_attempts cfg)"

end
