(* ===== verification/ClientRun.thy ===== *)
theory ClientRun
  imports ClientCore "HOL-Library.Sublist" "HOL-Library.Multiset"
begin

text \<open>
  Runs of the client core on one connection: the read task of the transport, the tasks that handle
  frames, the deferred reports of a close, the application's disconnect and its other calls, in any
  interleaving.  A frame is handled in one step, except KICKED, which is handled in the four parts of
  \<open>ClientCore.handle_kicked_command\<close>; the report of the closing it brings about is a step of its own, and a
  disconnect is done in its parts.  What is to be reported is decided under a lock and the observers are told
  outside it: \<open>reports\<close> lists the decisions in their order, and the observers are told of each of them by a
  later step of its own.
\<close>

section \<open>Runs\<close>

definition reports :: "client_core \<Rightarrow> connection_event list" where
  "reports c = filter is_terminal (map snd (co_log c))"

definition without :: "client_task \<Rightarrow> client_core \<Rightarrow> client_core" where
  "without t c = c\<lparr>co_tasks := remove1 t (co_tasks c)\<rparr>"

text \<open>The KICKED command in received data that is not the answer to a waiting request, with the state
  after the waiting requests were looked at.\<close>

definition received_kick ::
  "client_env \<Rightarrow> bytes \<Rightarrow> bool \<Rightarrow> client_core \<Rightarrow> (frame \<times> system_command \<times> client_core) option" where
  "received_kick ce d neg c =
     (case parse_received ce d neg c of
        Inl _ \<Rightarrow> None
      | Inr f \<Rightarrow>
          (case answer_pending ce f c of
             (c1, answered) \<Rightarrow>
               if answered then None
               else (case frame_system_command f of
                       None \<Rightarrow> None
                     | Some s \<Rightarrow> if system_type_from_i32 (sc_type s) = Some SysKicked then Some (f, s, c1) else None)))"

text \<open>The closing of \<open>disconnect_on_kicked\<close>, up to the report to the observer of the transport.\<close>

definition take_open :: "client_env \<Rightarrow> string option \<Rightarrow> client_core \<Rightarrow> client_core \<times> connection_event option" where
  "take_open ce notify c =
     (case take_client_connection c of
        (c1, Some m) \<Rightarrow>
          if m \<in> set (co_open c1)
          then (c1\<lparr>co_open := removeAll m (co_open c1)\<rparr>, Some (Disconnected (unwrap_or (ce_closed_text ce) notify)))
          else (c1, None)
      | (c1, None) \<Rightarrow> (c1, None))"

definition kicked_take :: "client_env \<Rightarrow> string option \<Rightarrow> bytes \<Rightarrow> client_core \<Rightarrow> client_core" where
  "kicked_take ce notify d c =
     (case take_open ce notify c of
        (c1, Some e) \<Rightarrow> spawn (TKickEvent e notify d) c1
      | (c1, None) \<Rightarrow> spawn (TKickEnd notify d) c1)"

text \<open>The parts of \<open>disconnect_internal\<close>: the request, which also takes the connection out of its slot; the closing of
  the connection, up to the report to the observer of the transport; the cancelling of the waiting requests with
  the report of the disconnect.\<close>

definition app_request :: "client_env \<Rightarrow> client_core \<Rightarrow> client_core" where
  "app_request ce c =
     clear_client_connection (stop_heartbeat
       (set_disconnect_requested True (c\<lparr>co_state := set_state (ce_now ce) StDisconnecting (co_state c)\<rparr>)))"

definition app_close :: "client_env \<Rightarrow> nat option \<Rightarrow> client_core \<Rightarrow> client_core" where
  "app_close ce connection c =
     (case connection of
        None \<Rightarrow> spawn TAppEnd c
      | Some m \<Rightarrow>
          if m \<in> set (co_open c)
          then spawn (TAppEvent (Disconnected (ce_closed_text ce))) (c\<lparr>co_open := removeAll m (co_open c)\<rparr>)
          else spawn TAppEnd c)"

definition app_end :: "client_env \<Rightarrow> client_core \<Rightarrow> client_core" where
  "app_end ce c = handle_connection_event ce (Disconnected ''Client disconnected'') (cancel_all_pending_responses c)"

text \<open>A negotiated connection \<open>n\<close> on which nothing has happened yet.\<close>

definition client_online :: "nat \<Rightarrow> client_core \<Rightarrow> bool" where
  "client_online n c \<longleftrightarrow>
     sm_state (co_state c) = StConnected \<and> co_negotiated c \<and> \<not> co_disconnect_requested c
     \<and> co_pending_kick c = None \<and> \<not> co_kick_reported c \<and> co_in_flight c = 0 \<and> co_tasks c = []
     \<and> co_open c = [n] \<and> reports c = []"

text \<open>The reasons registered so far, latest first; whether a deferred close stopped waiting before the
  frames in flight were handled; the terminal events the observers have been told; and the state.\<close>

inductive client_run :: "nat \<Rightarrow> string list \<Rightarrow> bool \<Rightarrow> connection_event list \<Rightarrow> client_core \<Rightarrow> bool" for n where
  start: "client_online n c \<Longrightarrow> client_run n [] False [] c"
| read: "client_run n ks late told c \<Longrightarrow> n \<in> set (co_open c) \<Longrightarrow> client_run n ks late told (on_event ce (Message d) c)"
| terminal: "client_run n ks late told c \<Longrightarrow> n \<in> set (co_open c) \<Longrightarrow> is_terminal e
    \<Longrightarrow> client_run n ks late told (spawn (TTerminal e) (c\<lparr>co_open := removeAll n (co_open c)\<rparr>))"
| event: "client_run n ks late told c \<Longrightarrow> TTerminal e \<in> set (co_tasks c)
    \<Longrightarrow> client_run n ks late told (on_event ce e (without (TTerminal e) c))"
| frame: "client_run n ks late told c \<Longrightarrow> TFrame d neg \<in> set (co_tasks c)
    \<Longrightarrow> received_kick ce d neg (without (TFrame d neg) c) = None
    \<Longrightarrow> client_run n ks late told (inbound_frame_done (handle_received_message ce d neg (without (TFrame d neg) c)))"
| kick: "client_run n ks late told c \<Longrightarrow> TFrame d neg \<in> set (co_tasks c)
    \<Longrightarrow> received_kick ce d neg (without (TFrame d neg) c) = Some (f, s, c1)
    \<Longrightarrow> kicked_register f s neg c1 = (c2, notify)
    \<Longrightarrow> client_run n (case notify of Some r \<Rightarrow> r # ks | None \<Rightarrow> ks) late told (spawn (TKickState notify d) c2)"
| kick_state: "client_run n ks late told c \<Longrightarrow> TKickState notify d \<in> set (co_tasks c)
    \<Longrightarrow> client_run n ks late told (spawn (TKickClose notify d) (kicked_state ce (without (TKickState notify d) c)))"
| kick_close: "client_run n ks late told c \<Longrightarrow> TKickClose notify d \<in> set (co_tasks c)
    \<Longrightarrow> client_run n ks late told (kicked_take ce notify d (without (TKickClose notify d) c))"
| kick_event: "client_run n ks late told c \<Longrightarrow> TKickEvent e notify d \<in> set (co_tasks c)
    \<Longrightarrow> client_run n ks late told (spawn (TKickEnd notify d) (on_event ce e (without (TKickEvent e notify d) c)))"
| kick_end: "client_run n ks late told c \<Longrightarrow> TKickEnd notify d \<in> set (co_tasks c)
    \<Longrightarrow> client_run n ks late told
          (inbound_frame_done (notify_observers (Message d) (kicked_end notify (without (TKickEnd notify d) c))))"
| drained: "client_run n ks late told c \<Longrightarrow> TDeferred e \<in> set (co_tasks c) \<Longrightarrow> co_in_flight c = 0
    \<Longrightarrow> client_run n ks late told (handle_connection_event ce e (without (TDeferred e) c))"
| give_up: "client_run n ks late told c \<Longrightarrow> TDeferred e \<in> set (co_tasks c)
    \<Longrightarrow> client_run n ks True told (handle_connection_event ce e (without (TDeferred e) c))"
| clear: "client_run n ks late told c \<Longrightarrow> TClearPending \<in> set (co_tasks c)
    \<Longrightarrow> client_run n ks late told (cancel_all_pending_responses (without TClearPending c))"
| request: "client_run n ks late told c \<Longrightarrow> client_run n ks late told (register_pending_response mid w c)"
| cancel: "client_run n ks late told c \<Longrightarrow> client_run n ks late told (cancel_pending_response mid c)"
| add_obs: "client_run n ks late told c \<Longrightarrow> client_run n ks late told (core_add_observer x c)"
| rem_obs: "client_run n ks late told c \<Longrightarrow> client_run n ks late told (core_remove_observer x c)"
| app: "client_run n ks late told c \<Longrightarrow> client_run n ks late told (set_heartbeat_app_state st c)"
| nat_timeout: "client_run n ks late told c \<Longrightarrow> client_run n ks late told (set_heartbeat_nat_timeout t c)"
| disconnect: "client_run n ks late told c \<Longrightarrow> client_run n ks late told (spawn TAppClose (app_request ce c))"
| app_close: "client_run n ks late told c \<Longrightarrow> TAppClose \<in> set (co_tasks c)
    \<Longrightarrow> client_run n ks late told (app_close ce connection (without TAppClose c))"
| app_event: "client_run n ks late told c \<Longrightarrow> TAppEvent e \<in> set (co_tasks c)
    \<Longrightarrow> client_run n ks late told (spawn TAppEnd (on_event ce e (without (TAppEvent e) c)))"
| app_end: "client_run n ks late told c \<Longrightarrow> TAppEnd \<in> set (co_tasks c)
    \<Longrightarrow> client_run n ks late told (app_end ce (without TAppEnd c))"
| tell: "client_run n ks late told c \<Longrightarrow> e \<in># mset (reports c) - mset told \<Longrightarrow> client_run n ks late (told @ [e]) c"

text \<open>Run back to back, the parts are the whole.\<close>

lemma disconnect_on_kicked_parts:
  "disconnect_on_kicked ce notify c =
    (case take_open ce notify c of (c1, Some e) \<Rightarrow> on_event ce e c1 | (c1, None) \<Rightarrow> c1)"
  by (simp add: take_open_def disconnect_on_kicked_def take_client_connection_def close_connection_def
      split: option.splits)

lemma disconnect_internal_parts:
  "disconnect_internal ce connection c =
    app_end ce (case connection of
       None \<Rightarrow> app_request ce c
     | Some m \<Rightarrow>
         if m \<in> set (co_open (app_request ce c))
         then on_event ce (Disconnected (ce_closed_text ce)) ((app_request ce c)\<lparr>co_open := removeAll m (co_open (app_request ce c))\<rparr>)
         else app_request ce c)"
  by (simp add: disconnect_internal_def app_end_def app_request_def close_connection_def Let_def split: option.splits)

section \<open>Invariant\<close>

text \<open>Operations that leave alone what a report depends on.\<close>

definition quiet :: "client_core \<Rightarrow> client_core \<Rightarrow> bool" where
  "quiet c c' \<longleftrightarrow>
     co_disconnect_requested c' = co_disconnect_requested c \<and> co_pending_kick c' = co_pending_kick c
     \<and> co_kick_reported c' = co_kick_reported c \<and> co_session_ended c' = co_session_ended c
     \<and> reports c' = reports c \<and> co_open c' = co_open c \<and> co_tasks c' = co_tasks c
     \<and> co_in_flight c' = co_in_flight c \<and> sm_state (co_state c') = sm_state (co_state c)
     \<and> (co_negotiated c \<longrightarrow> co_negotiated c')"

lemma quiet_refl [simp]: "quiet c c" by (simp add: quiet_def)

lemma quiet_trans: "quiet a b \<Longrightarrow> quiet b c \<Longrightarrow> quiet a c" by (simp add: quiet_def)

lemma quiet_ops [simp]:
  "quiet c (call_handler k c)" "quiet c (notify_observers (Message d) c)" "quiet c (try_start_heartbeat ce c)"
  "quiet c (core_update_parser ce fmt cmpr enc c)" "quiet c (core_record_pong ce c)" "quiet c (record_connect_rejection s c)"
  "quiet c (fst (answer_pending ce f c))" "quiet c (handle_business_commands f c)" "quiet c (handle_message_routing f c)"
  "quiet c (register_pending_response mid w c)" "quiet c (cancel_pending_response mid c)"
  "quiet c (cancel_all_pending_responses c)" "quiet c (core_add_observer x c)" "quiet c (core_remove_observer x c)"
  "quiet c (set_heartbeat_app_state st c)" "quiet c (set_heartbeat_nat_timeout t c)"
  "quiet c (fst (send_negotiation_ready ce c))" "quiet c (record_pre_negotiation_rejection ce d c)"
  "quiet c (fst (take_client_connection c))" "quiet c (c\<lparr>co_negotiated := True\<rparr>)"
  "quiet c (c\<lparr>co_server_shutdown := b\<rparr>)"
  by (auto simp: quiet_def reports_def call_handler_def notify_observers_def is_terminal_def try_start_heartbeat_def
      core_update_parser_def core_record_pong_def record_connect_rejection_def answer_pending_def Let_def
      handle_business_commands_def handle_message_routing_def register_pending_response_def
      cancel_pending_response_def cancel_all_pending_responses_def core_add_observer_def core_remove_observer_def
      set_heartbeat_app_state_def set_heartbeat_nat_timeout_def update_heartbeat_config_def
      send_negotiation_ready_def send_on_def record_pre_negotiation_rejection_def take_client_connection_def
      split: option.splits command_type.splits sum.splits)

text \<open>The parts of the invariant.  A frame task and the parts of a kick hold a guard; the sources of the
  terminal event are the open connection and the tasks that carry it.  \<open>hand\<close> counts a terminal event and
  \<open>held\<close> a guard that the running step has taken from the tasks.\<close>

fun guarded :: "client_task \<Rightarrow> bool" where
  "guarded (TFrame _ _) = True"
| "guarded (TKickState _ _) = True"
| "guarded (TKickClose _ _) = True"
| "guarded (TKickEvent _ _ _) = True"
| "guarded (TKickEnd _ _) = True"
| "guarded _ = False"

fun carries_terminal :: "client_task \<Rightarrow> bool" where
  "carries_terminal (TTerminal _) = True"
| "carries_terminal (TDeferred _) = True"
| "carries_terminal _ = False"

fun before_kick :: "client_task \<Rightarrow> bool" where
  "before_kick (TFrame _ neg) = neg"
| "before_kick t = (\<not> guarded t)"

fun terminal_task :: "client_task \<Rightarrow> bool" where
  "terminal_task (TTerminal e) = is_terminal e"
| "terminal_task (TDeferred e) = is_terminal e"
| "terminal_task (TKickEvent e _ _) = is_terminal e"
| "terminal_task (TAppEvent e) = is_terminal e"
| "terminal_task _ = True"

fun app_task :: "client_task \<Rightarrow> bool" where
  "app_task TAppClose = True"
| "app_task (TAppEvent _) = True"
| "app_task TAppEnd = True"
| "app_task _ = False"

definition sources :: "nat \<Rightarrow> client_core \<Rightarrow> nat" where
  "sources n c = (if n \<in> set (co_open c) then 1 else 0) + length (filter carries_terminal (co_tasks c))"

definition waiting :: "nat \<Rightarrow> bool \<Rightarrow> nat \<Rightarrow> client_core \<Rightarrow> bool" where
  "waiting n late hand c \<longleftrightarrow>
     co_pending_kick c = None \<and> \<not> co_kick_reported c \<and> length (reports c) + sources n c + hand = 1
     \<and> list_all before_kick (co_tasks c)
     \<and> (reports c = [] \<longrightarrow> sm_state (co_state c) = StConnected \<and> co_negotiated c)
     \<and> (reports c \<noteq> [] \<and> \<not> late \<longrightarrow> co_in_flight c = 0)"

definition after_kick :: "string list \<Rightarrow> bool \<Rightarrow> client_core \<Rightarrow> bool" where
  "after_kick ks late c \<longleftrightarrow>
     (\<exists>pre rs. reports c = pre @ map Disconnected rs \<and> length pre \<le> 1 \<and> (late \<or> pre = [])
       \<and> (case co_pending_kick c of
            Some r \<Rightarrow> r = hd ks \<and> subseq rs (rev (tl ks))
          | None \<Rightarrow> co_kick_reported c \<and> rs \<noteq> [] \<and> last rs = hd ks \<and> subseq rs (rev ks)))"

text \<open>Once the application has asked for a disconnect, no kick is registered any more; one that was is decided first, and
  then every close is reported as it is.\<close>

definition after_request :: "string list \<Rightarrow> bool \<Rightarrow> client_core \<Rightarrow> bool" where
  "after_request ks late c \<longleftrightarrow>
     (\<exists>pre rs post. reports c = pre @ map Disconnected rs @ post \<and> length pre \<le> 1 \<and> (ks \<noteq> [] \<longrightarrow> late \<or> pre = [])
       \<and> (case co_pending_kick c of
            Some r \<Rightarrow> ks \<noteq> [] \<and> r = hd ks \<and> post = [] \<and> subseq rs (rev (tl ks))
          | None \<Rightarrow> (ks \<noteq> [] \<longrightarrow> rs \<noteq> [] \<and> last rs = hd ks) \<and> subseq rs (rev ks)))"

definition kick_inv :: "nat \<Rightarrow> string list \<Rightarrow> bool \<Rightarrow> nat \<Rightarrow> nat \<Rightarrow> client_core \<Rightarrow> bool" where
  "kick_inv n ks late hand held c \<longleftrightarrow>
     list_all terminal_task (co_tasks c)
     \<and> ((\<exists>k \<in> set ks. ends_session k) \<longrightarrow> co_session_ended c \<noteq> None)
     \<and> (if co_disconnect_requested c then after_request ks late c
        else list_all (\<lambda>t. \<not> app_task t) (co_tasks c) \<and> co_in_flight c = length (filter guarded (co_tasks c)) + held \<and> set (co_open c) \<subseteq> {n}
          \<and> (if ks = [] then waiting n late hand c else after_kick ks late c))"

lemmas kick_inv_defs = kick_inv_def waiting_def sources_def

lemma after_kick_cong:
  "reports c' = reports c \<Longrightarrow> co_pending_kick c' = co_pending_kick c \<Longrightarrow> co_kick_reported c' = co_kick_reported c
   \<Longrightarrow> after_kick ks late c' = after_kick ks late c"
  by (cases "co_pending_kick c") (simp_all add: after_kick_def)

lemma after_request_cong:
  "reports c' = reports c \<Longrightarrow> co_pending_kick c' = co_pending_kick c \<Longrightarrow> after_request ks late c' = after_request ks late c"
  by (cases "co_pending_kick c") (simp_all add: after_request_def)

lemma report_fields [simp]:
  "reports (c\<lparr>co_tasks := ts\<rparr>) = reports c" "reports (c\<lparr>co_open := os\<rparr>) = reports c"
  "reports (c\<lparr>co_in_flight := i\<rparr>) = reports c" "reports (c\<lparr>co_state := sm\<rparr>) = reports c"
  "reports (c\<lparr>co_pending_kick := k\<rparr>) = reports c" "reports (c\<lparr>co_session_ended := x\<rparr>) = reports c"
  by (simp_all add: reports_def)

lemma after_kick_fields [simp]:
  "after_kick ks late (c\<lparr>co_tasks := ts\<rparr>) = after_kick ks late c"
  "after_kick ks late (c\<lparr>co_open := os\<rparr>) = after_kick ks late c"
  "after_kick ks late (c\<lparr>co_in_flight := i\<rparr>) = after_kick ks late c"
  "after_kick ks late (c\<lparr>co_state := sm\<rparr>) = after_kick ks late c"
  by (rule after_kick_cong; simp)+

lemma after_request_fields [simp]:
  "after_request ks late (c\<lparr>co_tasks := ts\<rparr>) = after_request ks late c"
  "after_request ks late (c\<lparr>co_open := os\<rparr>) = after_request ks late c"
  "after_request ks late (c\<lparr>co_in_flight := i\<rparr>) = after_request ks late c"
  "after_request ks late (c\<lparr>co_state := sm\<rparr>) = after_request ks late c"
  by (rule after_request_cong; simp)+

lemma kick_inv_quiet:
  assumes "kick_inv n ks late hand held c" "quiet c c'"
  shows "kick_inv n ks late hand held c'"
  using assms after_kick_cong [of c' c ks late] after_request_cong [of c' c ks late]
  by (cases "co_disconnect_requested c"; cases "ks = []") (auto simp: kick_inv_defs quiet_def)

lemma count_remove1:
  "t \<in> set ts \<Longrightarrow> length (filter P ts) = length (filter P (remove1 t ts)) + (if P t then 1 else 0)"
  by (induction ts) auto

lemma list_all_remove1: "list_all P ts \<Longrightarrow> list_all P (remove1 t ts)"
  by (auto simp: list_all_iff dest: notin_set_remove1)

text \<open>Taking a task up.\<close>

lemma kick_inv_without:
  assumes "kick_inv n ks late 0 0 c" and "t \<in> set (co_tasks c)"
  shows "kick_inv n ks late (if carries_terminal t then 1 else 0) (if guarded t then 1 else 0) (without t c)"
  using assms(1) count_remove1 [OF assms(2), of guarded] count_remove1 [OF assms(2), of carries_terminal]
  by (auto simp: kick_inv_defs without_def list_all_remove1 split: if_splits)

text \<open>Spawning one.\<close>

lemma kick_inv_spawn:
  assumes "kick_inv n ks late hand held c" and "terminal_task t" and "ks = [] \<Longrightarrow> \<not> co_disconnect_requested c \<Longrightarrow> before_kick t"
    and "co_disconnect_requested c \<or> \<not> app_task t"
    and "hand = hand' + (if carries_terminal t then 1 else 0)" "held = held' + (if guarded t then 1 else 0)"
  shows "kick_inv n ks late hand' held' (spawn t c)"
  using assms by (cases "co_disconnect_requested c"; cases "ks = []") (auto simp: kick_inv_defs spawn_def)

text \<open>The transport's observers taken.\<close>

lemma kick_inv_take:
  assumes "kick_inv n ks late 0 held c" and "m \<in> set (co_open c)"
  shows "kick_inv n ks late 1 held (c\<lparr>co_open := removeAll m (co_open c)\<rparr>)"
proof (cases "co_disconnect_requested c")
  case True
  then show ?thesis using assms(1) by (simp add: kick_inv_def)
next
  case False
  then have "m = n" using assms by (auto simp: kick_inv_def)
  then show ?thesis using assms False by (auto simp: kick_inv_defs)
qed

text \<open>A terminal event handled.\<close>

lemma connection_gone_fields [simp]:
  "co_disconnect_requested (connection_gone st b x c) = co_disconnect_requested c"
  "co_pending_kick (connection_gone st b x c) = co_pending_kick c"
  "co_kick_reported (connection_gone st b x c) = co_kick_reported c"
  "co_session_ended (connection_gone st b x c) = co_session_ended c"
  "co_log (connection_gone st b x c) = co_log c" "co_open (connection_gone st b x c) = co_open c"
  "co_in_flight (connection_gone st b x c) = co_in_flight c"
  "co_tasks (connection_gone st b x c) = co_tasks c @ [TClearPending]"
  by (simp_all add: connection_gone_def stop_heartbeat_def fail_negotiation_on_close_def spawn_def Let_def
      split: option.splits)

lemma call_handler_fields [simp]:
  "co_disconnect_requested (call_handler k c) = co_disconnect_requested c"
  "co_pending_kick (call_handler k c) = co_pending_kick c" "co_kick_reported (call_handler k c) = co_kick_reported c"
  "co_session_ended (call_handler k c) = co_session_ended c" "co_log (call_handler k c) = co_log c"
  "co_open (call_handler k c) = co_open c" "co_in_flight (call_handler k c) = co_in_flight c"
  "co_tasks (call_handler k c) = co_tasks c"
  by (simp_all add: call_handler_def)

lemma terminal_handled:
  assumes "is_terminal e"
  shows "co_disconnect_requested (handle_connection_event ce e c) = co_disconnect_requested c"
    "co_pending_kick (handle_connection_event ce e c) = None"
    "co_kick_reported (handle_connection_event ce e c) \<longleftrightarrow> co_kick_reported c \<or> co_pending_kick c \<noteq> None"
    "co_session_ended (handle_connection_event ce e c) = co_session_ended c"
    "co_open (handle_connection_event ce e c) = co_open c"
    "co_in_flight (handle_connection_event ce e c) = co_in_flight c"
    "co_tasks (handle_connection_event ce e c) = co_tasks c @ [TClearPending]"
    "reports (handle_connection_event ce e c) = reports c @
       (case co_pending_kick c of
          Some r \<Rightarrow> [Disconnected r]
        | None \<Rightarrow> if co_kick_reported c \<and> \<not> co_disconnect_requested c then [] else [e])"
  using assms
  by (cases e; auto simp: handle_connection_event_def is_terminal_def close_report_of_def report_event_def Let_def
      notify_observers_def reports_def split: option.splits close_report.splits)+

text \<open>A decision after the request.\<close>

lemma after_request_report:
  assumes "after_request ks late c" and "co_pending_kick c' = None"
    and "reports c' = reports c @ (case co_pending_kick c of Some r \<Rightarrow> [Disconnected r] | None \<Rightarrow> es)"
  shows "after_request ks late c'"
proof -
  obtain pre rs post where p: "reports c = pre @ map Disconnected rs @ post" "length pre \<le> 1" "ks \<noteq> [] \<longrightarrow> late \<or> pre = []"
    and k: "case co_pending_kick c of Some r \<Rightarrow> ks \<noteq> [] \<and> r = hd ks \<and> post = [] \<and> subseq rs (rev (tl ks))
          | None \<Rightarrow> (ks \<noteq> [] \<longrightarrow> rs \<noteq> [] \<and> last rs = hd ks) \<and> subseq rs (rev ks)"
    using assms(1) by (auto simp: after_request_def)
  show ?thesis
  proof (cases "co_pending_kick c")
    case None
    then show ?thesis
      using p k assms(2,3) unfolding after_request_def
      by (intro exI [of _ pre] exI [of _ rs] exI [of _ "post @ es"]) auto
  next
    case (Some r)
    then have "subseq (rs @ [r]) (rev ks)" using k by (cases ks) auto
    then show ?thesis
      using p k Some assms(2,3) unfolding after_request_def
      by (intro exI [of _ pre] exI [of _ "rs @ [r]"] exI [of _ "[]"]) auto
  qed
qed

lemma after_kick_report:
  assumes "after_kick ks late c" and "ks \<noteq> []"
    and "co_pending_kick c' = None" "co_kick_reported c' \<longleftrightarrow> co_kick_reported c \<or> co_pending_kick c \<noteq> None"
    and "reports c' = reports c @
      (case co_pending_kick c of Some r \<Rightarrow> [Disconnected r] | None \<Rightarrow> if co_kick_reported c then [] else [e])"
  shows "after_kick ks late c'"
proof (cases "co_pending_kick c")
  case None
  with assms show ?thesis by (auto simp: after_kick_def)
next
  case (Some r)
  then obtain pre rs where p: "reports c = pre @ map Disconnected rs" "length pre \<le> 1" "late \<or> pre = []"
    "r = hd ks" "subseq rs (rev (tl ks))"
    using assms(1) by (auto simp: after_kick_def)
  have "subseq (rs @ [hd ks]) (rev ks)"
    using p(5) assms(2) by (cases ks) auto
  then show ?thesis
    using Some p assms unfolding after_kick_def
    by (intro exI [of _ pre] exI [of _ "rs @ [r]"]) auto
qed

lemma kick_inv_handled:
  assumes inv: "kick_inv n ks late 1 held c" and e: "is_terminal e"
    and l: "late' \<or> co_in_flight c = 0 \<or> ks \<noteq> [] \<or> co_disconnect_requested c" "late \<Longrightarrow> late'"
  shows "kick_inv n ks late' 0 held (handle_connection_event ce e c)"
proof -
  note facts = terminal_handled [OF e, of ce c]
  show ?thesis
  proof (cases "co_disconnect_requested c")
    case True
    then have "after_request ks late c" using inv by (simp add: kick_inv_def)
    then have "after_request ks late' c" using l(2) unfolding after_request_def by (elim exE) (rule exI, auto)
    from after_request_report [OF this facts(2), of "[e]"] have "after_request ks late' (handle_connection_event ce e c)"
      using facts(8) True by (auto split: option.splits)
    then show ?thesis using inv facts True by (simp add: kick_inv_def)
  next
    case req: False
    show ?thesis
    proof (cases "ks = []")
      case True
      then show ?thesis using inv l facts req by (auto simp: kick_inv_defs)
    next
      case False
      then have "after_kick ks late c" using inv req by (simp add: kick_inv_def)
      then have "after_kick ks late' c" using l(2) by (auto simp: after_kick_def)
      from after_kick_report [OF this False facts(2,3), of e] have "after_kick ks late' (handle_connection_event ce e c)"
        using facts(8) req by (simp cong: option.case_cong)
      then show ?thesis using inv False facts req by (simp add: kick_inv_def)
    qed
  qed
qed

lemma kick_inv_hand:
  "ks \<noteq> [] \<or> co_disconnect_requested c \<Longrightarrow> kick_inv n ks late hand held c \<Longrightarrow> kick_inv n ks late hand' held c"
  by (auto simp: kick_inv_def)

lemma on_event_terminal:
  assumes inv: "kick_inv n ks late 1 held c" and e: "is_terminal e"
  shows "kick_inv n ks late 0 held (on_event ce e c)"
proof (cases "should_defer_close_until_inbound_drained c")
  case True
  then have "on_event ce e c = spawn (TDeferred e) c"
    using e by (auto simp: on_event_def is_terminal_def split: connection_event.splits)
  then show ?thesis using kick_inv_spawn [OF inv, of "TDeferred e"] e by simp
next
  case False
  then have *: "on_event ce e c = handle_connection_event ce e c"
    using e by (auto simp: on_event_def is_terminal_def split: connection_event.splits)
  have "co_in_flight c = 0 \<or> ks \<noteq> [] \<or> co_disconnect_requested c"
    using False inv by (auto simp: should_defer_close_until_inbound_drained_def kick_inv_defs)
  with kick_inv_handled [OF inv e, of late] * show ?thesis by auto
qed

lemma close_connection_inv:
  assumes "kick_inv n ks late 0 held c"
  shows "kick_inv n ks late 0 held (close_connection ce m reason c)"
  using assms on_event_terminal [OF kick_inv_take [OF assms]]
  by (simp add: close_connection_def is_terminal_def)

section \<open>Frames other than KICKED\<close>

text \<open>CONNECT_ACK never fails here: the type has been looked at before.\<close>

lemma connect_ack_quiet:
  assumes "frame_system_command f = Some s" and "system_type_from_i32 (sc_type s) = Some SysConnectAck"
  shows "quiet c (handle_connect_ack_command ce f c)"
proof -
  obtain fmt cmpr enc where ok: "handle_connect_ack f = Inr (fmt, cmpr, enc)"
    using assms by (simp add: handle_connect_ack_def)
  let ?c = "call_handler (OnSystem SysConnectAck f) c"
  let ?c1 = "if \<not> is_force_format (co_config ?c) then core_update_parser ce fmt cmpr enc ?c else ?c\<lparr>co_negotiated := True\<rparr>"
  have "quiet c ?c1" by (rule quiet_trans [of c ?c]) simp_all
  then have "quiet c (fst (send_negotiation_ready ce ?c1))" by (rule quiet_trans) simp
  then have "quiet c (try_start_heartbeat ce (fst (send_negotiation_ready ce ?c1)))" by (rule quiet_trans) simp
  then show ?thesis by (simp add: handle_connect_ack_command_def ok Let_def)
qed

text \<open>Every other frame is quiet, or closes a connection after and before quiet work.\<close>

definition closes_at_most :: "client_env \<Rightarrow> client_core \<Rightarrow> client_core \<Rightarrow> bool" where
  "closes_at_most ce c c' \<longleftrightarrow>
     quiet c c' \<or> (\<exists>c1 m reason. quiet c c1 \<and> quiet (close_connection ce m reason c1) c')"

lemma closes_at_most_quiet [intro]: "quiet c c' \<Longrightarrow> closes_at_most ce c c'"
  by (simp add: closes_at_most_def)

lemma closes_at_most_before: "quiet c c1 \<Longrightarrow> closes_at_most ce c1 c' \<Longrightarrow> closes_at_most ce c c'"
  unfolding closes_at_most_def by (blast intro: quiet_trans)

lemma closes_at_most_after: "closes_at_most ce c c1 \<Longrightarrow> quiet c1 c' \<Longrightarrow> closes_at_most ce c c'"
  unfolding closes_at_most_def by (blast intro: quiet_trans)

lemma close_command_closes: "closes_at_most ce c (handle_close_command ce f s neg c)"
proof -
  let ?c = "call_handler (OnSystem SysClose f) c"
  let ?c1 = "if is_server_shutdown_close s then ?c\<lparr>co_server_shutdown := True\<rparr> else ?c"
  have q: "quiet c ?c1" by (rule quiet_trans [of c ?c]) simp_all
  show ?thesis
  proof (cases "\<not> neg")
    case True
    then show ?thesis using quiet_trans [OF q quiet_ops(6)] by (auto simp: handle_close_command_def Let_def)
  next
    case False
    have q2: "quiet c (fst (take_client_connection ?c1))" by (rule quiet_trans [OF q]) simp
    show ?thesis
    proof (cases "snd (take_client_connection ?c1)")
      case None
      then have "handle_close_command ce f s neg c = fst (take_client_connection ?c1)"
        using False by (simp add: handle_close_command_def Let_def take_client_connection_def)
      then show ?thesis using q2 by auto
    next
      case (Some m)
      then have "handle_close_command ce f s neg c = close_connection ce m
          (close_reason s @ '': server closed the connection'') (fst (take_client_connection ?c1))"
        using False by (simp add: handle_close_command_def Let_def take_client_connection_def)
      then show ?thesis using q2 unfolding closes_at_most_def by (metis quiet_refl)
    qed
  qed
qed

lemma system_commands_close:
  assumes "\<And>s. frame_system_command f = Some s \<Longrightarrow> system_type_from_i32 (sc_type s) \<noteq> Some SysKicked"
  shows "closes_at_most ce c (fst (handle_system_commands ce f neg c))"
proof (cases "frame_system_command f")
  case None
  then show ?thesis by (auto simp: handle_system_commands_def)
next
  case (Some s)
  have pong: "quiet c (handle_pong_command ce f c)"
    unfolding handle_pong_command_def by (rule quiet_trans [of _ "call_handler (OnSystem SysPong f) c"]) simp_all
  show ?thesis
    using Some assms [OF Some] connect_ack_quiet [OF Some] pong
    by (auto simp: handle_system_commands_def close_command_closes split: option.splits system_type.splits)
qed

lemma frame_closes:
  assumes "received_kick ce d neg c = None"
  shows "closes_at_most ce c (handle_received_message ce d neg c)"
proof (cases "parse_received ce d neg c")
  case (Inl e)
  then show ?thesis by (auto simp: handle_received_message_def)
next
  case (Inr f)
  obtain c1 answered where a: "answer_pending ce f c = (c1, answered)" by force
  have q: "quiet c c1" using quiet_ops(7) [of c ce f] by (simp add: a)
  show ?thesis
  proof (cases answered)
    case True
    then show ?thesis
      using Inr a quiet_trans [OF q quiet_ops(2)] by (auto simp: handle_received_message_def)
  next
    case False
    obtain c2 sys where s: "handle_system_commands ce f neg c1 = (c2, sys)" by force
    have "frame_system_command f = Some s' \<Longrightarrow> system_type_from_i32 (sc_type s') \<noteq> Some SysKicked" for s'
      using assms Inr a False by (auto simp: received_kick_def split: if_splits)
    from system_commands_close [OF this, of f ce c1 neg] have "closes_at_most ce c c2"
      using closes_at_most_before [OF q] by (simp add: s)
    then have 1: "closes_at_most ce c (notify_observers (Message d) c2)" by (rule closes_at_most_after) simp
    then have 2: "closes_at_most ce c (handle_message_routing f (handle_business_commands f (notify_observers (Message d) c2)))"
      by (blast intro: closes_at_most_after quiet_ops)
    show ?thesis using 1 2 Inr a s False by (simp add: handle_received_message_def Let_def)
  qed
qed

lemma closes_at_most_inv:
  "closes_at_most ce c c' \<Longrightarrow> kick_inv n ks late 0 held c \<Longrightarrow> kick_inv n ks late 0 held c'"
  unfolding closes_at_most_def by (blast intro: kick_inv_quiet close_connection_inv)

lemma inbound_frame_done_inv: "kick_inv n ks late 0 1 c \<Longrightarrow> kick_inv n ks late 0 0 (inbound_frame_done c)"
  by (auto simp: kick_inv_defs inbound_frame_done_def)

section \<open>KICKED\<close>

lemma received_kick_quiet: "received_kick ce d neg c = Some (f, s, c1) \<Longrightarrow> quiet c c1"
  using quiet_ops(7) [of c ce f]
  by (auto simp: received_kick_def simp del: quiet_ops split: sum.splits prod.splits if_splits option.splits)

lemma kicked_register_requested:
  "kicked_register f s neg c = (c', notify) \<Longrightarrow> co_disconnect_requested c \<Longrightarrow> notify = None \<and> quiet c c'"
  by (auto simp: kicked_register_def Let_def)

lemma kicked_register_fields:
  assumes "kicked_register f s neg c = (c', notify)" and "\<not> co_disconnect_requested c"
  shows "notify = (if neg then Some (kick_reason s) else None)"
    "co_pending_kick c' = (if neg then Some (kick_reason s) else co_pending_kick c)"
    "co_session_ended c' = (if neg \<and> ends_session (kick_reason s) then Some (kick_reason s) else co_session_ended c)"
    "co_kick_reported c' = co_kick_reported c" "reports c' = reports c" "co_open c' = co_open c"
    "co_tasks c' = co_tasks c" "co_in_flight c' = co_in_flight c"
    "co_disconnect_requested c' = co_disconnect_requested c" "\<not> neg \<Longrightarrow> quiet c c'"
proof -
  let ?c = "call_handler (OnSystem SysKicked f) c"
  have e: "c' = (if neg then set_pending_kick (kick_reason s)
             (if ends_session (kick_reason s) then end_session_by_server (kick_reason s) ?c else ?c) else ?c)"
    "notify = (if neg then Some (kick_reason s) else None)"
    using assms by (auto simp: kicked_register_def Let_def)
  note defs = e set_pending_kick_def end_session_by_server_def reports_def
  show "notify = (if neg then Some (kick_reason s) else None)" by (simp add: e)
  show "co_pending_kick c' = (if neg then Some (kick_reason s) else co_pending_kick c)" by (simp add: defs)
  show "co_session_ended c' = (if neg \<and> ends_session (kick_reason s) then Some (kick_reason s) else co_session_ended c)"
    by (simp add: defs)
  show "co_kick_reported c' = co_kick_reported c" "reports c' = reports c" "co_open c' = co_open c"
    "co_tasks c' = co_tasks c" "co_in_flight c' = co_in_flight c"
    "co_disconnect_requested c' = co_disconnect_requested c"
    by (simp_all add: defs)
  show "\<not> neg \<Longrightarrow> quiet c c'" by (simp add: e)
qed

lemma after_kick_again:
  assumes "after_kick ks late c" and "ks \<noteq> []" and "co_pending_kick c' = Some r" "reports c' = reports c"
  shows "after_kick (r # ks) late c'"
proof -
  obtain pre rs where p: "reports c = pre @ map Disconnected rs" "length pre \<le> 1" "late \<or> pre = []"
    and s: "subseq rs (rev (tl ks)) \<or> subseq rs (rev ks)"
    using assms(1) by (auto simp: after_kick_def split: option.splits)
  have "subseq rs (rev ks)"
    using s assms(2) by (cases ks) (auto intro: subseq_order.trans)
  then show ?thesis unfolding after_kick_def using p assms(3,4) by (intro exI [of _ pre] exI [of _ rs]) simp
qed

lemma kicked_register_inv:
  assumes inv: "kick_inv n ks late 0 1 c" and k: "kicked_register f s neg c = (c', notify)"
    and neg: "ks = [] \<Longrightarrow> \<not> co_disconnect_requested c \<Longrightarrow> neg"
  shows "kick_inv n (case notify of Some r \<Rightarrow> r # ks | None \<Rightarrow> ks) late 0 0 (spawn (TKickState notify d) c')"
proof (cases "co_disconnect_requested c")
  case True
  note q = kicked_register_requested [OF k True]
  then have "kick_inv n ks late 0 1 c'" "co_disconnect_requested c'" using kick_inv_quiet [OF inv] True by (auto simp: quiet_def)
  then show ?thesis using q by (simp add: kick_inv_def spawn_def)
next
  case disc: False
  note facts = kicked_register_fields [OF k disc]
  show ?thesis
  proof (cases neg)
    case False
    then have "kick_inv n ks late 0 1 c'" using kick_inv_quiet [OF inv facts(10)] by simp
    then show ?thesis using kick_inv_spawn [of n ks late 0 1 c' "TKickState notify d" 0 0] neg disc False facts(1) by auto
  next
    case True
    let ?r = "kick_reason s"
    have "after_kick (?r # ks) late c'"
    proof (cases "ks = []")
      case True
      then have "reports c = [] \<or> late" "length (reports c) \<le> 1"
        using inv disc by (auto simp: kick_inv_defs)
      then show ?thesis
        using True facts \<open>neg\<close> unfolding after_kick_def
        by (intro exI [of _ "reports c"] exI [of _ "[] :: string list"]) auto
    next
      case False
      with inv disc after_kick_again [of ks late c c' ?r] facts \<open>neg\<close> show ?thesis by (simp add: kick_inv_def)
    qed
    then have "kick_inv n (?r # ks) late 0 1 c'"
      using inv disc facts True by (auto simp: kick_inv_def)
    from kick_inv_spawn [OF this, of "TKickState notify d" 0 0] show ?thesis using facts(1) True by simp
  qed
qed

lemma app_task_requested:
  "kick_inv n ks late hand held c \<Longrightarrow> t \<in> set (co_tasks c) \<Longrightarrow> app_task t \<Longrightarrow> co_disconnect_requested c"
  by (auto simp: kick_inv_def list_all_iff split: if_splits)

lemma no_kick_task:
  assumes "kick_inv n ks late hand held c" and "t \<in> set (co_tasks c)" and "\<not> before_kick t"
  shows "ks \<noteq> [] \<or> co_disconnect_requested c"
  using assms by (cases "co_disconnect_requested c"; cases "ks = []") (auto simp: kick_inv_defs list_all_iff)

lemma kicked_state_inv:
  "ks \<noteq> [] \<or> co_disconnect_requested c \<Longrightarrow> kick_inv n ks late hand held c \<Longrightarrow> kick_inv n ks late hand held (kicked_state ce c)"
  by (auto simp: kick_inv_def kicked_state_def)

lemma take_open_inv:
  assumes "ks \<noteq> [] \<or> co_disconnect_requested c" "kick_inv n ks late 0 held c" "take_open ce notify c = (c1, ev)"
  shows "kick_inv n ks late 0 held c1" "ev = Some e \<Longrightarrow> is_terminal e"
    "co_disconnect_requested c1 = co_disconnect_requested c"
proof -
  let ?c = "fst (take_client_connection c)"
  have c: "c1 = ?c \<and> ev = None \<or> (\<exists>m. c1 = ?c\<lparr>co_open := removeAll m (co_open ?c)\<rparr>
      \<and> ev = Some (Disconnected (unwrap_or (ce_closed_text ce) notify)))"
    using assms(3) by (auto simp: take_open_def take_client_connection_def split: option.splits if_splits)
  have "kick_inv n ks late 0 held ?c" by (rule kick_inv_quiet [OF assms(2)]) simp
  then have "kick_inv n ks late 0 held (?c\<lparr>co_open := removeAll m (co_open ?c)\<rparr>)" for m
    using assms(1) by (auto simp: kick_inv_def take_client_connection_def)
  with c \<open>kick_inv n ks late 0 held ?c\<close> show "kick_inv n ks late 0 held c1" by auto
  show "ev = Some e \<Longrightarrow> is_terminal e" using c by (auto simp: is_terminal_def)
  show "co_disconnect_requested c1 = co_disconnect_requested c" using c by (auto simp: take_client_connection_def)
qed

lemma kicked_take_inv:
  assumes "ks \<noteq> [] \<or> co_disconnect_requested c" "kick_inv n ks late 0 1 c"
  shows "kick_inv n ks late 0 0 (kicked_take ce notify d c)"
proof -
  obtain c1 ev where t: "take_open ce notify c = (c1, ev)" by force
  note i = take_open_inv [OF assms t]
  have "kick_inv n ks late 0 0 (spawn t' c1)" if "guarded t'" "terminal_task t'" "\<not> carries_terminal t'" "\<not> app_task t'" for t'
    using i(1,3) that assms(1) by (auto simp: kick_inv_defs spawn_def)
  then show ?thesis using i(2) by (cases ev) (simp_all add: kicked_take_def t)
qed

lemma kicked_end_inv:
  assumes "ks \<noteq> [] \<or> co_disconnect_requested c" "kick_inv n ks late 0 held c"
  shows "kick_inv n ks late 0 held (kicked_end notify c)"
proof (cases "notify = None \<or> co_pending_kick c = None")
  case True
  then have "kicked_end notify c = cancel_all_pending_responses c"
    by (auto simp: kicked_end_def take_unreported_kick_def cancel_all_pending_responses_def Let_def)
  then show ?thesis using kick_inv_quiet [OF assms(2)] by simp
next
  case False
  then obtain r where r: "co_pending_kick c = Some r" "notify \<noteq> None" by auto
  let ?c = "c\<lparr>co_pending := [], co_pending_kick := None, co_kick_reported := True\<rparr>"
  have e: "kicked_end notify c = notify_observers (Disconnected r) ?c"
    using r by (auto simp: kicked_end_def take_unreported_kick_def cancel_all_pending_responses_def Let_def)
  have *: "co_pending_kick (kicked_end notify c) = None" "co_kick_reported (kicked_end notify c)"
    "reports (kicked_end notify c) = reports c @ [Disconnected r]"
    by (simp_all add: e notify_observers_def reports_def is_terminal_def)
  show ?thesis
  proof (cases "co_disconnect_requested c")
    case True
    then have "after_request ks late (kicked_end notify c)"
      using after_request_report [of ks late c "kicked_end notify c"] * r assms by (simp add: kick_inv_def)
    then show ?thesis using assms True unfolding kick_inv_def by (simp add: e notify_observers_def)
  next
    case False
    then have "after_kick ks late (kicked_end notify c)"
      using after_kick_report [of ks late c "kicked_end notify c"] * r assms by (simp add: kick_inv_def)
    then show ?thesis using assms False unfolding kick_inv_def by (auto simp: e notify_observers_def)
  qed
qed

section \<open>The invariant holds\<close>

lemma inbound_frame_read_inv:
  "kick_inv n ks late 0 0 c \<Longrightarrow> n \<in> set (co_open c) \<Longrightarrow> kick_inv n ks late 0 1 (inbound_frame_read c)"
  by (auto simp: kick_inv_defs inbound_frame_read_def)

lemma read_inv:
  assumes inv: "kick_inv n ks late 0 0 c" and o: "n \<in> set (co_open c)"
  shows "kick_inv n ks late 0 0 (on_event ce (Message d) c)"
proof -
  let ?c1 = "if \<not> co_negotiated c then record_pre_negotiation_rejection ce d c else c"
  have q: "quiet c ?c1" by simp
  then have "n \<in> set (co_open ?c1)" unfolding quiet_def using o by (elim conjE) (simp only:)
  with kick_inv_quiet [OF inv q] have "kick_inv n ks late 0 1 (inbound_frame_read ?c1)"
    by (rule inbound_frame_read_inv)
  moreover have "ks = [] \<Longrightarrow> \<not> co_disconnect_requested c \<Longrightarrow> co_negotiated c" using inv o by (auto simp: kick_inv_defs)
  moreover have "co_disconnect_requested (inbound_frame_read ?c1) = co_disconnect_requested c"
    using q by (simp add: inbound_frame_read_def quiet_def)
  ultimately show ?thesis
    using kick_inv_spawn [of n ks late 0 1 "inbound_frame_read ?c1" "TFrame d (co_negotiated c)"]
    by (simp add: on_event_def Let_def)
qed

lemma on_event_requested:
  "is_terminal e \<Longrightarrow> co_disconnect_requested (on_event ce e c) = co_disconnect_requested c"
  using terminal_handled(1) [of e ce c] by (cases e) (auto simp: on_event_def is_terminal_def spawn_def)

lemma app_request_fields:
  "co_disconnect_requested (app_request ce c)" "co_pending_kick (app_request ce c) = co_pending_kick c"
  "co_session_ended (app_request ce c) = co_session_ended c" "reports (app_request ce c) = reports c"
  "co_tasks (app_request ce c) = co_tasks c"
  by (simp_all add: app_request_def clear_client_connection_def stop_heartbeat_def set_disconnect_requested_def reports_def
      split: option.splits)

lemma app_request_inv:
  assumes inv: "kick_inv n ks late 0 0 c"
  shows "kick_inv n ks late 0 0 (spawn TAppClose (app_request ce c))"
proof -
  have "after_request ks late c"
  proof (cases "co_disconnect_requested c")
    case True
    then show ?thesis using inv by (simp add: kick_inv_def)
  next
    case False
    show ?thesis
    proof (cases "ks = []")
      case True
      then have "length (reports c) \<le> 1" "co_pending_kick c = None" using inv False by (auto simp: kick_inv_defs)
      then show ?thesis unfolding after_request_def using True
        by (intro exI [of _ "reports c"] exI [of _ "[] :: string list"] exI [of _ "[] :: connection_event list"]) simp
    next
      case ne: False
      then have "after_kick ks late c" using inv False by (simp add: kick_inv_def)
      then show ?thesis unfolding after_kick_def after_request_def using ne
        by (elim exE conjE, intro exI [of _ _] conjI) (auto split: option.splits)
    qed
  qed
  then have "after_request ks late (app_request ce c)" using after_request_cong app_request_fields(2,4) by metis
  then show ?thesis using inv by (simp add: kick_inv_def app_request_fields spawn_def)
qed

lemma client_run_inv: "client_run n ks late told c \<Longrightarrow> kick_inv n ks late 0 0 c"
proof (induction rule: client_run.induct)
  case (start c)
  then show ?case by (auto simp: client_online_def kick_inv_defs)
next
  case (read ks late told c ce d)
  then show ?case by (blast intro: read_inv)
next
  case (terminal ks late told c e)
  then show ?case using kick_inv_spawn [OF kick_inv_take [OF terminal.IH], of n "TTerminal e"] by simp
next
  case (event ks late told c e ce)
  have "is_terminal e" using event by (auto simp: kick_inv_def list_all_iff)
  with on_event_terminal kick_inv_without [OF event.IH event.hyps(2)] show ?case by simp
next
  case (frame ks late told c d neg ce)
  have "kick_inv n ks late 0 1 (without (TFrame d neg) c)"
    using kick_inv_without [OF frame.IH frame.hyps(2)] by simp
  from closes_at_most_inv [OF frame_closes [OF frame.hyps(3)] this] show ?case by (rule inbound_frame_done_inv)
next
  case (kick ks late told c d neg ce f s c1 c2 notify)
  have "kick_inv n ks late 0 1 (without (TFrame d neg) c)"
    using kick_inv_without [OF kick.IH kick.hyps(2)] by simp
  then have "kick_inv n ks late 0 1 c1" by (rule kick_inv_quiet) (rule received_kick_quiet [OF kick.hyps(3)])
  moreover have "co_disconnect_requested c1 = co_disconnect_requested c"
    using received_kick_quiet [OF kick.hyps(3)] by (simp add: quiet_def without_def)
  then have "ks = [] \<Longrightarrow> \<not> co_disconnect_requested c1 \<Longrightarrow> neg" using kick.IH kick.hyps(2) by (auto simp: kick_inv_defs list_all_iff)
  ultimately show ?case using kick.hyps(4) by (intro kicked_register_inv)
next
  case (kick_state ks late told c notify d ce)
  let ?c = "without (TKickState notify d) c"
  have ne: "ks \<noteq> [] \<or> co_disconnect_requested ?c"
    using no_kick_task [OF kick_state.IH kick_state.hyps(2)] by (simp add: without_def)
  have "kick_inv n ks late 0 1 (kicked_state ce ?c)"
    using kick_inv_without [OF kick_state.IH kick_state.hyps(2)] by (intro kicked_state_inv [OF ne]) simp
  from kick_inv_spawn [OF this, of "TKickClose notify d" 0 0] ne show ?case by (auto simp: kicked_state_def)
next
  case (kick_close ks late told c notify d ce)
  have "ks \<noteq> [] \<or> co_disconnect_requested (without (TKickClose notify d) c)"
    using no_kick_task [OF kick_close.IH kick_close.hyps(2)] by (simp add: without_def)
  then show ?case using kick_inv_without [OF kick_close.IH kick_close.hyps(2)] by (intro kicked_take_inv) simp_all
next
  case (kick_event ks late told c e notify d ce)
  let ?c = "without (TKickEvent e notify d) c"
  have ne: "ks \<noteq> [] \<or> co_disconnect_requested ?c"
    using no_kick_task [OF kick_event.IH kick_event.hyps(2)] by (simp add: without_def)
  have e: "is_terminal e" using kick_event.IH kick_event.hyps(2) by (auto simp: kick_inv_def list_all_iff)
  have "kick_inv n ks late 1 1 ?c"
    using kick_inv_hand [OF ne] kick_inv_without [OF kick_event.IH kick_event.hyps(2)] by simp
  from kick_inv_spawn [OF on_event_terminal [OF this e], where t = "TKickEnd notify d" and hand' = 0 and held' = 0] ne on_event_requested [OF e]
  show ?case by auto
next
  case (kick_end ks late told c notify d)
  let ?c = "without (TKickEnd notify d) c"
  have ne: "ks \<noteq> [] \<or> co_disconnect_requested ?c"
    using no_kick_task [OF kick_end.IH kick_end.hyps(2)] by (simp add: without_def)
  have "kick_inv n ks late 0 1 (kicked_end notify ?c)"
    using kick_inv_without [OF kick_end.IH kick_end.hyps(2)] by (intro kicked_end_inv [OF ne]) simp
  then show ?case by (intro inbound_frame_done_inv) (erule kick_inv_quiet, simp)
next
  case (drained ks late told c e ce)
  have "is_terminal e" using drained by (auto simp: kick_inv_def list_all_iff)
  with kick_inv_handled [of n ks late 0 "without (TDeferred e) c" e late]
    kick_inv_without [OF drained.IH drained.hyps(2)] drained.hyps(3)
  show ?case by (simp add: without_def)
next
  case (give_up ks late told c e ce)
  have "is_terminal e" using give_up by (auto simp: kick_inv_def list_all_iff)
  with kick_inv_handled [of n ks late 0 "without (TDeferred e) c" e True]
    kick_inv_without [OF give_up.IH give_up.hyps(2)]
  show ?case by simp
next
  case (clear ks late told c)
  then show ?case using kick_inv_without [OF clear.IH clear.hyps(2)] by (auto intro: kick_inv_quiet quiet_ops)
next
  case (disconnect ks late told c ce)
  show ?case by (rule app_request_inv [OF disconnect.IH])
next
  case (app_close ks late told c ce connection)
  have "kick_inv n ks late 0 0 (without TAppClose c)" using kick_inv_without [OF app_close.IH app_close.hyps(2)] by simp
  moreover have "co_disconnect_requested (without TAppClose c)"
    using app_task_requested [OF app_close.IH app_close.hyps(2)] by (simp add: without_def)
  ultimately show ?case
    by (auto simp: app_close_def kick_inv_def spawn_def is_terminal_def split: option.splits)
next
  case (app_event ks late told c e ce)
  let ?c = "without (TAppEvent e) c"
  have req: "co_disconnect_requested ?c" using app_task_requested [OF app_event.IH app_event.hyps(2)] by (simp add: without_def)
  have e: "is_terminal e" using app_event by (auto simp: kick_inv_def list_all_iff)
  have "kick_inv n ks late 1 0 ?c"
    using kick_inv_hand [of ks ?c] req kick_inv_without [OF app_event.IH app_event.hyps(2)] by simp
  from kick_inv_spawn [OF on_event_terminal [OF this e], where t = TAppEnd and hand' = 0 and held' = 0] on_event_requested [OF e] req show ?case by auto
next
  case (app_end ks late told c ce)
  let ?c = "cancel_all_pending_responses (without TAppEnd c)"
  have req: "co_disconnect_requested ?c"
    using app_task_requested [OF app_end.IH app_end.hyps(2)] by (simp add: without_def cancel_all_pending_responses_def)
  have "kick_inv n ks late 0 0 ?c"
    using kick_inv_quiet [OF _ quiet_ops(12)] kick_inv_without [OF app_end.IH app_end.hyps(2)] by simp
  then have "kick_inv n ks late 1 0 ?c" using kick_inv_hand [of ks ?c] req by blast
  from kick_inv_handled [OF this, of _ late] req show ?case by (simp add: app_end_def is_terminal_def)
qed (auto intro: kick_inv_quiet quiet_ops)

section \<open>A registered kick is in hand\<close>

fun reporting :: "client_task \<Rightarrow> bool" where
  "reporting (TKickState notify _) = (notify \<noteq> None)"
| "reporting (TKickClose notify _) = (notify \<noteq> None)"
| "reporting (TKickEvent _ notify _) = (notify \<noteq> None)"
| "reporting (TKickEnd notify _) = (notify \<noteq> None)"
| "reporting _ = False"

text \<open>A kick that is not yet decided has a task that will decide it, and the observers are told of decisions only, of each
  at most once.\<close>

definition in_hand :: "connection_event list \<Rightarrow> client_core \<Rightarrow> bool" where
  "in_hand told c \<longleftrightarrow> (co_pending_kick c = None \<or> (\<exists>t \<in> set (co_tasks c). reporting t)) \<and> mset told \<subseteq># mset (reports c)"

text \<open>No new kick, no task lost, no decision taken back.\<close>

definition no_loss :: "client_core \<Rightarrow> client_core \<Rightarrow> bool" where
  "no_loss c c' \<longleftrightarrow> (co_pending_kick c' = co_pending_kick c \<or> co_pending_kick c' = None)
     \<and> set (co_tasks c) \<subseteq> set (co_tasks c') \<and> prefix (reports c) (reports c')"

lemma no_loss_trans: "no_loss a b \<Longrightarrow> no_loss b c \<Longrightarrow> no_loss a c"
  using prefix_order.trans [of "reports a" "reports b" "reports c"] by (auto simp: no_loss_def)

lemma quiet_no_loss: "quiet c c' \<Longrightarrow> no_loss c c'"
  by (simp add: quiet_def no_loss_def)

lemma no_loss_ops [simp]:
  "no_loss c (spawn t c)" "no_loss c (inbound_frame_done c)" "no_loss c (inbound_frame_read c)"
  "no_loss c (c\<lparr>co_open := os\<rparr>)" "no_loss c (kicked_state ce c)" "no_loss c (kicked_end notify c)"
  "no_loss c (fst (take_open ce notify c))" "no_loss c (app_close ce connection c)"
  by (auto simp: no_loss_def app_close_def reports_def spawn_def inbound_frame_done_def inbound_frame_read_def kicked_state_def kicked_end_def
      cancel_all_pending_responses_def take_unreported_kick_def notify_observers_def Let_def take_open_def
      take_client_connection_def split: option.splits)

lemma no_loss_app_request: "no_loss c (app_request ce c)"
  by (simp add: no_loss_def app_request_fields)

lemma no_loss_event: "no_loss c (handle_connection_event ce e c)"
  by (cases e)
    (auto simp: no_loss_def reports_def is_terminal_def handle_connection_event_def on_connected_def reset_negotiation_state_def close_report_of_def
      report_event_def notify_observers_def Let_def split: option.splits close_report.splits)

lemma no_loss_on_event: "no_loss c (on_event ce e c)"
proof (cases e)
  case (Message d)
  let ?c1 = "if \<not> co_negotiated c then record_pre_negotiation_rejection ce d c else c"
  have "no_loss c ?c1" by (rule quiet_no_loss) simp
  from no_loss_trans [OF no_loss_trans [OF this no_loss_ops(3)] no_loss_ops(1)] show ?thesis
    by (simp add: on_event_def Message Let_def)
qed (simp_all add: on_event_def no_loss_event)

lemma no_loss_frame:
  assumes "received_kick ce d neg c = None"
  shows "no_loss c (handle_received_message ce d neg c)"
proof -
  have close: "no_loss c' (close_connection ce m reason c')" for m reason c'
    using no_loss_trans [OF no_loss_ops(4) no_loss_on_event] by (simp add: close_connection_def quiet_no_loss)
  from frame_closes [OF assms] show ?thesis
    unfolding closes_at_most_def by (blast intro: quiet_no_loss no_loss_trans close)
qed

lemma told_no_loss: "mset told \<subseteq># mset (reports c) \<Longrightarrow> no_loss c c' \<Longrightarrow> mset told \<subseteq># mset (reports c')"
  by (auto simp: no_loss_def prefix_def intro: subset_mset.order_trans)

lemma in_hand_step:
  assumes "in_hand told c" "\<not> reporting t" "no_loss (without t c) c'"
  shows "in_hand told c'"
  using assms in_set_remove1 [of _ t "co_tasks c"] told_no_loss [OF _ assms(3), of told]
  unfolding in_hand_def no_loss_def without_def by fastforce

lemma in_hand_no_loss: "in_hand told c \<Longrightarrow> no_loss c c' \<Longrightarrow> in_hand told c'"
  using told_no_loss [of told c c'] by (auto simp: in_hand_def no_loss_def)

lemma in_hand_replace:
  assumes "in_hand told c" and "no_loss (without t c) c'" and "reporting t \<Longrightarrow> \<exists>t' \<in> set (co_tasks c'). reporting t'"
  shows "in_hand told c'"
  using assms in_hand_step [OF assms(1) _ assms(2)] told_no_loss [OF _ assms(2), of told]
  by (auto simp: in_hand_def without_def)

lemma client_run_in_hand: "client_run n ks late told c \<Longrightarrow> in_hand told c"
proof (induction rule: client_run.induct)
  case (start c)
  then show ?case by (simp add: client_online_def in_hand_def)
next
  case (read ks late told c ce d)
  then show ?case by (blast intro: in_hand_no_loss no_loss_on_event)
next
  case (terminal ks late told c e)
  show ?case by (rule in_hand_no_loss [OF terminal.IH], rule no_loss_trans [OF no_loss_ops(4) no_loss_ops(1)])
next
  case (event ks late told c e ce)
  then show ?case by (intro in_hand_step [OF event.IH _ no_loss_on_event]) simp
next
  case (frame ks late told c d neg ce)
  show ?case
    by (rule in_hand_step [OF frame.IH _ no_loss_trans [OF no_loss_frame [OF frame.hyps(3)] no_loss_ops(2)]]) simp
next
  case (kick ks late told c d neg ce f s c1 c2 notify)
  note q = received_kick_quiet [OF kick.hyps(3)]
  have h: "in_hand told c1" by (rule in_hand_step [OF kick.IH _ quiet_no_loss [OF q]]) simp
  show ?case
  proof (cases "co_disconnect_requested c1")
    case True
    note k = kicked_register_requested [OF kick.hyps(4) True]
    then show ?thesis
      using in_hand_no_loss [OF h no_loss_trans [OF quiet_no_loss no_loss_ops(1)]] by blast
  next
    case False
    note f = kicked_register_fields [OF kick.hyps(4) False]
    show ?thesis using h f by (cases neg) (auto simp: in_hand_def spawn_def)
  qed
next
  case (kick_state ks late told c notify d ce)
  show ?case
    by (rule in_hand_replace [OF kick_state.IH no_loss_trans [OF no_loss_ops(5) no_loss_ops(1)]]) (simp add: spawn_def)
next
  case (kick_close ks late told c notify d ce)
  let ?c = "without (TKickClose notify d) c"
  obtain c1 ev where t: "take_open ce notify ?c = (c1, ev)" by force
  have "no_loss ?c c1" using no_loss_ops(7) [of ?c ce notify] by (simp add: t)
  then have "no_loss ?c (kicked_take ce notify d ?c)"
    using no_loss_trans no_loss_ops(1) by (cases ev) (auto simp: kicked_take_def t)
  then show ?case
    by (rule in_hand_replace [OF kick_close.IH]) (cases ev; simp add: kicked_take_def t spawn_def)
next
  case (kick_event ks late told c e notify d ce)
  show ?case
    by (rule in_hand_replace [OF kick_event.IH no_loss_trans [OF no_loss_on_event no_loss_ops(1)]]) (simp add: spawn_def)
next
  case (kick_end ks late told c notify d)
  let ?c = "kicked_end notify (without (TKickEnd notify d) c)"
  have nl: "no_loss (without (TKickEnd notify d) c) (inbound_frame_done (notify_observers (Message d) ?c))"
    by (rule no_loss_trans [OF no_loss_trans [OF no_loss_ops(6) quiet_no_loss [OF quiet_ops(2)]] no_loss_ops(2)])
  show ?case
  proof (cases notify)
    case None
    then show ?thesis using in_hand_step [OF kick_end.IH _ nl] by simp
  next
    case (Some r)
    have "co_pending_kick (inbound_frame_done (notify_observers (Message d) ?c)) = None"
      using Some by (auto simp: inbound_frame_done_def notify_observers_def kicked_end_def take_unreported_kick_def
          cancel_all_pending_responses_def Let_def split: option.splits)
    then show ?thesis using told_no_loss [OF _ nl] kick_end.IH by (simp add: in_hand_def without_def)
  qed
next
  case (drained ks late told c e ce)
  show ?case by (rule in_hand_step [OF drained.IH _ no_loss_event]) simp
next
  case (give_up ks late told c e ce)
  show ?case by (rule in_hand_step [OF give_up.IH _ no_loss_event]) simp
next
  case (clear ks late told c)
  show ?case by (rule in_hand_step [OF clear.IH _ quiet_no_loss [OF quiet_ops(12)]]) simp
next
  case (disconnect ks late told c ce)
  show ?case by (rule in_hand_no_loss [OF disconnect.IH no_loss_trans [OF no_loss_app_request no_loss_ops(1)]])
next
  case (app_close ks late told c ce connection)
  show ?case by (rule in_hand_step [OF app_close.IH _ no_loss_ops(8)]) simp
next
  case (app_event ks late told c e ce)
  show ?case by (rule in_hand_step [OF app_event.IH _ no_loss_trans [OF no_loss_on_event no_loss_ops(1)]]) simp
next
  case (app_end ks late told c ce)
  show ?case unfolding app_end_def
    by (rule in_hand_step [OF app_end.IH _ no_loss_trans [OF quiet_no_loss [OF quiet_ops(12)] no_loss_event]]) simp
next
  case (tell ks late told c e)
  then have "mset told \<subseteq># mset (reports c)" "{#e#} \<subseteq># mset (reports c) - mset told"
    by (simp_all add: in_hand_def)
  then have "add_mset e (mset told) \<subseteq># mset (reports c)"
    using subset_mset.le_diff_conv2 [of "mset told" "mset (reports c)" "{#e#}"] by simp
  then show ?case using tell.IH by (simp add: in_hand_def)
qed (auto intro: in_hand_no_loss quiet_no_loss quiet_ops)

section \<open>Properties\<close>

text \<open>The decisions of every state of a run.\<close>

lemma kick_inv_decisions:
  assumes inv: "kick_inv n ks late 0 0 c"
  shows "\<exists>pre rs post. reports c = pre @ map Disconnected rs @ post \<and> length pre \<le> 1 \<and> subseq rs (rev ks)
    \<and> (ks \<noteq> [] \<longrightarrow> \<not> late \<longrightarrow> pre = []) \<and> (\<not> co_disconnect_requested c \<longrightarrow> post = [])
    \<and> (ks \<noteq> [] \<longrightarrow> co_pending_kick c = None \<longrightarrow> rs \<noteq> [] \<and> last rs = hd ks)"
proof -
  have tl: "subseq rs (rev (tl ks)) \<Longrightarrow> subseq rs (rev ks)" for rs
    by (cases ks) (auto intro: subseq_order.trans)
  show ?thesis
  proof (cases "co_disconnect_requested c")
    case True
    then have "after_request ks late c" using inv by (simp add: kick_inv_def)
    then show ?thesis unfolding after_request_def using True tl by (elim exE) (rule exI, rule exI, rule exI, auto split: option.splits)
  next
    case req: False
    show ?thesis
    proof (cases "ks = []")
      case True
      then have "length (reports c) \<le> 1" using inv req by (auto simp: kick_inv_defs)
      with True show ?thesis by (intro exI [of _ "reports c"] exI [of _ "[] :: string list"] exI [of _ "[]"]) simp
    next
      case False
      then have "after_kick ks late c" using inv req by (simp add: kick_inv_def)
      then show ?thesis unfolding after_kick_def using req tl
        by (elim exE) (rule exI, rule exI, rule exI [of _ "[]"], auto split: option.splits)
    qed
  qed
qed


text \<open>C7: The application learns of a kick once, and a close that follows it is not reported as well.  On one
  negotiated connection, however reads, frame handling, the transport's terminal event, deferred reports, the application's
  disconnects and its other calls interleave, the observers are told at most once of each close that it was decided to
  report.  What is decided is, in this order, at most one ordinary close, then kicks only, each for a KICKED that was
  registered, and, only once the application has itself asked for a disconnect, the closes this brings about.  When
  the handling of the kicks is finished, the last one registered is among the decisions.  Unless a deferred close gave up
  waiting for the frames in flight, no ordinary close comes before a kick, so that without a disconnect a single KICKED
  is all the observers are ever told, even when the server closes right behind it.  A kick that ends the session
  stops the client from reconnecting on its own.\<close>

theorem kick_reported_once:
  assumes "client_run n ks late told c"
  shows "mset told \<subseteq># mset (reports c)
    \<and> (\<exists>pre rs post. reports c = pre @ map Disconnected rs @ post \<and> length pre \<le> 1 \<and> subseq rs (rev ks)
       \<and> (ks \<noteq> [] \<and> \<not> (\<exists>t \<in> set (co_tasks c). reporting t) \<longrightarrow> rs \<noteq> [] \<and> last rs = hd ks)
       \<and> (ks \<noteq> [] \<and> \<not> late \<longrightarrow> pre = [])
       \<and> (\<not> co_disconnect_requested c \<longrightarrow> post = []))
    \<and> (\<forall>k. ks = [k] \<and> \<not> late \<and> \<not> co_disconnect_requested c \<longrightarrow> told = [] \<or> told = [Disconnected k])
    \<and> ((\<exists>k \<in> set ks. ends_session k) \<longrightarrow> \<not> should_reconnect_before_send connected c cfg)"
proof -
  note told = client_run_in_hand [OF assms, unfolded in_hand_def]
  have stop: "(\<exists>k \<in> set ks. ends_session k) \<longrightarrow> \<not> should_reconnect_before_send connected c cfg"
    using client_run_inv [OF assms] by (auto simp: kick_inv_def should_reconnect_before_send_def)
  obtain pre rs post where D: "reports c = pre @ map Disconnected rs @ post \<and> length pre \<le> 1 \<and> subseq rs (rev ks)
    \<and> (ks \<noteq> [] \<longrightarrow> \<not> late \<longrightarrow> pre = []) \<and> (\<not> co_disconnect_requested c \<longrightarrow> post = [])
    \<and> (ks \<noteq> [] \<longrightarrow> co_pending_kick c = None \<longrightarrow> rs \<noteq> [] \<and> last rs = hd ks)"
    using kick_inv_decisions [OF client_run_inv [OF assms]] by (elim exE) (rule that)
  then have d: "reports c = pre @ map Disconnected rs @ post" "length pre \<le> 1" "subseq rs (rev ks)"
    "ks \<noteq> [] \<Longrightarrow> \<not> late \<Longrightarrow> pre = []" "\<not> co_disconnect_requested c \<Longrightarrow> post = []"
    "ks \<noteq> [] \<Longrightarrow> co_pending_kick c = None \<Longrightarrow> rs \<noteq> [] \<and> last rs = hd ks"
    by simp_all
  have single: "told = [] \<or> told = [Disconnected k]" if k: "ks = [k]" "\<not> late" "\<not> co_disconnect_requested c" for k
  proof -
    have "subseq rs [k]" using d(3) k(1) by simp
    then have "rs = [] \<or> rs = [k]" by (cases rs; cases "tl rs") (auto split: if_splits)
    moreover have "reports c = map Disconnected rs" using d(1) d(4) [OF _ k(2)] d(5) [OF k(3)] k(1) by simp
    ultimately have "mset told \<subseteq># {#Disconnected k#}" using conjunct2 [OF told] by auto
    then show ?thesis using nonempty_subseteq_mset_eq_single [of "mset told" "Disconnected k"] by (cases "told = []") simp_all
  qed
  have "rs \<noteq> [] \<and> last rs = hd ks" if "ks \<noteq> []" "\<not> (\<exists>t \<in> set (co_tasks c). reporting t)"
  proof -
    have "co_pending_kick c = None" using conjunct1 [OF told] that(2) by (simp only: not_True_eq_False simp_thms)
    then show ?thesis by (rule d(6) [OF that(1)])
  qed
  then have "\<exists>pre rs post. reports c = pre @ map Disconnected rs @ post \<and> length pre \<le> 1 \<and> subseq rs (rev ks)
       \<and> (ks \<noteq> [] \<and> \<not> (\<exists>t \<in> set (co_tasks c). reporting t) \<longrightarrow> rs \<noteq> [] \<and> last rs = hd ks)
       \<and> (ks \<noteq> [] \<and> \<not> late \<longrightarrow> pre = []) \<and> (\<not> co_disconnect_requested c \<longrightarrow> post = [])"
    using d(1-5) by (intro exI [of _ pre] exI [of _ rs] exI [of _ post]) simp
  then show ?thesis using conjunct2 [OF told] single stop by (intro conjI allI impI) simp_all
qed

text \<open>A connection that is set up on a new core and negotiated is the start of a run.\<close>

lemma connect_online:
  "client_online n (core_update_parser ce fmt cmpr enc (fst (setup_connection_and_send_connect ce n (client_core_new now cfg))))"
proof -
  let ?c = "on_event ce Connected ((set_client_connection n (client_core_new now cfg))\<lparr>co_open := [n]\<rparr>)"
  have 1: "fst (setup_connection_and_send_connect ce n (client_core_new now cfg)) = fst (send_connect_message ce n ?c)"
    by (simp add: setup_connection_and_send_connect_def Let_def set_client_connection_def client_core_new_def split: prod.splits)
  have 2: "client_online n (?c\<lparr>co_negotiated := True\<rparr>)"
    by (simp add: client_online_def on_event_def handle_connection_event_def call_handler_def on_connected_def
        report_event_def notify_observers_def reports_def is_terminal_def Let_def set_client_connection_def
        client_core_new_def reset_negotiation_state_def state_manager_new_def set_connected_def set_state_def
        split: prod.splits)
  have 3: "quiet c (fst (send_connect_message ce n c))" for c
    by (simp add: quiet_def reports_def send_connect_message_def send_on_def split: sum.splits)
  have 4: "co_negotiated (core_update_parser ce fmt cmpr enc c)" for c
    by (simp add: core_update_parser_def try_start_heartbeat_def split: option.splits)
  have "quiet ?c (core_update_parser ce fmt cmpr enc (fst (send_connect_message ce n ?c)))"
    by (rule quiet_trans [OF 3]) simp
  with 1 2 4 show ?thesis by (simp add: client_online_def quiet_def reports_def)
qed

definition ex_kick_frame :: frame where
  "ex_kick_frame = ex_frame\<lparr>fr_command := Some \<lparr>cmd_type = Some (CmdSystem (kicked ''BYE'' None))\<rparr>\<rparr>"

definition ex_client_env :: client_env where
  "ex_client_env =
     \<lparr>ce_codecs = global_codecs (ex_lib\<lparr>lib_json_decode := (\<lambda>_. Some ex_kick_frame)\<rparr>), ce_nonce = [],
      ce_stamp = \<lparr>st_id_ms = 0, st_ts_ms = 0, st_counter = 0\<rparr>, ce_now = 0, ce_send = (\<lambda>_ _. Inr ()), ce_waiting = (\<lambda>_. True),
      ce_display = (\<lambda>_. []), ce_closed_text = ''closed''\<rparr>"

definition ex_online :: client_core where
  "ex_online = (client_core_new 0 client_config_default)
     \<lparr>co_state := set_connected 0 (state_manager_new 0), co_negotiated := True, co_open := [0],
      co_connection := Some 0\<rparr>"

lemma ex_online_fields [simp]:
  "co_tasks ex_online = []" "co_open ex_online = [0]" "co_connection ex_online = Some 0" "co_negotiated ex_online"
  "co_pending ex_online = []" "co_has_handler ex_online = False" "co_in_flight ex_online = 0"
  "co_disconnect_requested ex_online = False" "co_parser ex_online = parser_new Json CompNone EncNone"
  "client_online 0 ex_online"
  by (simp_all add: ex_online_def client_core_new_def determine_initial_format_def is_force_format_def
      client_config_default_def client_online_def reports_def set_connected_def set_state_def state_manager_new_def)

lemma ex_kick_reason: "kick_reason (kicked ''BYE'' None) = ''BYE''"
proof -
  have "trim ''BYE'' = ''BYE''" by (rule trim_upper) simp_all
  then show ?thesis
    by (simp add: kick_reason_def is_device_conflict_kick_def is_device_conflict_reason_def has_reason_token_def
        kicked_def create_system_command_with_message_def reason_defs metadata_reason_def)
qed

text \<open>The KICKED is read and handled to the end; the closing it brings about reports it.\<close>

definition ex_kick_registered :: client_core where
  "ex_kick_registered = ex_online\<lparr>co_in_flight := 1, co_pending_kick := Some ''BYE'', co_tasks := [TKickState (Some ''BYE'') ''{}'']\<rparr>"

lemma ex_kick_parsed:
  "co_pending c = [] \<Longrightarrow> co_parser c = parser_new Json CompNone EncNone \<Longrightarrow>
   received_kick ex_client_env ''{}'' True c = Some (ex_kick_frame, kicked ''BYE'' None, c)"
  by (simp add: received_kick_def parse_received_def parse_def parse_with_fallback_def decrypt_data_with_fallback_def
      decompress_data_with_fallback_def parse_decompressed_with_fallback_def ex_client_env_def parser_new_def
      detect_serializers_def global_codecs_def serializer_defaults_def compressor_defaults_def encryptor_defaults_def
      register_serializer_def register_compressor_def register_encryptor_def json_serializer_def protobuf_serializer_def
      deserialize_ok_def ok_or_def ex_lib_def answer_pending_def ex_kick_frame_def frame_system_command_def
      frame_command_type_def kicked_def create_system_command_with_message_def system_type_from_i32_def)

lemma ex_registered_run: "client_run 0 [''BYE''] False [] ex_kick_registered"
proof -
  have "client_run 0 [] False [] (on_event ex_client_env (Message ''{}'') ex_online)"
    by (rule client_run.read [OF client_run.start]) simp_all
  then have r: "client_run 0 [] False [] (ex_online\<lparr>co_in_flight := 1, co_tasks := [TFrame ''{}'' True]\<rparr>)"
    by (simp add: on_event_def spawn_def inbound_frame_read_def)
  let ?c = "without (TFrame ''{}'' True) (ex_online\<lparr>co_in_flight := 1, co_tasks := [TFrame ''{}'' True]\<rparr>)"
  have k: "received_kick ex_client_env ''{}'' True ?c = Some (ex_kick_frame, kicked ''BYE'' None, ?c)"
    by (rule ex_kick_parsed) (simp_all add: without_def)
  have "kicked_register ex_kick_frame (kicked ''BYE'' None) True ?c = (?c\<lparr>co_pending_kick := Some ''BYE''\<rparr>, Some ''BYE'')"
    by (simp add: kicked_register_def without_def call_handler_def set_pending_kick_def ex_kick_reason ends_session_def
        has_reason_token_def trim_upper reason_defs Let_def)
  from client_run.kick [OF r _ k this] show ?thesis
    by (simp add: spawn_def without_def ex_kick_registered_def)
qed

lemma kicked_end_tasks:
  "co_tasks (inbound_frame_done (notify_observers e (kicked_end notify c))) = co_tasks c"
  by (auto simp: inbound_frame_done_def notify_observers_def kicked_end_def Let_def
      cancel_all_pending_responses_def take_unreported_kick_def split: option.splits)

theorem kick_reported_once_witness:
  "\<exists>c. client_run 0 [''BYE''] False [Disconnected ''BYE''] c \<and> reports c = [Disconnected ''BYE'']"
proof -
  let ?d = "''{}''" and ?k = "Some ''BYE''" and ?e = "Disconnected ''BYE''"
  let ?st = "set_disconnected 0 (co_state ex_online)"
  let ?c = "ex_kick_registered\<lparr>co_state := ?st, co_tasks := [TKickClose ?k ?d]\<rparr>"
  let ?c1 = "?c\<lparr>co_connection := None, co_open := []\<rparr>"
  have 1: "client_run 0 [''BYE''] False [] ?c"
    using client_run.kick_state [OF ex_registered_run, of ?k ?d ex_client_env]
    by (simp add: ex_kick_registered_def spawn_def kicked_state_def without_def ex_client_env_def)
  have 2: "client_run 0 [''BYE''] False [] (?c1\<lparr>co_tasks := [TKickEvent ?e ?k ?d]\<rparr>)"
    using client_run.kick_close [OF 1, of ?k ?d ex_client_env]
    by (simp add: ex_kick_registered_def spawn_def kicked_take_def take_open_def take_client_connection_def without_def)
  let ?c2 = "?c1\<lparr>co_tasks := []\<rparr>"
  have "on_event ex_client_env ?e ?c2 = handle_connection_event ex_client_env ?e ?c2"
    by (simp add: on_event_def should_defer_close_until_inbound_drained_def set_disconnected_def set_state_def)
  then have 3: "client_run 0 [''BYE''] False [] (spawn (TKickEnd ?k ?d) (handle_connection_event ex_client_env ?e ?c2))"
    using client_run.kick_event [OF 2, of ?e ?k ?d ex_client_env] by (simp add: without_def)
  have tasks: "co_tasks (handle_connection_event ex_client_env ?e ?c2) = [TClearPending]"
    by (subst terminal_handled(7)) (simp_all add: is_terminal_def ex_kick_registered_def)
  let ?h = "spawn (TKickEnd ?k ?d) (handle_connection_event ex_client_env ?e ?c2)"
  let ?f = "inbound_frame_done (notify_observers (Message ?d) (kicked_end ?k (without (TKickEnd ?k ?d) ?h)))"
  have run: "client_run 0 [''BYE''] False [] ?f"
    by (rule client_run.kick_end [OF 3]) (simp add: spawn_def)
  have "co_tasks ?f = [TClearPending]" using tasks by (simp add: kicked_end_tasks without_def spawn_def)
  moreover have "\<not> co_disconnect_requested ?f"
    by (simp add: inbound_frame_done_def notify_observers_def kicked_end_def cancel_all_pending_responses_def take_unreported_kick_def
        without_def spawn_def terminal_handled(1) is_terminal_def ex_kick_registered_def Let_def split: option.splits)
  ultimately obtain rs where "reports ?f = map Disconnected rs" "subseq rs [''BYE'']" "rs \<noteq> []"
    using kick_reported_once [OF run] by auto
  then have f: "reports ?f = [Disconnected ''BYE'']" by (cases rs) (auto split: if_splits)
  then have "client_run 0 [''BYE''] False ([] @ [Disconnected ''BYE'']) ?f" by (intro client_run.tell [OF run]) simp
  with f show ?thesis by auto
qed

end
