(* ===== verification/Sharding.thy ===== *)
theory Sharding
  imports Prelude "HOL-Library.Multiset"
begin

text \<open>
  The sharded tables of the connection manager
  (\<open>src/src/server/connection/manager/lifecycle.rs\<close>): a vector of hash maps, the shard of a
  key chosen by its hash modulo the number of shards.  The hash function is an argument;
  nothing depends on it.  The interface the manager relies on is the locale \<open>keyed_store\<close>,
  interpreted on the sharded tables.
\<close>

type_synonym ('k, 'v) shards = "('k, 'v) amap list"

section \<open>Operations\<close>

definition shard_index :: "('k \<Rightarrow> nat) \<Rightarrow> 'k \<Rightarrow> nat \<Rightarrow> nat" where
  "shard_index h k shard_count = h k mod shard_count"

definition shard_of :: "('k \<Rightarrow> nat) \<Rightarrow> ('k, 'v) shards \<Rightarrow> 'k \<Rightarrow> ('k, 'v) amap" where
  "shard_of h ss k = ss ! shard_index h k (length ss)"

definition shard_get :: "('k \<Rightarrow> nat) \<Rightarrow> ('k, 'v) shards \<Rightarrow> 'k \<Rightarrow> 'v option" where
  "shard_get h ss k = map_of (shard_of h ss k) k"

definition shard_put :: "('k \<Rightarrow> nat) \<Rightarrow> ('k, 'v) shards \<Rightarrow> 'k \<Rightarrow> 'v \<Rightarrow> ('k, 'v) shards" where
  "shard_put h ss k v = ss[shard_index h k (length ss) := AList.update k v (shard_of h ss k)]"

definition shard_del :: "('k \<Rightarrow> nat) \<Rightarrow> ('k, 'v) shards \<Rightarrow> 'k \<Rightarrow> ('k, 'v) shards" where
  "shard_del h ss k = ss[shard_index h k (length ss) := AList.delete k (shard_of h ss k)]"

definition shards_empty :: "nat \<Rightarrow> ('k, 'v) shards" where
  "shards_empty n = replicate n []"

text \<open>The grouping loop of the batch operations: every key goes to the list of its shard.\<close>

definition group_by_shard :: "('a \<Rightarrow> nat) \<Rightarrow> nat \<Rightarrow> 'a list \<Rightarrow> 'a list list" where
  "group_by_shard idx n xs = map (\<lambda>i. filter (\<lambda>x. idx x = i) xs) [0..<n]"

section \<open>Well-formedness\<close>

definition shards_ok :: "('k \<Rightarrow> nat) \<Rightarrow> ('k, 'v) shards \<Rightarrow> bool" where
  "shards_ok h ss \<longleftrightarrow> ss \<noteq> [] \<and>
     (\<forall>i < length ss. distinct (map fst (ss ! i)) \<and>
        (\<forall>k \<in> fst ` set (ss ! i). shard_index h k (length ss) = i))"

lemma shard_index_less: "ss \<noteq> [] \<Longrightarrow> shard_index h k (length ss) < length ss"
  by (simp add: shard_index_def)

lemma shards_ok_empty [simp]: "0 < n \<Longrightarrow> shards_ok h (shards_empty n)"
  by (auto simp: shards_ok_def shards_empty_def)

lemma shard_get_empty [simp]: "0 < n \<Longrightarrow> shard_get h (shards_empty n) k = None"
  by (simp add: shard_get_def shard_of_def shards_empty_def shard_index_def)

lemma length_shard_put [simp]: "length (shard_put h ss k v) = length ss"
  by (simp add: shard_put_def)

lemma length_shard_del [simp]: "length (shard_del h ss k) = length ss"
  by (simp add: shard_del_def)

lemma shards_okD:
  assumes "shards_ok h ss"
  shows "ss \<noteq> []" "shard_index h k (length ss) < length ss" "distinct (map fst (shard_of h ss k))"
    "i < length ss \<Longrightarrow> (k', v) \<in> set (ss ! i) \<Longrightarrow> shard_index h k' (length ss) = i"
  using assms by (force simp: shards_ok_def shard_of_def shard_index_less)+

lemma shard_put_ok [simp]:
  assumes "shards_ok h ss"
  shows "shards_ok h (shard_put h ss k v)"
proof -
  let ?i = "shard_index h k (length ss)"
  have "shard_index h a (length ss) = ?i" if "(a, b) \<in> set (AList.update k v (ss ! ?i))" for a b
    using set_update_cases [OF that] shards_okD(4) [OF assms shards_okD(2) [OF assms]] by blast
  then show ?thesis
    using assms unfolding shards_ok_def shard_put_def shard_of_def
    by (auto simp: nth_list_update shard_index_less distinct_update split: if_splits)
qed

lemma shard_del_ok [simp]: "shards_ok h ss \<Longrightarrow> shards_ok h (shard_del h ss k)"
  by (auto simp: shards_ok_def shard_del_def shard_of_def nth_list_update shard_index_less
      delete_eq_filter distinct_map_filter)

lemma shard_get_put [simp]:
  "shards_ok h ss \<Longrightarrow> shard_get h (shard_put h ss k v) k' = (if k' = k then Some v else shard_get h ss k')"
  by (auto simp: shard_get_def shard_put_def shard_of_def shards_ok_def nth_list_update
      shard_index_less update_conv')

lemma shard_get_del [simp]:
  "shards_ok h ss \<Longrightarrow> shard_get h (shard_del h ss k) k' = (if k' = k then None else shard_get h ss k')"
  by (auto simp: shard_get_def shard_del_def shard_of_def shards_ok_def nth_list_update
      shard_index_less delete_conv')

section \<open>Traversal\<close>

lemma shards_elem:
  assumes "shards_ok h ss"
  shows "(k, v) \<in> set (concat ss) \<longleftrightarrow> shard_get h ss k = Some v"
proof
  assume "(k, v) \<in> set (concat ss)"
  then obtain i where i: "i < length ss" "(k, v) \<in> set (ss ! i)"
    by (metis concat_eq_concat_iff in_set_conv_nth set_concat UN_E)
  with assms have "shard_index h k (length ss) = i" "distinct (map fst (ss ! i))"
    by (force simp: shards_ok_def)+
  with i show "shard_get h ss k = Some v" by (simp add: shard_get_def shard_of_def)
next
  assume "shard_get h ss k = Some v"
  then have "(k, v) \<in> set (shard_of h ss k)" by (simp add: shard_get_def map_of_SomeD)
  with assms show "(k, v) \<in> set (concat ss)"
    by (auto simp: shard_of_def shards_ok_def intro: nth_mem [OF shard_index_less])
qed

lemma distinct_keys_concat:
  assumes "\<And>i. i < length xs \<Longrightarrow> distinct (map fst (xs ! i))"
    and "\<And>i j k. i < length xs \<Longrightarrow> j < length xs \<Longrightarrow> k \<in> fst ` set (xs ! i) \<Longrightarrow>
           k \<in> fst ` set (xs ! j) \<Longrightarrow> i = j"
  shows "distinct (map fst (concat xs))"
  using assms
proof (induction xs)
  case (Cons x xs)
  have "distinct (map fst (concat xs))"
    using Cons.prems(1) [of "Suc i" for i] Cons.prems(2) [of "Suc i" "Suc j" for i j]
    by (intro Cons.IH) auto
  moreover have "fst ` set x \<inter> fst ` set (concat xs) = {}"
  proof (rule ccontr)
    assume "fst ` set x \<inter> fst ` set (concat xs) \<noteq> {}"
    then obtain k y where k: "k \<in> fst ` set x" "y \<in> set xs" "k \<in> fst ` set y"
      by auto
    then obtain j where "j < length xs" "xs ! j = y" by (auto simp: in_set_conv_nth)
    with k Cons.prems(2) [of 0 "Suc j" k] show False by simp
  qed
  ultimately show ?case using Cons.prems(1) [of 0] by simp
qed simp

lemma shards_distinct:
  assumes "shards_ok h ss"
  shows "distinct (map fst (concat ss))"
proof (rule distinct_keys_concat)
  show "distinct (map fst (ss ! i))" if "i < length ss" for i
    using assms that by (simp add: shards_ok_def)
  show "i = j" if "i < length ss" "j < length ss" "k \<in> fst ` set (ss ! i)" "k \<in> fst ` set (ss ! j)"
    for i j k
    using assms that unfolding shards_ok_def by metis
qed

lemma shards_keys:
  assumes "shards_ok h ss"
  shows "dom (shard_get h ss) = fst ` set (concat ss)"
proof -
  have "k \<in> fst ` set (concat ss) \<longleftrightarrow> (\<exists>v. (k, v) \<in> set (concat ss))" for k
    by force
  then show ?thesis by (auto simp: shards_elem [OF assms] dom_def simp del: set_concat)
qed

lemma shards_card:
  assumes "shards_ok h ss"
  shows "card (dom (shard_get h ss)) = length (concat ss)"
  using distinct_card [OF shards_distinct [OF assms]] shards_keys [OF assms] by simp

lemma shards_finite_dom: "shards_ok h ss \<Longrightarrow> finite (dom (shard_get h ss))"
  using shards_keys [of h ss] by simp

lemma group_by_shard_mset:
  assumes "\<And>x. x \<in> set xs \<Longrightarrow> idx x < n"
  shows "mset (concat (group_by_shard idx n xs)) = mset xs"
proof -
  have "mset (concat (map (\<lambda>i. filter (\<lambda>x. idx x = i) xs) [0..<m])) = mset (filter (\<lambda>x. idx x < m) xs)"
    for m
  proof (induction m)
    case (Suc m)
    have "filter (\<lambda>x. idx x < Suc m) xs = filter (\<lambda>x. idx x < m \<or> idx x = m) xs"
      by (intro filter_cong) auto
    moreover have "mset (filter (\<lambda>x. idx x < m \<or> idx x = m) xs) =
        mset (filter (\<lambda>x. idx x < m) xs) + mset (filter (\<lambda>x. idx x = m) xs)"
      by (induction xs) auto
    ultimately show ?case using Suc by simp
  qed simp
  moreover have "filter (\<lambda>x. idx x < n) xs = xs"
    using assms by (simp add: filter_id_conv)
  ultimately show ?thesis unfolding group_by_shard_def by metis
qed

lemma group_by_shard_set:
  assumes "\<And>x. x \<in> set xs \<Longrightarrow> idx x < n"
  shows "set (concat (group_by_shard idx n xs)) = set xs"
  using arg_cong [OF group_by_shard_mset [of xs idx n, OF assms], of set_mset]
  by (simp del: set_concat mset_concat)

section \<open>The store interface\<close>

text \<open>What a client of a table relies on: reads after writes and removals, finiteness, and
  a traversal that lists every entry exactly once.\<close>

locale keyed_store =
  fixes invar :: "'s \<Rightarrow> bool"
    and lookup :: "'s \<Rightarrow> 'k \<Rightarrow> 'v option"
    and put :: "'s \<Rightarrow> 'k \<Rightarrow> 'v \<Rightarrow> 's"
    and del :: "'s \<Rightarrow> 'k \<Rightarrow> 's"
    and entries :: "'s \<Rightarrow> ('k \<times> 'v) list"
  assumes invar_put: "invar s \<Longrightarrow> invar (put s k v)"
    and invar_del: "invar s \<Longrightarrow> invar (del s k)"
    and lookup_put: "invar s \<Longrightarrow> lookup (put s k v) k' = (if k' = k then Some v else lookup s k')"
    and lookup_del: "invar s \<Longrightarrow> lookup (del s k) k' = (if k' = k then None else lookup s k')"
    and entries_lookup: "invar s \<Longrightarrow> (k, v) \<in> set (entries s) \<longleftrightarrow> lookup s k = Some v"
    and entries_distinct: "invar s \<Longrightarrow> distinct (map fst (entries s))"
begin

lemma dom_entries: "invar s \<Longrightarrow> dom (lookup s) = fst ` set (entries s)"
  using entries_lookup by (force simp: dom_def)

lemma finite_dom: "invar s \<Longrightarrow> finite (dom (lookup s))"
  by (simp add: dom_entries)

lemma size_entries: "invar s \<Longrightarrow> length (entries s) = card (dom (lookup s))"
  using distinct_card [OF entries_distinct] by (simp add: dom_entries)

lemma card_put:
  assumes "invar s"
  shows "card (dom (lookup (put s k v))) =
         (if lookup s k = None then Suc (card (dom (lookup s))) else card (dom (lookup s)))"
proof -
  have "dom (lookup (put s k v)) = insert k (dom (lookup s))"
    using assms by (auto simp: dom_def lookup_put)
  then show ?thesis using finite_dom [OF assms] by (auto simp: card_insert_if)
qed

lemma card_del:
  assumes "invar s"
  shows "card (dom (lookup (del s k))) =
         (if lookup s k = None then card (dom (lookup s)) else card (dom (lookup s)) - 1)"
proof -
  have "dom (lookup (del s k)) = dom (lookup s) - {k}"
    using assms by (auto simp: dom_def lookup_del)
  then show ?thesis using finite_dom [OF assms] by (auto simp: card_Diff_singleton_if)
qed

lemma card_pos: "invar s \<Longrightarrow> lookup s k = Some v \<Longrightarrow> 0 < card (dom (lookup s))"
  using finite_dom by (auto simp: card_gt_0_iff)

end

interpretation sharded: keyed_store "shards_ok h" "shard_get h" "shard_put h" "shard_del h" concat
  for h :: "'k \<Rightarrow> nat"
  by unfold_locales (simp_all add: shards_elem shards_distinct del: set_concat)

end
