(* ===== verification/WriteQueue.thy ===== *)
theory WriteQueue
  imports Errors
begin

text \<open>
  The bounded write queue of one connection and its writer task
  (\<open>ConnectionWriteQueue\<close> in \<open>src/src/server/connection/manager/mod.rs\<close>).  The channel is the
  list of queued writes; its receiving half is in the mutex until the writer task takes it,
  and is dropped when the task ends.  What the connection accepted (\<open>wq_sent\<close>) and whether
  its close was requested are recorded beside the fields of the source.  \<open>rt\<close> says whether
  the caller runs inside a Tokio runtime.
\<close>

section \<open>State\<close>

datatype receiver_place = InMutex | InTask | Dropped

record write_queue =
  wq_buffer :: "bytes list"
  wq_capacity :: nat
  wq_receiver :: receiver_place
  wq_closed :: bool
  wq_writer_started :: bool
  wq_connection_id :: conn_id
  wq_send_timeout :: nat
  wq_sent :: "bytes list"
  wq_close_requested :: bool

definition queue_new :: "conn_id \<Rightarrow> nat \<Rightarrow> nat \<Rightarrow> write_queue" where
  "queue_new cid send_timeout capacity =
     \<lparr>wq_buffer = [], wq_capacity = max capacity 1, wq_receiver = InMutex, wq_closed = False,
      wq_writer_started = False, wq_connection_id = cid, wq_send_timeout = send_timeout,
      wq_sent = [], wq_close_requested = False\<rparr>"

section \<open>Operations\<close>

definition ensure_writer_started :: "bool \<Rightarrow> write_queue \<Rightarrow> write_queue \<times> unit result" where
  "ensure_writer_started rt q =
     (if wq_writer_started q then (q, Inr ())
      else if \<not> rt then
        (q, Inl (localized ConnectionFailed ''Connection write queue requires a Tokio runtime''))
      else
        (let q1 = q\<lparr>wq_writer_started := True\<rparr> in
         if wq_receiver q1 \<noteq> InMutex then
           (q1\<lparr>wq_closed := True\<rparr>,
            Inl (localized ConnectionClosed ''Connection write queue receiver is unavailable''))
         else (q1\<lparr>wq_receiver := InTask\<rparr>, Inr ())))"

definition try_send :: "bytes \<Rightarrow> write_queue \<Rightarrow> write_queue \<times> unit result" where
  "try_send d q =
     (if wq_receiver q = Dropped then
        (q, Inl (localized ConnectionClosed ''Connection write queue is closed''))
      else if length (wq_buffer q) \<ge> wq_capacity q then
        (q, Inl (localized ConnectionTimeout ''Connection write queue is full''))
      else (q\<lparr>wq_buffer := wq_buffer q @ [d]\<rparr>, Inr ()))"

definition try_enqueue :: "bool \<Rightarrow> bytes \<Rightarrow> write_queue \<Rightarrow> write_queue \<times> unit result" where
  "try_enqueue rt d q =
     (if wq_closed q then (q, Inl (localized ConnectionClosed ''Connection write queue is closed''))
      else case ensure_writer_started rt q of
             (q1, Inl e) \<Rightarrow> (q1, Inl e)
           | (q1, Inr _) \<Rightarrow> try_send d q1)"

definition mark_closed :: "write_queue \<Rightarrow> write_queue \<times> bool" where
  "mark_closed q = (q\<lparr>wq_closed := True\<rparr>, \<not> wq_closed q)"

definition close_underlying_in_background :: "bool \<Rightarrow> write_queue \<Rightarrow> write_queue" where
  "close_underlying_in_background rt q =
     (case mark_closed q of
        (q1, first) \<Rightarrow> if \<not> first then q1 else if \<not> rt then q1 else q1\<lparr>wq_close_requested := True\<rparr>)"

text \<open>One round of the writer task's loop: the next write is taken, and the send succeeds,
  fails or times out.  The flag says that the task asks for the connection's removal.\<close>

datatype send_outcome = SendOk | SendFailed | SendTimedOut

definition writer_step :: "send_outcome \<Rightarrow> write_queue \<Rightarrow> write_queue \<times> bool" where
  "writer_step out q =
     (if wq_receiver q \<noteq> InTask then (q, False)
      else case wq_buffer q of
             [] \<Rightarrow> (q, False)
           | d # rest \<Rightarrow>
               if wq_closed q then (q\<lparr>wq_buffer := [], wq_receiver := Dropped\<rparr>, False)
               else (case out of
                       SendOk \<Rightarrow> (q\<lparr>wq_buffer := rest, wq_sent := wq_sent q @ [d]\<rparr>, False)
                     | _ \<Rightarrow> (q\<lparr>wq_buffer := [], wq_receiver := Dropped, wq_closed := True,
                               wq_close_requested := True\<rparr>, True)))"

section \<open>Invariant and runs\<close>

definition queue_inv :: "write_queue \<Rightarrow> bool" where
  "queue_inv q \<longleftrightarrow> length (wq_buffer q) \<le> wq_capacity q \<and> 1 \<le> wq_capacity q \<and>
     (wq_writer_started q \<longleftrightarrow> wq_receiver q \<noteq> InMutex) \<and>
     (wq_receiver q = InMutex \<longrightarrow> wq_buffer q = []) \<and> (wq_receiver q = Dropped \<longrightarrow> wq_closed q)"

lemma queue_new_inv [simp, inv_intro]: "queue_inv (queue_new cid t n)"
  by (simp add: queue_inv_def queue_new_def)

lemma ensure_writer_started_inv:
  "queue_inv q \<Longrightarrow> queue_inv (fst (ensure_writer_started rt q))"
  by (auto simp: ensure_writer_started_def queue_inv_def Let_def)

lemma ensure_writer_started_ok:
  "queue_inv q \<Longrightarrow> rt \<Longrightarrow> snd (ensure_writer_started rt q) = Inr ()"
  by (auto simp: ensure_writer_started_def queue_inv_def Let_def)

lemma try_enqueue_inv [inv_intro]: "queue_inv q \<Longrightarrow> queue_inv (fst (try_enqueue rt d q))"
  by (auto simp: try_enqueue_def try_send_def ensure_writer_started_def queue_inv_def Let_def
      split: if_splits)

lemma close_underlying_inv [inv_intro]: "queue_inv q \<Longrightarrow> queue_inv (close_underlying_in_background rt q)"
  by (auto simp: close_underlying_in_background_def mark_closed_def queue_inv_def)

lemma writer_step_inv [inv_intro]: "queue_inv q \<Longrightarrow> queue_inv (fst (writer_step out q))"
  by (auto simp: writer_step_def queue_inv_def split: list.splits send_outcome.splits)

lemma close_underlying_fields [simp]:
  "wq_closed (close_underlying_in_background rt q)"
  "wq_buffer (close_underlying_in_background rt q) = wq_buffer q"
  "wq_sent (close_underlying_in_background rt q) = wq_sent q"
  "wq_connection_id (close_underlying_in_background rt q) = wq_connection_id q"
  by (auto simp: close_underlying_in_background_def mark_closed_def)

text \<open>A run of one queue from its creation, with the writes it accepted.\<close>

inductive queue_run :: "write_queue \<Rightarrow> bytes list \<Rightarrow> bool" where
  start: "queue_run (queue_new cid t n) []"
| enqueue_ok: "queue_run q acc \<Longrightarrow> try_enqueue rt d q = (q', Inr ()) \<Longrightarrow> queue_run q' (acc @ [d])"
| enqueue_err: "queue_run q acc \<Longrightarrow> try_enqueue rt d q = (q', Inl e) \<Longrightarrow> queue_run q' acc"
| close: "queue_run q acc \<Longrightarrow> queue_run (close_underlying_in_background rt q) acc"
| writer: "queue_run q acc \<Longrightarrow> writer_step out q = (q', rm) \<Longrightarrow> queue_run q' acc"

lemma queue_run_inv: "queue_run q acc \<Longrightarrow> queue_inv q"
  by (induction rule: queue_run.induct)
     (auto intro: close_underlying_inv, (metis fst_conv try_enqueue_inv writer_step_inv)+)

lemma try_enqueue_Inr:
  assumes "try_enqueue rt d q = (q', Inr ())"
  shows "wq_buffer q' = wq_buffer q @ [d] \<and> wq_sent q' = wq_sent q \<and> wq_receiver q' \<noteq> Dropped
         \<and> \<not> wq_closed q \<and> \<not> wq_closed q'"
  using assms
  by (auto simp: try_enqueue_def try_send_def ensure_writer_started_def Let_def split: if_splits)

lemma try_enqueue_Inl:
  assumes "try_enqueue rt d q = (q', Inl e)"
  shows "wq_buffer q' = wq_buffer q \<and> wq_sent q' = wq_sent q \<and> (wq_receiver q' = Dropped \<longleftrightarrow> wq_receiver q = Dropped)"
  using assms
  by (auto simp: try_enqueue_def try_send_def ensure_writer_started_def Let_def split: if_splits)

lemma queue_run_fifo:
  "queue_run q acc \<Longrightarrow>
     (if wq_receiver q = Dropped then \<exists>lost. acc = wq_sent q @ lost
      else acc = wq_sent q @ wq_buffer q)"
proof (induction rule: queue_run.induct)
  case (enqueue_ok q acc rt d q')
  from queue_run_inv [OF enqueue_ok.hyps(1)] try_enqueue_Inr [OF enqueue_ok.hyps(2)]
  have "wq_receiver q \<noteq> Dropped" by (auto simp: queue_inv_def)
  with enqueue_ok.IH try_enqueue_Inr [OF enqueue_ok.hyps(2)] show ?case by simp
next
  case (enqueue_err q acc rt d q' e)
  with try_enqueue_Inl [OF enqueue_err.hyps(2)] show ?case by simp
next
  case (close q acc rt)
  then show ?case by (auto simp: close_underlying_in_background_def mark_closed_def)
next
  case (writer q acc out q' rm)
  then show ?case
    by (auto simp: writer_step_def split: if_splits list.splits send_outcome.splits)
qed (simp add: queue_new_def)

section \<open>Properties\<close>

text \<open>C11: A connection's writes are delivered in the order they were accepted, without loss or
  duplication while the writer task lives: in every run of the queue the bytes handed to the
  connection followed by the queued ones are exactly the accepted writes; once the task has ended,
  what was delivered is a prefix of the accepted writes. The queue never holds more than its
  capacity.\<close>

theorem write_queue_fifo:
  assumes "queue_run q accepted"
  shows "(wq_receiver q \<noteq> Dropped \<longrightarrow> accepted = wq_sent q @ wq_buffer q)
         \<and> (\<exists>rest. accepted = wq_sent q @ rest)
         \<and> length (wq_buffer q) \<le> wq_capacity q"
  using queue_run_fifo [OF assms] queue_run_inv [OF assms]
  by (auto simp: queue_inv_def split: if_splits)

definition ex_queue :: write_queue where
  "ex_queue = fst (writer_step SendOk (fst (try_enqueue True ''b'' (fst (try_enqueue True ''a'' (queue_new ''c'' 10 4))))))"

theorem write_queue_fifo_witness:
  "wq_receiver ex_queue = InTask \<and> [''a'', ''b''] = wq_sent ex_queue @ wq_buffer ex_queue"
proof -
  have e: "try_enqueue True ''a'' (queue_new ''c'' 10 4) =
      (fst (try_enqueue True ''a'' (queue_new ''c'' 10 4)), Inr ())"
    "try_enqueue True ''b'' (fst (try_enqueue True ''a'' (queue_new ''c'' 10 4))) =
      (fst (try_enqueue True ''b'' (fst (try_enqueue True ''a'' (queue_new ''c'' 10 4)))), Inr ())"
    by (simp_all add: try_enqueue_def ensure_writer_started_def try_send_def queue_new_def)
  have "queue_run ex_queue (([] @ [''a'']) @ [''b''])"
    unfolding ex_queue_def
    by (rule queue_run.writer [OF queue_run.enqueue_ok [OF queue_run.enqueue_ok [OF queue_run.start e(1)] e(2)]
        surjective_pairing])
  from write_queue_fifo [OF this] show ?thesis
    by (simp add: ex_queue_def try_enqueue_def ensure_writer_started_def try_send_def queue_new_def
        writer_step_def)
qed

end
