(* ===== verification/ConnManager.thy ===== *)
theory ConnManager
  imports DeviceManager Parser Sharding WriteQueue
begin

text \<open>
  State and life cycle of the server's connection manager
  (\<open>src/src/server/connection/manager/mod.rs\<close>, \<open>lifecycle.rs\<close>, \<open>ops.rs\<close>): the sharded connection
  table, the sharded index from (tenant, user) to connection ids, and the two atomic
  counters, kept at their 64-bit width.  A shared write queue (an \<open>Arc\<close>) is a handle into
  \<open>cm_queues\<close>, so that a snapshot taken earlier still reaches the same queue.  Each method is
  one transition here; \<open>ConnRun\<close> runs registrations and removals in their parts, between which other
  methods happen: the reservation and the insertion, the removal from the table (\<open>take_out\<close>), the release of
  the slot and the removal from the index.  The invariant therefore allows for entries of the index whose
  connections have left the table.  The branches for a poisoned lock are left out: no code panics while it holds
  one of these locks.  Clock readings are arguments.
\<close>

section \<open>State\<close>

definition TENANT_ID_METADATA_KEY :: string where
  "TENANT_ID_METADATA_KEY = ''tenant_id''"

record conn_info =
  ci_connection_id :: conn_id
  ci_user_id :: "string option"
  ci_created_at :: nat
  ci_last_active :: nat
  ci_metadata :: "(string, string) amap"
  ci_device_info :: "device_info option"
  ci_serialization_format :: serialization_format
  ci_compression :: compression_algorithm
  ci_encryption :: encryption_algorithm
  ci_authenticated :: bool
  ci_authenticated_at :: "64 word option"
  ci_negotiation_completed :: bool
  ci_negotiation_confirmed :: bool
  ci_cached_parser :: "message_parser option"
  ci_cached_pipeline :: "nat option"

text \<open>The clock of a call: the monotonic instant and the Unix time in seconds.\<close>

record clock =
  ck_instant :: nat
  ck_unix_secs :: "64 word"

definition conn_info_new :: "clock \<Rightarrow> conn_id \<Rightarrow> bool \<Rightarrow> conn_info" where
  "conn_info_new ck cid requires_auth =
     \<lparr>ci_connection_id = cid, ci_user_id = None, ci_created_at = ck_instant ck,
      ci_last_active = ck_instant ck, ci_metadata = [], ci_device_info = None,
      ci_serialization_format = Json, ci_compression = CompNone, ci_encryption = EncNone,
      ci_authenticated = (\<not> requires_auth),
      ci_authenticated_at = (if \<not> requires_auth then Some (ck_unix_secs ck) else None),
      ci_negotiation_completed = False, ci_negotiation_confirmed = False,
      ci_cached_parser = None, ci_cached_pipeline = None\<rparr>"

definition info_set_authenticated :: "clock \<Rightarrow> string option \<Rightarrow> conn_info \<Rightarrow> conn_info" where
  "info_set_authenticated ck user i =
     (let i1 = i\<lparr>ci_authenticated := True, ci_authenticated_at := Some (ck_unix_secs ck)\<rparr> in
      case user of Some u \<Rightarrow> i1\<lparr>ci_user_id := Some u\<rparr> | None \<Rightarrow> i1)"

definition info_owner :: "conn_info \<Rightarrow> device_owner option" where
  "info_owner i =
     map_option (\<lambda>u. owner_new (map_of (ci_metadata i) TENANT_ID_METADATA_KEY) u) (ci_user_id i)"

definition info_is_timeout :: "nat \<Rightarrow> nat \<Rightarrow> conn_info \<Rightarrow> bool" where
  "info_is_timeout now timeout i = (now - ci_last_active i > timeout)"

definition info_update_active :: "nat \<Rightarrow> conn_info \<Rightarrow> conn_info" where
  "info_update_active now i = i\<lparr>ci_last_active := now\<rparr>"

record conn_entry =
  en_writer :: nat
  en_info :: conn_info

record conn_manager =
  cm_conns :: "(conn_id, conn_entry) shards"
  cm_users :: "(device_owner, conn_id list) shards"
  cm_connection_count :: "64 word"
  cm_user_count :: "64 word"
  cm_send_timeout :: nat
  cm_fanout_concurrency :: nat
  cm_write_queue_capacity :: nat
  cm_queues :: "nat \<rightharpoonup> write_queue"
  cm_next_queue :: nat

text \<open>The hash functions of the two tables and whether a Tokio runtime is present.\<close>

record mgr_env =
  me_hash_conn :: "conn_id \<Rightarrow> nat"
  me_hash_owner :: "device_owner \<Rightarrow> nat"
  me_runtime :: bool

definition DEFAULT_FANOUT_CONCURRENCY :: nat where "DEFAULT_FANOUT_CONCURRENCY = 256"
definition DEFAULT_SEND_TIMEOUT :: nat where "DEFAULT_SEND_TIMEOUT = 10"
definition DEFAULT_WRITE_QUEUE_CAPACITY :: nat where "DEFAULT_WRITE_QUEUE_CAPACITY = 1024"
definition CONNECTION_SHARD_COUNT :: nat where "CONNECTION_SHARD_COUNT = 64"
definition USER_CONNECTION_SHARD_COUNT :: nat where "USER_CONNECTION_SHARD_COUNT = 64"

definition with_write_queue_limits :: "nat \<Rightarrow> nat \<Rightarrow> nat \<Rightarrow> conn_manager" where
  "with_write_queue_limits send_timeout fanout capacity =
     \<lparr>cm_conns = shards_empty CONNECTION_SHARD_COUNT,
      cm_users = shards_empty USER_CONNECTION_SHARD_COUNT,
      cm_connection_count = 0, cm_user_count = 0, cm_send_timeout = send_timeout,
      cm_fanout_concurrency = max fanout 1, cm_write_queue_capacity = max capacity 1,
      cm_queues = Map.empty, cm_next_queue = 0\<rparr>"

definition with_limits :: "nat \<Rightarrow> nat \<Rightarrow> conn_manager" where
  "with_limits send_timeout fanout =
     with_write_queue_limits send_timeout fanout DEFAULT_WRITE_QUEUE_CAPACITY"

definition with_send_timeout :: "nat \<Rightarrow> conn_manager" where
  "with_send_timeout t = with_limits t DEFAULT_FANOUT_CONCURRENCY"

definition conn_manager_new :: conn_manager where
  "conn_manager_new = with_send_timeout DEFAULT_SEND_TIMEOUT"

section \<open>Reading the tables\<close>

definition lookup_conn :: "mgr_env \<Rightarrow> conn_manager \<Rightarrow> conn_id \<Rightarrow> conn_entry option" where
  "lookup_conn me cm cid = shard_get (me_hash_conn me) (cm_conns cm) cid"

definition lookup_user :: "mgr_env \<Rightarrow> conn_manager \<Rightarrow> device_owner \<Rightarrow> conn_id list option" where
  "lookup_user me cm ow = shard_get (me_hash_owner me) (cm_users cm) ow"

definition get_connection :: "mgr_env \<Rightarrow> conn_id \<Rightarrow> conn_manager \<Rightarrow> (nat \<times> conn_info) option" where
  "get_connection me cid cm = map_option (\<lambda>e. (en_writer e, en_info e)) (lookup_conn me cm cid)"

definition get_connection_snapshot ::
  "mgr_env \<Rightarrow> conn_id \<Rightarrow> conn_manager \<Rightarrow> (conn_id \<times> nat \<times> conn_info) option" where
  "get_connection_snapshot me cid cm =
     map_option (\<lambda>e. (cid, en_writer e, en_info e)) (lookup_conn me cm cid)"

definition get_user_connections :: "mgr_env \<Rightarrow> device_owner \<Rightarrow> conn_manager \<Rightarrow> conn_id list" where
  "get_user_connections me ow cm = unwrap_or [] (lookup_user me cm ow)"

definition list_connections :: "conn_manager \<Rightarrow> conn_id list" where
  "list_connections cm = concat (map (map fst) (cm_conns cm))"

definition stats :: "conn_manager \<Rightarrow> 64 word \<times> 64 word" where
  "stats cm = (cm_connection_count cm, cm_user_count cm)"

section \<open>Slots and the user index\<close>

definition reserve_connection_slot :: "64 word \<Rightarrow> conn_manager \<Rightarrow> conn_manager \<times> unit result" where
  "reserve_connection_slot max_connections cm =
     (if cm_connection_count cm \<ge> max_connections
      then (cm, Inl (localized ConnectionFailed ''Connection limit exceeded''))
      else (cm\<lparr>cm_connection_count := cm_connection_count cm + 1\<rparr>, Inr ()))"

definition release_connection_slot :: "conn_manager \<Rightarrow> conn_manager" where
  "release_connection_slot cm = cm\<lparr>cm_connection_count := cm_connection_count cm - 1\<rparr>"

definition insert_user_connection_index ::
  "device_owner \<Rightarrow> conn_id \<Rightarrow> (device_owner, conn_id list) amap \<Rightarrow> (device_owner, conn_id list) amap \<times> bool" where
  "insert_user_connection_index ow cid m =
     (let is_new_user = (map_of m ow = None);
          ids = unwrap_or [] (map_of m ow);
          ids' = (if list_ex (\<lambda>i. i = cid) ids then ids else ids @ [cid])
      in (AList.update ow ids' m, is_new_user))"

definition remove_user_connection_index ::
  "device_owner \<Rightarrow> conn_id \<Rightarrow> (device_owner, conn_id list) amap \<Rightarrow> (device_owner, conn_id list) amap \<times> bool" where
  "remove_user_connection_index ow cid m =
     (case map_of m ow of
        None \<Rightarrow> (m, False)
      | Some ids \<Rightarrow>
          (let ids' = filter (\<lambda>i. i \<noteq> cid) ids in
           if ids' = [] then (AList.delete ow m, True) else (AList.update ow ids' m, False)))"

definition insert_user_connection :: "mgr_env \<Rightarrow> device_owner \<Rightarrow> conn_id \<Rightarrow> conn_manager \<Rightarrow> conn_manager" where
  "insert_user_connection me ow cid cm =
     (let i = shard_index (me_hash_owner me) ow (length (cm_users cm));
          (m', new) = insert_user_connection_index ow cid (cm_users cm ! i)
      in cm\<lparr>cm_users := (cm_users cm)[i := m'],
             cm_user_count := (if new then cm_user_count cm + 1 else cm_user_count cm)\<rparr>)"

definition remove_user_connection :: "mgr_env \<Rightarrow> device_owner \<Rightarrow> conn_id \<Rightarrow> conn_manager \<Rightarrow> conn_manager" where
  "remove_user_connection me ow cid cm =
     (let i = shard_index (me_hash_owner me) ow (length (cm_users cm));
          (m', gone) = remove_user_connection_index ow cid (cm_users cm ! i)
      in cm\<lparr>cm_users := (cm_users cm)[i := m'],
             cm_user_count := (if gone then cm_user_count cm - 1 else cm_user_count cm)\<rparr>)"

definition reindex_user_connection ::
  "mgr_env \<Rightarrow> conn_id \<Rightarrow> device_owner option \<Rightarrow> device_owner option \<Rightarrow> conn_manager \<Rightarrow> conn_manager" where
  "reindex_user_connection me cid before after cm =
     (let cm1 = (case before of
                   Some b \<Rightarrow> if after \<noteq> Some b then remove_user_connection me b cid cm else cm
                 | None \<Rightarrow> cm)
      in case after of Some a \<Rightarrow> insert_user_connection me a cid cm1 | None \<Rightarrow> cm1)"

section \<open>Adding and removing connections\<close>

definition new_connection_entry :: "conn_id \<Rightarrow> conn_info \<Rightarrow> conn_manager \<Rightarrow> conn_manager \<times> conn_entry" where
  "new_connection_entry cid info cm =
     (let q = cm_next_queue cm in
      (cm\<lparr>cm_queues := (cm_queues cm)(q \<mapsto> queue_new cid (cm_send_timeout cm) (cm_write_queue_capacity cm)),
          cm_next_queue := Suc q\<rparr>,
       \<lparr>en_writer = q, en_info = info\<rparr>))"

text \<open>The part of \<open>add_connection_with_limit\<close> after the reservation, under the shard lock.\<close>

definition register_reserved ::
  "mgr_env \<Rightarrow> clock \<Rightarrow> conn_id \<Rightarrow> string option \<Rightarrow> bool \<Rightarrow> conn_manager \<Rightarrow> conn_manager \<times> unit result" where
  "register_reserved me ck cid user requires_auth cm =
     (if lookup_conn me cm cid \<noteq> None
      then (release_connection_slot cm, Inl (localized ProtocolError ''Connection already exists''))
      else
        (let info = (conn_info_new ck cid requires_auth)\<lparr>ci_user_id := user\<rparr>;
             ow = info_owner info;
             (cm1, entry) = new_connection_entry cid info cm;
             cm2 = cm1\<lparr>cm_conns := shard_put (me_hash_conn me) (cm_conns cm1) cid entry\<rparr>
         in (case ow of Some o' \<Rightarrow> insert_user_connection me o' cid cm2 | None \<Rightarrow> cm2, Inr ())))"

definition add_connection_with_limit ::
  "mgr_env \<Rightarrow> clock \<Rightarrow> conn_id \<Rightarrow> string option \<Rightarrow> bool \<Rightarrow> 64 word \<Rightarrow> conn_manager
   \<Rightarrow> conn_manager \<times> unit result" where
  "add_connection_with_limit me ck cid user requires_auth max_connections cm =
     (case reserve_connection_slot max_connections cm of
        (cm1, Inl e) \<Rightarrow> (cm1, Inl e)
      | (cm1, Inr _) \<Rightarrow> register_reserved me ck cid user requires_auth cm1)"

definition add_connection ::
  "mgr_env \<Rightarrow> clock \<Rightarrow> conn_id \<Rightarrow> string option \<Rightarrow> bool \<Rightarrow> conn_manager \<Rightarrow> conn_manager \<times> unit result" where
  "add_connection me ck cid user requires_auth cm =
     add_connection_with_limit me ck cid user requires_auth (- 1) cm"

definition close_queue :: "mgr_env \<Rightarrow> nat \<Rightarrow> conn_manager \<Rightarrow> conn_manager" where
  "close_queue me q cm =
     cm\<lparr>cm_queues := (cm_queues cm)(q := map_option (close_underlying_in_background (me_runtime me)) (cm_queues cm q))\<rparr>"

definition remove_connection :: "mgr_env \<Rightarrow> conn_id \<Rightarrow> conn_manager \<Rightarrow> conn_manager \<times> unit result" where
  "remove_connection me cid cm =
     (case lookup_conn me cm cid of
        None \<Rightarrow> (cm, Inl (localized ProtocolError ''Connection not found''))
      | Some e \<Rightarrow>
          (let cm1 = cm\<lparr>cm_conns := shard_del (me_hash_conn me) (cm_conns cm) cid\<rparr>;
               cm2 = release_connection_slot (close_queue me (en_writer e) cm1)
           in (case info_owner (en_info e) of
                 Some ow \<Rightarrow> remove_user_connection me ow cid cm2
               | None \<Rightarrow> cm2, Inr ())))"

text \<open>\<open>ConnectionRemovalRegistry::remove_connection\<close>, called by the writer task: it does not
  touch the queue.\<close>

definition registry_remove_connection :: "mgr_env \<Rightarrow> conn_id \<Rightarrow> conn_manager \<Rightarrow> conn_manager \<times> bool" where
  "registry_remove_connection me cid cm =
     (case lookup_conn me cm cid of
        None \<Rightarrow> (cm, False)
      | Some e \<Rightarrow>
          (let cm1 = release_connection_slot
                       (cm\<lparr>cm_conns := shard_del (me_hash_conn me) (cm_conns cm) cid\<rparr>)
           in (case info_owner (en_info e) of
                 Some ow \<Rightarrow> remove_user_connection me ow cid cm1
               | None \<Rightarrow> cm1, True)))"

section \<open>Changing connection information\<close>

text \<open>The shape of every update: find the entry under the shard lock, change its
  information, move the user index from the old owner to the new one.\<close>

definition put_info :: "mgr_env \<Rightarrow> conn_id \<Rightarrow> conn_entry \<Rightarrow> conn_info \<Rightarrow> conn_manager \<Rightarrow> conn_manager" where
  "put_info me cid e i cm =
     cm\<lparr>cm_conns := shard_put (me_hash_conn me) (cm_conns cm) cid (e\<lparr>en_info := i\<rparr>)\<rparr>"

definition update_reindexed ::
  "mgr_env \<Rightarrow> conn_id \<Rightarrow> (conn_info \<Rightarrow> conn_info) \<Rightarrow> conn_manager \<Rightarrow> conn_manager \<times> unit result" where
  "update_reindexed me cid f cm =
     (case lookup_conn me cm cid of
        None \<Rightarrow> (cm, Inl (localized ProtocolError ''Connection not found''))
      | Some e \<Rightarrow>
          (let before = info_owner (en_info e);
               i = f (en_info e);
               after = info_owner i
           in (reindex_user_connection me cid before after (put_info me cid e i cm), Inr ())))"

definition bind_user :: "mgr_env \<Rightarrow> conn_id \<Rightarrow> string \<Rightarrow> conn_manager \<Rightarrow> conn_manager \<times> unit result" where
  "bind_user me cid user cm = update_reindexed me cid (\<lambda>i. i\<lparr>ci_user_id := Some user\<rparr>) cm"

definition set_connection_authenticated ::
  "mgr_env \<Rightarrow> clock \<Rightarrow> conn_id \<Rightarrow> string option \<Rightarrow> conn_manager \<Rightarrow> conn_manager \<times> unit result" where
  "set_connection_authenticated me ck cid user cm =
     update_reindexed me cid (info_set_authenticated ck user) cm"

definition merge_metadata :: "(string, string) amap \<Rightarrow> (string, string) amap \<Rightarrow> (string, string) amap" where
  "merge_metadata new old = fold (\<lambda>(k, v) m. AList.update k v m) new old"

definition negotiated_info ::
  "device_info option \<Rightarrow> serialization_format \<Rightarrow> compression_algorithm \<Rightarrow> encryption_algorithm
   \<Rightarrow> string option \<Rightarrow> (string, string) amap option \<Rightarrow> conn_info \<Rightarrow> conn_info" where
  "negotiated_info dev fmt cmpr enc user md i =
     (let i1 = i\<lparr>ci_device_info := dev, ci_serialization_format := fmt, ci_compression := cmpr,
                 ci_encryption := enc\<rparr>;
          i2 = (case md of Some m \<Rightarrow> i1\<lparr>ci_metadata := merge_metadata m (ci_metadata i1)\<rparr> | None \<Rightarrow> i1)
      in if user \<noteq> None then i2\<lparr>ci_user_id := user\<rparr> else i2)"

definition update_connection_negotiation ::
  "mgr_env \<Rightarrow> conn_id \<Rightarrow> device_info option \<Rightarrow> serialization_format \<Rightarrow> compression_algorithm
   \<Rightarrow> encryption_algorithm \<Rightarrow> string option \<Rightarrow> (string, string) amap option \<Rightarrow> conn_manager
   \<Rightarrow> conn_manager \<times> unit result" where
  "update_connection_negotiation me cid dev fmt cmpr enc user md cm =
     update_reindexed me cid (negotiated_info dev fmt cmpr enc user md) cm"

definition completed_info ::
  "device_info option \<Rightarrow> serialization_format \<Rightarrow> compression_algorithm \<Rightarrow> encryption_algorithm
   \<Rightarrow> string option \<Rightarrow> message_parser \<Rightarrow> nat option \<Rightarrow> conn_info \<Rightarrow> conn_info" where
  "completed_info dev fmt cmpr enc user p pipeline i =
     (let i1 = i\<lparr>ci_device_info := dev, ci_serialization_format := fmt, ci_compression := cmpr,
                 ci_encryption := enc, ci_negotiation_completed := True,
                 ci_cached_parser := Some p, ci_cached_pipeline := pipeline\<rparr>
      in if user \<noteq> None then i1\<lparr>ci_user_id := user\<rparr> else i1)"

definition update_connection_negotiation_with_pipeline ::
  "mgr_env \<Rightarrow> conn_id \<Rightarrow> device_info option \<Rightarrow> serialization_format \<Rightarrow> compression_algorithm
   \<Rightarrow> encryption_algorithm \<Rightarrow> string option \<Rightarrow> message_parser \<Rightarrow> nat option \<Rightarrow> conn_manager
   \<Rightarrow> conn_manager \<times> unit result" where
  "update_connection_negotiation_with_pipeline me cid dev fmt cmpr enc user p pipeline cm =
     update_reindexed me cid (completed_info dev fmt cmpr enc user p pipeline) cm"

definition mark_negotiation_confirmed :: "mgr_env \<Rightarrow> conn_id \<Rightarrow> conn_manager \<Rightarrow> conn_manager \<times> unit result" where
  "mark_negotiation_confirmed me cid cm =
     (case lookup_conn me cm cid of
        None \<Rightarrow> (cm, Inl (localized ProtocolError ''Connection not found''))
      | Some e \<Rightarrow>
          if \<not> ci_negotiation_completed (en_info e)
          then (cm, Inl (localized ProtocolError ''Cannot confirm negotiation: negotiation not completed''))
          else (put_info me cid e ((en_info e)\<lparr>ci_negotiation_confirmed := True\<rparr>) cm, Inr ()))"

definition update_connection_active :: "mgr_env \<Rightarrow> nat \<Rightarrow> conn_id \<Rightarrow> conn_manager \<Rightarrow> conn_manager \<times> unit result" where
  "update_connection_active me now cid cm =
     (case lookup_conn me cm cid of
        None \<Rightarrow> (cm, Inl (localized ProtocolError ''Connection not found''))
      | Some e \<Rightarrow> (put_info me cid e (info_update_active now (en_info e)) cm, Inr ()))"

section \<open>Invariant\<close>

definition owner_of :: "mgr_env \<Rightarrow> conn_manager \<Rightarrow> conn_id \<Rightarrow> device_owner option" where
  "owner_of me cm cid = Option.bind (lookup_conn me cm cid) (\<lambda>e. info_owner (en_info e))"

text \<open>The user index as a relation, and the relation it is meant to be.\<close>

definition index_rel :: "mgr_env \<Rightarrow> conn_manager \<Rightarrow> (device_owner \<times> conn_id) set" where
  "index_rel me cm = {(ow, c). c \<in> set (get_user_connections me ow cm)}"

definition owner_rel :: "mgr_env \<Rightarrow> conn_manager \<Rightarrow> (device_owner \<times> conn_id) set" where
  "owner_rel me cm = {(ow, c). owner_of me cm c = Some ow}"

text \<open>Whatever the index holds, no list of it is empty or names a connection twice, and the counter, at
  its width, counts the owners.\<close>

definition users_wf :: "mgr_env \<Rightarrow> conn_manager \<Rightarrow> bool" where
  "users_wf me cm \<longleftrightarrow>
     shards_ok (me_hash_owner me) (cm_users cm) \<and>
     (\<forall>ow ids. lookup_user me cm ow = Some ids \<longrightarrow> ids \<noteq> [] \<and> distinct ids) \<and>
     cm_user_count cm = of_nat (card (dom (lookup_user me cm)))"

text \<open>What is known of the entries of the index: nothing, or that they are the owners of the registered
  connections and the entries \<open>S\<close> of connections that have left the table before the index.\<close>

type_synonym index_view = "(device_owner \<times> conn_id) set option"

definition index_ok :: "index_view \<Rightarrow> mgr_env \<Rightarrow> conn_manager \<Rightarrow> bool" where
  "index_ok ix me cm \<longleftrightarrow>
     (case ix of
        None \<Rightarrow> True
      | Some S \<Rightarrow> index_rel me cm = owner_rel me cm \<union> S \<and> (\<forall>ow c. (ow, c) \<in> S \<longrightarrow> lookup_conn me cm c = None))"

text \<open>The connection table with \<open>k\<close> slots reserved beyond the registered connections.\<close>

definition conns_inv :: "mgr_env \<Rightarrow> nat \<Rightarrow> conn_manager \<Rightarrow> bool" where
  "conns_inv me k cm \<longleftrightarrow>
     shards_ok (me_hash_conn me) (cm_conns cm) \<and>
     (\<forall>cid e. lookup_conn me cm cid = Some e \<longrightarrow> ci_connection_id (en_info e) = cid \<and>
        (\<exists>q. cm_queues cm (en_writer e) = Some q \<and> wq_connection_id q = cid)) \<and>
     unat (cm_connection_count cm) = card (dom (lookup_conn me cm)) + k \<and>
     (\<forall>q. cm_queues cm q \<noteq> None \<longrightarrow> q < cm_next_queue cm)"

definition mgr_inv :: "index_view \<Rightarrow> mgr_env \<Rightarrow> nat \<Rightarrow> conn_manager \<Rightarrow> bool" where
  "mgr_inv ix me k cm \<longleftrightarrow> conns_inv me k cm \<and> users_wf me cm \<and> index_ok ix me cm"

text \<open>The invariant between calls: the index holds the owners of the registered connections and nothing else.\<close>

abbreviation cm_inv :: "mgr_env \<Rightarrow> nat \<Rightarrow> conn_manager \<Rightarrow> bool" where
  "cm_inv \<equiv> mgr_inv (Some {})"

section \<open>The user index\<close>

lemma lookup_fields [simp]:
  "lookup_user me (cm\<lparr>cm_conns := a\<rparr>) = lookup_user me cm"
  "lookup_user me (cm\<lparr>cm_queues := b\<rparr>) = lookup_user me cm"
  "lookup_user me (cm\<lparr>cm_connection_count := n\<rparr>) = lookup_user me cm"
  "lookup_user me (cm\<lparr>cm_user_count := n\<rparr>) = lookup_user me cm"
  "lookup_user me (cm\<lparr>cm_next_queue := k\<rparr>) = lookup_user me cm"
  "lookup_conn me (cm\<lparr>cm_users := u\<rparr>) = lookup_conn me cm"
  "lookup_conn me (cm\<lparr>cm_queues := b\<rparr>) = lookup_conn me cm"
  "lookup_conn me (cm\<lparr>cm_connection_count := n\<rparr>) = lookup_conn me cm"
  "lookup_conn me (cm\<lparr>cm_user_count := n\<rparr>) = lookup_conn me cm"
  "lookup_conn me (cm\<lparr>cm_next_queue := k\<rparr>) = lookup_conn me cm"
  by (auto simp: lookup_user_def lookup_conn_def fun_eq_iff)

lemma insert_user_connection_eq:
  "insert_user_connection me ow cid cm =
     cm\<lparr>cm_users := shard_put (me_hash_owner me) (cm_users cm) ow
          (let ids = get_user_connections me ow cm in if cid \<in> set ids then ids else ids @ [cid]),
        cm_user_count := (if lookup_user me cm ow = None then cm_user_count cm + 1 else cm_user_count cm)\<rparr>"
  by (simp add: insert_user_connection_def insert_user_connection_index_def shard_put_def
      shard_of_def shard_get_def lookup_user_def get_user_connections_def Let_def list_ex_iff)

lemma remove_user_connection_eq:
  assumes "lookup_user me cm ow = Some ids"
  shows "remove_user_connection me ow cid cm =
     (let ids' = filter (\<lambda>i. i \<noteq> cid) ids in
      if ids' = [] then
        cm\<lparr>cm_users := shard_del (me_hash_owner me) (cm_users cm) ow, cm_user_count := cm_user_count cm - 1\<rparr>
      else cm\<lparr>cm_users := shard_put (me_hash_owner me) (cm_users cm) ow ids'\<rparr>)"
  using assms
  by (simp add: remove_user_connection_def remove_user_connection_index_def shard_put_def
      shard_del_def shard_of_def shard_get_def lookup_user_def Let_def)

lemma user_index_keeps [simp]:
  "cm_conns (insert_user_connection me ow cid cm) = cm_conns cm"
  "cm_queues (insert_user_connection me ow cid cm) = cm_queues cm"
  "cm_next_queue (insert_user_connection me ow cid cm) = cm_next_queue cm"
  "cm_connection_count (insert_user_connection me ow cid cm) = cm_connection_count cm"
  "cm_conns (remove_user_connection me ow cid cm) = cm_conns cm"
  "cm_queues (remove_user_connection me ow cid cm) = cm_queues cm"
  "cm_next_queue (remove_user_connection me ow cid cm) = cm_next_queue cm"
  "cm_connection_count (remove_user_connection me ow cid cm) = cm_connection_count cm"
  by (auto simp: insert_user_connection_def remove_user_connection_def Let_def split: prod.splits)

lemma user_index_keeps_lookup [simp]:
  "lookup_conn me (insert_user_connection me ow cid cm) = lookup_conn me cm"
  "lookup_conn me (remove_user_connection me ow cid cm) = lookup_conn me cm"
  by (simp_all add: lookup_conn_def fun_eq_iff)

lemma unat_incr:
  fixes w :: "64 word"
  assumes "unat w + 1 < 2 ^ 64"
  shows "unat (w + 1) = unat w + 1"
  using assms by (simp add: unat_word_ariths(1))

lemma unat_decr:
  fixes w :: "64 word"
  assumes "0 < unat w"
  shows "unat (w - 1) = unat w - 1"
  using assms by (simp add: unat_minus_one unat_gt_0)

lemma insert_user_connection_wf:
  assumes wf: "users_wf me cm"
  shows "users_wf me (insert_user_connection me ow cid cm)"
    and "index_rel me (insert_user_connection me ow cid cm) = insert (ow, cid) (index_rel me cm)"
proof -
  let ?ids = "get_user_connections me ow cm"
  let ?cm = "insert_user_connection me ow cid cm"
  from wf have ok: "shards_ok (me_hash_owner me) (cm_users cm)"
    and lists: "\<And>o' ids. lookup_user me cm o' = Some ids \<Longrightarrow> ids \<noteq> [] \<and> distinct ids"
    and cnt: "cm_user_count cm = of_nat (card (dom (lookup_user me cm)))"
    unfolding users_wf_def by blast+
  have "distinct ?ids" using lists by (auto simp: get_user_connections_def unwrap_or_def split: option.splits)
  have look: "lookup_user me ?cm o' = (if o' = ow then Some (if cid \<in> set ?ids then ?ids else ?ids @ [cid])
      else lookup_user me cm o')" for o'
    using ok by (simp add: insert_user_connection_eq lookup_user_def Let_def)
  have guc: "set (get_user_connections me o' ?cm) =
      (if o' = ow then insert cid (set ?ids) else set (get_user_connections me o' cm))" for o'
    by (auto simp: get_user_connections_def look)
  then show "index_rel me ?cm = insert (ow, cid) (index_rel me cm)"
    by (auto simp: index_rel_def split: if_splits)
  have "shards_ok (me_hash_owner me) (cm_users ?cm)" using ok by (simp add: insert_user_connection_eq)
  moreover have "ids \<noteq> [] \<and> distinct ids" if "lookup_user me ?cm o' = Some ids" for o' ids
    using that lists \<open>distinct ?ids\<close> unfolding look by (auto split: if_splits)
  moreover have "card (dom (lookup_user me ?cm)) =
      (if lookup_user me cm ow = None then Suc (card (dom (lookup_user me cm))) else card (dom (lookup_user me cm)))"
    using sharded.card_put [OF ok] by (simp add: insert_user_connection_eq lookup_user_def [abs_def])
  then have "cm_user_count ?cm = of_nat (card (dom (lookup_user me ?cm)))"
    using cnt by (simp add: insert_user_connection_eq)
  ultimately show "users_wf me ?cm" unfolding users_wf_def by blast
qed

lemma remove_user_connection_wf:
  assumes wf: "users_wf me cm"
  shows "users_wf me (remove_user_connection me ow cid cm)"
    and "index_rel me (remove_user_connection me ow cid cm) = index_rel me cm - {(ow, cid)}"
proof -
  let ?h = "me_hash_owner me"
  let ?cm = "remove_user_connection me ow cid cm"
  from wf have ok: "shards_ok ?h (cm_users cm)"
    and lists: "\<And>o' ids. lookup_user me cm o' = Some ids \<Longrightarrow> ids \<noteq> [] \<and> distinct ids"
    and cnt: "cm_user_count cm = of_nat (card (dom (lookup_user me cm)))"
    unfolding users_wf_def by blast+
  have "users_wf me ?cm \<and> index_rel me ?cm = index_rel me cm - {(ow, cid)}"
  proof (cases "lookup_user me cm ow")
    case None
    then have "?cm = cm"
      by (simp add: remove_user_connection_def remove_user_connection_index_def lookup_user_def shard_get_def shard_of_def Let_def)
    then show ?thesis using wf None by (auto simp: index_rel_def get_user_connections_def)
  next
    case (Some ids)
    let ?rest = "filter (\<lambda>i. i \<noteq> cid) ids"
    have look: "lookup_user me ?cm o' = (if o' = ow then (if ?rest = [] then None else Some ?rest)
        else lookup_user me cm o')" for o'
      using ok by (simp add: remove_user_connection_eq [OF Some] lookup_user_def Let_def)
    have guc: "set (get_user_connections me o' ?cm) = set (get_user_connections me o' cm) - (if o' = ow then {cid} else {})" for o'
      unfolding get_user_connections_def look using Some by (auto simp: filter_empty_conv)
    have "0 < card (dom (lookup_user me cm))"
      using sharded.card_pos [OF ok] Some by (simp add: lookup_user_def [abs_def])
    moreover have "card (dom (lookup_user me ?cm)) =
        (if ?rest = [] then card (dom (lookup_user me cm)) - 1 else card (dom (lookup_user me cm)))"
      using Some sharded.card_del [OF ok] sharded.card_put [OF ok]
      by (simp add: remove_user_connection_eq [OF Some] Let_def lookup_user_def [abs_def])
    ultimately have "cm_user_count ?cm = of_nat (card (dom (lookup_user me ?cm)))"
      using cnt by (simp add: remove_user_connection_eq [OF Some] Let_def of_nat_diff)
    moreover have "shards_ok ?h (cm_users ?cm)"
      using ok by (simp add: remove_user_connection_eq [OF Some] Let_def)
    moreover have "is \<noteq> [] \<and> distinct is" if "lookup_user me ?cm o' = Some is" for o' "is"
      using that lists Some unfolding look by (auto split: if_splits)
    ultimately have "users_wf me ?cm" unfolding users_wf_def by blast
    then show ?thesis using guc by (auto simp: index_rel_def split: if_splits)
  qed
  then show "users_wf me ?cm" "index_rel me ?cm = index_rel me cm - {(ow, cid)}" by blast+
qed

lemma reindex_user_connection_wf:
  assumes wf: "users_wf me cm"
  shows "users_wf me (reindex_user_connection me cid before after cm)"
    and "index_rel me (reindex_user_connection me cid before after cm) =
      index_rel me cm - {(ow, cid) | ow. before = Some ow} \<union> {(ow, cid) | ow. after = Some ow}"
proof -
  note rm = remove_user_connection_wf [OF wf]
  show "users_wf me (reindex_user_connection me cid before after cm)"
    using insert_user_connection_wf(1) [OF wf] insert_user_connection_wf(1) [OF rm(1)] rm(1) wf
    by (simp add: reindex_user_connection_def Let_def split: option.splits)
  show "index_rel me (reindex_user_connection me cid before after cm) =
      index_rel me cm - {(ow, cid) | ow. before = Some ow} \<union> {(ow, cid) | ow. after = Some ow}"
    using insert_user_connection_wf(2) [OF wf] insert_user_connection_wf(2) [OF rm(1)] rm(2)
    by (auto simp: reindex_user_connection_def Let_def split: option.splits)
qed

text \<open>There are never more owners in the index than entries.\<close>

lemma users_card_le:
  assumes wf: "users_wf me cm" and sub: "snd ` index_rel me cm \<subseteq> C" and fin: "finite C"
    and one: "\<And>ow o' c. (ow, c) \<in> index_rel me cm \<Longrightarrow> (o', c) \<in> index_rel me cm \<Longrightarrow> o' = ow"
  shows "card (dom (lookup_user me cm)) \<le> card C"
proof (rule card_inj_on_le)
  let ?g = "\<lambda>ow. hd (get_user_connections me ow cm)"
  have hd: "(ow, ?g ow) \<in> index_rel me cm" if "ow \<in> dom (lookup_user me cm)" for ow
    using that wf by (auto simp: users_wf_def index_rel_def get_user_connections_def)
  show "inj_on ?g (dom (lookup_user me cm))"
    by (rule inj_onI) (metis hd one)
  show "?g ` dom (lookup_user me cm) \<subseteq> C"
    using hd sub by force
qed (fact fin)

section \<open>What the tables mean\<close>

definition infos :: "mgr_env \<Rightarrow> conn_manager \<Rightarrow> conn_id \<rightharpoonup> conn_info" where
  "infos me cm cid = map_option en_info (lookup_conn me cm cid)"

lemma owner_of_infos: "owner_of me cm cid = Option.bind (infos me cm cid) info_owner"
  by (cases "lookup_conn me cm cid") (simp_all add: owner_of_def infos_def)

lemma mgr_invD:
  assumes "mgr_inv ix me k cm"
  shows "shards_ok (me_hash_conn me) (cm_conns cm)"
    "lookup_conn me cm cid = Some e \<Longrightarrow> ci_connection_id (en_info e) = cid"
    "lookup_conn me cm cid = Some e \<Longrightarrow> \<exists>q. cm_queues cm (en_writer e) = Some q \<and> wq_connection_id q = cid"
    "unat (cm_connection_count cm) = card (dom (lookup_conn me cm)) + k"
    "cm_queues cm q \<noteq> None \<Longrightarrow> q < cm_next_queue cm"
    "users_wf me cm" "index_ok ix me cm"
  using assms unfolding mgr_inv_def conns_inv_def by blast+

lemma mgr_inv_weaken: "mgr_inv ix me k cm \<Longrightarrow> mgr_inv None me k cm"
  by (simp add: mgr_inv_def index_ok_def)

lemma owner_dom:
  assumes "mgr_inv ix me k cm"
  shows "finite (dom (lookup_conn me cm))" "finite (dom (owner_of me cm))"
    "dom (owner_of me cm) \<subseteq> dom (lookup_conn me cm)"
    "card (dom (lookup_conn me cm)) + k < 2 ^ 64"
proof -
  show fin: "finite (dom (lookup_conn me cm))"
    using sharded.finite_dom [OF mgr_invD(1) [OF assms]] by (simp add: lookup_conn_def [abs_def])
  show sub: "dom (owner_of me cm) \<subseteq> dom (lookup_conn me cm)"
    by (auto simp: owner_of_def split: bind_splits)
  show "finite (dom (owner_of me cm))" using fin sub by (rule rev_finite_subset)
  have "unat (cm_connection_count cm) < 2 ^ 64"
    using unsigned_less [of "cm_connection_count cm"] by simp
  then show "card (dom (lookup_conn me cm)) + k < 2 ^ 64"
    using mgr_invD(4) [OF assms] by simp
qed

text \<open>Between calls the counter of the users, which never wraps, is the number of owners.\<close>

lemma user_count_exact:
  assumes "cm_inv me k cm"
  shows "unat (cm_user_count cm) = card (dom (lookup_user me cm))"
proof -
  note wf = mgr_invD(6) [OF assms]
  have rel: "index_rel me cm = owner_rel me cm" using mgr_invD(7) [OF assms] by (simp add: index_ok_def)
  have "card (dom (lookup_user me cm)) \<le> card (dom (lookup_conn me cm))"
  proof (rule users_card_le [OF wf _ owner_dom(1) [OF assms]])
    show "snd ` index_rel me cm \<subseteq> dom (lookup_conn me cm)"
      using owner_dom(3) [OF assms] by (auto simp: rel owner_rel_def)
    show "o' = ow" if "(ow, c) \<in> index_rel me cm" "(o', c) \<in> index_rel me cm" for ow o' c
      using that by (simp add: rel owner_rel_def)
  qed
  then have "card (dom (lookup_user me cm)) < 2 ^ 64" using owner_dom(4) [OF assms] by linarith
  moreover have "cm_user_count cm = of_nat (card (dom (lookup_user me cm)))" using wf by (simp add: users_wf_def)
  ultimately show ?thesis by (simp add: unat_of_nat take_bit_nat_eq_self)
qed

lemma lookup_conn_put [simp]:
  "shards_ok (me_hash_conn me) (cm_conns cm) \<Longrightarrow>
   lookup_conn me (cm\<lparr>cm_conns := shard_put (me_hash_conn me) (cm_conns cm) cid e\<rparr>) = (lookup_conn me cm)(cid \<mapsto> e)"
  by (simp add: lookup_conn_def fun_eq_iff)

lemma lookup_conn_del [simp]:
  "shards_ok (me_hash_conn me) (cm_conns cm) \<Longrightarrow>
   lookup_conn me (cm\<lparr>cm_conns := shard_del (me_hash_conn me) (cm_conns cm) cid\<rparr>) = (lookup_conn me cm)(cid := None)"
  by (simp add: lookup_conn_def fun_eq_iff)

lemma users_cong:
  assumes "cm_users cm' = cm_users cm" "cm_user_count cm' = cm_user_count cm"
  shows "users_wf me cm' = users_wf me cm" "index_rel me cm' = index_rel me cm"
  using assms by (simp_all add: users_wf_def index_rel_def lookup_user_def [abs_def] get_user_connections_def)

lemma owner_rel_cong: "lookup_conn me cm' = lookup_conn me cm \<Longrightarrow> owner_rel me cm' = owner_rel me cm"
  by (simp add: owner_rel_def owner_of_def)

lemma mgr_inv_users_cong:
  assumes inv: "mgr_inv ix me k cm" and conns: "conns_inv me k' cm'"
    and users: "cm_users cm' = cm_users cm" "cm_user_count cm' = cm_user_count cm"
    and own: "owner_of me cm' = owner_of me cm" and dom: "dom (lookup_conn me cm') = dom (lookup_conn me cm)"
  shows "mgr_inv ix me k' cm'"
proof -
  have "lookup_conn me cm' c = None \<longleftrightarrow> lookup_conn me cm c = None" for c using dom by (metis domIff)
  moreover have "owner_rel me cm' = owner_rel me cm" by (simp add: owner_rel_def own)
  ultimately show ?thesis using inv conns users_cong [OF users] by (cases ix) (simp_all add: mgr_inv_def index_ok_def)
qed

lemma reindex_keeps [simp]:
  "cm_conns (reindex_user_connection me cid b a cm) = cm_conns cm"
  "cm_queues (reindex_user_connection me cid b a cm) = cm_queues cm"
  "cm_next_queue (reindex_user_connection me cid b a cm) = cm_next_queue cm"
  "cm_connection_count (reindex_user_connection me cid b a cm) = cm_connection_count cm"
  by (auto simp: reindex_user_connection_def Let_def split: option.splits)

lemma reindex_keeps_lookup [simp]:
  "lookup_conn me (reindex_user_connection me cid b a cm) = lookup_conn me cm"
  by (simp add: lookup_conn_def fun_eq_iff)

section \<open>Updates keep the invariant\<close>

lemma put_info_conns_inv:
  assumes inv: "mgr_inv ix me k cm" and e: "lookup_conn me cm cid = Some e"
    and i: "ci_connection_id i = cid"
  shows "conns_inv me k (put_info me cid e i cm)"
    and "dom (lookup_conn me (put_info me cid e i cm)) = dom (lookup_conn me cm)"
proof -
  show dom: "dom (lookup_conn me (put_info me cid e i cm)) = dom (lookup_conn me cm)"
    using e mgr_invD(1) [OF inv] by (auto simp: put_info_def)
  then show "conns_inv me k (put_info me cid e i cm)"
    using mgr_invD [OF inv] e i unfolding conns_inv_def
    by (auto simp: put_info_def)
qed

text \<open>The index after the owner of a registered connection has changed.\<close>

lemma index_ok_move:
  assumes ok: "index_ok ix me cm" and e: "lookup_conn me cm cid = Some e"
    and dom: "dom (lookup_conn me cm') = dom (lookup_conn me cm)"
    and own: "owner_of me cm' = (owner_of me cm)(cid := after)"
    and rel: "index_rel me cm' = index_rel me cm - {(ow, cid) | ow. owner_of me cm cid = Some ow} \<union> {(ow, cid) | ow. after = Some ow}"
  shows "index_ok ix me cm'"
proof (cases ix)
  case (Some S)
  with ok e have S: "index_rel me cm = owner_rel me cm \<union> S" "\<And>ow c. (ow, c) \<in> S \<Longrightarrow> lookup_conn me cm c = None \<and> c \<noteq> cid"
    by (auto simp: index_ok_def)
  have "lookup_conn me cm' c = None" if "(ow, c) \<in> S" for ow c
    using S(2) [OF that] dom by (metis domIff)
  moreover have "index_rel me cm' = owner_rel me cm' \<union> S"
    unfolding rel S(1) using S(2) own by (auto simp: owner_rel_def split: if_splits)
  ultimately show ?thesis by (simp add: index_ok_def Some)
qed (simp add: index_ok_def)

lemma update_reindexed_spec:
  assumes inv: "mgr_inv ix me k cm" and f: "\<And>i. ci_connection_id (f i) = ci_connection_id i"
    and upd: "update_reindexed me cid f cm = (cm', r)"
  shows "mgr_inv ix me k cm'"
    and "infos me cm' = (case infos me cm cid of None \<Rightarrow> infos me cm | Some i \<Rightarrow> (infos me cm)(cid \<mapsto> f i))"
    and "(\<exists>e. r = Inl e) \<longleftrightarrow> infos me cm cid = None"
proof -
  show "(\<exists>e. r = Inl e) \<longleftrightarrow> infos me cm cid = None"
    using upd by (auto simp: update_reindexed_def infos_def Let_def split: option.splits)
  show "infos me cm' = (case infos me cm cid of None \<Rightarrow> infos me cm | Some i \<Rightarrow> (infos me cm)(cid \<mapsto> f i))"
    using upd mgr_invD(1) [OF inv]
    by (auto simp: update_reindexed_def infos_def Let_def put_info_def fun_eq_iff split: option.splits)
  show "mgr_inv ix me k cm'"
  proof (cases "lookup_conn me cm cid")
    case None
    with upd inv show ?thesis by (simp add: update_reindexed_def)
  next
    case (Some e)
    let ?i = "f (en_info e)"
    let ?cm = "put_info me cid e ?i cm"
    from upd Some have cm': "cm' = reindex_user_connection me cid (info_owner (en_info e)) (info_owner ?i) ?cm"
      by (simp add: update_reindexed_def Let_def)
    have conns: "conns_inv me k ?cm" "dom (lookup_conn me ?cm) = dom (lookup_conn me cm)"
      using put_info_conns_inv [OF inv Some] f mgr_invD(2) [OF inv Some] by simp_all
    have users: "users_wf me ?cm" "index_rel me ?cm = index_rel me cm"
      using mgr_invD(6) [OF inv] users_cong [of ?cm cm] by (simp_all add: put_info_def)
    have own: "owner_of me cm' = (owner_of me cm)(cid := info_owner ?i)"
      using mgr_invD(1) [OF inv] by (auto simp: owner_of_def cm' put_info_def fun_eq_iff)
    have "index_ok ix me cm'"
    proof (rule index_ok_move [OF mgr_invD(7) [OF inv] Some _ own])
      show "dom (lookup_conn me cm') = dom (lookup_conn me cm)" using conns(2) by (simp add: cm')
      show "index_rel me cm' = index_rel me cm - {(ow, cid) | ow. owner_of me cm cid = Some ow} \<union> {(ow, cid) | ow. info_owner ?i = Some ow}"
        unfolding cm' reindex_user_connection_wf(2) [OF users(1)] users(2) by (simp add: owner_of_def Some)
    qed
    moreover have "conns_inv me k cm'"
      using conns(1) unfolding conns_inv_def cm' by simp
    moreover have "users_wf me cm'" unfolding cm' by (rule reindex_user_connection_wf(1) [OF users(1)])
    ultimately show ?thesis by (simp add: mgr_inv_def)
  qed
qed

lemma put_info_same_owner_inv:
  assumes inv: "mgr_inv ix me k cm" and e: "lookup_conn me cm cid = Some e"
    and i: "ci_connection_id i = ci_connection_id (en_info e)" "info_owner i = info_owner (en_info e)"
  shows "mgr_inv ix me k (put_info me cid e i cm)" "infos me (put_info me cid e i cm) = (infos me cm)(cid \<mapsto> i)"
proof -
  note conns = put_info_conns_inv [OF inv e, of i] mgr_invD(2) [OF inv e]
  have "owner_of me (put_info me cid e i cm) = owner_of me cm"
    using mgr_invD(1) [OF inv] e i(2) by (auto simp: owner_of_def put_info_def fun_eq_iff)
  then show "mgr_inv ix me k (put_info me cid e i cm)"
    using conns i(1) by (intro mgr_inv_users_cong [OF inv]) (simp_all add: put_info_def)
  show "infos me (put_info me cid e i cm) = (infos me cm)(cid \<mapsto> i)"
    using mgr_invD(1) [OF inv] by (auto simp: infos_def put_info_def fun_eq_iff)
qed

section \<open>Reservation, registration and removal\<close>

lemma mgr_inv_count:
  assumes "mgr_inv ix me k cm" "unat n = card (dom (lookup_conn me cm)) + k'"
  shows "mgr_inv ix me k' (cm\<lparr>cm_connection_count := n\<rparr>)"
    "infos me (cm\<lparr>cm_connection_count := n\<rparr>) = infos me cm"
proof -
  have "conns_inv me k' (cm\<lparr>cm_connection_count := n\<rparr>)"
    using assms by (simp add: mgr_inv_def conns_inv_def)
  then show "mgr_inv ix me k' (cm\<lparr>cm_connection_count := n\<rparr>)"
    by (intro mgr_inv_users_cong [OF assms(1)]) (simp_all add: owner_of_def [abs_def])
  show "infos me (cm\<lparr>cm_connection_count := n\<rparr>) = infos me cm" by (simp add: infos_def [abs_def])
qed

lemma reserve_inv:
  assumes inv: "mgr_inv ix me k cm" and res: "reserve_connection_slot m cm = (cm', Inr ())"
  shows "mgr_inv ix me (Suc k) cm'" "infos me cm' = infos me cm" "unat (cm_connection_count cm') \<le> unat m"
proof -
  from res have lt: "cm_connection_count cm < m" and cm': "cm' = cm\<lparr>cm_connection_count := cm_connection_count cm + 1\<rparr>"
    by (auto simp: reserve_connection_slot_def split: if_splits)
  then have less: "unat (cm_connection_count cm) < unat m" by (simp add: word_less_nat_alt)
  moreover have "unat m < 2 ^ 64" using unsigned_less [of m] by simp
  ultimately have cnt: "unat (cm_connection_count cm + 1) = unat (cm_connection_count cm) + 1"
    by (intro unat_incr) simp
  show "unat (cm_connection_count cm') \<le> unat m" using less cnt cm' by simp
  show "mgr_inv ix me (Suc k) cm'" "infos me cm' = infos me cm"
    unfolding cm' using mgr_inv_count [OF inv] cnt mgr_invD(4) [OF inv] by simp_all
qed

lemma release_inv:
  assumes inv: "mgr_inv ix me (Suc k) cm"
  shows "mgr_inv ix me k (release_connection_slot cm)" "infos me (release_connection_slot cm) = infos me cm"
proof -
  have "0 < unat (cm_connection_count cm)" using mgr_invD(4) [OF inv] by simp
  then have cnt: "unat (cm_connection_count cm - 1) = unat (cm_connection_count cm) - 1" by (rule unat_decr)
  with mgr_invD(4) [OF inv]
  show "mgr_inv ix me k (release_connection_slot cm)" "infos me (release_connection_slot cm) = infos me cm"
    unfolding release_connection_slot_def using mgr_inv_count [OF inv] by simp_all
qed

lemma close_queue_inv:
  assumes inv: "mgr_inv ix me k cm"
  shows "mgr_inv ix me k (close_queue me q cm)" "infos me (close_queue me q cm) = infos me cm"
    "lookup_conn me (close_queue me q cm) = lookup_conn me cm"
proof -
  show look: "lookup_conn me (close_queue me q cm) = lookup_conn me cm"
    by (simp add: close_queue_def)
  have "conns_inv me k (close_queue me q cm)"
    using inv unfolding mgr_inv_def conns_inv_def close_queue_def
    by (auto split: if_splits) (metis close_underlying_fields(4))
  then show "mgr_inv ix me k (close_queue me q cm)"
    by (intro mgr_inv_users_cong [OF inv]) (simp_all add: owner_of_def [abs_def] close_queue_def)
  show "infos me (close_queue me q cm) = infos me cm"
    by (simp add: infos_def [abs_def] close_queue_def)
qed

text \<open>A removal in its parts.  Taking an entry out of the table turns its slot into a reserved one, which the
  release gives back, and leaves the entry of the index behind, which is taken out last.\<close>

definition take_out :: "mgr_env \<Rightarrow> conn_id \<Rightarrow> conn_manager \<Rightarrow> conn_manager" where
  "take_out me cid cm = cm\<lparr>cm_conns := shard_del (me_hash_conn me) (cm_conns cm) cid\<rparr>"

definition left_behind :: "conn_id \<Rightarrow> conn_info \<Rightarrow> (device_owner \<times> conn_id) list" where
  "left_behind cid i = (case info_owner i of Some ow \<Rightarrow> [(ow, cid)] | None \<Rightarrow> [])"

lemma take_out_inv:
  assumes inv: "mgr_inv ix me k cm" and e: "lookup_conn me cm cid = Some e"
  shows "mgr_inv (map_option (\<lambda>S. S \<union> set (left_behind cid (en_info e))) ix) me (Suc k) (take_out me cid cm)"
    "infos me (take_out me cid cm) = (infos me cm)(cid := None)"
proof -
  let ?cm = "take_out me cid cm"
  have look: "lookup_conn me ?cm = (lookup_conn me cm)(cid := None)"
    using mgr_invD(1) [OF inv] by (simp add: take_out_def)
  then show "infos me ?cm = (infos me cm)(cid := None)"
    by (auto simp: infos_def fun_eq_iff)
  have users: "users_wf me ?cm" "index_rel me ?cm = index_rel me cm"
    using mgr_invD(6) [OF inv] users_cong [of ?cm cm] by (simp_all add: take_out_def)
  have "owner_rel me cm = owner_rel me ?cm \<union> set (left_behind cid (en_info e))"
    using look e by (auto simp: owner_rel_def owner_of_def left_behind_def split: option.splits if_splits)
  then have "index_ok (map_option (\<lambda>S. S \<union> set (left_behind cid (en_info e))) ix) me ?cm"
    using mgr_invD(7) [OF inv] users(2) look
    by (auto simp: index_ok_def left_behind_def split: option.splits)
  moreover have "card (dom (lookup_conn me cm)) = Suc (card (dom (lookup_conn me ?cm)))"
    unfolding look using e by (subst card_Suc_Diff1 [OF owner_dom(1) [OF inv], of cid, symmetric]) auto
  then have "conns_inv me (Suc k) ?cm"
    using inv unfolding mgr_inv_def conns_inv_def look by (auto simp: take_out_def)
  ultimately show "mgr_inv (map_option (\<lambda>S. S \<union> set (left_behind cid (en_info e))) ix) me (Suc k) ?cm"
    using users(1) by (simp add: mgr_inv_def)
qed

lemma unindex_inv:
  assumes inv: "mgr_inv ix me k cm" and mem: "\<And>S. ix = Some S \<Longrightarrow> (ow, cid) \<in> S"
  shows "mgr_inv (map_option (\<lambda>S. S - {(ow, cid)}) ix) me k (remove_user_connection me ow cid cm)"
    "infos me (remove_user_connection me ow cid cm) = infos me cm"
proof -
  let ?cm = "remove_user_connection me ow cid cm"
  note rm = remove_user_connection_wf [OF mgr_invD(6) [OF inv], of ow cid]
  have "index_ok (map_option (\<lambda>S. S - {(ow, cid)}) ix) me ?cm"
  proof (cases ix)
    case (Some S)
    then have S: "index_rel me cm = owner_rel me cm \<union> S" "\<And>o' c. (o', c) \<in> S \<Longrightarrow> lookup_conn me cm c = None"
      using mgr_invD(7) [OF inv] by (auto simp: index_ok_def)
    with mem [OF Some] have "(ow, cid) \<notin> owner_rel me cm" by (auto simp: owner_rel_def owner_of_def)
    moreover have "owner_rel me ?cm = owner_rel me cm" by (rule owner_rel_cong) simp
    ultimately show ?thesis using S rm(2) by (auto simp: index_ok_def Some)
  qed (simp add: index_ok_def)
  moreover have "conns_inv me k ?cm" using inv by (simp add: mgr_inv_def conns_inv_def)
  ultimately show "mgr_inv (map_option (\<lambda>S. S - {(ow, cid)}) ix) me k ?cm" using rm(1) by (simp add: mgr_inv_def)
  show "infos me ?cm = infos me cm" by (simp add: infos_def [abs_def])
qed

text \<open>The index is as before once the entry that was left behind has been taken out.\<close>

lemma unindex_left_behind:
  assumes inv: "mgr_inv ix me k cm" and e: "lookup_conn me cm cid = Some e"
    and inv1: "mgr_inv (map_option (\<lambda>S. S \<union> set (left_behind cid (en_info e))) ix) me k' cm1"
  shows "mgr_inv ix me k' (case info_owner (en_info e) of Some ow \<Rightarrow> remove_user_connection me ow cid cm1 | None \<Rightarrow> cm1)"
    "infos me (case info_owner (en_info e) of Some ow \<Rightarrow> remove_user_connection me ow cid cm1 | None \<Rightarrow> cm1) = infos me cm1"
proof -
  have "mgr_inv ix me k' (case info_owner (en_info e) of Some ow \<Rightarrow> remove_user_connection me ow cid cm1 | None \<Rightarrow> cm1)
     \<and> infos me (case info_owner (en_info e) of Some ow \<Rightarrow> remove_user_connection me ow cid cm1 | None \<Rightarrow> cm1) = infos me cm1"
  proof (cases "info_owner (en_info e)")
    case None
    then show ?thesis using inv1 by (cases ix) (simp_all add: left_behind_def)
  next
    case (Some ow)
    have "map_option (\<lambda>S. S - {(ow, cid)}) (map_option (\<lambda>S. S \<union> set (left_behind cid (en_info e))) ix) = ix"
      using mgr_invD(7) [OF inv] e Some by (cases ix) (auto simp: index_ok_def left_behind_def)
    then show ?thesis using unindex_inv [OF inv1, of ow cid] Some by (auto simp: left_behind_def)
  qed
  then show "mgr_inv ix me k' (case info_owner (en_info e) of Some ow \<Rightarrow> remove_user_connection me ow cid cm1 | None \<Rightarrow> cm1)"
    "infos me (case info_owner (en_info e) of Some ow \<Rightarrow> remove_user_connection me ow cid cm1 | None \<Rightarrow> cm1) = infos me cm1"
    by blast+
qed

lemma remove_connection_spec:
  assumes inv: "mgr_inv ix me k cm" and rem: "remove_connection me cid cm = (cm', r)"
  shows "mgr_inv ix me k cm'" "infos me cm' = (infos me cm)(cid := None)"
    "(\<exists>e. r = Inl e) \<longleftrightarrow> infos me cm cid = None"
proof -
  have "mgr_inv ix me k cm' \<and> infos me cm' = (infos me cm)(cid := None) \<and> ((\<exists>e. r = Inl e) \<longleftrightarrow> infos me cm cid = None)"
  proof (cases "lookup_conn me cm cid")
    case None
    then show ?thesis using rem inv by (auto simp: remove_connection_def infos_def fun_eq_iff)
  next
    case (Some e)
    let ?c = "release_connection_slot (close_queue me (en_writer e) (take_out me cid cm))"
    note out = take_out_inv [OF inv Some]
    note c = release_inv [OF close_queue_inv(1) [OF out(1)]]
    have "cm' = (case info_owner (en_info e) of Some ow \<Rightarrow> remove_user_connection me ow cid ?c | None \<Rightarrow> ?c)" "r = Inr ()"
      using rem Some by (simp_all add: remove_connection_def take_out_def [symmetric] Let_def)
    then show ?thesis
      using unindex_left_behind [OF inv Some c(1)] c(2) close_queue_inv(2) [OF out(1)] out(2) Some
      by (simp add: infos_def [of me cm cid])
  qed
  then show "mgr_inv ix me k cm'" "infos me cm' = (infos me cm)(cid := None)"
    "(\<exists>e. r = Inl e) \<longleftrightarrow> infos me cm cid = None" by blast+
qed

lemma registry_remove_spec:
  assumes inv: "mgr_inv ix me k cm" and rem: "registry_remove_connection me cid cm = (cm', r)"
  shows "mgr_inv ix me k cm' \<and> infos me cm' = (infos me cm)(cid := None) \<and> (r \<longleftrightarrow> infos me cm cid \<noteq> None)"
proof (cases "lookup_conn me cm cid")
  case None
  then show ?thesis using rem inv by (auto simp: registry_remove_connection_def infos_def fun_eq_iff)
next
  case (Some e)
  let ?c = "release_connection_slot (take_out me cid cm)"
  note out = take_out_inv [OF inv Some]
  have "cm' = (case info_owner (en_info e) of Some ow \<Rightarrow> remove_user_connection me ow cid ?c | None \<Rightarrow> ?c)" "r"
    using rem Some by (simp_all add: registry_remove_connection_def take_out_def [symmetric] Let_def)
  then show ?thesis
    using unindex_left_behind [OF inv Some release_inv(1) [OF out(1)]] release_inv(2) [OF out(1)] out(2) Some
    by (simp add: infos_def [of me cm cid])
qed

text \<open>An id may not be registered while an entry of it is left in the index.\<close>

definition id_unused :: "index_view \<Rightarrow> conn_id \<Rightarrow> bool" where
  "id_unused ix cid \<longleftrightarrow> (case ix of None \<Rightarrow> True | Some S \<Rightarrow> cid \<notin> snd ` S)"

lemma id_unused_simps [simp]: "id_unused None cid" "id_unused (Some {}) cid"
  by (simp_all add: id_unused_def)

lemma register_reserved_spec:
  assumes inv: "mgr_inv ix me (Suc k) cm" and reg: "register_reserved me ck cid user ra cm = (cm', r)"
  shows "infos me cm cid \<noteq> None \<or> id_unused ix cid \<Longrightarrow> mgr_inv ix me k cm'"
    "infos me cm' = (if infos me cm cid = None
       then (infos me cm)(cid \<mapsto> (conn_info_new ck cid ra)\<lparr>ci_user_id := user\<rparr>) else infos me cm)"
    "(\<exists>e. r = Inl e) \<longleftrightarrow> infos me cm cid \<noteq> None"
proof -
  let ?info = "(conn_info_new ck cid ra)\<lparr>ci_user_id := user\<rparr>"
  let ?e = "\<lparr>en_writer = cm_next_queue cm, en_info = ?info\<rparr>"
  let ?cm2 = "cm\<lparr>cm_queues := (cm_queues cm)(cm_next_queue cm \<mapsto>
                  queue_new cid (cm_send_timeout cm) (cm_write_queue_capacity cm)),
                cm_next_queue := Suc (cm_next_queue cm),
                cm_conns := shard_put (me_hash_conn me) (cm_conns cm) cid ?e\<rparr>"
  let ?post = "case info_owner ?info of Some ow \<Rightarrow> insert_user_connection me ow cid ?cm2 | None \<Rightarrow> ?cm2"
  show "(\<exists>e. r = Inl e) \<longleftrightarrow> infos me cm cid \<noteq> None"
    using reg by (auto simp: register_reserved_def infos_def new_connection_entry_def Let_def split: if_splits)
  have "(infos me cm cid \<noteq> None \<or> id_unused ix cid \<longrightarrow> mgr_inv ix me k cm')
    \<and> infos me cm' = (if infos me cm cid = None then (infos me cm)(cid \<mapsto> ?info) else infos me cm)"
  proof (cases "lookup_conn me cm cid")
    case (Some e)
    with reg release_inv [OF inv] show ?thesis by (auto simp: register_reserved_def infos_def [of me cm cid])
  next
    case None
    with reg have cm': "cm' = ?post"
      by (auto simp: register_reserved_def new_connection_entry_def Let_def split: option.splits)
    have look2: "lookup_conn me ?cm2 = (lookup_conn me cm)(cid \<mapsto> ?e)"
      using mgr_invD(1) [OF inv] by (simp add: lookup_conn_def fun_eq_iff)
    then have look: "lookup_conn me cm' = (lookup_conn me cm)(cid \<mapsto> ?e)"
      by (simp add: cm' split: option.splits)
    have own: "owner_rel me cm' = owner_rel me cm \<union> {(ow, cid) | ow. info_owner ?info = Some ow}"
      using None by (auto simp: owner_rel_def owner_of_def look split: if_splits)
    have users2: "users_wf me ?cm2" "index_rel me ?cm2 = index_rel me cm"
      using mgr_invD(6) [OF inv] users_cong [of ?cm2 cm] by simp_all
    have users: "users_wf me cm'" "index_rel me cm' = index_rel me cm \<union> {(ow, cid) | ow. info_owner ?info = Some ow}"
      using insert_user_connection_wf [OF users2(1)] users2 by (simp_all add: cm' split: option.splits)
    have "index_ok ix me cm'" if free: "id_unused ix cid"
    proof (cases ix)
      case (Some S)
      with mgr_invD(7) [OF inv] free have S: "index_rel me cm = owner_rel me cm \<union> S"
        "\<And>ow c. (ow, c) \<in> S \<Longrightarrow> lookup_conn me cm c = None \<and> c \<noteq> cid"
        by (force simp: index_ok_def id_unused_def)+
      then show ?thesis unfolding index_ok_def Some users(2) own look by auto
    qed (simp add: index_ok_def)
    moreover have "conns_inv me k cm'"
    proof -
      have "card (dom (lookup_conn me cm')) = Suc (card (dom (lookup_conn me cm)))"
        unfolding look using None owner_dom(1) [OF inv] by (simp add: card_insert_if domIff)
      moreover have "cm_queues cm (cm_next_queue cm) = None"
        using mgr_invD(5) [OF inv, of "cm_next_queue cm"] by blast
      moreover have "shards_ok (me_hash_conn me) (cm_conns cm')"
        "cm_queues cm' = (cm_queues cm)(cm_next_queue cm \<mapsto> queue_new cid (cm_send_timeout cm) (cm_write_queue_capacity cm))"
        "cm_next_queue cm' = Suc (cm_next_queue cm)" "cm_connection_count cm' = cm_connection_count cm"
        using mgr_invD(1) [OF inv] by (simp_all add: cm' split: option.splits)
      moreover have "en_writer e \<noteq> cm_next_queue cm" if "lookup_conn me cm c = Some e" for c e
        using mgr_invD(3) [OF inv that] mgr_invD(5) [OF inv, of "cm_next_queue cm"] by auto
      ultimately show ?thesis
        using inv unfolding mgr_inv_def conns_inv_def look
        by (auto simp: queue_new_def conn_info_new_def less_Suc_eq)
    qed
    ultimately have "id_unused ix cid \<longrightarrow> mgr_inv ix me k cm'" using users(1) by (simp add: mgr_inv_def)
    moreover have "infos me cm' = (infos me cm)(cid \<mapsto> ?info)"
      by (auto simp: infos_def look fun_eq_iff)
    ultimately show ?thesis using None by (simp add: infos_def [of me cm cid])
  qed
  then show "infos me cm cid \<noteq> None \<or> id_unused ix cid \<Longrightarrow> mgr_inv ix me k cm'"
    "infos me cm' = (if infos me cm cid = None
       then (infos me cm)(cid \<mapsto> ?info) else infos me cm)" by blast+
qed

end
