(* ===== verification/Negotiation.thy ===== *)
theory Negotiation
  imports ConnManager Kick
begin

text \<open>
  Negotiation of a connection: reading a CONNECT frame and answering with CONNECT_ACK
  (\<open>src/src/server/connection/negotiation.rs\<close>), the results of an authenticator
  (\<open>src/src/server/auth/authenticator.rs\<close>), and the decisions the server core takes on them
  (\<open>determine_negotiation_result\<close>, \<open>authenticate_connection\<close> and \<open>ConnectionIdentity\<close> in
  \<open>src/src/server/transports/server_core.rs\<close>).  The authenticator is user code and a parameter.
\<close>

section \<open>The CONNECT frame\<close>

definition METADATA_COMPRESSION :: string where "METADATA_COMPRESSION = ''compression''"
definition METADATA_ACCEPT_COMPRESSION :: string where "METADATA_ACCEPT_COMPRESSION = ''accept_compression''"
definition METADATA_FORMAT :: string where "METADATA_FORMAT = ''format''"
definition METADATA_ENCRYPTION :: string where "METADATA_ENCRYPTION = ''encryption''"
definition METADATA_DEVICE_ID :: string where "METADATA_DEVICE_ID = ''device_id''"
definition METADATA_PLATFORM :: string where "METADATA_PLATFORM = ''platform''"
definition METADATA_MODEL :: string where "METADATA_MODEL = ''model''"
definition METADATA_APP_VERSION :: string where "METADATA_APP_VERSION = ''app_version''"
definition METADATA_SYSTEM_VERSION :: string where "METADATA_SYSTEM_VERSION = ''system_version''"
definition METADATA_USER_ID :: string where "METADATA_USER_ID = ''user_id''"
definition METADATA_TENANT_ID :: string where "METADATA_TENANT_ID = TENANT_ID_METADATA_KEY"
definition METADATA_FORCE_FORMAT :: string where "METADATA_FORCE_FORMAT = ''force_format''"

definition DEVICE_RESERVED_METADATA_KEYS :: "string list" where
  "DEVICE_RESERVED_METADATA_KEYS =
     [METADATA_COMPRESSION, METADATA_ACCEPT_COMPRESSION, METADATA_FORMAT, METADATA_ENCRYPTION,
      METADATA_DEVICE_ID, METADATA_PLATFORM, METADATA_MODEL, METADATA_APP_VERSION,
      METADATA_SYSTEM_VERSION, METADATA_USER_ID, METADATA_TENANT_ID, METADATA_FORCE_FORMAT]"

record negotiation_result =
  nr_serialization_format :: serialization_format
  nr_serialization_format_specified :: bool
  nr_compression :: compression_algorithm
  nr_accepted_compressions :: "compression_algorithm list"
  nr_encryption :: encryption_algorithm
  nr_is_forced :: bool
  nr_device_info :: "device_info option"
  nr_user_id :: "string option"
  nr_tenant_id :: "string option"

definition negotiation_default :: negotiation_result where
  "negotiation_default =
     \<lparr>nr_serialization_format = Json, nr_serialization_format_specified = False,
      nr_compression = CompNone, nr_accepted_compressions = [], nr_encryption = EncNone,
      nr_is_forced = False, nr_device_info = None, nr_user_id = None, nr_tenant_id = None\<rparr>"

definition bytes_to_string :: "bytes \<Rightarrow> string option" where
  "bytes_to_string b = from_utf8 b"

definition metadata_string :: "meta \<Rightarrow> string \<Rightarrow> string option" where
  "metadata_string md key = Option.bind (map_of md key) bytes_to_string"

definition is_reserved_device_metadata_key :: "string \<Rightarrow> bool" where
  "is_reserved_device_metadata_key key = list_ex (\<lambda>k. k = key) DEVICE_RESERVED_METADATA_KEYS"

definition connect_system_command :: "frame \<Rightarrow> system_command option" where
  "connect_system_command f =
     (case Option.bind (fr_command f) cmd_type of Some (CmdSystem c) \<Rightarrow> Some c | _ \<Rightarrow> None)"

definition parse_serialization_format :: "meta \<Rightarrow> serialization_format \<times> bool" where
  "parse_serialization_format md =
     (case metadata_string md METADATA_FORMAT of
        None \<Rightarrow> (Json, False)
      | Some v \<Rightarrow>
          (if eq_ignore_ascii_case v ''protobuf'' \<or> eq_ignore_ascii_case v ''proto'' then Protobuf
           else if eq_ignore_ascii_case v ''json'' then Json else Json, True))"

definition parse_compression :: "meta \<Rightarrow> compression_algorithm" where
  "parse_compression md =
     unwrap_or CompNone (Option.bind (metadata_string md METADATA_COMPRESSION) compression_from_str)"

text \<open>\<open>str::split\<close> on a character.\<close>

fun split_at :: "char \<Rightarrow> string \<Rightarrow> string \<Rightarrow> string list" where
  "split_at c acc [] = [rev acc]"
| "split_at c acc (x # xs) = (if x = c then rev acc # split_at c [] xs else split_at c (x # acc) xs)"

definition push_accepted :: "compression_algorithm \<Rightarrow> compression_algorithm list \<Rightarrow> compression_algorithm list" where
  "push_accepted a acc = (if a \<noteq> CompNone \<and> a \<notin> set acc then acc @ [a] else acc)"

definition parse_accepted_compressions :: "meta \<Rightarrow> compression_algorithm list" where
  "parse_accepted_compressions md =
     (case metadata_string md METADATA_ACCEPT_COMPRESSION of
        None \<Rightarrow> []
      | Some value \<Rightarrow>
          fold push_accepted
            (List.map_filter compression_from_str
               (filter (\<lambda>n. n \<noteq> []) (map trim (split_at CHR '','' [] value)))) [])"

definition parse_encryption :: "meta \<Rightarrow> encryption_algorithm" where
  "parse_encryption md =
     unwrap_or EncNone (Option.bind (metadata_string md METADATA_ENCRYPTION) encryption_from_str)"

definition parse_device_info :: "meta \<Rightarrow> device_info option" where
  "parse_device_info md =
     (case metadata_string md METADATA_DEVICE_ID of
        None \<Rightarrow> None
      | Some device_id \<Rightarrow>
          (let platform = (case metadata_string md METADATA_PLATFORM of
                             Some v \<Rightarrow> platform_from_str v | None \<Rightarrow> OtherPlatform ''unknown'');
               d0 = device_info_new device_id platform;
               d1 = (case metadata_string md METADATA_MODEL of Some v \<Rightarrow> with_model v d0 | None \<Rightarrow> d0);
               d2 = (case metadata_string md METADATA_APP_VERSION of
                       Some v \<Rightarrow> with_app_version v d1 | None \<Rightarrow> d1);
               d3 = (case metadata_string md METADATA_SYSTEM_VERSION of
                       Some v \<Rightarrow> with_system_version v d2 | None \<Rightarrow> d2)
           in Some (fold (\<lambda>(key, value) d. case bytes_to_string value of
                            Some v \<Rightarrow> with_metadata key v d | None \<Rightarrow> d)
                     (filter (\<lambda>(key, _). \<not> is_reserved_device_metadata_key key) md) d3)))"

definition parse_connect_message :: "frame \<Rightarrow> negotiation_result result" where
  "parse_connect_message f =
     (case connect_system_command f of
        None \<Rightarrow> Inr negotiation_default
      | Some c \<Rightarrow>
          if sc_type c \<noteq> system_type_as_i32 SysConnect then Inr negotiation_default
          else
            (let md = sc_metadata c; (fmt, specified) = parse_serialization_format md in
             Inr \<lparr>nr_serialization_format = fmt, nr_serialization_format_specified = specified,
                  nr_compression = parse_compression md,
                  nr_accepted_compressions = parse_accepted_compressions md,
                  nr_encryption = parse_encryption md,
                  nr_is_forced = (metadata_string md METADATA_FORCE_FORMAT = Some ''true''),
                  nr_device_info = parse_device_info md,
                  nr_user_id = metadata_string md METADATA_USER_ID,
                  nr_tenant_id = metadata_string md METADATA_TENANT_ID\<rparr>))"

definition create_connect_ack ::
  "codec_env \<Rightarrow> serialization_format \<Rightarrow> compression_algorithm \<Rightarrow> encryption_algorithm \<Rightarrow> meta option
   \<Rightarrow> system_command" where
  "create_connect_ack env fmt cmpr enc additional =
     (let compression_str = (if compression_registered env (compression_as_str cmpr)
                             then compression_as_str cmpr else ''none'');
          encryption_str = (if enc \<noteq> EncNone \<and> \<not> encryption_registered env (encryption_as_str enc)
                            then ''none'' else encryption_as_str enc)
      in connect_ack fmt (Some compression_str) (Some encryption_str) (unwrap_or [] additional))"

section \<open>Authentication\<close>

record auth_result =
  ar_authenticated :: bool
  ar_user_id :: "string option"
  ar_error_message :: "string option"
  ar_user_metadata :: "(string, string) amap option"
  ar_retryable :: bool

definition auth_success :: "string option \<Rightarrow> auth_result" where
  "auth_success u =
     \<lparr>ar_authenticated = True, ar_user_id = u, ar_error_message = None, ar_user_metadata = None,
      ar_retryable = False\<rparr>"

definition auth_success_with_metadata :: "string option \<Rightarrow> (string, string) amap \<Rightarrow> auth_result" where
  "auth_success_with_metadata u md = (auth_success u)\<lparr>ar_user_metadata := Some md\<rparr>"

definition auth_failure :: "string \<Rightarrow> auth_result" where
  "auth_failure m =
     \<lparr>ar_authenticated = False, ar_user_id = None, ar_error_message = Some m, ar_user_metadata = None,
      ar_retryable = False\<rparr>"

definition auth_retryable_failure :: "string \<Rightarrow> auth_result" where
  "auth_retryable_failure m = (auth_failure m)\<lparr>ar_retryable := True\<rparr>"

definition auth_with_tenant_id :: "string \<Rightarrow> auth_result \<Rightarrow> auth_result" where
  "auth_with_tenant_id t r =
     r\<lparr>ar_user_metadata := Some (AList.update TENANT_ID_METADATA_KEY t (unwrap_or [] (ar_user_metadata r)))\<rparr>"

definition auth_tenant_id :: "auth_result \<Rightarrow> string option" where
  "auth_tenant_id r = Option.bind (ar_user_metadata r) (\<lambda>md. map_of md TENANT_ID_METADATA_KEY)"

type_synonym authenticator = "string \<Rightarrow> conn_id \<Rightarrow> device_info option \<Rightarrow> meta option \<Rightarrow> auth_result result"

record connection_identity =
  id_user :: "string option"
  id_tenant :: "string option"
  id_metadata :: "(string, string) amap option"

definition identity_declared :: "negotiation_result \<Rightarrow> connection_identity" where
  "identity_declared n = \<lparr>id_user = nr_user_id n, id_tenant = nr_tenant_id n, id_metadata = Some []\<rparr>"

definition identity_connection_metadata :: "connection_identity \<Rightarrow> (string, string) amap option" where
  "identity_connection_metadata i =
     (case id_tenant i of
        None \<Rightarrow> id_metadata i
      | Some t \<Rightarrow> Some (AList.update TENANT_ID_METADATA_KEY t (unwrap_or [] (id_metadata i))))"

definition extract_token_from_frame :: "frame \<Rightarrow> string option" where
  "extract_token_from_frame f =
     Option.bind (frame_system_command f) (\<lambda>c. Option.bind (map_of (sc_metadata c) ''token'') from_utf8)"

definition extract_system_command_metadata :: "frame \<Rightarrow> meta option" where
  "extract_system_command_metadata f = map_option sc_metadata (frame_system_command f)"

text \<open>\<open>auth\<close> is the configured authenticator.  The fixed Chinese texts of the refusals are given in
  English; like the originals they are no typed reasons, so they never reach a client.\<close>

definition authenticate_connection ::
  "bool \<Rightarrow> authenticator option \<Rightarrow> frame \<Rightarrow> conn_id \<Rightarrow> negotiation_result \<Rightarrow> connection_identity result" where
  "authenticate_connection auth_enabled auth f cid n =
     (if \<not> auth_enabled then Inr (identity_declared n)
      else case auth of
        None \<Rightarrow> Inr (identity_declared n)
      | Some authenticate \<Rightarrow>
          (case extract_token_from_frame f of
             None \<Rightarrow> Inl (localized AuthenticationFailed ''no token'')
           | Some token \<Rightarrow>
               (case authenticate token cid (nr_device_info n) (extract_system_command_metadata f) of
                  Inl e \<Rightarrow> Inl (localized ServiceUnavailable ''authentication error'')
                | Inr r \<Rightarrow>
                    if ar_authenticated r \<and>
                       (case ar_user_id r of None \<Rightarrow> True | Some u \<Rightarrow> trim u = [])
                    then Inl (localized AuthenticationFailed ''no user in the result'')
                    else if ar_authenticated r then
                      Inr \<lparr>id_user = ar_user_id r, id_tenant = auth_tenant_id r, id_metadata = ar_user_metadata r\<rparr>
                    else if ar_retryable r then
                      Inl (localized ServiceUnavailable (unwrap_or ''authentication unavailable'' (ar_error_message r)))
                    else Inl (localized AuthenticationFailed (unwrap_or ''invalid token'' (ar_error_message r))))))"

section \<open>The outcome\<close>

text \<open>The server's defaults: format, compression, encryption.\<close>

record negotiation_defaults =
  nd_format :: serialization_format
  nd_compression :: compression_algorithm
  nd_encryption :: encryption_algorithm

definition determine_negotiation_result ::
  "negotiation_defaults \<Rightarrow> negotiation_result
   \<Rightarrow> serialization_format \<times> compression_algorithm \<times> encryption_algorithm" where
  "determine_negotiation_result d n =
     (if nr_is_forced n \<or> nr_serialization_format_specified n then nr_serialization_format n else nd_format d,
      if nr_is_forced n \<or> nr_compression n \<noteq> CompNone then nr_compression n
      else if nd_compression d \<noteq> CompNone \<and> nd_compression d \<in> set (nr_accepted_compressions n)
           then nd_compression d else CompNone,
      if nr_encryption n \<noteq> EncNone then nr_encryption n else nd_encryption d)"

definition is_typed_reason :: "string \<Rightarrow> bool" where
  "is_typed_reason reason =
     (case reason of
        [] \<Rightarrow> False
      | c # cs \<Rightarrow>
          (let upper = (\<lambda>c. 65 \<le> (of_char c :: nat) \<and> of_char c \<le> (90 :: nat));
               digit = (\<lambda>c. 48 \<le> (of_char c :: nat) \<and> of_char c \<le> (57 :: nat))
           in upper c \<and> length reason \<le> 64 \<and> list_all (\<lambda>c. upper c \<or> digit c \<or> c = CHR ''_'') cs))"

section \<open>Facts\<close>

lemma accepted_distinct: "distinct acc \<Longrightarrow> CompNone \<notin> set acc \<Longrightarrow>
  distinct (fold push_accepted as acc) \<and> CompNone \<notin> set (fold push_accepted as acc)"
  by (induction as arbitrary: acc) (auto simp: push_accepted_def)

lemma accepted_set: "set (fold push_accepted as acc) = set acc \<union> (set as - {CompNone})"
  by (induction as arbitrary: acc) (auto simp: push_accepted_def)

lemma parse_connect_total: "\<exists>n. parse_connect_message f = Inr n"
  unfolding parse_connect_message_def Let_def by (auto split: option.splits prod.splits)

end
