(* ===== verification/ConnOps.thy ===== *)
theory ConnOps
  imports ConnManager
begin

text \<open>
  Batch operations of the connection manager: snapshots of the connection table, removal
  and activity updates of many connections at once, and the timeout sweep
  (\<open>src/src/server/connection/manager/lifecycle.rs\<close>, \<open>ops.rs\<close>).  The batch operations group
  the keys by shard first and then work shard by shard.
\<close>

section \<open>Snapshots\<close>

definition scan :: "(conn_id \<Rightarrow> conn_entry \<Rightarrow> bool) \<Rightarrow> (conn_id \<Rightarrow> conn_entry \<Rightarrow> 'a) \<Rightarrow> conn_manager \<Rightarrow> 'a list" where
  "scan P view cm =
     concat (map (\<lambda>shard. map (\<lambda>(i, e). view i e) (filter (\<lambda>(i, e). P i e) shard)) (cm_conns cm))"

definition pick_ids :: "mgr_env \<Rightarrow> (conn_id \<Rightarrow> conn_entry \<Rightarrow> 'a) \<Rightarrow> conn_id list \<Rightarrow> conn_manager \<Rightarrow> 'a list" where
  "pick_ids me view ids cm =
     (let n = length (cm_conns cm);
          ids_by_shard = group_by_shard (\<lambda>c. shard_index (me_hash_conn me) c n) n ids
      in concat (map (\<lambda>(i, is). if is = [] then []
                                else List.map_filter (\<lambda>c. map_option (view c) (map_of (cm_conns cm ! i) c)) is)
                   (enumerate 0 ids_by_shard)))"

definition handle_view :: "conn_id \<Rightarrow> conn_entry \<Rightarrow> conn_id \<times> nat" where
  "handle_view i e = (i, en_writer e)"

definition auth_view :: "conn_id \<Rightarrow> conn_entry \<Rightarrow> conn_id \<times> nat \<times> bool" where
  "auth_view i e = (i, en_writer e, ci_authenticated (en_info e))"

definition info_view :: "conn_id \<Rightarrow> conn_entry \<Rightarrow> conn_id \<times> nat \<times> conn_info" where
  "info_view i e = (i, en_writer e, en_info e)"

definition connection_handles :: "conn_manager \<Rightarrow> (conn_id \<times> nat) list" where
  "connection_handles cm = scan (\<lambda>_ _. True) handle_view cm"

definition connection_handles_except :: "conn_id \<Rightarrow> conn_manager \<Rightarrow> (conn_id \<times> nat) list" where
  "connection_handles_except ex cm = scan (\<lambda>i _. i \<noteq> ex) handle_view cm"

definition connection_handles_for_ids :: "mgr_env \<Rightarrow> conn_id list \<Rightarrow> conn_manager \<Rightarrow> (conn_id \<times> nat) list" where
  "connection_handles_for_ids me ids cm = pick_ids me handle_view ids cm"

definition connection_auth_snapshots :: "conn_manager \<Rightarrow> (conn_id \<times> nat \<times> bool) list" where
  "connection_auth_snapshots cm = scan (\<lambda>_ _. True) auth_view cm"

definition connection_auth_snapshots_except :: "conn_id \<Rightarrow> conn_manager \<Rightarrow> (conn_id \<times> nat \<times> bool) list" where
  "connection_auth_snapshots_except ex cm = scan (\<lambda>i _. i \<noteq> ex) auth_view cm"

definition connection_auth_snapshots_for_ids ::
  "mgr_env \<Rightarrow> conn_id list \<Rightarrow> conn_manager \<Rightarrow> (conn_id \<times> nat \<times> bool) list" where
  "connection_auth_snapshots_for_ids me ids cm = pick_ids me auth_view ids cm"

definition connection_snapshots :: "conn_manager \<Rightarrow> (conn_id \<times> nat \<times> conn_info) list" where
  "connection_snapshots cm = scan (\<lambda>_ _. True) info_view cm"

definition connection_snapshots_except :: "conn_id \<Rightarrow> conn_manager \<Rightarrow> (conn_id \<times> nat \<times> conn_info) list" where
  "connection_snapshots_except ex cm = scan (\<lambda>i _. i \<noteq> ex) info_view cm"

definition connection_snapshots_for_ids ::
  "mgr_env \<Rightarrow> conn_id list \<Rightarrow> conn_manager \<Rightarrow> (conn_id \<times> nat \<times> conn_info) list" where
  "connection_snapshots_for_ids me ids cm = pick_ids me info_view ids cm"

definition timeout_connection_snapshots ::
  "nat \<Rightarrow> nat \<Rightarrow> conn_manager \<Rightarrow> (conn_id \<times> nat \<times> string option) list" where
  "timeout_connection_snapshots now timeout cm =
     scan (\<lambda>_ e. info_is_timeout now timeout (en_info e)) (\<lambda>i e. (i, en_writer e, ci_user_id (en_info e))) cm"

section \<open>Batch removal\<close>

fun remove_loop ::
  "mgr_env \<Rightarrow> conn_id list \<Rightarrow> conn_manager \<Rightarrow> conn_manager \<times> conn_id list \<times> (device_owner \<times> conn_id) list" where
  "remove_loop me [] cm = (cm, [], [])"
| "remove_loop me (cid # ids) cm =
     (case lookup_conn me cm cid of
        None \<Rightarrow> remove_loop me ids cm
      | Some e \<Rightarrow>
          (let cm1 = close_queue me (en_writer e)
                       (cm\<lparr>cm_conns := shard_del (me_hash_conn me) (cm_conns cm) cid\<rparr>);
               (cm2, removed, owners) = remove_loop me ids cm1
           in (cm2, cid # removed,
               case info_owner (en_info e) of Some ow \<Rightarrow> (ow, cid) # owners | None \<Rightarrow> owners)))"

fun remove_index_loop ::
  "mgr_env \<Rightarrow> (device_owner \<times> conn_id) list \<Rightarrow> (device_owner, conn_id list) shards
   \<Rightarrow> (device_owner, conn_id list) shards \<times> nat" where
  "remove_index_loop me [] us = (us, 0)"
| "remove_index_loop me ((ow, cid) # es) us =
     (let i = shard_index (me_hash_owner me) ow (length us);
          (m', gone) = remove_user_connection_index ow cid (us ! i);
          (us', n) = remove_index_loop me es (us[i := m'])
      in (us', if gone then Suc n else n))"

definition remove_user_connections_batch ::
  "mgr_env \<Rightarrow> (device_owner \<times> conn_id) list \<Rightarrow> conn_manager \<Rightarrow> conn_manager" where
  "remove_user_connections_batch me entries cm =
     (let n = length (cm_users cm);
          by_shard = group_by_shard (\<lambda>(ow, _). shard_index (me_hash_owner me) ow n) n entries;
          (us, removed_users) = remove_index_loop me (concat by_shard) (cm_users cm)
      in cm\<lparr>cm_users := us,
             cm_user_count := (if removed_users > 0 then cm_user_count cm - of_nat removed_users
                               else cm_user_count cm)\<rparr>)"

definition remove_connection_snapshots ::
  "mgr_env \<Rightarrow> conn_id list \<Rightarrow> conn_manager \<Rightarrow> conn_manager \<times> conn_id list" where
  "remove_connection_snapshots me ids cm =
     (let n = length (cm_conns cm);
          by_shard = group_by_shard (\<lambda>c. shard_index (me_hash_conn me) c n) n ids;
          (cm1, removed, owners) = remove_loop me (concat by_shard) cm;
          cm2 = (if removed \<noteq> []
                 then cm1\<lparr>cm_connection_count := cm_connection_count cm1 - of_nat (length removed)\<rparr>
                 else cm1)
      in (remove_user_connections_batch me owners cm2, removed))"

definition cleanup_timeout_connections ::
  "mgr_env \<Rightarrow> nat \<Rightarrow> nat \<Rightarrow> conn_manager \<Rightarrow> conn_manager \<times> conn_id list" where
  "cleanup_timeout_connections me now timeout cm =
     remove_connection_snapshots me (map fst (timeout_connection_snapshots now timeout cm)) cm"

section \<open>Batch activity update\<close>

fun touch_loop :: "mgr_env \<Rightarrow> nat \<Rightarrow> conn_id list \<Rightarrow> conn_manager \<Rightarrow> conn_manager \<times> nat" where
  "touch_loop me now [] cm = (cm, 0)"
| "touch_loop me now (cid # ids) cm =
     (case lookup_conn me cm cid of
        None \<Rightarrow> touch_loop me now ids cm
      | Some e \<Rightarrow>
          (let (cm', n) = touch_loop me now ids (put_info me cid e (info_update_active now (en_info e)) cm)
           in (cm', Suc n)))"

definition update_connections_active :: "mgr_env \<Rightarrow> nat \<Rightarrow> conn_id list \<Rightarrow> conn_manager \<Rightarrow> conn_manager \<times> nat" where
  "update_connections_active me now ids cm =
     (let n = length (cm_conns cm)
      in touch_loop me now (concat (group_by_shard (\<lambda>c. shard_index (me_hash_conn me) c n) n ids)) cm)"

section \<open>Facts on snapshots\<close>

lemma scan_iff:
  assumes "mgr_inv ix me k cm"
  shows "x \<in> set (scan P view cm) \<longleftrightarrow> (\<exists>i e. lookup_conn me cm i = Some e \<and> P i e \<and> x = view i e)"
proof -
  have "(i, e) \<in> set (concat (cm_conns cm)) \<longleftrightarrow> lookup_conn me cm i = Some e" for i e
    unfolding lookup_conn_def by (rule shards_elem [OF mgr_invD(1) [OF assms]])
  then show ?thesis by (force simp: scan_def)
qed

lemma list_connections_set:
  assumes "mgr_inv ix me k cm"
  shows "set (list_connections cm) = dom (lookup_conn me cm)" "distinct (list_connections cm)"
proof -
  have eq: "list_connections cm = map fst (concat (cm_conns cm))"
    by (simp add: list_connections_def map_concat)
  show "set (list_connections cm) = dom (lookup_conn me cm)"
    using sharded.dom_entries [OF mgr_invD(1) [OF assms]] unfolding eq lookup_conn_def [abs_def] by simp
  show "distinct (list_connections cm)"
    unfolding eq by (rule shards_distinct [OF mgr_invD(1) [OF assms]])
qed

lemma map_filter_append: "List.map_filter f (xs @ ys) = List.map_filter f xs @ List.map_filter f ys"
  by (simp add: map_filter_def)

lemma map_filter_concat: "List.map_filter f (concat xss) = concat (map (List.map_filter f) xss)"
  by (induction xss) (simp_all add: map_filter_append map_filter_def)

lemma map_filter_cong:
  "(\<And>x. x \<in> set xs \<Longrightarrow> f x = g x) \<Longrightarrow> List.map_filter f xs = List.map_filter g xs"
  by (induction xs) (auto simp: map_filter_def)

lemma set_map_filter_iff: "y \<in> set (List.map_filter f xs) \<longleftrightarrow> (\<exists>x \<in> set xs. f x = Some y)"
  by (induction xs) (auto simp: map_filter_def)

lemma shard_ids_less:
  "mgr_inv ix me k cm \<Longrightarrow> shard_index (me_hash_conn me) c (length (cm_conns cm)) < length (cm_conns cm)"
  by (rule shards_okD(2) [OF mgr_invD(1)])

text \<open>Picking by shard reads the same entries as looking every id up.\<close>

lemma pick_ids_eq:
  assumes "mgr_inv ix me k cm"
  shows "pick_ids me view ids cm =
     List.map_filter (\<lambda>c. map_option (view c) (lookup_conn me cm c))
       (concat (group_by_shard (\<lambda>c. shard_index (me_hash_conn me) c (length (cm_conns cm))) (length (cm_conns cm)) ids))"
proof -
  let ?n = "length (cm_conns cm)"
  let ?ix = "\<lambda>c. shard_index (me_hash_conn me) c ?n"
  have row: "(if is = [] then []
        else List.map_filter (\<lambda>c. map_option (view c) (map_of (cm_conns cm ! i) c)) is) =
      List.map_filter (\<lambda>c. map_option (view c) (lookup_conn me cm c)) is"
    if "(i, is) \<in> set (enumerate 0 (group_by_shard ?ix ?n ids))" for i "is"
  proof -
    from that have "is = filter (\<lambda>x. ?ix x = i) ids"
      by (auto simp: in_set_enumerate_eq group_by_shard_def)
    then have "lookup_conn me cm c = map_of (cm_conns cm ! i) c" if "c \<in> set is" for c
      using that by (simp add: lookup_conn_def shard_get_def shard_of_def)
    then have "List.map_filter (\<lambda>c. map_option (view c) (map_of (cm_conns cm ! i) c)) is =
        List.map_filter (\<lambda>c. map_option (view c) (lookup_conn me cm c)) is"
      by (intro map_filter_cong) simp
    then show ?thesis by (simp add: map_filter_def)
  qed
  show ?thesis
    unfolding pick_ids_def Let_def map_filter_concat
    by (rule arg_cong [where f = concat], rule nth_equalityI)
       (auto simp: row nth_enumerate_eq in_set_enumerate_eq split: prod.splits)
qed

lemma pick_ids_iff:
  assumes "mgr_inv ix me k cm"
  shows "x \<in> set (pick_ids me view ids cm) \<longleftrightarrow> (\<exists>c e. c \<in> set ids \<and> lookup_conn me cm c = Some e \<and> x = view c e)"
proof -
  let ?n = "length (cm_conns cm)"
  let ?ix = "\<lambda>c. shard_index (me_hash_conn me) c ?n"
  have "set (concat (group_by_shard ?ix ?n ids)) = set ids"
    by (rule group_by_shard_set) (rule shard_ids_less [OF assms])
  then show ?thesis
    unfolding pick_ids_eq [OF assms] by (auto simp: set_map_filter_iff simp del: set_concat)
qed

section \<open>Batch removal is removal one by one\<close>

lemma unat_sub_nat:
  fixes w :: "64 word"
  assumes "n \<le> unat w"
  shows "unat (w - of_nat n) = unat w - n"
proof -
  have "unat w < 2 ^ 64" using unsigned_less [of w] by simp
  with assms have "n < 2 ^ 64" by linarith
  then have "unat (of_nat n :: 64 word) = n" by (simp add: unat_of_nat)
  moreover from this have "of_nat n \<le> w" using assms by (simp add: word_le_nat_alt)
  ultimately show ?thesis by (simp add: unat_sub)
qed

lemma remove_loop_keeps:
  assumes "remove_loop me ids cm = (cm', rs, os)"
  shows "cm_users cm' = cm_users cm" "cm_user_count cm' = cm_user_count cm"
    "cm_connection_count cm' = cm_connection_count cm" "cm_next_queue cm' = cm_next_queue cm"
    "map_option wq_connection_id (cm_queues cm' q) = map_option wq_connection_id (cm_queues cm q)"
  using assms
  by (induction me ids cm arbitrary: cm' rs os rule: remove_loop.induct)
     (auto simp: close_queue_def Let_def option.map_comp o_def split: option.splits prod.splits if_splits)

lemma remove_loop_lookup:
  assumes "shards_ok (me_hash_conn me) (cm_conns cm)" "remove_loop me ids cm = (cm', rs, os)"
  shows "shards_ok (me_hash_conn me) (cm_conns cm')
       \<and> lookup_conn me cm' = lookup_conn me cm |` (- set rs)
       \<and> distinct rs \<and> set rs = {c \<in> set ids. lookup_conn me cm c \<noteq> None}
       \<and> distinct (map snd os) \<and> (\<forall>o' c. (o', c) \<in> set os \<longleftrightarrow> c \<in> set rs \<and> owner_of me cm c = Some o')"
  using assms
proof (induction me ids cm arbitrary: cm' rs os rule: remove_loop.induct)
  case (1 me cm)
  then show ?case by (simp add: restrict_map_def)
next
  case (2 me cid ids cm)
  show ?case
  proof (cases "lookup_conn me cm cid")
    case None
    with 2 show ?thesis by auto
  next
    case (Some e)
    let ?cm1 = "close_queue me (en_writer e) (cm\<lparr>cm_conns := shard_del (me_hash_conn me) (cm_conns cm) cid\<rparr>)"
    obtain cm2 rs2 os2 where rec: "remove_loop me ids ?cm1 = (cm2, rs2, os2)" by (metis prod_cases3)
    have look1: "lookup_conn me ?cm1 = (lookup_conn me cm)(cid := None)"
      using 2(3) by (simp add: close_queue_def)
    have own1: "owner_of me ?cm1 = (owner_of me cm)(cid := None)"
      by (auto simp: owner_of_def look1 fun_eq_iff)
    have "shards_ok (me_hash_conn me) (cm_conns ?cm1)" using 2(3) by (simp add: close_queue_def)
    note IH = 2(2) [OF Some refl this rec]
    have eqs: "cm' = cm2" "rs = cid # rs2"
      "os = (case info_owner (en_info e) of Some ow \<Rightarrow> (ow, cid) # os2 | None \<Rightarrow> os2)"
      using 2(4) Some rec by (auto simp: Let_def)
    have notin: "cid \<notin> set rs2" using IH by (simp add: look1)
    have snd_os2: "snd ` set os2 \<subseteq> set rs2" using IH by force
    have "lookup_conn me cm2 = lookup_conn me cm |` (- set (cid # rs2))"
      using IH by (auto simp: look1 restrict_map_def fun_eq_iff)
    moreover have "set (cid # rs2) = {c \<in> set (cid # ids). lookup_conn me cm c \<noteq> None}"
      using IH Some by (auto simp: look1)
    moreover have "distinct (map snd os)"
      using IH notin snd_os2 by (auto simp: eqs(3) split: option.splits)
    moreover have "(o', c) \<in> set os \<longleftrightarrow> c \<in> set (cid # rs2) \<and> owner_of me cm c = Some o'" for o' c
      using IH notin Some by (auto simp: eqs(3) own1 owner_of_def split: option.splits)
    ultimately show ?thesis using IH notin by (simp add: eqs(1,2))
  qed
qed

lemma remove_index_loop_eq:
  assumes "remove_index_loop me es (cm_users cm) = (us, n)"
  shows "fold (\<lambda>(o', c). remove_user_connection me o' c) es cm =
         cm\<lparr>cm_users := us, cm_user_count := cm_user_count cm - of_nat n\<rparr>"
  using assms
proof (induction es arbitrary: cm us n)
  case (Cons p es)
  obtain ow cid where p: "p = (ow, cid)" by fastforce
  let ?i = "shard_index (me_hash_owner me) ow (length (cm_users cm))"
  obtain m' gone where r: "remove_user_connection_index ow cid (cm_users cm ! ?i) = (m', gone)" by fastforce
  obtain us2 n2 where rec: "remove_index_loop me es ((cm_users cm)[?i := m']) = (us2, n2)" by fastforce
  let ?cm1 = "remove_user_connection me ow cid cm"
  have cm1: "?cm1 = cm\<lparr>cm_users := (cm_users cm)[?i := m'],
      cm_user_count := (if gone then cm_user_count cm - 1 else cm_user_count cm)\<rparr>"
    by (simp add: remove_user_connection_def r)
  have eqs: "us = us2" "n = (if gone then Suc n2 else n2)"
    using Cons.prems by (auto simp: p r rec)
  have "fold (\<lambda>(o', c). remove_user_connection me o' c) es ?cm1 =
      ?cm1\<lparr>cm_users := us2, cm_user_count := cm_user_count ?cm1 - of_nat n2\<rparr>"
    by (rule Cons.IH) (simp add: cm1 rec)
  then show ?case by (simp add: p eqs cm1 diff_diff_eq)
qed simp

lemma fold_remove_user_wf:
  assumes "users_wf me cm"
  shows "users_wf me (fold (\<lambda>(o', c). remove_user_connection me o' c) es cm)
    \<and> index_rel me (fold (\<lambda>(o', c). remove_user_connection me o' c) es cm) = index_rel me cm - set es"
  using assms
proof (induction es arbitrary: cm)
  case (Cons p es)
  obtain ow cid where p: "p = (ow, cid)" by fastforce
  show ?case
    using Cons.IH [OF remove_user_connection_wf(1) [OF Cons.prems]] remove_user_connection_wf(2) [OF Cons.prems]
    by (auto simp: p)
qed simp

lemma remove_user_connections_batch_wf:
  assumes wf: "users_wf me cm"
  shows "users_wf me (remove_user_connections_batch me es cm)"
    and "index_rel me (remove_user_connections_batch me es cm) = index_rel me cm - set es"
    and "cm_conns (remove_user_connections_batch me es cm) = cm_conns cm"
    and "cm_queues (remove_user_connections_batch me es cm) = cm_queues cm"
    and "cm_next_queue (remove_user_connections_batch me es cm) = cm_next_queue cm"
    and "cm_connection_count (remove_user_connections_batch me es cm) = cm_connection_count cm"
proof -
  let ?n = "length (cm_users cm)"
  let ?ix = "\<lambda>(ow, _). shard_index (me_hash_owner me) ow ?n"
  let ?by = "concat (group_by_shard ?ix ?n es)"
  obtain us n where loop: "remove_index_loop me ?by (cm_users cm) = (us, n)" by fastforce
  have ok: "cm_users cm \<noteq> []" using wf by (simp add: users_wf_def shards_ok_def)
  have set: "set ?by = set es"
    by (rule group_by_shard_set) (use ok in \<open>auto simp: shard_index_less\<close>)
  have "remove_user_connections_batch me es cm = fold (\<lambda>(o', c). remove_user_connection me o' c) ?by cm"
    using remove_index_loop_eq [OF loop] loop
    by (simp add: remove_user_connections_batch_def Let_def)
  then show "users_wf me (remove_user_connections_batch me es cm)"
    "index_rel me (remove_user_connections_batch me es cm) = index_rel me cm - set es"
    using fold_remove_user_wf [OF wf, of ?by] unfolding set by simp_all
  show "cm_conns (remove_user_connections_batch me es cm) = cm_conns cm"
    "cm_queues (remove_user_connections_batch me es cm) = cm_queues cm"
    "cm_next_queue (remove_user_connections_batch me es cm) = cm_next_queue cm"
    "cm_connection_count (remove_user_connections_batch me es cm) = cm_connection_count cm"
    using loop by (simp_all add: remove_user_connections_batch_def Let_def)
qed

lemma remove_connection_snapshots_spec:
  assumes inv: "mgr_inv ix me k cm" and rem: "remove_connection_snapshots me ids cm = (cm', removed)"
  shows "mgr_inv ix me k cm'" "infos me cm' = infos me cm |` (- set ids)"
    "distinct removed" "set removed = {c \<in> set ids. infos me cm c \<noteq> None}"
proof -
  let ?n = "length (cm_conns cm)"
  let ?by = "concat (group_by_shard (\<lambda>c. shard_index (me_hash_conn me) c ?n) ?n ids)"
  obtain cm1 rs os where loop: "remove_loop me ?by cm = (cm1, rs, os)" by (metis prod_cases3)
  have by_set: "set ?by = set ids"
    by (rule group_by_shard_set) (rule shard_ids_less [OF inv])
  note keeps = remove_loop_keeps [OF loop]
  note look = remove_loop_lookup [OF mgr_invD(1) [OF inv] loop, unfolded by_set]
  define cm2 where "cm2 = cm1\<lparr>cm_connection_count := cm_connection_count cm1 - of_nat (length rs)\<rparr>"
  have res: "cm' = remove_user_connections_batch me os cm2" "removed = rs"
    using rem loop by (auto simp: remove_connection_snapshots_def Let_def cm2_def)
  show "distinct removed" "set removed = {c \<in> set ids. infos me cm c \<noteq> None}"
    using look by (auto simp: res(2) infos_def)
  have users: "users_wf me cm2" "index_rel me cm2 = index_rel me cm"
    using mgr_invD(6) [OF inv] users_cong [of cm2 cm] keeps by (simp_all add: cm2_def)
  note batch = remove_user_connections_batch_wf [OF users(1), of os]
  have os: "set os = {(ow, c). c \<in> set rs \<and> owner_of me cm c = Some ow}"
    using look by auto
  have look': "lookup_conn me cm' = lookup_conn me cm |` (- set rs)"
    using look batch(3) by (simp add: res(1) lookup_conn_def [abs_def] cm2_def)
  then show "infos me cm' = infos me cm |` (- set ids)"
    using look by (auto simp: infos_def restrict_map_def fun_eq_iff)
  have own: "owner_rel me cm' = owner_rel me cm - set os"
    using os by (auto simp: owner_rel_def owner_of_def look' restrict_map_def split: if_splits)
  have "index_ok ix me cm'"
  proof (cases ix)
    case (Some S)
    with mgr_invD(7) [OF inv] have S: "index_rel me cm = owner_rel me cm \<union> S" "\<And>ow c. (ow, c) \<in> S \<Longrightarrow> lookup_conn me cm c = None"
      by (auto simp: index_ok_def)
    then have "S \<inter> set os = {}" by (auto simp: os owner_of_def)
    then have "index_rel me cm' = owner_rel me cm' \<union> S" using batch(2) unfolding own res(1) [symmetric] users(2) S(1) by blast
    then show ?thesis using S(2) by (simp add: index_ok_def Some look' restrict_map_def)
  qed (simp add: index_ok_def)
  have "set rs \<subseteq> dom (lookup_conn me cm)" "distinct rs" using look by auto
  then have le: "length rs \<le> card (dom (lookup_conn me cm))"
    using card_mono [OF owner_dom(1) [OF inv]] by (metis distinct_card)
  have "dom (lookup_conn me cm') = dom (lookup_conn me cm) - set rs" by (auto simp: look')
  then have card: "card (dom (lookup_conn me cm')) + length rs = card (dom (lookup_conn me cm))"
    using le \<open>set rs \<subseteq> _\<close> \<open>distinct rs\<close> by (simp add: card_Diff_subset distinct_card)
  have "unat (cm_connection_count cm - of_nat (length rs)) = unat (cm_connection_count cm) - length rs"
    using mgr_invD(4) [OF inv] owner_dom(4) [OF inv] le by (intro unat_sub_nat) simp_all
  then have cnt: "unat (cm_connection_count cm') = card (dom (lookup_conn me cm')) + k"
    using card mgr_invD(4) [OF inv] batch(6) keeps(3) by (simp add: res(1) cm2_def)
  have queue: "map_option wq_connection_id (cm_queues cm' q) = map_option wq_connection_id (cm_queues cm q)" for q
    using keeps(5) batch(4) by (simp add: res(1) cm2_def)
  have "conns_inv me k cm'"
    unfolding conns_inv_def
  proof (intro conjI allI impI)
    show "shards_ok (me_hash_conn me) (cm_conns cm')" using look batch(3) by (simp add: res(1) cm2_def)
    show "unat (cm_connection_count cm') = card (dom (lookup_conn me cm')) + k" by (fact cnt)
    show "q < cm_next_queue cm'" if "cm_queues cm' q \<noteq> None" for q
    proof -
      have "cm_queues cm q \<noteq> None" using that queue [of q] by (cases "cm_queues cm q") auto
      then show ?thesis using mgr_invD(5) [OF inv] keeps(4) batch(5) by (simp add: res(1) cm2_def)
    qed
    fix c e assume "lookup_conn me cm' c = Some e"
    then have e: "lookup_conn me cm c = Some e" by (auto simp: look' restrict_map_def split: if_splits)
    show "ci_connection_id (en_info e) = c" using mgr_invD(2) [OF inv e] .
    show "\<exists>q. cm_queues cm' (en_writer e) = Some q \<and> wq_connection_id q = c"
      using mgr_invD(3) [OF inv e] queue [of "en_writer e"] by (cases "cm_queues cm' (en_writer e)") auto
  qed
  then show "mgr_inv ix me k cm'"
    using batch(1) \<open>index_ok ix me cm'\<close> by (simp add: mgr_inv_def res(1))
qed

section \<open>Activity updates and the timeout sweep\<close>

lemma info_update_active_keeps [simp]:
  "ci_connection_id (info_update_active now i) = ci_connection_id i"
  "info_owner (info_update_active now i) = info_owner i"
  "ci_authenticated (info_update_active now i) = ci_authenticated i"
  by (simp_all add: info_update_active_def info_owner_def)

lemma touch_loop_spec:
  assumes "mgr_inv ix me k cm" "touch_loop me now ids cm = (cm', n)"
  shows "mgr_inv ix me k cm' \<and> cm_queues cm' = cm_queues cm
       \<and> infos me cm' = (\<lambda>c. if c \<in> set ids then map_option (info_update_active now) (infos me cm c) else infos me cm c)"
  using assms
proof (induction me now ids cm arbitrary: cm' n rule: touch_loop.induct)
  case (1 me now cm)
  then show ?case by auto
next
  case (2 me now cid ids cm)
  show ?case
  proof (cases "lookup_conn me cm cid")
    case None
    with 2 show ?thesis by (auto simp: infos_def fun_eq_iff)
  next
    case (Some e)
    let ?i = "info_update_active now (en_info e)"
    let ?cm1 = "put_info me cid e ?i cm"
    note put = put_info_same_owner_inv [OF 2(3) Some, of ?i, simplified]
    obtain cm2 m where rec: "touch_loop me now ids ?cm1 = (cm2, m)" by fastforce
    have cid: "infos me cm cid = Some (en_info e)" using Some by (simp add: infos_def)
    have "cm' = cm2" using 2(4) Some rec by simp
    with 2(2) [OF Some put(1) rec] show ?thesis
      unfolding put(2) by (auto simp: cid fun_eq_iff put_info_def info_update_active_def)
  qed
qed

lemma update_connections_active_spec:
  assumes inv: "mgr_inv ix me k cm" and upd: "update_connections_active me now ids cm = (cm', n)"
  shows "mgr_inv ix me k cm'" "cm_queues cm' = cm_queues cm"
    "infos me cm' = (\<lambda>c. if c \<in> set ids then map_option (info_update_active now) (infos me cm c) else infos me cm c)"
proof -
  have set: "set (concat (group_by_shard (\<lambda>c. shard_index (me_hash_conn me) c (length (cm_conns cm)))
      (length (cm_conns cm)) ids)) = set ids"
    by (rule group_by_shard_set) (rule shard_ids_less [OF inv])
  note spec = touch_loop_spec [OF inv upd [unfolded update_connections_active_def Let_def], unfolded set]
  then show "mgr_inv ix me k cm'" "cm_queues cm' = cm_queues cm"
    "infos me cm' = (\<lambda>c. if c \<in> set ids then map_option (info_update_active now) (infos me cm c) else infos me cm c)"
    by blast+
qed

lemma cleanup_timeout_spec:
  assumes inv: "mgr_inv ix me k cm" and cl: "cleanup_timeout_connections me now timeout cm = (cm', removed)"
  shows "mgr_inv ix me k cm'"
    "infos me cm' = (\<lambda>c. filter_option (\<lambda>i. \<not> info_is_timeout now timeout i) (infos me cm c))"
    "distinct removed" "set removed = {c. \<exists>i. infos me cm c = Some i \<and> info_is_timeout now timeout i}"
proof -
  let ?ids = "map fst (timeout_connection_snapshots now timeout cm)"
  have ids: "c \<in> set ?ids \<longleftrightarrow> (\<exists>i. infos me cm c = Some i \<and> info_is_timeout now timeout i)" for c
    by (force simp: timeout_connection_snapshots_def scan_iff [OF inv] infos_def)
  note spec = remove_connection_snapshots_spec [OF inv cl [unfolded cleanup_timeout_connections_def]]
  show "mgr_inv ix me k cm'" "distinct removed" using spec by simp_all
  show "infos me cm' = (\<lambda>c. filter_option (\<lambda>i. \<not> info_is_timeout now timeout i) (infos me cm c))"
    unfolding spec(2) using ids by (auto simp: restrict_map_def filter_option_def fun_eq_iff simp del: set_map split: option.splits)
  show "set removed = {c. \<exists>i. infos me cm c = Some i \<and> info_is_timeout now timeout i}"
    unfolding spec(4) using ids by (auto simp del: set_map)
qed

end
