(* ===== verification/Fanout.thy ===== *)
theory Fanout
  imports ConnOps
begin

text \<open>
  Sending through the connection manager (\<open>src/src/server/connection/manager/ops.rs\<close>,
  \<open>trait_impl.rs\<close>): the authentication gate, per-connection serialization, enqueueing with
  isolation of a slow or closed consumer, and the fan-outs.  A send does not suspend between
  taking a snapshot and enqueueing, so the concurrent streams of the source process their
  snapshots one after the other.  \<open>nz\<close> gives the random nonce drawn for a connection.
\<close>

section \<open>Gate and serialization\<close>

definition frame_allowed_before_auth :: "frame \<Rightarrow> bool" where
  "frame_allowed_before_auth f =
     (case frame_command_type f of
        Some (CmdSystem c) \<Rightarrow>
          sc_type c = system_type_as_i32 SysConnectAck \<or> sc_type c = system_type_as_i32 SysPing
          \<or> sc_type c = system_type_as_i32 SysPong \<or> sc_type c = system_type_as_i32 SysError
          \<or> sc_type c = system_type_as_i32 SysClose
      | _ \<Rightarrow> False)"

definition ensure_frame_allowed_for_connection :: "conn_info \<Rightarrow> frame \<Rightarrow> unit result" where
  "ensure_frame_allowed_for_connection i f =
     (if ci_authenticated i \<or> frame_allowed_before_auth f then Inr ()
      else Inl (localized AuthenticationFailed ''connection is not authenticated''))"

definition serialize_frame_for_connection ::
  "codec_env \<Rightarrow> bytes \<Rightarrow> conn_info \<Rightarrow> frame \<Rightarrow> message_parser option \<Rightarrow> bytes result" where
  "serialize_frame_for_connection env nonce i f parser =
     (case ensure_frame_allowed_for_connection i f of
        Inl e \<Rightarrow> Inl e
      | Inr _ \<Rightarrow>
          (case parser of
             Some p \<Rightarrow> serialize env nonce p f
           | None \<Rightarrow>
               if \<not> ci_negotiation_completed i then serialize env nonce PRE_NEGOTIATION_PARSER f
               else (case ci_cached_parser i of
                       Some p \<Rightarrow> serialize env nonce p f
                     | None \<Rightarrow>
                         serialize env nonce
                           (parser_new (ci_serialization_format i) (ci_compression i) (ci_encryption i)) f)))"

section \<open>Enqueueing\<close>

text \<open>The handle of a live queue always refers to one, so the last branch does not occur.\<close>

definition send_to_connection_handle ::
  "mgr_env \<Rightarrow> conn_id \<Rightarrow> nat \<Rightarrow> bytes \<Rightarrow> conn_manager \<Rightarrow> conn_manager \<times> unit result" where
  "send_to_connection_handle me cid q d cm =
     (case cm_queues cm q of
        Some wq \<Rightarrow>
          (case try_enqueue (me_runtime me) d wq of
             (wq', Inr _) \<Rightarrow> (cm\<lparr>cm_queues := (cm_queues cm)(q \<mapsto> wq')\<rparr>, Inr ())
           | (wq', Inl err) \<Rightarrow>
               (fst (remove_connection me cid
                       (close_queue me q (cm\<lparr>cm_queues := (cm_queues cm)(q \<mapsto> wq')\<rparr>))), Inl err))
      | None \<Rightarrow> (cm, Inl (localized GeneralError ''no such queue'')))"

definition send_frame_to_snapshot_without_active ::
  "mgr_env \<Rightarrow> codec_env \<Rightarrow> bytes \<Rightarrow> conn_id \<times> nat \<times> conn_info \<Rightarrow> frame \<Rightarrow> message_parser option
   \<Rightarrow> conn_manager \<Rightarrow> conn_manager \<times> conn_id result" where
  "send_frame_to_snapshot_without_active me env nonce snap f parser cm =
     (case snap of (cid, q, i) \<Rightarrow>
        (case serialize_frame_for_connection env nonce i f parser of
           Inl e \<Rightarrow> (cm, Inl e)
         | Inr d \<Rightarrow>
             (case send_to_connection_handle me cid q d cm of
                (cm', Inl e) \<Rightarrow> (cm', Inl e)
              | (cm', Inr _) \<Rightarrow> (cm', Inr cid))))"

definition send_frame_to_snapshot ::
  "mgr_env \<Rightarrow> codec_env \<Rightarrow> nat \<Rightarrow> bytes \<Rightarrow> conn_id \<times> nat \<times> conn_info \<Rightarrow> frame \<Rightarrow> message_parser option
   \<Rightarrow> conn_manager \<Rightarrow> conn_manager \<times> unit result" where
  "send_frame_to_snapshot me env now nonce snap f parser cm =
     (case send_frame_to_snapshot_without_active me env nonce snap f parser cm of
        (cm', Inl e) \<Rightarrow> (cm', Inl e)
      | (cm', Inr cid) \<Rightarrow> update_connection_active me now cid cm')"

definition send_serialized_frame_to_auth_snapshot_without_active ::
  "mgr_env \<Rightarrow> conn_id \<times> nat \<times> bool \<Rightarrow> frame \<Rightarrow> bytes \<Rightarrow> conn_manager \<Rightarrow> conn_manager \<times> conn_id result" where
  "send_serialized_frame_to_auth_snapshot_without_active me snap f d cm =
     (case snap of (cid, q, authenticated) \<Rightarrow>
        if \<not> authenticated \<and> \<not> frame_allowed_before_auth f
        then (cm, Inl (localized AuthenticationFailed ''connection is not authenticated''))
        else (case send_to_connection_handle me cid q d cm of
                (cm', Inl e) \<Rightarrow> (cm', Inl e)
              | (cm', Inr _) \<Rightarrow> (cm', Inr cid)))"

section \<open>Fan-out\<close>

text \<open>The common stream: send to each snapshot, collect the ids that succeeded.\<close>

fun fanout ::
  "('a \<Rightarrow> conn_manager \<Rightarrow> conn_manager \<times> conn_id result) \<Rightarrow> 'a list \<Rightarrow> conn_manager \<Rightarrow> conn_manager \<times> conn_id list" where
  "fanout send [] cm = (cm, [])"
| "fanout send (s # ss) cm =
     (let (cm1, r) = send s cm; (cm2, ids) = fanout send ss cm1
      in (cm2, case r of Inr c \<Rightarrow> c # ids | Inl _ \<Rightarrow> ids))"

definition fanout_serialized_frame_to_auth_snapshots ::
  "mgr_env \<Rightarrow> (conn_id \<times> nat \<times> bool) list \<Rightarrow> frame \<Rightarrow> bytes \<Rightarrow> conn_manager \<Rightarrow> conn_manager \<times> conn_id list" where
  "fanout_serialized_frame_to_auth_snapshots me snaps f d cm =
     fanout (\<lambda>s. send_serialized_frame_to_auth_snapshot_without_active me s f d) snaps cm"

definition fanout_frame_to_snapshots ::
  "mgr_env \<Rightarrow> codec_env \<Rightarrow> (conn_id \<Rightarrow> bytes) \<Rightarrow> (conn_id \<times> nat \<times> conn_info) list \<Rightarrow> frame
   \<Rightarrow> message_parser option \<Rightarrow> conn_manager \<Rightarrow> conn_manager \<times> conn_id list" where
  "fanout_frame_to_snapshots me env nz snaps f parser cm =
     fanout (\<lambda>s. send_frame_to_snapshot_without_active me env (nz (fst s)) s f parser) snaps cm"

type_synonym encoding = "serialization_format \<times> compression_algorithm"

definition push_group :: "encoding \<Rightarrow> 'a \<Rightarrow> (encoding, 'a list) amap \<Rightarrow> (encoding, 'a list) amap" where
  "push_group g s m = AList.update g (unwrap_or [] (map_of m g) @ [s]) m"

fun group_by_encoding ::
  "(conn_id \<times> nat \<times> conn_info) list \<Rightarrow> (encoding, (conn_id \<times> nat \<times> conn_info) list) amap
   \<Rightarrow> (conn_id \<times> nat \<times> conn_info) list
   \<Rightarrow> (encoding, (conn_id \<times> nat \<times> conn_info) list) amap \<times> (conn_id \<times> nat \<times> conn_info) list" where
  "group_by_encoding [] groups encrypted = (groups, encrypted)"
| "group_by_encoding (s # ss) groups encrypted =
     (let i = snd (snd s) in
      if \<not> ci_negotiation_completed i
      then group_by_encoding ss (push_group (Json, CompNone) s groups) encrypted
      else if ci_encryption i = EncNone
      then group_by_encoding ss (push_group (ci_serialization_format i, ci_compression i) s groups) encrypted
      else group_by_encoding ss groups (encrypted @ [s]))"

definition send_shared ::
  "mgr_env \<Rightarrow> frame \<Rightarrow> bytes \<Rightarrow> conn_id \<times> nat \<times> conn_info \<Rightarrow> conn_manager \<Rightarrow> conn_manager \<times> conn_id result" where
  "send_shared me f d snap cm =
     (case snap of (cid, q, i) \<Rightarrow>
        (case ensure_frame_allowed_for_connection i f of
           Inl e \<Rightarrow> (cm, Inl e)
         | Inr _ \<Rightarrow>
             (case send_to_connection_handle me cid q d cm of
                (cm', Inl e) \<Rightarrow> (cm', Inl e)
              | (cm', Inr _) \<Rightarrow> (cm', Inr cid))))"

fun fanout_groups ::
  "mgr_env \<Rightarrow> codec_env \<Rightarrow> frame \<Rightarrow> (encoding, (conn_id \<times> nat \<times> conn_info) list) amap \<Rightarrow> conn_manager
   \<Rightarrow> conn_manager \<times> conn_id list" where
  "fanout_groups me env f [] cm = (cm, [])"
| "fanout_groups me env f (((fmt, cmpr), grp) # gs) cm =
     (case serialize env [] (parser_new fmt cmpr EncNone) f of
        Inl _ \<Rightarrow> fanout_groups me env f gs cm
      | Inr d \<Rightarrow>
          (let (cm1, sent) = fanout (send_shared me f d) grp cm;
               (cm2, rest) = fanout_groups me env f gs cm1
           in (cm2, sent @ rest)))"

definition fanout_frame_grouped_by_encoding ::
  "mgr_env \<Rightarrow> codec_env \<Rightarrow> nat \<Rightarrow> (conn_id \<Rightarrow> bytes) \<Rightarrow> conn_id list \<Rightarrow> frame \<Rightarrow> conn_manager
   \<Rightarrow> conn_manager \<times> nat \<times> nat" where
  "fanout_frame_grouped_by_encoding me env now nz ids f cm =
     (let snaps = connection_snapshots_for_ids me ids cm; total = length snaps in
      if total = 0 then (cm, 0, 0)
      else
        (let (groups, encrypted) = group_by_encoding snaps [] [];
             (cm1, ok1) = fanout_groups me env f groups cm;
             (cm2, ok2) = (if encrypted \<noteq> [] then fanout_frame_to_snapshots me env nz encrypted f None cm1
                           else (cm1, []));
             successful = ok1 @ ok2;
             cm3 = fst (update_connections_active me now successful cm2)
         in (cm3, length successful, total - length successful)))"

section \<open>The trait's sending operations\<close>

fun send_all :: "mgr_env \<Rightarrow> bytes \<Rightarrow> (conn_id \<times> nat) list \<Rightarrow> conn_manager \<Rightarrow> conn_manager" where
  "send_all me d [] cm = cm"
| "send_all me d ((cid, q) # cs) cm = send_all me d cs (fst (send_to_connection_handle me cid q d cm))"

definition send_to_connection :: "mgr_env \<Rightarrow> conn_id \<Rightarrow> bytes \<Rightarrow> conn_manager \<Rightarrow> conn_manager \<times> unit result" where
  "send_to_connection me cid d cm =
     (case get_connection_snapshot me cid cm of
        None \<Rightarrow> (cm, Inl (localized ProtocolError ''Connection not found''))
      | Some (_, q, _) \<Rightarrow> send_to_connection_handle me cid q d cm)"

definition send_to_user :: "mgr_env \<Rightarrow> device_owner \<Rightarrow> bytes \<Rightarrow> conn_manager \<Rightarrow> conn_manager" where
  "send_to_user me ow d cm =
     send_all me d (connection_handles_for_ids me (get_user_connections me ow cm) cm) cm"

definition broadcast :: "mgr_env \<Rightarrow> bytes \<Rightarrow> conn_manager \<Rightarrow> conn_manager" where
  "broadcast me d cm = send_all me d (connection_handles cm) cm"

definition broadcast_except :: "mgr_env \<Rightarrow> bytes \<Rightarrow> conn_id \<Rightarrow> conn_manager \<Rightarrow> conn_manager" where
  "broadcast_except me d ex cm = send_all me d (connection_handles_except ex cm) cm"

definition send_frame_to ::
  "mgr_env \<Rightarrow> codec_env \<Rightarrow> nat \<Rightarrow> (conn_id \<Rightarrow> bytes) \<Rightarrow> conn_id \<Rightarrow> frame \<Rightarrow> message_parser option \<Rightarrow> conn_manager
   \<Rightarrow> conn_manager \<times> unit result" where
  "send_frame_to me env now nz cid f parser cm =
     (case get_connection_snapshot me cid cm of
        None \<Rightarrow> (cm, Inl (localized ConnectionFailed ''connection does not exist''))
      | Some snap \<Rightarrow> send_frame_to_snapshot me env now (nz cid) snap f parser cm)"

text \<open>The shared body of \<open>send_frame_to_user\<close> and the two frame broadcasts: with a given parser
  the frame is serialized once; otherwise per connection.\<close>

definition fanout_frame ::
  "mgr_env \<Rightarrow> codec_env \<Rightarrow> nat \<Rightarrow> (conn_id \<Rightarrow> bytes) \<Rightarrow> (conn_id \<times> nat \<times> bool) list \<Rightarrow> (conn_id \<times> nat \<times> conn_info) list
   \<Rightarrow> frame \<Rightarrow> message_parser option \<Rightarrow> conn_manager \<Rightarrow> conn_manager" where
  "fanout_frame me env now nz auth_snaps snaps f parser cm =
     (case parser of
        Some p \<Rightarrow>
          (case serialize env (nz []) p f of
             Inl _ \<Rightarrow> cm
           | Inr d \<Rightarrow>
               (let (cm1, ok) = fanout_serialized_frame_to_auth_snapshots me auth_snaps f d cm
                in fst (update_connections_active me now ok cm1)))
      | None \<Rightarrow>
          (let (cm1, ok) = fanout_frame_to_snapshots me env nz snaps f None cm
           in fst (update_connections_active me now ok cm1)))"

definition send_frame_to_user ::
  "mgr_env \<Rightarrow> codec_env \<Rightarrow> nat \<Rightarrow> (conn_id \<Rightarrow> bytes) \<Rightarrow> device_owner \<Rightarrow> frame \<Rightarrow> message_parser option
   \<Rightarrow> conn_manager \<Rightarrow> conn_manager" where
  "send_frame_to_user me env now nz ow f parser cm =
     (let ids = get_user_connections me ow cm
      in fanout_frame me env now nz (connection_auth_snapshots_for_ids me ids cm)
           (connection_snapshots_for_ids me ids cm) f parser cm)"

definition broadcast_frame ::
  "mgr_env \<Rightarrow> codec_env \<Rightarrow> nat \<Rightarrow> (conn_id \<Rightarrow> bytes) \<Rightarrow> frame \<Rightarrow> message_parser option \<Rightarrow> conn_manager \<Rightarrow> conn_manager" where
  "broadcast_frame me env now nz f parser cm =
     fanout_frame me env now nz (connection_auth_snapshots cm) (connection_snapshots cm) f parser cm"

definition broadcast_frame_except ::
  "mgr_env \<Rightarrow> codec_env \<Rightarrow> nat \<Rightarrow> (conn_id \<Rightarrow> bytes) \<Rightarrow> frame \<Rightarrow> conn_id \<Rightarrow> message_parser option \<Rightarrow> conn_manager
   \<Rightarrow> conn_manager" where
  "broadcast_frame_except me env now nz f ex parser cm =
     fanout_frame me env now nz (connection_auth_snapshots_except ex cm)
       (connection_snapshots_except ex cm) f parser cm"

text \<open>One round of a connection's writer task.  When it gives the connection up it asks, after closing it, for
  its removal (\<open>registry_remove_connection\<close>), which is a step of its own.\<close>

definition manager_writer_step :: "nat \<Rightarrow> send_outcome \<Rightarrow> conn_manager \<Rightarrow> conn_manager \<times> conn_id option" where
  "manager_writer_step q out cm =
     (case cm_queues cm q of
        None \<Rightarrow> (cm, None)
      | Some wq \<Rightarrow>
          (let (wq', rm) = writer_step out wq
           in (cm\<lparr>cm_queues := (cm_queues cm)(q \<mapsto> wq')\<rparr>, if rm then Some (wq_connection_id wq) else None)))"

section \<open>The effect of one send\<close>

text \<open>A handle taken from the table: its queue belongs to that connection, and the connection,
  while registered, still uses it.\<close>

definition snap_ok :: "mgr_env \<Rightarrow> conn_manager \<Rightarrow> conn_id \<times> nat \<Rightarrow> bool" where
  "snap_ok me cm t \<longleftrightarrow>
     (\<exists>wq. cm_queues cm (snd t) = Some wq \<and> wq_connection_id wq = fst t) \<and>
     (\<forall>e. lookup_conn me cm (fst t) = Some e \<longrightarrow> en_writer e = snd t)"

lemma snap_ok_lookup:
  "mgr_inv ix me k cm \<Longrightarrow> lookup_conn me cm c = Some e \<Longrightarrow> snap_ok me cm (c, en_writer e)"
  using mgr_invD(3) by (fastforce simp: snap_ok_def)

lemma try_enqueue_keeps_id: "wq_connection_id (fst (try_enqueue rt d q)) = wq_connection_id q"
  by (simp add: try_enqueue_def try_send_def ensure_writer_started_def Let_def)

lemma queue_update_inv:
  assumes inv: "mgr_inv ix me k cm" and q: "cm_queues cm q = Some wq" "wq_connection_id wq' = wq_connection_id wq"
  shows "mgr_inv ix me k (cm\<lparr>cm_queues := (cm_queues cm)(q \<mapsto> wq')\<rparr>)"
    "infos me (cm\<lparr>cm_queues := (cm_queues cm)(q \<mapsto> wq')\<rparr>) = infos me cm"
proof -
  let ?cm = "cm\<lparr>cm_queues := (cm_queues cm)(q \<mapsto> wq')\<rparr>"
  have "conns_inv me k ?cm"
    unfolding conns_inv_def
  proof (intro conjI allI impI)
    fix c e assume e: "lookup_conn me ?cm c = Some e"
    then have "lookup_conn me cm c = Some e" by simp
    from mgr_invD(2,3) [OF inv this] q
    show "ci_connection_id (en_info e) = c" "\<exists>p. cm_queues ?cm (en_writer e) = Some p \<and> wq_connection_id p = c"
      by auto
  next
    fix p assume "cm_queues ?cm p \<noteq> None"
    then show "p < cm_next_queue ?cm" using mgr_invD(5) [OF inv, of p] q by (auto split: if_splits)
  qed (use mgr_invD(1,4) [OF inv] in simp_all)
  then show "mgr_inv ix me k ?cm" by (rule mgr_inv_users_cong [OF inv]) (simp_all add: owner_of_def [abs_def])
  show "infos me ?cm = infos me cm" by (simp add: infos_def [abs_def])
qed

lemma remove_connection_fields:
  "lookup_conn me cm c = Some e \<Longrightarrow> cm_queues (fst (remove_connection me c cm)) =
     (cm_queues cm)(en_writer e := map_option (close_underlying_in_background (me_runtime me)) (cm_queues cm (en_writer e)))"
  "lookup_conn me cm c = None \<Longrightarrow> fst (remove_connection me c cm) = cm"
  by (auto simp: remove_connection_def release_connection_slot_def close_queue_def Let_def split: option.splits)

lemma infos_lookup_mono:
  "infos me cm' c = None \<Longrightarrow> lookup_conn me cm' c = None"
  by (simp add: infos_def)

lemma remove_connection_lookup:
  assumes "mgr_inv ix me k cm"
  shows "lookup_conn me (fst (remove_connection me c cm)) = (lookup_conn me cm)(c := None)"
  using mgr_invD(1) [OF assms]
  by (auto simp: remove_connection_def release_connection_slot_def close_queue_def Let_def lookup_conn_def
      fun_eq_iff split: option.splits)

lemma send_handle_spec:
  assumes inv: "mgr_inv ix me k cm" and snap: "snap_ok me cm (cid, q)"
    and send: "send_to_connection_handle me cid q d cm = (cm', r)"
  shows "mgr_inv ix me k cm'"
    and "q' \<noteq> q \<Longrightarrow> cm_queues cm' q' = cm_queues cm q'"
    and "lookup_conn me cm' = (if r = Inr () then lookup_conn me cm else (lookup_conn me cm)(cid := None))"
    and "map_option wq_connection_id (cm_queues cm' p) = map_option wq_connection_id (cm_queues cm p)"
    and "\<exists>wq wq'. cm_queues cm q = Some wq \<and> cm_queues cm' q = Some wq' \<and>
           (if r = Inr () then wq_buffer wq' = wq_buffer wq @ [d] \<and> wq_sent wq' = wq_sent wq
            else wq_closed wq' \<and> wq_buffer wq' = wq_buffer wq \<and> wq_sent wq' = wq_sent wq)"
proof -
  from snap obtain wq where wq: "cm_queues cm q = Some wq" "wq_connection_id wq = cid"
    and own: "\<And>e. lookup_conn me cm cid = Some e \<Longrightarrow> en_writer e = q"
    by (auto simp: snap_ok_def)
  obtain wq1 r1 where enq: "try_enqueue (me_runtime me) d wq = (wq1, r1)" by fastforce
  have id1: "wq_connection_id wq1 = cid" using try_enqueue_keeps_id [of "me_runtime me" d wq] enq wq by simp
  let ?cm1 = "cm\<lparr>cm_queues := (cm_queues cm)(q \<mapsto> wq1)\<rparr>"
  note inv1 = queue_update_inv(1) [OF inv wq(1), of wq1, simplified id1 wq(2), OF refl]
  have all: "mgr_inv ix me k cm' \<and> (\<forall>q'. q' \<noteq> q \<longrightarrow> cm_queues cm' q' = cm_queues cm q')
      \<and> lookup_conn me cm' = (if r = Inr () then lookup_conn me cm else (lookup_conn me cm)(cid := None))
      \<and> (\<exists>wq'. cm_queues cm' q = Some wq' \<and> wq_connection_id wq' = cid \<and>
           (if r = Inr () then wq_buffer wq' = wq_buffer wq @ [d] \<and> wq_sent wq' = wq_sent wq
            else wq_closed wq' \<and> wq_buffer wq' = wq_buffer wq \<and> wq_sent wq' = wq_sent wq))"
  proof (cases r1)
    case (Inr u)
    with send wq enq have "cm' = ?cm1" "r = Inr ()" by (auto simp: send_to_connection_handle_def)
    with inv1 Inr enq id1 try_enqueue_Inr [of "me_runtime me" d wq wq1] show ?thesis by simp
  next
    case (Inl err)
    let ?cm2 = "close_queue me q ?cm1"
    from send wq enq Inl have cm': "cm' = fst (remove_connection me cid ?cm2)" and r: "r = Inl err"
      by (auto simp: send_to_connection_handle_def)
    have inv2: "mgr_inv ix me k ?cm2" and look2: "lookup_conn me ?cm2 = lookup_conn me cm"
      using close_queue_inv(1,3) [OF inv1] by simp_all
    obtain cm3 r3 where rem: "remove_connection me cid ?cm2 = (cm3, r3)" by fastforce
    have "mgr_inv ix me k cm'" using remove_connection_spec(1) [OF inv2 rem] rem by (simp add: cm')
    moreover have "lookup_conn me cm' = (lookup_conn me cm)(cid := None)"
      using remove_connection_lookup [OF inv2] by (simp add: cm' look2)
    moreover have "\<forall>q'. q' \<noteq> q \<longrightarrow> cm_queues cm' q' = cm_queues cm q'"
      "\<exists>wq'. cm_queues cm' q = Some wq' \<and> wq_connection_id wq' = cid \<and> wq_closed wq'
         \<and> wq_buffer wq' = wq_buffer wq1 \<and> wq_sent wq' = wq_sent wq1"
      using own id1 remove_connection_fields [of me ?cm2 cid] look2
      by (cases "lookup_conn me cm cid"; simp add: cm' close_queue_def)+
    ultimately show ?thesis
      using r try_enqueue_Inl [of "me_runtime me" d wq wq1 err] enq Inl by auto
  qed
  then have other: "\<And>q'. q' \<noteq> q \<Longrightarrow> cm_queues cm' q' = cm_queues cm q'" by blast
  from all show "mgr_inv ix me k cm'"
    and "q' \<noteq> q \<Longrightarrow> cm_queues cm' q' = cm_queues cm q'"
    and "lookup_conn me cm' = (if r = Inr () then lookup_conn me cm else (lookup_conn me cm)(cid := None))"
    by blast+
  show "\<exists>wq wq'. cm_queues cm q = Some wq \<and> cm_queues cm' q = Some wq' \<and>
           (if r = Inr () then wq_buffer wq' = wq_buffer wq @ [d] \<and> wq_sent wq' = wq_sent wq
            else wq_closed wq' \<and> wq_buffer wq' = wq_buffer wq \<and> wq_sent wq' = wq_sent wq)"
    using all wq by blast
  show "map_option wq_connection_id (cm_queues cm' p) = map_option wq_connection_id (cm_queues cm p)"
  proof (cases "p = q")
    case True
    from all obtain wq' where "cm_queues cm' q = Some wq'" "wq_connection_id wq' = cid" by blast
    with True wq show ?thesis by simp
  next
    case False
    then show ?thesis using other [of p] by simp
  qed
qed

lemma send_handle_snap:
  assumes inv: "mgr_inv ix me k cm" and snap: "snap_ok me cm (cid, q)" and t: "snap_ok me cm t"
    and send: "send_to_connection_handle me cid q d cm = (cm', r)"
  shows "snap_ok me cm' t"
proof -
  have "lookup_conn me cm' c = Some e \<Longrightarrow> lookup_conn me cm c = Some e" for c e
    using send_handle_spec(3) [OF inv snap send] by (auto split: if_splits)
  moreover have "\<exists>wq. cm_queues cm' (snd t) = Some wq \<and> wq_connection_id wq = fst t"
    using t send_handle_spec(4) [OF inv snap send, of "snd t"]
    by (cases "cm_queues cm' (snd t)") (auto simp: snap_ok_def)
  ultimately show ?thesis using t unfolding snap_ok_def by blast
qed

section \<open>The contract of a snapshot sender\<close>

text \<open>What the fan-outs rely on of the function that sends to one snapshot: it keeps the
  manager's invariant and the validity of every handle, writes to no queue but the
  snapshot's, and does nothing at all when the gate is shut.\<close>

locale snapshot_sender =
  fixes me :: mgr_env
    and send :: "'a \<Rightarrow> conn_manager \<Rightarrow> conn_manager \<times> conn_id result"
    and tgt :: "'a \<Rightarrow> conn_id \<times> nat"
    and gate :: "'a \<Rightarrow> bool"
  assumes send_inv: "mgr_inv ix me k cm \<Longrightarrow> snap_ok me cm (tgt s) \<Longrightarrow> send s cm = (cm', r) \<Longrightarrow> mgr_inv ix me k cm'"
    and send_snap: "mgr_inv ix me k cm \<Longrightarrow> snap_ok me cm (tgt s) \<Longrightarrow> snap_ok me cm t \<Longrightarrow> send s cm = (cm', r) \<Longrightarrow> snap_ok me cm' t"
    and send_touch: "mgr_inv ix me k cm \<Longrightarrow> snap_ok me cm (tgt s) \<Longrightarrow> send s cm = (cm', r) \<Longrightarrow>
           p \<noteq> snd (tgt s) \<Longrightarrow> cm_queues cm' p = cm_queues cm p"
    and send_infos: "mgr_inv ix me k cm \<Longrightarrow> snap_ok me cm (tgt s) \<Longrightarrow> send s cm = (cm', r) \<Longrightarrow>
           c \<noteq> fst (tgt s) \<Longrightarrow> infos me cm' c = infos me cm c"
    and send_back: "mgr_inv ix me k cm \<Longrightarrow> snap_ok me cm (tgt s) \<Longrightarrow> send s cm = (cm', r) \<Longrightarrow>
           infos me cm' c = Some i \<Longrightarrow> infos me cm c = Some i"
    and send_shut: "\<not> gate s \<Longrightarrow> send s cm = (cm', r) \<Longrightarrow> cm' = cm"
    and send_ok: "send s cm = (cm', Inr c) \<Longrightarrow> gate s \<and> c = fst (tgt s)"
begin

lemma fanout_ids: "fanout send ss cm = (cm', ids) \<Longrightarrow> set ids \<subseteq> fst ` tgt ` {s \<in> set ss. gate s}"
proof (induction ss arbitrary: cm ids)
  case (Cons s ss)
  obtain cm1 r where s: "send s cm = (cm1, r)" by fastforce
  obtain ids1 where ss: "fanout send ss cm1 = (cm', ids1)"
    and ids: "ids = (case r of Inr c \<Rightarrow> c # ids1 | Inl _ \<Rightarrow> ids1)"
    using Cons.prems s by (auto split: prod.splits)
  from Cons.IH [OF ss] s ids show ?case
    by (cases r) (auto dest!: send_ok)
qed simp

lemma fanout_keeps:
  assumes "mgr_inv ix me k cm" "\<And>s. s \<in> set ss \<Longrightarrow> snap_ok me cm (tgt s)" "fanout send ss cm = (cm', ids)"
  shows "mgr_inv ix me k cm' \<and> (\<forall>t. snap_ok me cm t \<longrightarrow> snap_ok me cm' t)
       \<and> (\<forall>p. p \<notin> snd ` tgt ` {s \<in> set ss. gate s} \<longrightarrow> cm_queues cm' p = cm_queues cm p)
       \<and> (\<forall>c. c \<notin> fst ` tgt ` {s \<in> set ss. gate s} \<longrightarrow> infos me cm' c = infos me cm c)
       \<and> (\<forall>c i. infos me cm' c = Some i \<longrightarrow> infos me cm c = Some i)"
  using assms
proof (induction ss arbitrary: cm ids)
  case (Cons s ss)
  obtain cm1 r where s: "send s cm = (cm1, r)" by fastforce
  obtain ids1 where ss: "fanout send ss cm1 = (cm', ids1)"
    using Cons.prems(3) s by (auto split: prod.splits)
  have ok: "snap_ok me cm (tgt s)" using Cons.prems(2) by simp
  have cm1: "mgr_inv ix me k cm1" by (rule send_inv [OF Cons.prems(1) ok s])
  have keep: "snap_ok me cm1 t" if "snap_ok me cm t" for t
    by (rule send_snap [OF Cons.prems(1) ok that s])
  have touch: "cm_queues cm1 p = cm_queues cm p" if "\<not> gate s \<or> p \<noteq> snd (tgt s)" for p
    using that send_shut [OF _ s] send_touch [OF Cons.prems(1) ok s] by auto
  have info: "infos me cm1 c = infos me cm c" if "\<not> gate s \<or> c \<noteq> fst (tgt s)" for c
    using that send_shut [OF _ s] send_infos [OF Cons.prems(1) ok s] by auto
  have IH: "mgr_inv ix me k cm' \<and> (\<forall>t. snap_ok me cm1 t \<longrightarrow> snap_ok me cm' t)
       \<and> (\<forall>p. p \<notin> snd ` tgt ` {s \<in> set ss. gate s} \<longrightarrow> cm_queues cm' p = cm_queues cm1 p)
       \<and> (\<forall>c. c \<notin> fst ` tgt ` {s \<in> set ss. gate s} \<longrightarrow> infos me cm' c = infos me cm1 c)
       \<and> (\<forall>c i. infos me cm' c = Some i \<longrightarrow> infos me cm1 c = Some i)"
    using Cons.prems(2) by (intro Cons.IH [OF cm1 _ ss] keep) simp
  have "cm_queues cm' p = cm_queues cm p" if "p \<notin> snd ` tgt ` {x \<in> set (s # ss). gate x}" for p
  proof -
    from that have "p \<notin> snd ` tgt ` {x \<in> set ss. gate x}" "\<not> gate s \<or> p \<noteq> snd (tgt s)" by auto
    with IH touch show ?thesis by metis
  qed
  moreover have "infos me cm' c = infos me cm c" if "c \<notin> fst ` tgt ` {x \<in> set (s # ss). gate x}" for c
  proof -
    from that have "c \<notin> fst ` tgt ` {x \<in> set ss. gate x}" "\<not> gate s \<or> c \<noteq> fst (tgt s)" by auto
    with IH info show ?thesis by metis
  qed
  moreover have "infos me cm c = Some i" if "infos me cm' c = Some i" for c i
    using IH that send_back [OF Cons.prems(1) ok s] by blast
  ultimately show ?case using IH keep by blast
qed simp

end

lemma snapshot_senderI:
  assumes "\<And>s cm cm' r. send s cm = (cm', r) \<Longrightarrow>
     cm' = cm \<or> gate s \<and> (\<exists>d r'. send_to_connection_handle me (fst (tgt s)) (snd (tgt s)) d cm = (cm', r'))"
    and "\<And>s cm cm' c. send s cm = (cm', Inr c) \<Longrightarrow> gate s \<and> c = fst (tgt s)"
  shows "snapshot_sender me send tgt gate"
proof
  fix ix k cm s cm' r t p c
  assume inv: "mgr_inv ix me k cm" and ok: "snap_ok me cm (tgt s)" and send: "send s cm = (cm', r)"
  have ok': "snap_ok me cm (fst (tgt s), snd (tgt s))" using ok by simp
  note cases = assms(1) [OF send]
  show "mgr_inv ix me k cm'" using cases inv send_handle_spec(1) [OF inv ok'] by blast
  show "cm_queues cm' p = cm_queues cm p" if "p \<noteq> snd (tgt s)"
    using cases send_handle_spec(2) [OF inv ok' _ that] by blast
  show "infos me cm' c = infos me cm c" if "c \<noteq> fst (tgt s)"
    using cases that send_handle_spec(3) [OF inv ok'] by (auto simp: infos_def split: if_splits)
  show "infos me cm c = Some i" if "infos me cm' c = Some i" for i
    using cases that send_handle_spec(3) [OF inv ok'] by (auto simp: infos_def split: if_splits)
  show "snap_ok me cm' t" if "snap_ok me cm t"
    using cases that send_handle_snap [OF inv ok' that] by blast
next
  fix s cm cm' r assume "\<not> gate s" "send s cm = (cm', r)"
  then show "cm' = cm" using assms(1) by blast
next
  fix s cm cm' c assume "send s cm = (cm', Inr c)"
  then show "gate s \<and> c = fst (tgt s)" by (rule assms(2))
qed

definition snap_target :: "conn_id \<times> nat \<times> 'b \<Rightarrow> conn_id \<times> nat" where
  "snap_target s = (fst s, fst (snd s))"

definition raw_send ::
  "mgr_env \<Rightarrow> bytes \<Rightarrow> conn_id \<times> nat \<Rightarrow> conn_manager \<Rightarrow> conn_manager \<times> conn_id result" where
  "raw_send me d s cm = (case send_to_connection_handle me (fst s) (snd s) d cm of
     (cm', Inl e) \<Rightarrow> (cm', Inl e) | (cm', Inr _) \<Rightarrow> (cm', Inr (fst s)))"

lemma send_all_fanout: "send_all me d cs cm = fst (fanout (raw_send me d) cs cm)"
  by (induction me d cs cm rule: send_all.induct)
     (auto simp: raw_send_def Let_def split: prod.splits sum.splits)

interpretation raw_sender: snapshot_sender me "raw_send me d" "\<lambda>s. s" "\<lambda>_. True"
  for me :: mgr_env and d :: bytes
  by (rule snapshot_senderI) (auto simp: raw_send_def split: prod.splits sum.splits)

interpretation frame_sender: snapshot_sender me
    "\<lambda>s. send_frame_to_snapshot_without_active me env (nz (fst s)) s f parser" snap_target
    "\<lambda>s. ci_authenticated (snd (snd s)) \<or> frame_allowed_before_auth f"
  for me :: mgr_env and env :: codec_env and nz :: "conn_id \<Rightarrow> bytes" and f :: frame
    and parser :: "message_parser option"
  by (rule snapshot_senderI)
     (auto simp: send_frame_to_snapshot_without_active_def serialize_frame_for_connection_def
        ensure_frame_allowed_for_connection_def snap_target_def split: prod.splits sum.splits if_splits)

interpretation auth_sender: snapshot_sender me
    "\<lambda>s. send_serialized_frame_to_auth_snapshot_without_active me s f d" snap_target
    "\<lambda>s. snd (snd s) \<or> frame_allowed_before_auth f"
  for me :: mgr_env and f :: frame and d :: bytes
  by (rule snapshot_senderI)
     (auto simp: send_serialized_frame_to_auth_snapshot_without_active_def snap_target_def
        split: prod.splits sum.splits if_splits)

interpretation shared_sender: snapshot_sender me "send_shared me f d" snap_target
    "\<lambda>s. ci_authenticated (snd (snd s)) \<or> frame_allowed_before_auth f"
  for me :: mgr_env and f :: frame and d :: bytes
  by (rule snapshot_senderI)
     (auto simp: send_shared_def ensure_frame_allowed_for_connection_def snap_target_def
        split: prod.splits sum.splits if_splits)

end
