(* ===== verification/Delivery.thy ===== *)
theory Delivery
  imports Fanout "HOL-Library.Multiset"
begin

text \<open>
  Who receives what: the sending operations of the connection manager keep its invariant, reach
  exactly the connections they are meant for, respect the authentication gate, and isolate a
  consumer that does not drain its queue.
\<close>

section \<open>Connections an operation does not touch\<close>

definition untouched :: "mgr_env \<Rightarrow> conn_manager \<Rightarrow> conn_manager \<Rightarrow> conn_id \<Rightarrow> bool" where
  "untouched me cm cm' c \<longleftrightarrow> infos me cm' c = infos me cm c \<and>
     (\<forall>e. lookup_conn me cm c = Some e \<longrightarrow> cm_queues cm' (en_writer e) = cm_queues cm (en_writer e))"

lemma untouched_refl [simp]: "untouched me cm cm c"
  by (simp add: untouched_def)

text \<open>Connections only disappear or become active at the time of the call.\<close>

definition aged :: "mgr_env \<Rightarrow> nat \<Rightarrow> conn_manager \<Rightarrow> conn_manager \<Rightarrow> bool" where
  "aged me now cm cm' \<longleftrightarrow>
     (\<forall>c i'. infos me cm' c = Some i' \<longrightarrow> (\<exists>i. infos me cm c = Some i \<and> (i' = i \<or> i' = i\<lparr>ci_last_active := now\<rparr>)))"

lemma aged_refl [simp]: "aged me now cm cm"
  by (simp add: aged_def)

lemma aged_trans: "aged me now cm cm1 \<Longrightarrow> aged me now cm1 cm2 \<Longrightarrow> aged me now cm cm2"
  unfolding aged_def by fastforce

definition keeps_but :: "index_view \<Rightarrow> mgr_env \<Rightarrow> nat \<Rightarrow> nat \<Rightarrow> conn_id set \<Rightarrow> conn_manager \<Rightarrow> conn_manager \<Rightarrow> bool" where
  "keeps_but ix me now k S cm cm' \<longleftrightarrow> mgr_inv ix me k cm' \<and> (\<forall>t. snap_ok me cm t \<longrightarrow> snap_ok me cm' t) \<and>
     aged me now cm cm' \<and> (\<forall>c. c \<notin> S \<longrightarrow> untouched me cm cm' c)"

lemma keeps_but_refl: "mgr_inv ix me k cm \<Longrightarrow> keeps_but ix me now k S cm cm"
  by (simp add: keeps_but_def)

lemma keeps_but_trans:
  assumes inv: "mgr_inv ix me k cm" and a: "keeps_but ix me now k S cm cm1" and b: "keeps_but ix me now k S cm1 cm2"
  shows "keeps_but ix me now k S cm cm2"
  unfolding keeps_but_def
proof (intro conjI allI impI)
  show "mgr_inv ix me k cm2" "\<And>t. snap_ok me cm t \<Longrightarrow> snap_ok me cm2 t" "aged me now cm cm2"
    using a b aged_trans unfolding keeps_but_def by blast+
  fix c assume "c \<notin> S"
  with a b have u: "untouched me cm cm1 c" "untouched me cm1 cm2 c" by (auto simp: keeps_but_def)
  have "cm_queues cm2 (en_writer e) = cm_queues cm (en_writer e)" if e: "lookup_conn me cm c = Some e" for e
  proof -
    from u(1) e obtain e1 where e1: "lookup_conn me cm1 c = Some e1" by (auto simp: untouched_def infos_def)
    have "snap_ok me cm1 (c, en_writer e)"
      using a snap_ok_lookup [OF inv e] by (auto simp: keeps_but_def)
    with e1 have "en_writer e1 = en_writer e" by (simp add: snap_ok_def)
    with u e e1 show ?thesis by (simp add: untouched_def)
  qed
  with u show "untouched me cm cm2 c" by (simp add: untouched_def)
qed

lemma keeps_butI:
  assumes inv: "mgr_inv ix me k cm" "mgr_inv ix me k cm'"
    and ok: "\<And>t. t \<in> T \<Longrightarrow> snap_ok me cm t"
    and q: "\<And>p. p \<notin> snd ` T \<Longrightarrow> cm_queues cm' p = cm_queues cm p"
    and i: "\<And>c. c \<notin> fst ` T \<Longrightarrow> infos me cm' c = infos me cm c"
    and sub: "fst ` T \<subseteq> S" and snap: "\<And>t. snap_ok me cm t \<Longrightarrow> snap_ok me cm' t"
    and old: "\<And>c i. infos me cm' c = Some i \<Longrightarrow> infos me cm c = Some i"
  shows "keeps_but ix me now k S cm cm'"
  unfolding keeps_but_def untouched_def
proof (intro conjI allI impI)
  fix t assume "snap_ok me cm t"
  then show "snap_ok me cm' t" by (rule snap)
next
  show "aged me now cm cm'"
    unfolding aged_def by (auto dest!: old)
next
  fix c assume c: "c \<notin> S"
  then show "infos me cm' c = infos me cm c" using i sub by blast
  fix e assume e: "lookup_conn me cm c = Some e"
  from mgr_invD(3) [OF inv(1) e] obtain wq where wq: "cm_queues cm (en_writer e) = Some wq" "wq_connection_id wq = c"
    by blast
  have "en_writer e \<notin> snd ` T"
  proof
    assume "en_writer e \<in> snd ` T"
    then obtain t where t: "t \<in> T" "en_writer e = snd t" by blast
    with ok [OF t(1)] wq have "fst t = c" by (auto simp: snap_ok_def)
    with t(1) c sub show False by blast
  qed
  then show "cm_queues cm' (en_writer e) = cm_queues cm (en_writer e)" by (rule q)
qed (fact inv(2))

lemma keeps_untouched: "keeps_but ix me now k S cm cm' \<Longrightarrow> c \<notin> S \<Longrightarrow> untouched me cm cm' c"
  by (simp add: keeps_but_def)

lemma keeps_but_mono: "keeps_but ix me now k S cm cm' \<Longrightarrow> S \<subseteq> S' \<Longrightarrow> keeps_but ix me now k S' cm cm'"
  by (auto simp: keeps_but_def)

lemma touch_loop_writers:
  assumes "mgr_inv ix me k cm" "touch_loop me now ids cm = (cm', n)"
  shows "map_option en_writer (lookup_conn me cm' c) = map_option en_writer (lookup_conn me cm c)"
  using assms
proof (induction me now ids cm arbitrary: cm' n rule: touch_loop.induct)
  case (2 me now cid ids cm)
  show ?case
  proof (cases "lookup_conn me cm cid")
    case None
    with 2 show ?thesis by auto
  next
    case (Some e)
    let ?i = "info_update_active now (en_info e)"
    obtain cm2 m where rec: "touch_loop me now ids (put_info me cid e ?i cm) = (cm2, m)" by fastforce
    have "cm' = cm2" using 2(4) Some rec by simp
    with 2(2) [OF Some put_info_same_owner_inv(1) [OF 2(3) Some, of ?i, simplified] rec] Some
    show ?thesis using mgr_invD(1) [OF 2(3)] by (simp add: put_info_def split: if_splits)
  qed
qed simp

lemma touch_keeps:
  assumes inv: "mgr_inv ix me k cm" and t: "touch_loop me now ids cm = (cm', n)" and sub: "set ids \<subseteq> S"
  shows "keeps_but ix me now k S cm cm'"
proof -
  note spec = touch_loop_spec [OF inv t]
  have "snap_ok me cm' u" if "snap_ok me cm u" for u
    using that spec touch_loop_writers [OF inv t, of "fst u"]
    by (cases "lookup_conn me cm (fst u)") (auto simp: snap_ok_def)
  moreover have "aged me now cm cm'"
    unfolding aged_def
  proof (intro allI impI)
    fix c i' assume i': "infos me cm' c = Some i'"
    with spec obtain i where i: "infos me cm c = Some i" "i' = info_update_active now i \<or> i' = i"
      by (auto split: if_splits)
    then show "\<exists>i. infos me cm c = Some i \<and> (i' = i \<or> i' = i\<lparr>ci_last_active := now\<rparr>)"
      by (auto simp: info_update_active_def)
  qed
  ultimately show ?thesis using spec sub by (auto simp: keeps_but_def untouched_def)
qed

lemma keeps_but_active:
  assumes cm: "mgr_inv ix me k cm" and "keeps_but ix me now k S cm cm'" "set ids \<subseteq> S"
  shows "keeps_but ix me now k S cm (fst (update_connections_active me now ids cm'))"
proof -
  from assms(2) have inv: "mgr_inv ix me k cm'" by (simp add: keeps_but_def)
  let ?ids = "concat (group_by_shard (\<lambda>c. shard_index (me_hash_conn me) c (length (cm_conns cm')))
      (length (cm_conns cm')) ids)"
  obtain cm2 n where upd: "touch_loop me now ?ids cm' = (cm2, n)" by fastforce
  have "set ?ids = set ids" by (rule group_by_shard_set) (rule shard_ids_less [OF inv])
  with touch_keeps [OF inv upd] assms(3) keeps_but_trans [OF cm assms(2)] upd show ?thesis
    by (simp add: update_connections_active_def del: set_concat)
qed

context snapshot_sender
begin

lemma fanout_keeps_but:
  assumes "mgr_inv ix me k cm" "\<And>s. s \<in> set ss \<Longrightarrow> snap_ok me cm (tgt s)" "fanout send ss cm = (cm', ids)"
    and sub: "\<And>s. s \<in> set ss \<Longrightarrow> gate s \<Longrightarrow> fst (tgt s) \<in> S"
  shows "keeps_but ix me now k S cm cm'" "set ids \<subseteq> S"
proof -
  let ?T = "tgt ` {s \<in> set ss. gate s}"
  note keep = fanout_keeps [OF assms(1-3)]
  show "keeps_but ix me now k S cm cm'"
  proof (rule keeps_butI [where T = ?T])
    show "mgr_inv ix me k cm" by (fact assms(1))
    show "snap_ok me cm t" if "t \<in> ?T" for t using that assms(2) by blast
    show "fst ` ?T \<subseteq> S" using sub by blast
  qed (use keep in blast)+
  show "set ids \<subseteq> S" using fanout_ids [OF assms(3)] sub by blast
qed

end

section \<open>Snapshots refer to registered connections\<close>

lemma handle_ok:
  assumes "mgr_inv ix me k cm" "lookup_conn me cm c = Some e"
  shows "snap_ok me cm (handle_view c e)" "snap_ok me cm (snap_target (auth_view c e))"
    "snap_ok me cm (snap_target (info_view c e))"
  using snap_ok_lookup [OF assms]
  by (simp_all add: handle_view_def auth_view_def info_view_def snap_target_def)

lemma view_simps [simp]:
  "fst (handle_view c e) = c" "fst (snap_target (auth_view c e)) = c" "fst (snap_target (info_view c e)) = c"
  "snd (snd (auth_view c e)) = ci_authenticated (en_info e)" "snd (snd (info_view c e)) = en_info e"
  by (simp_all add: handle_view_def auth_view_def info_view_def snap_target_def)

lemmas snapshot_defs =
  connection_handles_def connection_handles_except_def connection_handles_for_ids_def
  connection_auth_snapshots_def connection_auth_snapshots_except_def connection_auth_snapshots_for_ids_def
  connection_snapshots_def connection_snapshots_except_def connection_snapshots_for_ids_def

text \<open>The connections in \<open>ids\<close> that the gate lets \<open>f\<close> through to.\<close>

definition admitted :: "mgr_env \<Rightarrow> conn_manager \<Rightarrow> frame \<Rightarrow> conn_id set \<Rightarrow> conn_id set" where
  "admitted me cm f S = {c \<in> S. \<exists>i. infos me cm c = Some i \<and> (ci_authenticated i \<or> frame_allowed_before_auth f)}"

lemma admittedI:
  "c \<in> S \<Longrightarrow> lookup_conn me cm c = Some e \<Longrightarrow> ci_authenticated (en_info e) \<or> frame_allowed_before_auth f
   \<Longrightarrow> c \<in> admitted me cm f S"
  by (auto simp: admitted_def infos_def)

lemma fanout_frame_keeps:
  assumes inv: "mgr_inv ix me k cm"
    and auth: "\<And>s. s \<in> set as \<Longrightarrow> \<exists>c e. c \<in> S \<and> lookup_conn me cm c = Some e \<and> s = auth_view c e"
    and snap: "\<And>s. s \<in> set ss \<Longrightarrow> \<exists>c e. c \<in> S \<and> lookup_conn me cm c = Some e \<and> s = info_view c e"
  shows "keeps_but ix me now k (admitted me cm f S) cm (fanout_frame me env now nz as ss f parser cm)"
proof -
  have self: "keeps_but ix me now k (admitted me cm f S) cm cm" using inv by (simp add: keeps_but_def)
  show ?thesis
  proof (cases parser)
    case None
    obtain cm1 ids where fan: "fanout_frame_to_snapshots me env nz ss f None cm = (cm1, ids)" by fastforce
    have ok: "snap_ok me cm (snap_target s)" if "s \<in> set ss" for s
      using snap [OF that] handle_ok [OF inv] by auto
    have sub: "fst (snap_target s) \<in> admitted me cm f S"
      if "s \<in> set ss" "ci_authenticated (snd (snd s)) \<or> frame_allowed_before_auth f" for s
      using snap [OF that(1)] that(2) by (auto intro: admittedI)
    show ?thesis
      using keeps_but_active [OF inv frame_sender.fanout_keeps_but [OF inv ok fan [unfolded fanout_frame_to_snapshots_def] sub]]
      by (simp add: fanout_frame_def None fan)
  next
    case (Some p)
    show ?thesis
    proof (cases "serialize env (nz []) p f")
      case (Inl e)
      with self Some show ?thesis by (simp add: fanout_frame_def)
    next
      case (Inr d)
      obtain cm1 ids where fan: "fanout_serialized_frame_to_auth_snapshots me as f d cm = (cm1, ids)" by fastforce
      have ok: "snap_ok me cm (snap_target s)" if "s \<in> set as" for s
        using auth [OF that] handle_ok [OF inv] by auto
      have sub: "fst (snap_target s) \<in> admitted me cm f S"
        if "s \<in> set as" "snd (snd s) \<or> frame_allowed_before_auth f" for s
        using auth [OF that(1)] that(2) by (auto intro: admittedI)
      show ?thesis
        using keeps_but_active [OF inv auth_sender.fanout_keeps_but
            [OF inv ok fan [unfolded fanout_serialized_frame_to_auth_snapshots_def] sub]]
        by (simp add: fanout_frame_def Some Inr fan)
    qed
  qed
qed

lemma user_connections_owner:
  assumes "cm_inv me k cm"
  shows "set (get_user_connections me ow cm) = {c. owner_of me cm c = Some ow}"
  using mgr_invD(7) [OF assms] by (auto simp: index_ok_def index_rel_def owner_rel_def set_eq_iff)

lemma broadcast_frame_keeps:
  assumes inv: "mgr_inv ix me k cm"
  shows "keeps_but ix me now k (admitted me cm f UNIV) cm (broadcast_frame me env now nz f parser cm)"
    "keeps_but ix me now k (admitted me cm f (- {ex})) cm (broadcast_frame_except me env now nz f ex parser cm)"
    "keeps_but ix me now k (admitted me cm f (set (get_user_connections me ow cm))) cm
       (send_frame_to_user me env now nz ow f parser cm)"
  unfolding broadcast_frame_def broadcast_frame_except_def send_frame_to_user_def Let_def
  by (rule fanout_frame_keeps [OF inv];
      fastforce simp: snapshot_defs scan_iff [OF inv] pick_ids_iff [OF inv])+

lemma send_all_keeps:
  assumes inv: "mgr_inv ix me k cm"
    and hs: "\<And>h. h \<in> set hs \<Longrightarrow> \<exists>c e. c \<in> S \<and> lookup_conn me cm c = Some e \<and> h = handle_view c e"
  shows "keeps_but ix me now k S cm (send_all me d hs cm)"
proof -
  obtain cm1 ids where fan: "fanout (raw_send me d) hs cm = (cm1, ids)" by fastforce
  have ok: "snap_ok me cm h" if "h \<in> set hs" for h
    using hs [OF that] handle_ok(1) [OF inv] by auto
  have sub: "fst h \<in> S" if "h \<in> set hs" for h
    using hs [OF that] by auto
  show ?thesis
    using raw_sender.fanout_keeps_but(1) [OF inv ok fan sub] by (simp add: send_all_fanout fan)
qed

lemma raw_sends_keep:
  assumes inv: "mgr_inv ix me k cm"
  shows "keeps_but ix me now k (set (get_user_connections me ow cm)) cm (send_to_user me ow d cm)"
    "keeps_but ix me now k UNIV cm (broadcast me d cm)"
    "keeps_but ix me now k (- {ex}) cm (broadcast_except me d ex cm)"
  unfolding send_to_user_def broadcast_def broadcast_except_def
  by (rule send_all_keeps [OF inv];
      fastforce simp: snapshot_defs scan_iff [OF inv] pick_ids_iff [OF inv])+

lemma send_to_connection_keeps:
  assumes inv: "mgr_inv ix me k cm"
  shows "keeps_but ix me now k {c} cm (fst (send_to_connection me c d cm))"
proof (cases "lookup_conn me cm c")
  case None
  then show ?thesis using keeps_but_refl [OF inv] by (simp add: send_to_connection_def get_connection_snapshot_def)
next
  case (Some e)
  have "send_to_connection me c d cm = send_to_connection_handle me c (en_writer e) d cm"
    by (simp add: send_to_connection_def get_connection_snapshot_def Some)
  moreover have "fst (send_to_connection_handle me c (en_writer e) d cm) = send_all me d [handle_view c e] cm"
    by (simp add: handle_view_def)
  moreover have "keeps_but ix me now k {c} cm (send_all me d [handle_view c e] cm)"
    by (rule send_all_keeps [OF inv]) (use Some in auto)
  ultimately show ?thesis by simp
qed

lemma update_connection_active_touch:
  "fst (update_connection_active me now c cm) = fst (touch_loop me now [c] cm)"
  by (simp add: update_connection_active_def split: option.splits)

lemma send_frame_to_keeps:
  assumes inv: "mgr_inv ix me k cm"
  shows "keeps_but ix me now k (admitted me cm f {c}) cm (fst (send_frame_to me env now nz c f parser cm))"
proof (cases "lookup_conn me cm c")
  case None
  then show ?thesis using keeps_but_refl [OF inv] by (simp add: send_frame_to_def get_connection_snapshot_def)
next
  case (Some e)
  let ?send = "\<lambda>s. send_frame_to_snapshot_without_active me env (nz (fst s)) s f parser"
  let ?s = "info_view c e"
  obtain cm1 r where s: "?send ?s cm = (cm1, r)" by fastforce
  then obtain ids where fan: "fanout ?send [?s] cm = (cm1, ids)" "r = Inr c' \<Longrightarrow> ids = [c']" for c'
    by (cases r) auto
  have ok: "snap_ok me cm (snap_target s)" if "s \<in> set [?s]" for s
    using that handle_ok(3) [OF inv Some] by simp
  have sub: "fst (snap_target s) \<in> admitted me cm f {c}"
    if "s \<in> set [?s]" "ci_authenticated (snd (snd s)) \<or> frame_allowed_before_auth f" for s
    using that Some by (auto intro: admittedI)
  note keep = frame_sender.fanout_keeps_but [OF inv ok fan(1) sub]
  have inv1: "mgr_inv ix me k cm1" using keep(1) by (simp add: keeps_but_def)
  have eq: "send_frame_to me env now nz c f parser cm = send_frame_to_snapshot me env now (nz c) ?s f parser cm"
    by (simp add: send_frame_to_def get_connection_snapshot_def Some info_view_def)
  have s': "send_frame_to_snapshot_without_active me env (nz c) ?s f parser cm = (cm1, r)"
    using s by (simp add: info_view_def)
  show ?thesis
  proof (cases r)
    case (Inl err)
    then show ?thesis using keep(1) by (simp add: eq send_frame_to_snapshot_def s')
  next
    case (Inr c')
    obtain cm2 n where t: "touch_loop me now [c'] cm1 = (cm2, n)" by fastforce
    have "c' \<in> admitted me cm f {c}" using keep(2) fan(2) [OF Inr] by simp
    then have "keeps_but ix me now k (admitted me cm f {c}) cm1 cm2" by (intro touch_keeps [OF inv1 t]) simp
    from keeps_but_trans [OF inv keep(1) this]
    have "keeps_but ix me now k (admitted me cm f {c}) cm cm2" .
    then show ?thesis
      using update_connection_active_touch [of me now c' cm1] t Inr by (simp add: eq send_frame_to_snapshot_def s')
  qed
qed

section \<open>Grouping by encoding\<close>

text \<open>The cached parser agrees with the negotiated parameters.\<close>

definition parser_consistent :: "conn_info \<Rightarrow> bool" where
  "parser_consistent i \<longleftrightarrow>
     (case ci_cached_parser i of
        None \<Rightarrow> True
      | Some p \<Rightarrow> p = parser_new (ci_serialization_format i) (ci_compression i) (ci_encryption i))"

definition encoding_of :: "conn_info \<Rightarrow> encoding option" where
  "encoding_of i =
     (if \<not> ci_negotiation_completed i then Some (Json, CompNone)
      else if ci_encryption i = EncNone then Some (ci_serialization_format i, ci_compression i) else None)"

lemma fanout_append:
  "fanout send (xs @ ys) cm =
     (let (cm1, a) = fanout send xs cm; (cm2, b) = fanout send ys cm1 in (cm2, a @ b))"
  by (induction xs arbitrary: cm) (auto simp: Let_def split: prod.splits sum.splits)

lemma fanout_cong:
  "(\<And>s cm. s \<in> set ss \<Longrightarrow> fst (f s cm) = fst (g s cm) \<and>
      (case (snd (f s cm), snd (g s cm)) of (Inr a, Inr b) \<Rightarrow> a = b | (Inl _, Inl _) \<Rightarrow> True | _ \<Rightarrow> False))
   \<Longrightarrow> fanout f ss cm = fanout g ss cm"
proof (induction ss arbitrary: cm)
  case (Cons s ss)
  obtain c1 r1 c2 r2 where eq: "f s cm = (c1, r1)" "g s cm = (c2, r2)" by fastforce
  have "c1 = c2" "case (r1, r2) of (Inr a, Inr b) \<Rightarrow> a = b | (Inl _, Inl _) \<Rightarrow> True | _ \<Rightarrow> False"
    using Cons.prems [of s cm] eq by simp_all
  moreover have "fanout f ss c = fanout g ss c" for c using Cons.prems by (intro Cons.IH) auto
  ultimately show ?case using eq by (auto split: prod.splits sum.splits)
qed simp

lemma fanout_all_fail:
  "(\<And>s. s \<in> set ss \<Longrightarrow> \<exists>e. f s cm = (cm, Inl e)) \<Longrightarrow> fanout f ss cm = (cm, [])"
proof (induction ss)
  case (Cons s ss)
  then obtain e where "f s cm = (cm, Inl e)" by auto
  with Cons show ?case by simp
qed simp

lemma serialize_plain: "serialize env nonce (parser_new fmt cmpr EncNone) f = serialize env [] (parser_new fmt cmpr EncNone) f"
  by (simp add: serialize_def serialize_with_format_def encrypt_data_def pick_serializer_def parser_new_def
      split: option.splits sum.splits)

lemma serialize_by_encoding:
  assumes "parser_consistent i" "encoding_of i = Some (fmt, cmpr)"
  shows "serialize_frame_for_connection env nonce i f None =
     (case ensure_frame_allowed_for_connection i f of
        Inl e \<Rightarrow> Inl e | Inr _ \<Rightarrow> serialize env [] (parser_new fmt cmpr EncNone) f)"
  using assms serialize_plain [of env nonce]
  by (auto simp: serialize_frame_for_connection_def parser_consistent_def encoding_of_def
      PRE_NEGOTIATION_PARSER_def split: sum.splits option.splits if_splits)

abbreviation individually ::
  "mgr_env \<Rightarrow> codec_env \<Rightarrow> (conn_id \<Rightarrow> bytes) \<Rightarrow> frame \<Rightarrow> conn_id \<times> nat \<times> conn_info \<Rightarrow> conn_manager \<Rightarrow> conn_manager \<times> conn_id result" where
  "individually me env nz f s \<equiv> send_frame_to_snapshot_without_active me env (nz (fst s)) s f None"

text \<open>A group is served as its members would be, one by one.\<close>

lemma fanout_groups_individually:
  assumes "\<And>fmt cmpr grp s. ((fmt, cmpr), grp) \<in> set gs \<Longrightarrow> s \<in> set grp \<Longrightarrow>
      parser_consistent (snd (snd s)) \<and> encoding_of (snd (snd s)) = Some (fmt, cmpr)"
  shows "fanout_groups me env f gs cm = fanout (individually me env nz f) (concat (map snd gs)) cm"
  using assms
proof (induction me env f gs cm rule: fanout_groups.induct)
  case (2 me env f fmt cmpr grp gs cm)
  have mem: "parser_consistent (snd (snd s))" "encoding_of (snd (snd s)) = Some (fmt, cmpr)" if "s \<in> set grp" for s
    using 2(3) [of fmt cmpr grp s] that by simp_all
  have rest: "((a, b), g) \<in> set gs \<Longrightarrow> s \<in> set g \<Longrightarrow> parser_consistent (snd (snd s)) \<and> encoding_of (snd (snd s)) = Some (a, b)" for a b g s
    using 2(3) [of a b g s] by simp
  show ?case
  proof (cases "serialize env [] (parser_new fmt cmpr EncNone) f")
    case (Inl e)
    have "fanout (individually me env nz f) grp cm = (cm, [])"
    proof (rule fanout_all_fail)
      fix s assume "s \<in> set grp"
      from serialize_by_encoding [OF mem [OF this]] Inl
      show "\<exists>e. individually me env nz f s cm = (cm, Inl e)"
        by (auto simp: send_frame_to_snapshot_without_active_def split: prod.splits sum.splits)
    qed
    with 2(1) [OF Inl rest] Inl show ?thesis by (simp add: fanout_append split: prod.splits)
  next
    case (Inr d)
    have "fanout (send_shared me f d) grp cm = fanout (individually me env nz f) grp cm"
    proof (rule fanout_cong)
      fix s cm assume "s \<in> set grp"
      from serialize_by_encoding [OF mem [OF this]] Inr
      show "fst (send_shared me f d s cm) = fst (individually me env nz f s cm) \<and>
        (case (snd (send_shared me f d s cm), snd (individually me env nz f s cm)) of
           (Inr a, Inr b) \<Rightarrow> a = b | (Inl _, Inl _) \<Rightarrow> True | _ \<Rightarrow> False)"
        by (auto simp: send_frame_to_snapshot_without_active_def send_shared_def split: prod.splits sum.splits)
    qed
    with 2(2) [OF Inr refl surjective_pairing [symmetric] rest] Inr show ?thesis
      by (auto simp: fanout_append split: prod.splits)
  qed
qed simp

lemma push_group_entries:
  assumes "distinct (map fst m)"
  shows "mset (concat (map snd (push_group g s m))) = add_mset s (mset (concat (map snd m)))"
  using assms
proof (induction m)
  case (Cons p m)
  obtain g' grp where p: "p = (g', grp)" by (cases p)
  have "push_group g s (p # m) = (if g' = g then (g, grp @ [s]) # m else p # push_group g s m)"
    by (auto simp: push_group_def p)
  with Cons show ?case by (auto simp: p)
qed (simp add: push_group_def)

lemma push_group_keys: "distinct (map fst m) \<Longrightarrow> distinct (map fst (push_group g s m))"
  by (simp add: push_group_def distinct_update)

lemma push_group_member:
  assumes "distinct (map fst m)" "(g', grp) \<in> set (push_group g s m)" "x \<in> set grp"
  shows "g' = g \<and> x = s \<or> (\<exists>grp'. (g', grp') \<in> set m \<and> x \<in> set grp')"
  using assms
proof (induction m)
  case (Cons p m)
  obtain h hs where p: "p = (h, hs)" by (cases p)
  have "push_group g s (p # m) = (if h = g then (g, hs @ [s]) # m else p # push_group g s m)"
    by (auto simp: push_group_def p)
  with Cons show ?case by (auto simp: p split: if_splits)
qed (simp add: push_group_def)

definition well_grouped :: "(encoding, (conn_id \<times> nat \<times> conn_info) list) amap \<Rightarrow> bool" where
  "well_grouped gs \<longleftrightarrow> distinct (map fst gs) \<and>
     (\<forall>(g, grp) \<in> set gs. \<forall>s \<in> set grp. encoding_of (snd (snd s)) = Some g)"

lemma well_grouped_push:
  assumes "well_grouped m" "encoding_of (snd (snd s)) = Some g"
  shows "well_grouped (push_group g s m)"
  unfolding well_grouped_def
proof (intro conjI ballI, safe)
  show "distinct (map fst (push_group g s m))" using assms by (simp add: well_grouped_def push_group_keys)
next
  fix fmt cmpr grp x y z
  assume "((fmt, cmpr), grp) \<in> set (push_group g s m)" "(x, y, z) \<in> set grp"
  with push_group_member [of m "(fmt, cmpr)" grp g s "(x, y, z)"] assms
  show "encoding_of (snd (snd (x, y, z))) = Some (fmt, cmpr)"
    unfolding well_grouped_def by fastforce
qed

lemma group_by_encoding_spec:
  assumes "group_by_encoding ss gs es = (gs', es')" "well_grouped gs"
  shows "well_grouped gs' \<and> mset (concat (map snd gs') @ es') = mset (concat (map snd gs) @ es @ ss)"
  using assms
proof (induction ss gs es rule: group_by_encoding.induct)
  case (2 s ss gs es)
  let ?i = "snd (snd s)"
  have dist: "distinct (map fst gs)" using 2(5) by (simp add: well_grouped_def)
  consider (pre) "\<not> ci_negotiation_completed ?i"
    | (plain) "ci_negotiation_completed ?i" "ci_encryption ?i = EncNone"
    | (enc) "ci_negotiation_completed ?i" "ci_encryption ?i \<noteq> EncNone" by blast
  then show ?case
  proof cases
    case pre
    then have "well_grouped (push_group (Json, CompNone) s gs)"
      by (intro well_grouped_push [OF 2(5)]) (simp add: encoding_of_def)
    with 2(1) [OF refl pre] 2(4) pre show ?thesis by (simp add: Let_def push_group_entries [OF dist])
  next
    case plain
    then have "well_grouped (push_group (ci_serialization_format ?i, ci_compression ?i) s gs)"
      by (intro well_grouped_push [OF 2(5)]) (simp add: encoding_of_def)
    with 2(2) [OF refl] 2(4) plain show ?thesis by (simp add: Let_def push_group_entries [OF dist])
  next
    case enc
    with 2(3) [OF refl] 2(4,5) show ?thesis by (simp add: Let_def)
  qed
qed auto

definition grouped_order :: "(conn_id \<times> nat \<times> conn_info) list \<Rightarrow> (conn_id \<times> nat \<times> conn_info) list" where
  "grouped_order ss = (case group_by_encoding ss [] [] of (gs, es) \<Rightarrow> concat (map snd gs) @ es)"

lemma mset_grouped_order: "mset (grouped_order ss) = mset ss"
proof -
  obtain gs es where g: "group_by_encoding ss [] [] = (gs, es)" by fastforce
  with group_by_encoding_spec [OF g] show ?thesis by (simp add: grouped_order_def well_grouped_def)
qed

lemma grouped_fanout_eq:
  assumes snaps: "snaps = connection_snapshots_for_ids me ids cm"
    and cons: "\<And>s. s \<in> set snaps \<Longrightarrow> parser_consistent (snd (snd s))"
    and fan: "fanout_frame_to_snapshots me env nz (grouped_order snaps) f None cm = (cm1, ok)"
  shows "fanout_frame_grouped_by_encoding me env now nz ids f cm =
    (if snaps = [] then (cm, 0, 0)
     else (fst (update_connections_active me now ok cm1), length ok, length snaps - length ok))"
proof -
  obtain gs es where g: "group_by_encoding snaps [] [] = (gs, es)" by fastforce
  have wg: "well_grouped gs" using group_by_encoding_spec [OF g] by (simp add: well_grouped_def)
  have "set (concat (map snd gs)) \<subseteq> set (grouped_order snaps)" by (auto simp: grouped_order_def g)
  then have "set (concat (map snd gs)) \<subseteq> set snaps"
    using mset_grouped_order [of snaps] by (metis set_mset_mset)
  then have mem: "parser_consistent (snd (snd s)) \<and> encoding_of (snd (snd s)) = Some (fmt, cmpr)"
    if "((fmt, cmpr), grp) \<in> set gs" "s \<in> set grp" for fmt cmpr grp s
    using wg that cons [of s] by (force simp: well_grouped_def)
  obtain cma ok1 where a: "fanout_groups me env f gs cm = (cma, ok1)" by fastforce
  obtain cmb ok2 where b: "(if es \<noteq> [] then fanout_frame_to_snapshots me env nz es f None cma else (cma, [])) = (cmb, ok2)"
    by fastforce
  have b': "fanout_frame_to_snapshots me env nz es f None cma = (cmb, ok2)"
    using b by (auto simp: fanout_frame_to_snapshots_def split: if_splits)
  have "fanout (individually me env nz f) (concat (map snd gs)) cm = (cma, ok1)"
    unfolding a [symmetric] by (rule fanout_groups_individually [symmetric]) (rule mem)
  with fan b' have "cm1 = cmb \<and> ok = ok1 @ ok2"
    by (simp add: fanout_frame_to_snapshots_def grouped_order_def g fanout_append)
  then show ?thesis
    using a b by (simp add: fanout_frame_grouped_by_encoding_def snaps [symmetric] g split: prod.splits)
qed

lemma fanout_groups_keeps:
  assumes "mgr_inv ix me k cm"
    and "\<And>g grp s. (g, grp) \<in> set gs \<Longrightarrow> s \<in> set grp \<Longrightarrow> snap_ok me cm (snap_target s)"
    and "\<And>g grp s. (g, grp) \<in> set gs \<Longrightarrow> s \<in> set grp \<Longrightarrow>
           ci_authenticated (snd (snd s)) \<or> frame_allowed_before_auth f \<Longrightarrow> fst (snap_target s) \<in> S"
    and "fanout_groups me env f gs cm = (cm', ids)"
  shows "keeps_but ix me now k S cm cm' \<and> set ids \<subseteq> S"
  using assms
proof (induction me env f gs cm arbitrary: ids rule: fanout_groups.induct)
  case (1 me env f cm)
  then show ?case by (auto intro: keeps_but_refl)
next
  case (2 me env f fmt cmpr grp gs cm)
  show ?case
  proof (cases "serialize env [] (parser_new fmt cmpr EncNone) f")
    case (Inl e)
    with 2(6) have rest: "fanout_groups me env f gs cm = (cm', ids)" by simp
    show ?thesis
      by (rule 2(1) [OF Inl 2(3) _ _ rest]; insert 2(4) 2(5); fastforce)
  next
    case (Inr d)
    obtain cm1 sent where a: "fanout (send_shared me f d) grp cm = (cm1, sent)" by fastforce
    obtain rest where b: "fanout_groups me env f gs cm1 = (cm', rest)" and ids: "ids = sent @ rest"
      using 2(6) Inr a by (auto split: prod.splits)
    have a': "keeps_but ix me now k S cm cm1" "set sent \<subseteq> S"
      by (rule shared_sender.fanout_keeps_but [OF 2(3) _ a]; insert 2(4) 2(5); force)+
    have "keeps_but ix me now k S cm1 cm' \<and> set rest \<subseteq> S"
    proof (rule 2(2) [OF Inr a [symmetric] refl _ _ _ b])
      show "mgr_inv ix me k cm1" using a' by (simp add: keeps_but_def)
      show "snap_ok me cm1 (snap_target s)" if "(g, hs) \<in> set gs" "s \<in> set hs" for g hs s
        using a'(1) 2(4) [of g hs s] that unfolding keeps_but_def by (metis list.set_intros(2))
      show "fst (snap_target s) \<in> S"
        if "(g, hs) \<in> set gs" "s \<in> set hs" "ci_authenticated (snd (snd s)) \<or> frame_allowed_before_auth f" for g hs s
        using 2(5) [of g hs s] that by simp
    qed
    with a' keeps_but_trans [OF 2(3) a'(1)] ids show ?thesis by simp
  qed
qed

lemma grouped_members:
  assumes "group_by_encoding ss [] [] = (gs, es)"
  shows "(g, grp) \<in> set gs \<Longrightarrow> s \<in> set grp \<Longrightarrow> s \<in> set ss" "s \<in> set es \<Longrightarrow> s \<in> set ss"
proof -
  have "set (concat (map snd gs)) \<union> set es = set ss"
    using arg_cong [OF mset_grouped_order [of ss], of set_mset] assms by (simp add: grouped_order_def)
  then show "(g, grp) \<in> set gs \<Longrightarrow> s \<in> set grp \<Longrightarrow> s \<in> set ss" "s \<in> set es \<Longrightarrow> s \<in> set ss" by force+
qed

lemma grouped_fanout_keeps:
  assumes inv: "mgr_inv ix me k cm"
  shows "keeps_but ix me now k (admitted me cm f (set ids)) cm (fst (fanout_frame_grouped_by_encoding me env now nz ids f cm))"
proof -
  let ?S = "admitted me cm f (set ids)"
  let ?ss = "connection_snapshots_for_ids me ids cm"
  obtain gs es where g: "group_by_encoding ?ss [] [] = (gs, es)" by fastforce
  have snap: "\<exists>c e. c \<in> set ids \<and> lookup_conn me cm c = Some e \<and> s = info_view c e" if "s \<in> set ?ss" for s
    using that by (simp add: snapshot_defs pick_ids_iff [OF inv])
  have ok: "snap_ok me cm (snap_target s)" if "s \<in> set ?ss" for s
    using snap [OF that] handle_ok(3) [OF inv] by auto
  have sub: "fst (snap_target s) \<in> ?S"
    if "s \<in> set ?ss" "ci_authenticated (snd (snd s)) \<or> frame_allowed_before_auth f" for s
    using snap [OF that(1)] that(2) by (auto intro: admittedI)
  obtain cm1 ok1 where a: "fanout_groups me env f gs cm = (cm1, ok1)" by fastforce
  have k1: "keeps_but ix me now k ?S cm cm1 \<and> set ok1 \<subseteq> ?S"
    by (rule fanout_groups_keeps [OF inv _ _ a]; rule ok sub; (erule (1) grouped_members [OF g])?)
  then have inv1: "mgr_inv ix me k cm1" by (simp add: keeps_but_def)
  obtain cm2 ok2 where b: "fanout_frame_to_snapshots me env nz es f None cm1 = (cm2, ok2)" by fastforce
  have k2: "keeps_but ix me now k ?S cm1 cm2" "set ok2 \<subseteq> ?S"
  proof -
    have ok1: "snap_ok me cm1 (snap_target s)" if "s \<in> set es" for s
      using k1 ok [OF grouped_members(2) [OF g that]] unfolding keeps_but_def by blast
    have sub1: "fst (snap_target s) \<in> ?S"
      if "s \<in> set es" "ci_authenticated (snd (snd s)) \<or> frame_allowed_before_auth f" for s
      by (rule sub [OF grouped_members(2) [OF g that(1)] that(2)])
    show "keeps_but ix me now k ?S cm1 cm2" "set ok2 \<subseteq> ?S"
      by (rule frame_sender.fanout_keeps_but
          [OF inv1 ok1 b [unfolded fanout_frame_to_snapshots_def] sub1]; assumption)+
  qed
  have b': "(if es \<noteq> [] then fanout_frame_to_snapshots me env nz es f None cm1 else (cm1, [])) = (cm2, ok2)"
    using b by (auto simp: fanout_frame_to_snapshots_def)
  have "keeps_but ix me now k ?S cm (fst (update_connections_active me now (ok1 @ ok2) cm2))"
    by (rule keeps_but_active [OF inv keeps_but_trans [OF inv conjunct1 [OF k1] k2(1)]]) (use k1 k2 in simp)
  then show ?thesis
    using keeps_but_refl [OF inv] by (simp add: fanout_frame_grouped_by_encoding_def Let_def g a b')
qed

section \<open>Delivery\<close>

text \<open>A sender that enqueues a known payload; in a fan-out to different connections each one
  then sees exactly its own enqueue.\<close>

locale delivering_sender = snapshot_sender me send tgt gate
  for me :: mgr_env and send :: "'a \<Rightarrow> conn_manager \<Rightarrow> conn_manager \<times> conn_id result"
    and tgt :: "'a \<Rightarrow> conn_id \<times> nat" and gate :: "'a \<Rightarrow> bool" +
  fixes payload :: "'a \<Rightarrow> bytes result"
  assumes send_payload: "payload s = Inr d \<Longrightarrow> send s cm =
      (case send_to_connection_handle me (fst (tgt s)) (snd (tgt s)) d cm of
         (cm', Inl e) \<Rightarrow> (cm', Inl e) | (cm', Inr _) \<Rightarrow> (cm', Inr (fst (tgt s))))"
begin

lemma fanout_effect:
  assumes inv: "mgr_inv ix me k cm" and ok: "\<And>s. s \<in> set ss \<Longrightarrow> snap_ok me cm (tgt s)"
    and dist: "distinct (map (fst \<circ> tgt) ss)" and s: "s \<in> set ss" "payload s = Inr d"
    and wq: "cm_queues cm (snd (tgt s)) = Some wq" and fan: "fanout send ss cm = (cm', ids)"
  shows "try_enqueue (me_runtime me) d wq = (wq', Inr ()) \<Longrightarrow>
           cm_queues cm' (snd (tgt s)) = Some wq' \<and> fst (tgt s) \<in> set ids"
    and "try_enqueue (me_runtime me) d wq = (wq', Inl err) \<Longrightarrow>
           infos me cm' (fst (tgt s)) = None \<and> (\<exists>q. cm_queues cm' (snd (tgt s)) = Some q \<and> wq_closed q)"
proof -
  let ?p = "snd (tgt s)" and ?c = "fst (tgt s)"
  obtain xs ys where ss: "ss = xs @ s # ys" using split_list [OF s(1)] by blast
  obtain cm1 i1 where f1: "fanout send xs cm = (cm1, i1)" by fastforce
  obtain cm2 r where f2: "send s cm1 = (cm2, r)" by fastforce
  obtain i3 where f3: "fanout send ys cm2 = (cm', i3)"
    and ids: "ids = i1 @ (case r of Inr c \<Rightarrow> c # i3 | Inl _ \<Rightarrow> i3)"
    using fan f1 f2 by (auto simp: ss fanout_append split: prod.splits)
  have other: "?p \<noteq> snd (tgt x) \<and> ?c \<noteq> fst (tgt x)" if "x \<in> set xs \<union> set ys" for x
  proof -
    have "?c \<noteq> fst (tgt x)" using dist that by (force simp: ss)
    moreover have "snap_ok me cm (tgt x)" "snap_ok me cm (tgt s)" using ok that by (auto simp: ss)
    ultimately show ?thesis by (auto simp: snap_ok_def)
  qed
  have k1: "mgr_inv ix me k cm1" "\<And>t. snap_ok me cm t \<Longrightarrow> snap_ok me cm1 t" "cm_queues cm1 ?p = cm_queues cm ?p"
  proof -
    have "snap_ok me cm (tgt x)" if "x \<in> set xs" for x using that by (intro ok) (simp add: ss)
    note k = fanout_keeps [OF inv this f1]
    show "mgr_inv ix me k cm1" "\<And>t. snap_ok me cm t \<Longrightarrow> snap_ok me cm1 t" using k by blast+
    have "?p \<notin> snd ` tgt ` {s \<in> set xs. gate s}" using other by blast
    then show "cm_queues cm1 ?p = cm_queues cm ?p" using k by blast
  qed
  have s1: "snap_ok me cm1 (?c, ?p)" using k1(2) ok [OF s(1)] by simp
  have inv2: "mgr_inv ix me k cm2" using send_inv [OF k1(1) _ f2] s1 by simp
  have "snap_ok me cm2 (tgt x)" if "x \<in> set ys" for x
    using send_snap [OF k1(1) _ _ f2] s1 k1(2) ok [of x] that by (simp add: ss)
  note k3 = fanout_keeps [OF inv2 this f3]
  have fin: "cm_queues cm' ?p = cm_queues cm2 ?p" "infos me cm' ?c = infos me cm2 ?c"
  proof -
    have "?p \<notin> snd ` tgt ` {s \<in> set ys. gate s}" "?c \<notin> fst ` tgt ` {s \<in> set ys. gate s}"
      using other by (auto simp: image_iff)
    with k3 show "cm_queues cm' ?p = cm_queues cm2 ?p" "infos me cm' ?c = infos me cm2 ?c" by blast+
  qed
  obtain cm3 r3 where h: "send_to_connection_handle me ?c ?p d cm1 = (cm3, r3)" by fastforce
  have eq: "cm3 = cm2" "r = (case r3 of Inl e \<Rightarrow> Inl e | Inr _ \<Rightarrow> Inr ?c)"
    using send_payload [OF s(2), of cm1] f2 h by (auto split: sum.splits)
  note spec = send_handle_spec [OF k1(1) s1 h]
  show "cm_queues cm' ?p = Some wq' \<and> ?c \<in> set ids" if enq: "try_enqueue (me_runtime me) d wq = (wq', Inr ())"
    using h enq wq k1(3) fin(1) eq by (auto simp: send_to_connection_handle_def ids)
  show "infos me cm' ?c = None \<and> (\<exists>q. cm_queues cm' ?p = Some q \<and> wq_closed q)"
    if enq: "try_enqueue (me_runtime me) d wq = (wq', Inl err)"
  proof -
    have "r3 = Inl err" using h enq wq k1(3) by (auto simp: send_to_connection_handle_def)
    then show ?thesis using spec(3,5) fin by (auto simp: eq(1) infos_def)
  qed
qed

end

interpretation raw_delivery: delivering_sender me "raw_send me d" "\<lambda>s. s" "\<lambda>_. True" "\<lambda>_. Inr d"
  for me :: mgr_env and d :: bytes
  by unfold_locales (simp add: raw_send_def)

interpretation frame_delivery: delivering_sender me
    "\<lambda>s. send_frame_to_snapshot_without_active me env (nz (fst s)) s f parser" snap_target
    "\<lambda>s. ci_authenticated (snd (snd s)) \<or> frame_allowed_before_auth f"
    "\<lambda>s. serialize_frame_for_connection env (nz (fst s)) (snd (snd s)) f parser"
  for me :: mgr_env and env :: codec_env and nz :: "conn_id \<Rightarrow> bytes" and f :: frame
    and parser :: "message_parser option"
  by unfold_locales (simp add: send_frame_to_snapshot_without_active_def snap_target_def case_prod_unfold)

lemma distinct_pick_ids:
  assumes inv: "mgr_inv ix me k cm" and dist: "distinct ids" and view: "\<And>c e. fst (view c e) = c"
  shows "distinct (map fst (pick_ids me view ids cm))"
proof -
  let ?by = "concat (group_by_shard (\<lambda>c. shard_index (me_hash_conn me) c (length (cm_conns cm))) (length (cm_conns cm)) ids)"
  have "mset ?by = mset ids" by (rule group_by_shard_mset) (rule shard_ids_less [OF inv])
  then have d: "distinct ?by" using dist by (metis mset_eq_imp_distinct_iff)
  have "map fst (List.map_filter (\<lambda>c. map_option (view c) (lookup_conn me cm c)) xs) =
      filter (\<lambda>c. lookup_conn me cm c \<noteq> None) xs" for xs
    by (induction xs) (auto simp: map_filter_def view)
  then show ?thesis unfolding pick_ids_eq [OF inv] using d by simp
qed

lemma distinct_scan:
  assumes inv: "mgr_inv ix me k cm" and view: "\<And>c e. fst (view c e) = c"
  shows "distinct (map fst (scan P view cm))"
proof -
  have "map fst (scan P view cm) = map fst (filter (\<lambda>(i, e). P i e) (concat (cm_conns cm)))"
    by (simp add: scan_def map_concat filter_concat comp_def case_prod_unfold view)
  then show ?thesis
    using shards_distinct [OF mgr_invD(1) [OF inv]] by (simp add: distinct_map_filter)
qed

lemma broadcast_effect:
  assumes inv: "mgr_inv ix me k cm" and e: "lookup_conn me cm c = Some e"
    and wq: "cm_queues cm (en_writer e) = Some wq"
  shows "try_enqueue (me_runtime me) d wq = (wq', Inr ()) \<Longrightarrow>
           cm_queues (broadcast me d cm) (en_writer e) = Some wq'"
    and "try_enqueue (me_runtime me) d wq = (wq', Inl err) \<Longrightarrow>
           infos me (broadcast me d cm) c = None \<and>
           (\<exists>q. cm_queues (broadcast me d cm) (en_writer e) = Some q \<and> wq_closed q)"
proof -
  let ?hs = "connection_handles cm"
  obtain cm' ids where fan: "fanout (raw_send me d) ?hs cm = (cm', ids)" by fastforce
  have ok: "snap_ok me cm h" if "h \<in> set ?hs" for h
    using that handle_ok(1) [OF inv] by (auto simp: connection_handles_def scan_iff [OF inv])
  have dist: "distinct (map (fst \<circ> (\<lambda>s. s)) ?hs)"
    using distinct_scan [OF inv, of handle_view "\<lambda>_ _. True"] by (simp add: connection_handles_def comp_def)
  have mem: "handle_view c e \<in> set ?hs"
    using e by (auto simp: connection_handles_def scan_iff [OF inv])
  have eq: "broadcast me d cm = cm'" by (simp add: broadcast_def send_all_fanout fan)
  note eff = raw_delivery.fanout_effect [OF inv ok dist mem refl _ fan, of wq wq', unfolded handle_view_def, simplified, OF wq]
  show "try_enqueue (me_runtime me) d wq = (wq', Inr ()) \<Longrightarrow>
           cm_queues (broadcast me d cm) (en_writer e) = Some wq'"
    using eff(1) by (simp add: eq)
  show "try_enqueue (me_runtime me) d wq = (wq', Inl err) \<Longrightarrow>
           infos me (broadcast me d cm) c = None \<and>
           (\<exists>q. cm_queues (broadcast me d cm) (en_writer e) = Some q \<and> wq_closed q)"
    using eff(2) by (simp add: eq)
qed

lemma user_frame_delivery:
  assumes inv: "cm_inv me k cm" and own: "owner_of me cm c = Some ow" and e: "lookup_conn me cm c = Some e"
    and pay: "serialize_frame_for_connection env (nz c) (en_info e) f None = Inr d"
    and wq: "cm_queues cm (en_writer e) = Some wq" "try_enqueue (me_runtime me) d wq = (wq', Inr ())"
  shows "cm_queues (send_frame_to_user me env now nz ow f None cm) (en_writer e) = Some wq'"
proof -
  let ?ids = "get_user_connections me ow cm"
  let ?ss = "connection_snapshots_for_ids me ?ids cm"
  obtain cm' ids where fan: "fanout_frame_to_snapshots me env nz ?ss f None cm = (cm', ids)" by fastforce
  have snap: "\<exists>c e. lookup_conn me cm c = Some e \<and> s = info_view c e" if "s \<in> set ?ss" for s
    using that by (auto simp: connection_snapshots_for_ids_def pick_ids_iff [OF inv])
  have ok: "snap_ok me cm (snap_target s)" if "s \<in> set ?ss" for s
    using snap [OF that] handle_ok(3) [OF inv] by auto
  have "distinct ?ids"
    using mgr_invD(6) [OF inv] by (auto simp: users_wf_def get_user_connections_def unwrap_or_def split: option.splits)
  then have dist: "distinct (map (fst \<circ> snap_target) ?ss)"
    using distinct_pick_ids [OF inv, of ?ids info_view]
    by (simp add: connection_snapshots_for_ids_def comp_def snap_target_def info_view_def)
  have mem: "info_view c e \<in> set ?ss"
    using e own by (auto simp: connection_snapshots_for_ids_def pick_ids_iff [OF inv] user_connections_owner [OF inv])
  have p: "serialize_frame_for_connection env (nz (fst (info_view c e))) (snd (snd (info_view c e))) f None = Inr d"
    using pay by (simp add: info_view_def)
  have t: "snd (snap_target (info_view c e)) = en_writer e" by (simp add: info_view_def snap_target_def)
  have q: "cm_queues cm' (en_writer e) = Some wq'"
    using frame_delivery.fanout_effect(1) [OF inv ok dist mem p _ fan [unfolded fanout_frame_to_snapshots_def], unfolded t, OF _ wq]
    by simp
  have inv': "cm_inv me k cm'"
    using frame_sender.fanout_keeps [OF inv ok fan [unfolded fanout_frame_to_snapshots_def]] by blast
  obtain cm2 n where upd: "update_connections_active me now ids cm' = (cm2, n)" by fastforce
  show ?thesis
    using q update_connections_active_spec(2) [OF inv' upd]
    by (simp add: send_frame_to_user_def Let_def fanout_frame_def fan upd)
qed

section \<open>The initial manager and a small example\<close>

lemma new_manager_inv [simp]: "cm_inv me 0 (with_write_queue_limits t fo n)"
proof -
  have c: "lookup_conn me (with_write_queue_limits t fo n) = Map.empty"
    and u: "lookup_user me (with_write_queue_limits t fo n) = Map.empty"
    by (auto simp: lookup_conn_def lookup_user_def with_write_queue_limits_def CONNECTION_SHARD_COUNT_def
        USER_CONNECTION_SHARD_COUNT_def)
  then show ?thesis
    unfolding mgr_inv_def conns_inv_def users_wf_def index_ok_def index_rel_def owner_rel_def get_user_connections_def owner_of_def c u
    by (auto simp: with_write_queue_limits_def CONNECTION_SHARD_COUNT_def USER_CONNECTION_SHARD_COUNT_def
        unwrap_or_def)
qed

lemma add_connection_with_limit_spec:
  assumes inv: "cm_inv me k cm" and add: "add_connection_with_limit me ck cid user ra m cm = (cm', r)"
  shows "cm_inv me k cm'"
    and "r = Inr () \<longleftrightarrow> card (dom (infos me cm)) + k < unat m \<and> infos me cm cid = None"
    and "infos me cm' = (if r = Inr () then (infos me cm)(cid \<mapsto> (conn_info_new ck cid ra)\<lparr>ci_user_id := user\<rparr>) else infos me cm)"
proof -
  have dom: "dom (infos me cm) = dom (lookup_conn me cm)" by (auto simp: infos_def)
  have cnt: "cm_connection_count cm < m \<longleftrightarrow> card (dom (infos me cm)) + k < unat m"
    using mgr_invD(4) [OF inv] by (simp add: word_less_nat_alt dom)
  have "cm_inv me k cm' \<and> (r = Inr () \<longleftrightarrow> card (dom (infos me cm)) + k < unat m \<and> infos me cm cid = None)
      \<and> infos me cm' = (if r = Inr () then (infos me cm)(cid \<mapsto> (conn_info_new ck cid ra)\<lparr>ci_user_id := user\<rparr>) else infos me cm)"
  proof (cases "cm_connection_count cm < m")
    case False
    then show ?thesis using add inv cnt
      by (auto simp: add_connection_with_limit_def reserve_connection_slot_def not_less)
  next
    case True
    let ?cm1 = "cm\<lparr>cm_connection_count := cm_connection_count cm + 1\<rparr>"
    from True have res: "reserve_connection_slot m cm = (?cm1, Inr ())"
      by (simp add: reserve_connection_slot_def)
    with add have reg: "register_reserved me ck cid user ra ?cm1 = (cm', r)"
      by (simp add: add_connection_with_limit_def)
    note r1 = reserve_inv [OF inv res]
    from register_reserved_spec [OF r1(1) reg] r1(2) cnt True show ?thesis
      by (cases r) auto
  qed
  then show "cm_inv me k cm'" "r = Inr () \<longleftrightarrow> card (dom (infos me cm)) + k < unat m \<and> infos me cm cid = None"
    "infos me cm' = (if r = Inr () then (infos me cm)(cid \<mapsto> (conn_info_new ck cid ra)\<lparr>ci_user_id := user\<rparr>) else infos me cm)"
    by blast+
qed

definition ex_me :: mgr_env where
  "ex_me = \<lparr>me_hash_conn = length, me_hash_owner = (\<lambda>_. 0), me_runtime = True\<rparr>"

definition ex_clock :: clock where
  "ex_clock = \<lparr>ck_instant = 5, ck_unix_secs = 100\<rparr>"

text \<open>Two connections of user \<open>u\<close>, the second not yet authenticated, and one of user \<open>v\<close>;
  one write per queue.\<close>

definition ex_mgr :: conn_manager where
  "ex_mgr =
     fst (add_connection_with_limit ex_me ex_clock ''c'' (Some ''v'') False 3
       (fst (add_connection_with_limit ex_me ex_clock ''b'' (Some ''u'') True 3
         (fst (add_connection_with_limit ex_me ex_clock ''a'' (Some ''u'') False 3 (with_write_queue_limits 10 4 1))))))"

lemma ex_me_runtime [simp]: "me_runtime ex_me = True"
  by (simp add: ex_me_def)

lemma ex_mgr_inv: "cm_inv ex_me 0 ex_mgr"
  unfolding ex_mgr_def
  by (intro add_connection_with_limit_spec(1) [OF _ surjective_pairing] new_manager_inv)

text \<open>What a successful registration does to the fields.\<close>

lemma add_connection_fresh:
  assumes inv: "mgr_inv ix me k cm" and m: "cm_connection_count cm < m" and c: "lookup_conn me cm cid = None"
    and eq: "cm' = fst (add_connection_with_limit me ck cid user ra m cm)"
  shows "lookup_conn me cm' = (lookup_conn me cm)(cid \<mapsto>
            \<lparr>en_writer = cm_next_queue cm, en_info = (conn_info_new ck cid ra)\<lparr>ci_user_id := user\<rparr>\<rparr>)"
    "cm_queues cm' = (cm_queues cm)(cm_next_queue cm \<mapsto> queue_new cid (cm_send_timeout cm) (cm_write_queue_capacity cm))"
    "cm_next_queue cm' = Suc (cm_next_queue cm)" "cm_connection_count cm' = cm_connection_count cm + 1"
    "cm_send_timeout cm' = cm_send_timeout cm" "cm_write_queue_capacity cm' = cm_write_queue_capacity cm"
  unfolding eq using mgr_invD(1) [OF inv] m c
  by (auto simp: add_connection_with_limit_def reserve_connection_slot_def register_reserved_def
      new_connection_entry_def insert_user_connection_def lookup_conn_def fun_eq_iff Let_def not_le
      split: option.splits prod.splits)

lemma ex_mgr_lookup:
  "lookup_conn ex_me ex_mgr ''a'' = Some \<lparr>en_writer = 0, en_info = (conn_info_new ex_clock ''a'' False)\<lparr>ci_user_id := Some ''u''\<rparr>\<rparr>"
  "lookup_conn ex_me ex_mgr ''b'' = Some \<lparr>en_writer = 1, en_info = (conn_info_new ex_clock ''b'' True)\<lparr>ci_user_id := Some ''u''\<rparr>\<rparr>"
  "lookup_conn ex_me ex_mgr ''c'' = Some \<lparr>en_writer = 2, en_info = (conn_info_new ex_clock ''c'' False)\<lparr>ci_user_id := Some ''v''\<rparr>\<rparr>"
  "cm_queues ex_mgr 0 = Some (queue_new ''a'' 10 1)"
  "cm_queues ex_mgr (Suc 0) = Some (queue_new ''b'' 10 1)"
proof -
  define m0 where "m0 = with_write_queue_limits 10 4 1"
  define m1 where "m1 = fst (add_connection_with_limit ex_me ex_clock ''a'' (Some ''u'') False 3 m0)"
  define m2 where "m2 = fst (add_connection_with_limit ex_me ex_clock ''b'' (Some ''u'') True 3 m1)"
  have i0: "cm_inv ex_me 0 m0" by (simp add: m0_def)
  have i1: "cm_inv ex_me 0 m1" unfolding m1_def by (rule add_connection_with_limit_spec(1) [OF i0 surjective_pairing])
  have i2: "cm_inv ex_me 0 m2" unfolding m2_def by (rule add_connection_with_limit_spec(1) [OF i1 surjective_pairing])
  have f0: "lookup_conn ex_me m0 c = None" "cm_queues m0 = Map.empty" "cm_next_queue m0 = 0" "cm_connection_count m0 = 0"
    "cm_send_timeout m0 = 10" "cm_write_queue_capacity m0 = 1" for c
    by (simp_all add: m0_def with_write_queue_limits_def lookup_conn_def CONNECTION_SHARD_COUNT_def)
  note f1 = add_connection_fresh [OF i0 _ f0(1) m1_def, unfolded f0, simplified]
  have n1: "lookup_conn ex_me m1 ''b'' = None" by (simp add: f1 f0)
  note f2 = add_connection_fresh [OF i1 _ n1 m2_def, unfolded f1, simplified]
  have n2: "lookup_conn ex_me m2 ''c'' = None" by (simp add: f2 f0)
  note f3 = add_connection_fresh [OF i2 _ n2 ex_mgr_def [folded m0_def, folded m1_def, folded m2_def], unfolded f2, simplified]
  show "lookup_conn ex_me ex_mgr ''a'' = Some \<lparr>en_writer = 0, en_info = (conn_info_new ex_clock ''a'' False)\<lparr>ci_user_id := Some ''u''\<rparr>\<rparr>"
    "lookup_conn ex_me ex_mgr ''b'' = Some \<lparr>en_writer = 1, en_info = (conn_info_new ex_clock ''b'' True)\<lparr>ci_user_id := Some ''u''\<rparr>\<rparr>"
    "lookup_conn ex_me ex_mgr ''c'' = Some \<lparr>en_writer = 2, en_info = (conn_info_new ex_clock ''c'' False)\<lparr>ci_user_id := Some ''v''\<rparr>\<rparr>"
    "cm_queues ex_mgr 0 = Some (queue_new ''a'' 10 1)"
    "cm_queues ex_mgr (Suc 0) = Some (queue_new ''b'' 10 1)"
    by (simp_all add: f3 numeral_2_eq_2)
qed

lemma ex_mgr_owner:
  "owner_of ex_me ex_mgr ''a'' = Some (owner_new None ''u'')"
  "owner_of ex_me ex_mgr ''c'' = Some (owner_new None ''v'')"
  by (simp_all add: owner_of_def ex_mgr_lookup info_owner_def conn_info_new_def)

section \<open>Properties\<close>

text \<open>C12: The authentication gate. Whatever frame operation is used (to one connection, to a user, a
  broadcast with or without an exception, the encoding-grouped fan-out), a connection that is not
  authenticated receives no frame other than CONNECT_ACK, PING, PONG, ERROR and CLOSE: its queue
  and its information stay as they were, also when the frame was serialized beforehand with an
  explicit parser; a direct send reports AuthenticationFailed.\<close>

theorem authentication_gate:
  assumes inv: "cm_inv me k cm" and c: "infos me cm c = Some i" "\<not> ci_authenticated i"
    and f: "\<not> frame_allowed_before_auth f"
  shows "untouched me cm (fst (send_frame_to me env now nz c' f parser cm)) c
       \<and> untouched me cm (send_frame_to_user me env now nz ow f parser cm) c
       \<and> untouched me cm (broadcast_frame me env now nz f parser cm) c
       \<and> untouched me cm (broadcast_frame_except me env now nz f ex parser cm) c
       \<and> untouched me cm (fst (fanout_frame_grouped_by_encoding me env now nz ids f cm)) c
       \<and> (\<exists>err. snd (send_frame_to me env now nz c f parser cm) = Inl err
              \<and> flare_error_code err = Some AuthenticationFailed)"
proof -
  have out: "c \<notin> admitted me cm f S" for S using c f by (auto simp: admitted_def)
  have err: "\<exists>err. snd (send_frame_to me env now nz c f parser cm) = Inl err
              \<and> flare_error_code err = Some AuthenticationFailed"
    using c f by (auto simp: infos_def send_frame_to_def get_connection_snapshot_def send_frame_to_snapshot_def
        send_frame_to_snapshot_without_active_def serialize_frame_for_connection_def
        ensure_frame_allowed_for_connection_def)
  show ?thesis
    by (intro conjI err keeps_untouched [OF send_frame_to_keeps [OF inv] out]
        keeps_untouched [OF broadcast_frame_keeps(1) [OF inv] out] keeps_untouched [OF broadcast_frame_keeps(2) [OF inv] out]
        keeps_untouched [OF broadcast_frame_keeps(3) [OF inv] out] keeps_untouched [OF grouped_fanout_keeps [OF inv] out])
qed

theorem authentication_gate_witness:
  "untouched ex_me ex_mgr (send_frame_to_user ex_me (global_codecs ex_lib) 9 (\<lambda>_. []) (owner_new None ''u'') ex_frame None ex_mgr) ''b''"
proof -
  have "infos ex_me ex_mgr ''b'' = Some ((conn_info_new ex_clock ''b'' True)\<lparr>ci_user_id := Some ''u''\<rparr>)"
    by (simp add: infos_def ex_mgr_lookup)
  moreover have "\<not> ci_authenticated ((conn_info_new ex_clock ''b'' True)\<lparr>ci_user_id := Some ''u''\<rparr>)"
    by (simp add: conn_info_new_def)
  moreover have "\<not> frame_allowed_before_auth ex_frame"
    by (simp add: frame_allowed_before_auth_def frame_command_type_def ex_frame_def)
  ultimately show ?thesis by (rule authentication_gate [OF ex_mgr_inv, THEN conjunct2, THEN conjunct1])
qed

text \<open>Delivery to a user. A frame sent to a (tenant, user) is enqueued, in the encoding of each
  connection, on every connection of exactly that owner whose encoding succeeds and whose queue
  accepts a write, once; connections of other users or of the same user name in another tenant
  are untouched, as they are by a raw send to the user.\<close>

theorem user_delivery:
  assumes inv: "cm_inv me k cm"
  shows "(\<forall>c. owner_of me cm c \<noteq> Some ow \<longrightarrow>
            untouched me cm (send_frame_to_user me env now nz ow f parser cm) c
          \<and> untouched me cm (send_to_user me ow d cm) c)
       \<and> (\<forall>c e w wq wq'. owner_of me cm c = Some ow \<and> lookup_conn me cm c = Some e
            \<and> serialize_frame_for_connection env (nz c) (en_info e) f None = Inr w
            \<and> cm_queues cm (en_writer e) = Some wq \<and> try_enqueue (me_runtime me) w wq = (wq', Inr ())
            \<longrightarrow> cm_queues (send_frame_to_user me env now nz ow f None cm) (en_writer e) = Some wq')"
proof -
  have out: "c \<notin> admitted me cm f (set (get_user_connections me ow cm))" "c \<notin> set (get_user_connections me ow cm)"
    if "owner_of me cm c \<noteq> Some ow" for c
    using that by (simp_all add: admitted_def user_connections_owner [OF inv])
  show ?thesis
    by (intro conjI allI impI keeps_untouched [OF broadcast_frame_keeps(3) [OF inv] out(1)]
        keeps_untouched [OF raw_sends_keep(1) [OF inv] out(2)]) (auto intro: user_frame_delivery [OF inv])
qed

theorem user_delivery_witness:
  "map_option wq_buffer (cm_queues (send_frame_to_user ex_me (global_codecs ex_lib) 9 (\<lambda>_. [])
     (owner_new None ''u'') ex_frame None ex_mgr) 0) = Some [''{}''] \<and>
   untouched ex_me ex_mgr (send_frame_to_user ex_me (global_codecs ex_lib) 9 (\<lambda>_. [])
     (owner_new None ''u'') ex_frame None ex_mgr) ''c''"
proof -
  let ?e = "\<lparr>en_writer = 0, en_info = (conn_info_new ex_clock ''a'' False)\<lparr>ci_user_id := Some ''u''\<rparr>\<rparr>"
  let ?wq = "queue_new ''a'' 10 1"
  have w: "serialize_frame_for_connection (global_codecs ex_lib) [] (en_info ?e) ex_frame None = Inr ''{}''"
    by code_simp
  have q: "try_enqueue (me_runtime ex_me) ''{}'' ?wq = (fst (try_enqueue True ''{}'' ?wq), Inr ())"
    "wq_buffer (fst (try_enqueue True ''{}'' ?wq)) = [''{}'']"
    by (simp_all add: try_enqueue_def ensure_writer_started_def try_send_def queue_new_def Let_def)
  note dlv = user_delivery [OF ex_mgr_inv, of "owner_new None ''u''" "global_codecs ex_lib" 9 "\<lambda>_. []" ex_frame None "[]"]
  have "owner_of ex_me ex_mgr ''c'' \<noteq> Some (owner_new None ''u'')" by (simp add: ex_mgr_owner owner_new_def)
  moreover have "cm_queues (send_frame_to_user ex_me (global_codecs ex_lib) 9 (\<lambda>_. [])
     (owner_new None ''u'') ex_frame None ex_mgr) (en_writer ?e) = Some (fst (try_enqueue True ''{}'' ?wq))"
    by (rule conjunct2 [OF dlv, rule_format, of "''a''" ?e "''{}''" ?wq])
       (simp only: ex_mgr_owner ex_mgr_lookup q(1) w [unfolded conn_entry.select_convs] conn_entry.select_convs simp_thms)
  ultimately show ?thesis using dlv q(2) by simp
qed

text \<open>C13: Slow consumers are isolated. In a broadcast every connection is judged by its own queue
  only: if the queue accepts the write, the data is appended to it, whatever happens to the other
  connections; if it refuses (full, closed, or no writer), that connection is taken out of the
  manager and its queue closed. The invariant of the manager, with exact counters and index, holds
  afterwards.\<close>

theorem broadcast_isolates_slow_consumers:
  assumes inv: "cm_inv me k cm" and e: "lookup_conn me cm c = Some e"
    and wq: "cm_queues cm (en_writer e) = Some wq"
  shows "cm_inv me k (broadcast me d cm)
       \<and> (case try_enqueue (me_runtime me) d wq of
            (wq', Inr _) \<Rightarrow> cm_queues (broadcast me d cm) (en_writer e) = Some wq' \<and> wq_buffer wq' = wq_buffer wq @ [d]
          | (wq', Inl _) \<Rightarrow> infos me (broadcast me d cm) c = None
                \<and> (\<exists>q. cm_queues (broadcast me d cm) (en_writer e) = Some q \<and> wq_closed q))"
proof -
  obtain wq' r where enq: "try_enqueue (me_runtime me) d wq = (wq', r)" by fastforce
  have "cm_inv me k (broadcast me d cm)" using raw_sends_keep(2) [OF inv, of _ d] by (simp add: keeps_but_def)
  then show ?thesis
  proof (cases r)
    case (Inl err)
    with \<open>cm_inv me k (broadcast me d cm)\<close> broadcast_effect(2) [OF inv e wq] enq show ?thesis by simp
  next
    case (Inr u)
    with \<open>cm_inv me k (broadcast me d cm)\<close> broadcast_effect(1) [OF inv e wq] enq try_enqueue_Inr [of "me_runtime me" d wq wq']
    show ?thesis by simp
  qed
qed

theorem broadcast_isolates_slow_consumers_witness:
  "infos ex_me (broadcast ex_me ''y'' (fst (send_to_connection ex_me ''a'' ''x'' ex_mgr))) ''a'' = None \<and>
   map_option wq_buffer (cm_queues (broadcast ex_me ''y'' (fst (send_to_connection ex_me ''a'' ''x'' ex_mgr))) 1) = Some [''y'']"
proof -
  let ?cm = "fst (send_to_connection ex_me ''a'' ''x'' ex_mgr)"
  let ?full = "fst (try_enqueue True ''x'' (queue_new ''a'' 10 1))"
  have cm: "?cm = ex_mgr\<lparr>cm_queues := (cm_queues ex_mgr)(0 \<mapsto> ?full)\<rparr>"
    by (simp add: send_to_connection_def get_connection_snapshot_def ex_mgr_lookup send_to_connection_handle_def
        try_enqueue_def ensure_writer_started_def try_send_def queue_new_def Let_def)
  have inv: "cm_inv ex_me 0 ?cm"
    using send_to_connection_keeps [OF ex_mgr_inv, of _ "''a''" "''x''"] by (simp add: keeps_but_def)
  have a: "lookup_conn ex_me ?cm ''a'' = lookup_conn ex_me ex_mgr ''a''"
    "lookup_conn ex_me ?cm ''b'' = lookup_conn ex_me ex_mgr ''b''" by (simp_all add: cm)
  have qa: "cm_queues ?cm 0 = Some ?full" and qb: "cm_queues ?cm 1 = Some (queue_new ''b'' 10 1)"
    by (simp_all add: cm ex_mgr_lookup)
  have ta: "\<exists>err. try_enqueue (me_runtime ex_me) ''y'' ?full = (?full, Inl err)"
    and tb: "\<exists>q. try_enqueue (me_runtime ex_me) ''y'' (queue_new ''b'' 10 1) = (q, Inr ()) \<and> wq_buffer q = [''y'']"
    by (simp_all add: try_enqueue_def ensure_writer_started_def try_send_def queue_new_def Let_def)
  note dlv = broadcast_isolates_slow_consumers [OF inv, where d = "''y''"]
  have "infos ex_me (broadcast ex_me ''y'' ?cm) ''a'' = None"
    using dlv [OF a(1) [unfolded ex_mgr_lookup], of ?full] qa ta by auto
  moreover have "map_option wq_buffer (cm_queues (broadcast ex_me ''y'' ?cm) 1) = Some [''y'']"
    using dlv [OF a(2) [unfolded ex_mgr_lookup], of "queue_new ''b'' 10 1"] qb tb by auto
  ultimately show ?thesis by simp
qed

text \<open>C14: Serializing once per encoding changes nothing. The fan-out that groups connections by their
  negotiated encoding and shares one serialization per group has the same effect on the manager,
  the same successes and the same failures as serializing and sending to the connections one by
  one (in some order), for connections whose cached parser matches their negotiated parameters.\<close>

theorem grouped_fanout_equivalence:
  assumes "snaps = connection_snapshots_for_ids me ids cm" "snaps \<noteq> []"
    and "\<forall>s \<in> set snaps. parser_consistent (snd (snd s))"
  shows "\<exists>order cm1 ok. mset order = mset snaps \<and> fanout_frame_to_snapshots me env nz order f None cm = (cm1, ok)
       \<and> fanout_frame_grouped_by_encoding me env now nz ids f cm =
           (fst (update_connections_active me now ok cm1), length ok, length snaps - length ok)"
proof -
  obtain cm1 ok where fan: "fanout_frame_to_snapshots me env nz (grouped_order snaps) f None cm = (cm1, ok)"
    by fastforce
  with grouped_fanout_eq [OF assms(1) _ fan] assms(2,3) mset_grouped_order [of snaps] show ?thesis
    by (intro exI [of _ "grouped_order snaps"] exI) auto
qed

theorem grouped_fanout_equivalence_witness:
  "\<exists>order cm1 ok. mset order = mset (connection_snapshots_for_ids ex_me [''a'', ''b''] ex_mgr)
     \<and> fanout_frame_to_snapshots ex_me (global_codecs ex_lib) (\<lambda>_. []) order ex_frame None ex_mgr = (cm1, ok)
     \<and> fanout_frame_grouped_by_encoding ex_me (global_codecs ex_lib) 9 (\<lambda>_. []) [''a'', ''b''] ex_frame ex_mgr =
         (fst (update_connections_active ex_me 9 ok cm1), length ok,
          length (connection_snapshots_for_ids ex_me [''a'', ''b''] ex_mgr) - length ok)"
proof -
  let ?ss = "connection_snapshots_for_ids ex_me [''a'', ''b''] ex_mgr"
  have iff: "s \<in> set ?ss \<longleftrightarrow> (\<exists>c e. c \<in> set [''a'', ''b''] \<and> lookup_conn ex_me ex_mgr c = Some e \<and> s = info_view c e)" for s
    by (simp add: connection_snapshots_for_ids_def pick_ids_iff [OF ex_mgr_inv])
  have "info_view ''a'' \<lparr>en_writer = 0, en_info = (conn_info_new ex_clock ''a'' False)\<lparr>ci_user_id := Some ''u''\<rparr>\<rparr> \<in> set ?ss"
    unfolding iff by (rule exI [of _ "''a''"], rule exI) (simp add: ex_mgr_lookup)
  then have ne: "?ss \<noteq> []" by force
  have "\<forall>s \<in> set ?ss. parser_consistent (snd (snd s))"
    by (auto simp: iff ex_mgr_lookup parser_consistent_def conn_info_new_def info_view_def)
  from grouped_fanout_equivalence [OF refl ne this] show ?thesis .
qed

end
