(* ===== verification/ConnRun.thy ===== *)
theory ConnRun
  imports Delivery
begin

text \<open>
  Runs of the connection manager.  A registration first reserves a slot with one atomic update
  of the counter and then inserts under the shard lock.  The removals by a writer task and by a batch take the
  entry out of the table under the shard lock, drop the lock, give the slot back and take the entry out of
  the user index last.  Between these steps any other operation of the manager may happen: \<open>pending\<close> holds
  the registrations that have reserved and not yet inserted, \<open>leaving\<close> counts the removals that have not
  yet released, \<open>stale\<close> holds the entries of the index whose connections have left the table, and
  \<open>reused\<close> records that an id was registered while an entry of it was stale.  Registrations, changes of the
  owner and \<open>remove_connection\<close> hold the lock of the connection's shard over both tables and are single steps.
\<close>

section \<open>The step relation\<close>

datatype mgr_op =
    BindUser conn_id string
  | SetAuthenticated clock conn_id "string option"
  | UpdateNegotiation conn_id "device_info option" serialization_format compression_algorithm
      encryption_algorithm "string option" "(string, string) amap option"
  | CompleteNegotiation conn_id "device_info option" serialization_format compression_algorithm
      encryption_algorithm "string option" message_parser "nat option"
  | ConfirmNegotiation conn_id
  | UpdateActive nat conn_id
  | RemoveConnection conn_id
  | SendTo conn_id bytes
  | SendToUser device_owner bytes
  | Broadcast bytes
  | BroadcastExcept bytes conn_id
  | SendFrameTo nat conn_id frame "message_parser option"
  | SendFrameToUser nat device_owner frame "message_parser option"
  | BroadcastFrame nat frame "message_parser option"
  | BroadcastFrameExcept nat frame conn_id "message_parser option"
  | FanoutGrouped nat "conn_id list" frame
  | WriterStep nat send_outcome

definition mgr_op_step ::
  "mgr_env \<Rightarrow> codec_env \<Rightarrow> (conn_id \<Rightarrow> bytes) \<Rightarrow> mgr_op \<Rightarrow> conn_manager \<Rightarrow> conn_manager" where
  "mgr_op_step me env nz p cm =
     (case p of
        BindUser c u \<Rightarrow> fst (bind_user me c u cm)
      | SetAuthenticated ck c u \<Rightarrow> fst (set_connection_authenticated me ck c u cm)
      | UpdateNegotiation c dev fmt cmpr enc u md \<Rightarrow>
          fst (update_connection_negotiation me c dev fmt cmpr enc u md cm)
      | CompleteNegotiation c dev fmt cmpr enc u q pl \<Rightarrow>
          fst (update_connection_negotiation_with_pipeline me c dev fmt cmpr enc u q pl cm)
      | ConfirmNegotiation c \<Rightarrow> fst (mark_negotiation_confirmed me c cm)
      | UpdateActive now c \<Rightarrow> fst (update_connection_active me now c cm)
      | RemoveConnection c \<Rightarrow> fst (remove_connection me c cm)
      | SendTo c d \<Rightarrow> fst (send_to_connection me c d cm)
      | SendToUser ow d \<Rightarrow> send_to_user me ow d cm
      | Broadcast d \<Rightarrow> broadcast me d cm
      | BroadcastExcept d ex \<Rightarrow> broadcast_except me d ex cm
      | SendFrameTo now c f q \<Rightarrow> fst (send_frame_to me env now nz c f q cm)
      | SendFrameToUser now ow f q \<Rightarrow> send_frame_to_user me env now nz ow f q cm
      | BroadcastFrame now f q \<Rightarrow> broadcast_frame me env now nz f q cm
      | BroadcastFrameExcept now f ex q \<Rightarrow> broadcast_frame_except me env now nz f ex q cm
      | FanoutGrouped now ids f \<Rightarrow> fst (fanout_frame_grouped_by_encoding me env now nz ids f cm)
      | WriterStep q out \<Rightarrow> fst (manager_writer_step q out cm))"

type_synonym registration = "conn_id \<times> string option \<times> bool"

text \<open>Operations that record the time do so at the time they happen.\<close>

fun op_at :: "nat \<Rightarrow> mgr_op \<Rightarrow> bool" where
  "op_at now (SetAuthenticated ck c u) = (ck_instant ck = now)"
| "op_at now (UpdateActive t c) = (t = now)"
| "op_at now (SendFrameTo t c f q) = (t = now)"
| "op_at now (SendFrameToUser t ow f q) = (t = now)"
| "op_at now (BroadcastFrame t f q) = (t = now)"
| "op_at now (BroadcastFrameExcept t f ex q) = (t = now)"
| "op_at now (FanoutGrouped t ids f) = (t = now)"
| "op_at now _ = True"

type_synonym mgr_sys = "registration list \<times> nat \<times> (device_owner \<times> conn_id) list \<times> bool \<times> conn_manager"

text \<open>\<open>shut\<close> says whether the removal closes the queue: the batch does, the writer task does not.\<close>

inductive mgr_step :: "mgr_env \<Rightarrow> codec_env \<Rightarrow> 64 word \<Rightarrow> nat \<Rightarrow> mgr_sys \<Rightarrow> mgr_sys \<Rightarrow> bool"
  for me :: mgr_env and env :: codec_env and limit :: "64 word" and now :: nat where
  reserve: "reserve_connection_slot limit cm = (cm', Inr ()) \<Longrightarrow>
    mgr_step me env limit now (pending, leaving, stale, reused, cm) (reg # pending, leaving, stale, reused, cm')"
| register: "ck_instant ck = now \<Longrightarrow>
    mgr_step me env limit now (ps @ (cid, user, ra) # qs, leaving, stale, reused, cm)
      (ps @ qs, leaving, stale, reused \<or> lookup_conn me cm cid = None \<and> cid \<in> snd ` set stale,
       fst (register_reserved me ck cid user ra cm))"
| take_out: "lookup_conn me cm cid = Some e \<Longrightarrow>
    mgr_step me env limit now (pending, leaving, stale, reused, cm)
      (pending, Suc leaving, left_behind cid (en_info e) @ stale, reused,
       take_out me cid (if shut then close_queue me (en_writer e) cm else cm))"
| release: "mgr_step me env limit now (pending, Suc leaving, stale, reused, cm)
      (pending, leaving, stale, reused, release_connection_slot cm)"
| unindex: "mgr_step me env limit now (pending, leaving, xs @ (ow, cid) # ys, reused, cm)
      (pending, leaving, xs @ ys, reused, remove_user_connection me ow cid cm)"
| operate: "op_at now p \<Longrightarrow>
    mgr_step me env limit now (pending, leaving, stale, reused, cm)
      (pending, leaving, stale, reused, mgr_op_step me env nz p cm)"

inductive mgr_run ::
  "mgr_env \<Rightarrow> codec_env \<Rightarrow> 64 word \<Rightarrow> registration list \<Rightarrow> nat \<Rightarrow> (device_owner \<times> conn_id) list \<Rightarrow> bool \<Rightarrow> conn_manager \<Rightarrow> bool"
  for me :: mgr_env and env :: codec_env and limit :: "64 word" where
  init: "mgr_run me env limit [] 0 [] False (with_write_queue_limits t fo n)"
| step: "mgr_run me env limit pending leaving stale reused cm \<Longrightarrow>
    mgr_step me env limit now (pending, leaving, stale, reused, cm) (pending', leaving', stale', reused', cm') \<Longrightarrow>
    mgr_run me env limit pending' leaving' stale' reused' cm'"

section \<open>What an operation does to the connections\<close>

text \<open>Facts about a connection's negotiation that hold from its registration on.\<close>

definition negotiation_ok :: "conn_info \<Rightarrow> bool" where
  "negotiation_ok i \<longleftrightarrow> (ci_negotiation_confirmed i \<longrightarrow> ci_negotiation_completed i)
     \<and> (ci_negotiation_completed i \<longrightarrow> ci_cached_parser i \<noteq> None)
     \<and> (ci_authenticated i \<longleftrightarrow> ci_authenticated_at i \<noteq> None)"

text \<open>The contract of the operations that register nothing: no connection appears, the
  invariant is kept, and so is the negotiation state.\<close>

definition op_ok :: "index_view \<Rightarrow> mgr_env \<Rightarrow> nat \<Rightarrow> conn_manager \<Rightarrow> conn_manager \<Rightarrow> bool" where
  "op_ok ix me k cm cm' \<longleftrightarrow> mgr_inv ix me k cm' \<and>
     (\<forall>c i'. infos me cm' c = Some i' \<longrightarrow>
        (\<exists>i. infos me cm c = Some i \<and> (negotiation_ok i \<longrightarrow> negotiation_ok i')))"

lemma op_ok_refl: "mgr_inv ix me k cm \<Longrightarrow> op_ok ix me k cm cm"
  by (auto simp: op_ok_def)

lemma keeps_op_ok: "keeps_but ix me now k S cm cm' \<Longrightarrow> op_ok ix me k cm cm'"
  unfolding keeps_but_def op_ok_def aged_def by (fastforce simp: negotiation_ok_def)

lemma restrict_op_ok:
  "mgr_inv ix me k cm' \<Longrightarrow> (\<And>c i. infos me cm' c = Some i \<Longrightarrow> infos me cm c = Some i) \<Longrightarrow> op_ok ix me k cm cm'"
  by (auto simp: op_ok_def)

lemma update_reindexed_op_ok:
  assumes inv: "mgr_inv ix me k cm" and f: "\<And>i. ci_connection_id (f i) = ci_connection_id i"
    and neg: "\<And>i. negotiation_ok i \<Longrightarrow> negotiation_ok (f i)"
  shows "op_ok ix me k cm (fst (update_reindexed me c f cm))"
proof -
  obtain cm' r where upd: "update_reindexed me c f cm = (cm', r)" by fastforce
  show ?thesis
    using update_reindexed_spec(1,2) [OF inv f upd] neg
    by (auto simp: op_ok_def upd split: option.splits if_splits)
qed

lemma put_info_op_ok:
  assumes inv: "mgr_inv ix me k cm" and e: "lookup_conn me cm c = Some e"
    and i: "ci_connection_id i = ci_connection_id (en_info e)" "info_owner i = info_owner (en_info e)"
    and neg: "negotiation_ok (en_info e) \<Longrightarrow> negotiation_ok i"
  shows "op_ok ix me k cm (put_info me c e i cm)"
  using put_info_same_owner_inv [OF inv e i] neg e
  by (auto simp: op_ok_def infos_def [of me cm c] split: if_splits)

lemma manager_writer_op_ok:
  assumes inv: "mgr_inv ix me k cm"
  shows "op_ok ix me k cm (fst (manager_writer_step q out cm))"
proof (cases "cm_queues cm q")
  case None
  then show ?thesis by (simp add: manager_writer_step_def op_ok_refl [OF inv])
next
  case (Some wq)
  obtain wq' rm where w: "writer_step out wq = (wq', rm)" by fastforce
  have "wq_connection_id wq' = wq_connection_id wq"
    using w by (auto simp: writer_step_def split: if_splits list.splits send_outcome.splits)
  from queue_update_inv [OF inv Some this] Some w show ?thesis
    by (auto simp: manager_writer_step_def intro: restrict_op_ok)
qed

lemma remove_op_ok:
  assumes inv: "mgr_inv ix me k cm"
  shows "op_ok ix me k cm (fst (remove_connection me c cm))"
  using remove_connection_spec(1,2) [OF inv surjective_pairing, of c] by (auto intro: restrict_op_ok split: if_splits)

lemma info_op_ok:
  assumes inv: "mgr_inv ix me k cm"
  shows "op_ok ix me k cm (fst (mark_negotiation_confirmed me c cm))"
    "op_ok ix me k cm (fst (update_connection_active me now c cm))"
    "op_ok ix me k cm (fst (bind_user me c u cm))"
    "op_ok ix me k cm (fst (set_connection_authenticated me ck c w cm))"
    "op_ok ix me k cm (fst (update_connection_negotiation me c dev fmt cmpr enc w md cm))"
    "op_ok ix me k cm (fst (update_connection_negotiation_with_pipeline me c dev fmt cmpr enc w q pl cm))"
proof -
  show "op_ok ix me k cm (fst (mark_negotiation_confirmed me c cm))"
    unfolding mark_negotiation_confirmed_def
    by (auto intro!: put_info_op_ok [OF inv] simp: op_ok_refl [OF inv] info_owner_def negotiation_ok_def split: option.splits)
  show "op_ok ix me k cm (fst (update_connection_active me now c cm))"
    unfolding update_connection_active_def
    by (auto intro!: put_info_op_ok [OF inv] simp: op_ok_refl [OF inv] negotiation_ok_def info_update_active_def
        info_owner_def split: option.splits)
  show "op_ok ix me k cm (fst (bind_user me c u cm))"
    unfolding bind_user_def by (rule update_reindexed_op_ok [OF inv]) (simp_all add: negotiation_ok_def)
  show "op_ok ix me k cm (fst (set_connection_authenticated me ck c w cm))"
    unfolding set_connection_authenticated_def
    by (rule update_reindexed_op_ok [OF inv])
       (auto simp: negotiation_ok_def info_set_authenticated_def Let_def split: option.splits)
  show "op_ok ix me k cm (fst (update_connection_negotiation me c dev fmt cmpr enc w md cm))"
    unfolding update_connection_negotiation_def
    by (rule update_reindexed_op_ok [OF inv])
       (auto simp: negotiation_ok_def negotiated_info_def Let_def split: option.splits)
  show "op_ok ix me k cm (fst (update_connection_negotiation_with_pipeline me c dev fmt cmpr enc w q pl cm))"
    unfolding update_connection_negotiation_with_pipeline_def
    by (rule update_reindexed_op_ok [OF inv]) (auto simp: negotiation_ok_def completed_info_def Let_def)
qed

lemma mgr_op_step_ok:
  assumes inv: "mgr_inv ix me k cm"
  shows "op_ok ix me k cm (mgr_op_step me env nz p cm)"
  by (cases p;
      simp only: mgr_op_step_def mgr_op.case;
      (rule info_op_ok [OF inv] remove_op_ok [OF inv] manager_writer_op_ok [OF inv]
        keeps_op_ok [OF send_to_connection_keeps [OF inv]] keeps_op_ok [OF raw_sends_keep(1) [OF inv]]
        keeps_op_ok [OF raw_sends_keep(2) [OF inv]] keeps_op_ok [OF raw_sends_keep(3) [OF inv]]
        keeps_op_ok [OF send_frame_to_keeps [OF inv]] keeps_op_ok [OF broadcast_frame_keeps(1) [OF inv]]
        keeps_op_ok [OF broadcast_frame_keeps(2) [OF inv]] keeps_op_ok [OF broadcast_frame_keeps(3) [OF inv]]
        keeps_op_ok [OF grouped_fanout_keeps [OF inv]])?)

section \<open>Invariants of every run\<close>

lemma op_ok_dom:
  assumes "mgr_inv ix me k cm" "op_ok ix me k cm cm'"
  shows "unat (cm_connection_count cm') \<le> unat (cm_connection_count cm)"
proof -
  have "dom (lookup_conn me cm') \<subseteq> dom (lookup_conn me cm)"
    using assms(2) by (fastforce simp: op_ok_def infos_def)
  then have "card (dom (lookup_conn me cm')) \<le> card (dom (lookup_conn me cm))"
    by (rule card_mono [OF owner_dom(1) [OF assms(1)]])
  then show ?thesis
    using mgr_invD(4) [OF assms(1)] mgr_invD(4) [of ix me k cm'] assms(2) by (simp add: op_ok_def)
qed

text \<open>The index of a run: known, with the stale entries, until an id is reused.\<close>

definition run_view :: "(device_owner \<times> conn_id) list \<Rightarrow> bool \<Rightarrow> index_view" where
  "run_view stale reused = (if reused then None else Some (set stale))"

fun sys_ok :: "mgr_env \<Rightarrow> 64 word \<Rightarrow> mgr_sys \<Rightarrow> bool" where
  "sys_ok me limit (pending, leaving, stale, reused, cm) \<longleftrightarrow>
     mgr_inv (run_view stale reused) me (length pending + leaving) cm
   \<and> (reused \<or> distinct (map snd stale))
   \<and> unat (cm_connection_count cm) \<le> unat limit
   \<and> (\<forall>c i. infos me cm c = Some i \<longrightarrow> negotiation_ok i)"

lemma register_sys_ok:
  assumes ok: "sys_ok me limit (ps @ (cid, user, ra) # qs, leaving, stale, reused, cm)"
  shows "sys_ok me limit (ps @ qs, leaving, stale, reused \<or> lookup_conn me cm cid = None \<and> cid \<in> snd ` set stale,
    fst (register_reserved me ck cid user ra cm))"
proof -
  let ?k = "length (ps @ qs) + leaving"
  let ?reused = "reused \<or> lookup_conn me cm cid = None \<and> cid \<in> snd ` set stale"
  have inv0: "mgr_inv (run_view stale reused) me (Suc ?k) cm" using ok by simp
  have inv: "mgr_inv (run_view stale ?reused) me (Suc ?k) cm"
    using inv0 mgr_inv_weaken [OF inv0] by (auto simp: run_view_def)
  obtain cm' r where reg: "register_reserved me ck cid user ra cm = (cm', r)" by fastforce
  have "cm_connection_count cm' = (if infos me cm cid = None then cm_connection_count cm else cm_connection_count cm - 1)"
    using reg by (auto simp: register_reserved_def infos_def new_connection_entry_def release_connection_slot_def
        Let_def split: option.splits if_splits)
  moreover have "unat (cm_connection_count cm - 1) \<le> unat (cm_connection_count cm)"
    using mgr_invD(4) [OF inv] unat_decr [of "cm_connection_count cm"] by simp
  moreover have "negotiation_ok ((conn_info_new ck cid ra)\<lparr>ci_user_id := user\<rparr>)"
    by (simp add: negotiation_ok_def conn_info_new_def)
  moreover have "mgr_inv (run_view stale ?reused) me ?k cm'"
    by (rule register_reserved_spec(1) [OF inv reg]) (auto simp: id_unused_def run_view_def infos_def)
  ultimately show ?thesis
    using register_reserved_spec(2) [OF inv reg] ok reg by (auto split: if_splits)
qed

lemma take_out_sys_ok:
  assumes ok: "sys_ok me limit (pending, leaving, stale, reused, cm)" and e: "lookup_conn me cm cid = Some e"
  shows "sys_ok me limit (pending, Suc leaving, left_behind cid (en_info e) @ stale, reused,
    take_out me cid (if shut then close_queue me (en_writer e) cm else cm))"
proof -
  let ?c = "if shut then close_queue me (en_writer e) cm else cm"
  have inv: "mgr_inv (run_view stale reused) me (length pending + leaving) cm" using ok by simp
  have c: "mgr_inv (run_view stale reused) me (length pending + leaving) ?c" "infos me ?c = infos me cm"
    "lookup_conn me ?c cid = Some e" "cm_connection_count ?c = cm_connection_count cm"
    using inv close_queue_inv [OF inv] e by (simp_all add: close_queue_def)
  have "map_option (\<lambda>S. S \<union> set (left_behind cid (en_info e))) (run_view stale reused)
      = run_view (left_behind cid (en_info e) @ stale) reused"
    by (auto simp: run_view_def)
  moreover have "distinct (map snd (left_behind cid (en_info e) @ stale))" if "\<not> reused"
    using ok that e mgr_invD(7) [OF inv]
    by (auto simp: run_view_def index_ok_def left_behind_def split: option.splits)
  moreover have "cm_connection_count (take_out me cid ?c) = cm_connection_count cm"
    using c(4) by (simp add: take_out_def)
  ultimately show ?thesis using take_out_inv [OF c(1,3)] c(2) ok by auto
qed

lemma unindex_sys_ok:
  assumes ok: "sys_ok me limit (pending, leaving, xs @ (ow, cid) # ys, reused, cm)"
  shows "sys_ok me limit (pending, leaving, xs @ ys, reused, remove_user_connection me ow cid cm)"
proof -
  let ?ix = "run_view (xs @ (ow, cid) # ys) reused"
  have inv: "mgr_inv ?ix me (length pending + leaving) cm" using ok by simp
  have "map_option (\<lambda>S. S - {(ow, cid)}) ?ix = run_view (xs @ ys) reused"
    using ok by (auto simp: run_view_def image_iff)
  moreover have "(ow, cid) \<in> S" if "?ix = Some S" for S
    using that by (auto simp: run_view_def split: if_splits)
  ultimately have "mgr_inv (run_view (xs @ ys) reused) me (length pending + leaving) (remove_user_connection me ow cid cm)"
    "infos me (remove_user_connection me ow cid cm) = infos me cm"
    using unindex_inv [OF inv, of ow cid] by simp_all
  then show ?thesis using ok by auto
qed

lemma mgr_step_ok: "mgr_step me env limit now s s' \<Longrightarrow> sys_ok me limit s \<Longrightarrow> sys_ok me limit s'"
proof (induction rule: mgr_step.induct)
  case (reserve cm cm' pending leaving stale reused reg)
  then have "mgr_inv (run_view stale reused) me (length pending + leaving) cm" by simp
  from reserve_inv [OF this reserve.hyps] reserve.prems show ?case by simp
next
  case (register ck ps cid user ra qs leaving stale reused cm)
  from register_sys_ok [OF register.prems] show ?case .
next
  case (take_out cm cid e pending leaving stale reused shut)
  from take_out_sys_ok [OF take_out.prems take_out.hyps] show ?case .
next
  case (release pending leaving stale reused cm)
  then have inv: "mgr_inv (run_view stale reused) me (Suc (length pending + leaving)) cm" by simp
  have "unat (cm_connection_count cm - 1) \<le> unat (cm_connection_count cm)"
    using mgr_invD(4) [OF inv] unat_decr [of "cm_connection_count cm"] by simp
  then show ?case using release_inv [OF inv] release.prems by (simp add: release_connection_slot_def)
next
  case (unindex pending leaving xs ow cid ys reused cm)
  from unindex_sys_ok [OF unindex.prems] show ?case .
next
  case (operate p pending leaving stale reused cm nz)
  then have inv: "mgr_inv (run_view stale reused) me (length pending + leaving) cm" by simp
  note ok = mgr_op_step_ok [OF inv, of env nz p]
  have "unat (cm_connection_count (mgr_op_step me env nz p cm)) \<le> unat limit"
    using op_ok_dom [OF inv ok] operate.prems by simp
  with ok operate.prems show ?case unfolding op_ok_def sys_ok.simps by blast
qed

lemma mgr_run_ok: "mgr_run me env limit pending leaving stale reused cm \<Longrightarrow> sys_ok me limit (pending, leaving, stale, reused, cm)"
proof (induction rule: mgr_run.induct)
  case (init t fo n)
  have "infos me (with_write_queue_limits t fo n) c = None" for c
    by (simp add: infos_def lookup_conn_def with_write_queue_limits_def CONNECTION_SHARD_COUNT_def)
  moreover have "cm_connection_count (with_write_queue_limits t fo n) = 0" by (simp add: with_write_queue_limits_def)
  ultimately show ?case by (simp add: run_view_def)
qed (rule mgr_step_ok)

lemma mgr_run_inv:
  assumes "mgr_run me env limit pending leaving stale reused cm"
  shows "mgr_inv (run_view stale reused) me (length pending + leaving) cm" "unat (cm_connection_count cm) \<le> unat limit"
    "infos me cm c = Some i \<Longrightarrow> negotiation_ok i"
  using mgr_run_ok [OF assms] by auto

text \<open>A registration with nothing in between is its two halves one after the other.\<close>

lemma mgr_run_add:
  assumes "mgr_run me env limit pending leaving stale reused cm"
    and "add_connection_with_limit me ck cid user ra limit cm = (cm', r)" and "cid \<notin> snd ` set stale"
  shows "mgr_run me env limit pending leaving stale reused cm'"
proof (cases "reserve_connection_slot limit cm")
  case (Pair cm1 r1)
  show ?thesis
  proof (cases r1)
    case (Inl e)
    then have "cm' = cm"
      using Pair assms(2) by (auto simp: add_connection_with_limit_def reserve_connection_slot_def split: if_splits)
    with assms(1) show ?thesis by simp
  next
    case (Inr u)
    have "mgr_run me env limit ([] @ (cid, user, ra) # pending) leaving stale reused cm1"
      using mgr_run.step [OF assms(1) mgr_step.reserve] Pair Inr by simp
    from mgr_run.step [OF this mgr_step.register [where ck = ck, OF HOL.refl]] show ?thesis
      using Pair Inr assms(2,3) by (simp add: add_connection_with_limit_def)
  qed
qed

lemma ex_run: "mgr_run ex_me (global_codecs ex_lib) 3 [] 0 [] False ex_mgr"
  unfolding ex_mgr_def by (intro mgr_run_add [OF _ surjective_pairing] mgr_run.init) simp_all

lemma infos_dom: "dom (infos me cm) = dom (lookup_conn me cm)"
  by (auto simp: infos_def)



text \<open>The sharded table as a plain map.\<close>

lemma table_specs:
  assumes inv: "cm_inv me k cm"
  shows "add_connection_with_limit me ck c user ra m cm = (cm1, r1) \<Longrightarrow>
           (r1 = Inr () \<longleftrightarrow> card (dom (infos me cm)) + k < unat m \<and> infos me cm c = None)
         \<and> infos me cm1 = (if r1 = Inr () then (infos me cm)(c \<mapsto> (conn_info_new ck c ra)\<lparr>ci_user_id := user\<rparr>)
                           else infos me cm)"
    and "remove_connection me c cm = (cm2, r2) \<Longrightarrow>
           (r2 = Inr () \<longleftrightarrow> infos me cm c \<noteq> None) \<and> infos me cm2 = (infos me cm)(c := None)"
    and "bind_user me c u cm = (cm3, r3) \<Longrightarrow>
           (r3 = Inr () \<longleftrightarrow> infos me cm c \<noteq> None)
         \<and> infos me cm3 = (infos me cm)(c := map_option (\<lambda>i. i\<lparr>ci_user_id := Some u\<rparr>) (infos me cm c))"
    and "set_connection_authenticated me ck c user cm = (cm4, r4) \<Longrightarrow>
           (r4 = Inr () \<longleftrightarrow> infos me cm c \<noteq> None)
         \<and> infos me cm4 = (infos me cm)(c := map_option (info_set_authenticated ck user) (infos me cm c))"
proof -
  have auth_id: "ci_connection_id (info_set_authenticated ck user i) = ci_connection_id i" for i
    by (simp add: info_set_authenticated_def Let_def split: option.splits)
  have unit: "(r = Inr ()) = (\<not> (\<exists>e. r = Inl e))" for r :: "unit result" by (cases r) auto
  have eq: "(case infos me cm c of None \<Rightarrow> infos me cm | Some i \<Rightarrow> (infos me cm)(c \<mapsto> f i))
      = (infos me cm)(c := map_option f (infos me cm c))" for f
    by (auto split: option.splits)
  show "add_connection_with_limit me ck c user ra m cm = (cm1, r1) \<Longrightarrow>
           (r1 = Inr () \<longleftrightarrow> card (dom (infos me cm)) + k < unat m \<and> infos me cm c = None)
         \<and> infos me cm1 = (if r1 = Inr () then (infos me cm)(c \<mapsto> (conn_info_new ck c ra)\<lparr>ci_user_id := user\<rparr>)
                           else infos me cm)"
    using add_connection_with_limit_spec(2,3) [OF inv] by blast
  show "remove_connection me c cm = (cm2, r2) \<Longrightarrow>
           (r2 = Inr () \<longleftrightarrow> infos me cm c \<noteq> None) \<and> infos me cm2 = (infos me cm)(c := None)"
    using remove_connection_spec(2,3) [OF inv, of c cm2 r2] unfolding unit by simp
  show "bind_user me c u cm = (cm3, r3) \<Longrightarrow> (r3 = Inr () \<longleftrightarrow> infos me cm c \<noteq> None)
         \<and> infos me cm3 = (infos me cm)(c := map_option (\<lambda>i. i\<lparr>ci_user_id := Some u\<rparr>) (infos me cm c))"
    using update_reindexed_spec(2,3) [OF inv, of "\<lambda>i. i\<lparr>ci_user_id := Some u\<rparr>" c cm3 r3]
    unfolding unit eq bind_user_def by simp
  show "set_connection_authenticated me ck c user cm = (cm4, r4) \<Longrightarrow> (r4 = Inr () \<longleftrightarrow> infos me cm c \<noteq> None)
         \<and> infos me cm4 = (infos me cm)(c := map_option (info_set_authenticated ck user) (infos me cm c))"
    using update_reindexed_spec(2,3) [OF inv, of "info_set_authenticated ck user" c cm4 r4] auth_id
    unfolding unit eq set_connection_authenticated_def by simp
qed

section \<open>Properties\<close>

text \<open>C15: The connection limit holds under concurrency. However registrations, removals and all
  other operations interleave, with other operations between the reservation and the insertion
  of a registration and between the two halves of a removal, the registered connections plus the
  reserved and the not yet released slots never exceed the configured limit.\<close>

theorem connection_limit_respected:
  assumes "mgr_run me env limit pending leaving stale reused cm"
  shows "finite (dom (infos me cm)) \<and> card (dom (infos me cm)) + length pending + leaving \<le> unat limit"
proof -
  note inv = mgr_run_inv [OF assms]
  show ?thesis using owner_dom(1) [OF inv(1)] mgr_invD(4) [OF inv(1)] inv(2) by (simp add: infos_dom)
qed

theorem connection_limit_respected_witness:
  "card (dom (infos ex_me ex_mgr)) \<le> 3 \<and> infos ex_me ex_mgr ''a'' \<noteq> None \<and> infos ex_me ex_mgr ''c'' \<noteq> None"
  using connection_limit_respected [OF ex_run] by (simp add: infos_def ex_mgr_lookup)



text \<open>An id that is registered again while a removal of it is under way is lost: when the removal ends, the index no
  longer lists the new connection, which is registered for the same user.\<close>

theorem reused_id_lost:
  "\<exists>cm i. mgr_run ex_me (global_codecs ex_lib) 3 [] 0 [] True cm
     \<and> infos ex_me cm ''b'' = Some i \<and> info_owner i = Some (owner_new None ''u'')
     \<and> ''b'' \<notin> set (get_user_connections ex_me (owner_new None ''u'') cm)"
proof -
  let ?env = "global_codecs ex_lib"
  let ?ow = "owner_new None ''u''"
  let ?e = "\<lparr>en_writer = 1, en_info = (conn_info_new ex_clock ''b'' True)\<lparr>ci_user_id := Some ''u''\<rparr>\<rparr>"
  let ?i = "(conn_info_new ex_clock ''b'' True)\<lparr>ci_user_id := Some ''u''\<rparr>"
  have l: "lookup_conn ex_me ex_mgr ''b'' = Some ?e" by (simp add: ex_mgr_lookup)
  have st: "left_behind ''b'' (en_info ?e) = [(?ow, ''b'')]"
    by (simp add: left_behind_def info_owner_def conn_info_new_def)
  define m1 where "m1 = release_connection_slot (take_out ex_me ''b'' ex_mgr)"
  have r0: "mgr_run ex_me ?env 3 [] (Suc 0) [(?ow, ''b'')] False (take_out ex_me ''b'' ex_mgr)"
    using mgr_run.step [OF ex_run mgr_step.take_out [OF l, where shut = False], unfolded st] by simp
  have r1: "mgr_run ex_me ?env 3 [] 0 [(?ow, ''b'')] False m1"
    unfolding m1_def by (rule mgr_run.step [OF r0 mgr_step.release])
  have i1: "infos ex_me m1 = (infos ex_me ex_mgr)(''b'' := None)"
    using take_out_inv(2) [OF ex_mgr_inv l] by (simp add: m1_def release_connection_slot_def infos_def [abs_def])
  have "unat (cm_connection_count m1) < 3"
    using mgr_invD(4) [OF mgr_run_inv(1) [OF r1]] mgr_invD(4) [OF mgr_run_inv(1) [OF r0]] mgr_run_inv(2) [OF r0]
    by (simp add: m1_def release_connection_slot_def)
  then have "\<not> 3 \<le> cm_connection_count m1" by (simp add: word_le_nat_alt)
  then obtain m2 where m2: "reserve_connection_slot 3 m1 = (m2, Inr ())"
    by (auto simp: reserve_connection_slot_def)
  have r2: "mgr_run ex_me ?env 3 ([] @ (''b'', Some ''u'', True) # []) 0 [(?ow, ''b'')] False m2"
    using mgr_run.step [OF r1 mgr_step.reserve [OF m2]] by simp
  have inv2: "mgr_inv None ex_me (Suc 0) m2" using mgr_inv_weaken [OF mgr_run_inv(1) [OF r2]] by simp
  have i2: "infos ex_me m2 ''b'' = None" using reserve_inv(2) [OF mgr_run_inv(1) [OF r1] m2] i1 by simp
  define m3 where "m3 = fst (register_reserved ex_me ex_clock ''b'' (Some ''u'') True m2)"
  have r3: "mgr_run ex_me ?env 3 [] 0 ([] @ (?ow, ''b'') # []) True m3"
    using mgr_run.step [OF r2 mgr_step.register [where ck = ex_clock, OF HOL.refl]] i2 by (simp add: m3_def infos_def)
  have i3: "infos ex_me m3 ''b'' = Some ?i"
    using register_reserved_spec(2) [OF inv2 surjective_pairing, of ex_clock "''b''" "Some ''u''" True] i2 by (simp add: m3_def)
  note r4 = mgr_run.step [OF r3 mgr_step.unindex]
  have "(?ow, ''b'') \<notin> index_rel ex_me (remove_user_connection ex_me ?ow ''b'' m3)"
    using remove_user_connection_wf(2) [OF mgr_invD(6) [OF mgr_run_inv(1) [OF r3]]] by simp
  then have "''b'' \<notin> set (get_user_connections ex_me ?ow (remove_user_connection ex_me ?ow ''b'' m3))"
    by (simp add: index_rel_def)
  moreover have "infos ex_me (remove_user_connection ex_me ?ow ''b'' m3) ''b'' = Some ?i"
    using i3 by (simp add: infos_def)
  moreover have "info_owner ?i = Some ?ow" by (simp add: info_owner_def conn_info_new_def)
  ultimately show ?thesis using r4 by (intro exI conjI) (simp_all, assumption?)
qed

text \<open>C17: Negotiation and authentication state of every connection in every run: negotiation is
  confirmed only after it was completed, a completed negotiation has its parser cached, and a
  connection is authenticated exactly when it has an authentication time.\<close>

theorem negotiation_state_invariant:
  assumes "mgr_run me env limit pending leaving stale reused cm" "infos me cm c = Some i"
  shows "(ci_negotiation_confirmed i \<longrightarrow> ci_negotiation_completed i)
       \<and> (ci_negotiation_completed i \<longrightarrow> (\<exists>p. ci_cached_parser i = Some p))
       \<and> (ci_authenticated i \<longleftrightarrow> (\<exists>t. ci_authenticated_at i = Some t))"
  using mgr_run_inv(3) [OF assms] by (auto simp: negotiation_ok_def)

theorem negotiation_state_invariant_witness:
  "\<exists>i. infos ex_me (mgr_op_step ex_me (global_codecs ex_lib) (\<lambda>_. []) (SetAuthenticated ex_clock ''b'' None) ex_mgr) ''b'' = Some i
     \<and> ci_authenticated i \<and> (\<exists>t. ci_authenticated_at i = Some t)"
proof -
  let ?cm = "mgr_op_step ex_me (global_codecs ex_lib) (\<lambda>_. []) (SetAuthenticated ex_clock ''b'' None) ex_mgr"
  let ?i = "(conn_info_new ex_clock ''b'' True)\<lparr>ci_user_id := Some ''u''\<rparr>"
  obtain cm' r where upd: "update_reindexed ex_me ''b'' (info_set_authenticated ex_clock None) ex_mgr = (cm', r)" by fastforce
  have "infos ex_me cm' = (infos ex_me ex_mgr)(''b'' \<mapsto> info_set_authenticated ex_clock None ?i)"
    by (rule trans [OF update_reindexed_spec(2) [OF ex_mgr_inv _ upd]])
       (simp_all add: infos_def ex_mgr_lookup info_set_authenticated_def)
  then have i: "infos ex_me ?cm ''b'' = Some (info_set_authenticated ex_clock None ?i)"
    by (simp add: mgr_op_step_def set_connection_authenticated_def upd)
  from negotiation_state_invariant [OF mgr_run.step [OF ex_run mgr_step.operate] i] i show ?thesis
    by (simp add: info_set_authenticated_def)
qed

text \<open>C18: The sharded table refines a plain map from connection ids to connection information.
  Registration succeeds exactly when the limit is not reached and the id is free, and then adds
  the fresh information; removal deletes the id and fails exactly when it is absent; binding a
  user and authenticating update one entry; the sharding, the queues and the user index are
  invisible at this level.\<close>

theorem connection_table_refinement:
  assumes inv: "cm_inv me k cm"
  shows "(case add_connection_with_limit me ck c user ra m cm of (cm', r) \<Rightarrow>
           (r = Inr () \<longleftrightarrow> card (dom (infos me cm)) + k < unat m \<and> infos me cm c = None)
         \<and> infos me cm' = (if r = Inr () then (infos me cm)(c \<mapsto> (conn_info_new ck c ra)\<lparr>ci_user_id := user\<rparr>)
                           else infos me cm))
       \<and> (case remove_connection me c cm of (cm', r) \<Rightarrow>
           (r = Inr () \<longleftrightarrow> infos me cm c \<noteq> None) \<and> infos me cm' = (infos me cm)(c := None))
       \<and> (case bind_user me c u cm of (cm', r) \<Rightarrow>
           (r = Inr () \<longleftrightarrow> infos me cm c \<noteq> None)
         \<and> infos me cm' = (infos me cm)(c := map_option (\<lambda>i. i\<lparr>ci_user_id := Some u\<rparr>) (infos me cm c)))
       \<and> (case set_connection_authenticated me ck c user cm of (cm', r) \<Rightarrow>
           (r = Inr () \<longleftrightarrow> infos me cm c \<noteq> None)
         \<and> infos me cm' = (infos me cm)(c := map_option (info_set_authenticated ck user) (infos me cm c)))"
  using table_specs [OF inv surjective_pairing] by (simp add: case_prod_unfold)

theorem connection_table_refinement_witness:
  "infos ex_me (fst (remove_connection ex_me ''a'' ex_mgr)) ''a'' = None
   \<and> infos ex_me (fst (remove_connection ex_me ''a'' ex_mgr)) ''c'' = infos ex_me ex_mgr ''c''"
  using connection_table_refinement [OF ex_mgr_inv, where c = "''a''"]
  by (simp add: case_prod_unfold)

text \<open>The timeout sweep. It removes exactly the connections that have been idle longer than the
  timeout and reports each of them once; a connection active within the timeout before the sweep
  stays, with its information unchanged.\<close>

theorem timeout_sweep_exact:
  assumes inv: "cm_inv me k cm" and c: "infos me cm c = Some i"
    and act: "update_connection_active me t c cm = (cm1, r)"
    and sweep: "cleanup_timeout_connections me now timeout cm1 = (cm2, removed)"
  shows "distinct removed
       \<and> set removed = {d. \<exists>j. infos me cm1 d = Some j \<and> now - ci_last_active j > timeout}
       \<and> dom (infos me cm2) = dom (infos me cm1) - set removed
       \<and> (now \<le> t + timeout \<longrightarrow> infos me cm2 c = Some (i\<lparr>ci_last_active := t\<rparr>))"
proof -
  from c obtain e where e: "lookup_conn me cm c = Some e" "en_info e = i" by (auto simp: infos_def)
  have cm1: "cm1 = put_info me c e (info_update_active t i) cm" using act e by (simp add: update_connection_active_def)
  have inv1: "cm_inv me k cm1" and i1: "infos me cm1 = (infos me cm)(c \<mapsto> info_update_active t i)"
    unfolding cm1 using put_info_same_owner_inv [OF inv e(1), of "info_update_active t i"] e by simp_all
  note spec = cleanup_timeout_spec [OF inv1 sweep]
  have "infos me cm2 c = Some (i\<lparr>ci_last_active := t\<rparr>)" if "now \<le> t + timeout"
    using that by (simp add: spec(2) i1 filter_option_def info_is_timeout_def info_update_active_def)
  moreover have "dom (infos me cm2) = dom (infos me cm1) - set removed"
    unfolding spec(4) by (auto simp: spec(2) filter_option_def split: if_splits option.splits)
  ultimately show ?thesis using spec(3,4) by (simp add: info_is_timeout_def)
qed

theorem timeout_sweep_exact_witness:
  "infos ex_me (fst (cleanup_timeout_connections ex_me 30 20 (fst (update_connection_active ex_me 25 ''a'' ex_mgr)))) ''a'' \<noteq> None"
proof -
  have "infos ex_me ex_mgr ''a'' = Some ((conn_info_new ex_clock ''a'' False)\<lparr>ci_user_id := Some ''u''\<rparr>)"
    by (simp add: infos_def ex_mgr_lookup)
  from timeout_sweep_exact [OF ex_mgr_inv this surjective_pairing surjective_pairing, of 30 20 25]
  show ?thesis by simp
qed

end
