(* ===== verification/Pipeline.thy ===== *)
theory Pipeline
  imports Parser "HOL-Library.Multiset"
begin

text \<open>
  The message pipeline with its middlewares and processors
  (\<open>src/src/common/message/pipeline.rs\<close>, \<open>middleware.rs\<close>, \<open>processor.rs\<close>) and the dispatch of frames to
  message observers (\<open>handler.rs\<close>).  Middlewares, processors and observers are user code: functions
  over a state \<open>'s\<close> of their own, which the pipeline threads through.  The metadata map of a context
  is shared by everything that handles the message, so every call returns it.
\<close>

section \<open>Contexts, middlewares and processors\<close>

record message_context =
  mc_frame :: frame
  mc_connection_id :: "conn_id option"
  mc_parser :: message_parser
  mc_metadata :: meta

definition context_new :: "frame \<Rightarrow> conn_id option \<Rightarrow> message_parser \<Rightarrow> message_context" where
  "context_new f cid p = \<lparr>mc_frame = f, mc_connection_id = cid, mc_parser = p, mc_metadata = []\<rparr>"

definition set_metadata :: "string \<Rightarrow> bytes \<Rightarrow> message_context \<Rightarrow> message_context" where
  "set_metadata k v ctx = ctx\<lparr>mc_metadata := AList.update k v (mc_metadata ctx)\<rparr>"

definition get_metadata :: "string \<Rightarrow> message_context \<Rightarrow> bytes option" where
  "get_metadata k ctx = map_of (mc_metadata ctx) k"

text \<open>A call on a context: the metadata it leaves and its result, with the user state.\<close>

type_synonym 's handler = "message_context \<Rightarrow> 's \<Rightarrow> ('s \<times> message_context) \<times> frame option result"

record 's middleware =
  mw_id :: nat
  mw_name :: string
  mw_priority :: "32 word"
  mw_before :: "'s handler"
  mw_after :: "frame option \<Rightarrow> 's handler"

record 's processor =
  pr_id :: nat
  pr_name :: string
  pr_process :: "'s handler"

text \<open>The methods of the traits that have a default.\<close>

definition default_before :: "'s handler" where
  "default_before ctx s = ((s, ctx), Inr None)"

definition default_after :: "frame option \<Rightarrow> 's handler" where
  "default_after response ctx s = ((s, ctx), Inr None)"

definition default_priority :: "32 word" where
  "default_priority = 100"

section \<open>The middlewares provided\<close>

datatype log_level = LogDebug | LogInfo | LogWarn

text \<open>Logging only writes to the log, at the level chosen.\<close>

definition logging_middleware :: "nat \<Rightarrow> string \<Rightarrow> log_level \<Rightarrow> 's middleware" where
  "logging_middleware i n level =
     \<lparr>mw_id = i, mw_name = n, mw_priority = 10, mw_before = default_before, mw_after = default_after\<rparr>"

definition u64_le_bytes :: "64 word \<Rightarrow> bytes" where
  "u64_le_bytes w = map (\<lambda>i. char_of (unat (drop_bit (8 * i) w))) [0..<8]"

text \<open>\<open>clock\<close> reads the wall clock in milliseconds; the duration computed in \<open>after\<close> is only logged.\<close>

definition metrics_middleware :: "('s \<Rightarrow> 64 word) \<Rightarrow> nat \<Rightarrow> string \<Rightarrow> 's middleware" where
  "metrics_middleware clock i n =
     \<lparr>mw_id = i, mw_name = n, mw_priority = 20,
      mw_before = (\<lambda>ctx s. ((s, set_metadata ''start_time'' (u64_le_bytes (clock s)) ctx), Inr None)),
      mw_after = (\<lambda>response ctx s. ((s, ctx), Inr response))\<rparr>"

definition validation_middleware :: "(frame \<Rightarrow> unit result) \<Rightarrow> nat \<Rightarrow> string \<Rightarrow> 's middleware" where
  "validation_middleware validator i n =
     \<lparr>mw_id = i, mw_name = n, mw_priority = 5,
      mw_before = (\<lambda>ctx s. ((s, ctx), case validator (mc_frame ctx) of Inl e \<Rightarrow> Inl e | Inr _ \<Rightarrow> Inr None)),
      mw_after = default_after\<rparr>"

definition function_processor :: "nat \<Rightarrow> string \<Rightarrow> 's handler \<Rightarrow> 's processor" where
  "function_processor i n h = \<lparr>pr_id = i, pr_name = n, pr_process = h\<rparr>"

definition delegate_processor ::
  "nat \<Rightarrow> string \<Rightarrow> (frame \<Rightarrow> conn_id option \<Rightarrow> 's \<Rightarrow> 's \<times> frame option result) \<Rightarrow> 's processor" where
  "delegate_processor i n h =
     \<lparr>pr_id = i, pr_name = n,
      pr_process = (\<lambda>ctx s. case h (mc_frame ctx) (mc_connection_id ctx) s of (s', r) \<Rightarrow> ((s', ctx), r))\<rparr>"

section \<open>The pipeline\<close>

record 's pipeline =
  pl_middlewares :: "'s middleware list"
  pl_processors :: "'s processor list"
  pl_parser :: message_parser

definition pipeline_new :: "message_parser \<Rightarrow> 's pipeline" where
  "pipeline_new p = \<lparr>pl_middlewares = [], pl_processors = [], pl_parser = p\<rparr>"

definition update_parser :: "message_parser \<Rightarrow> 's pipeline \<Rightarrow> 's pipeline" where
  "update_parser p pl = pl\<lparr>pl_parser := p\<rparr>"

definition add_middleware :: "'s middleware \<Rightarrow> 's pipeline \<Rightarrow> 's pipeline" where
  "add_middleware m pl =
     pl\<lparr>pl_middlewares := sort_key mw_priority (pl_middlewares pl @ [m])\<rparr>"

definition remove_middleware :: "'s middleware \<Rightarrow> 's pipeline \<Rightarrow> 's pipeline" where
  "remove_middleware m pl = pl\<lparr>pl_middlewares := filter (\<lambda>x. mw_id x \<noteq> mw_id m) (pl_middlewares pl)\<rparr>"

definition add_processor :: "'s processor \<Rightarrow> 's pipeline \<Rightarrow> 's pipeline" where
  "add_processor p pl = pl\<lparr>pl_processors := pl_processors pl @ [p]\<rparr>"

definition remove_processor :: "'s processor \<Rightarrow> 's pipeline \<Rightarrow> 's pipeline" where
  "remove_processor p pl = pl\<lparr>pl_processors := filter (\<lambda>x. pr_id x \<noteq> pr_id p) (pl_processors pl)\<rparr>"

text \<open>A loop over handlers that stops at the first error or the first response: both the \<open>before\<close>
  methods and the processors run this way.\<close>

fun run_until :: "'s handler list \<Rightarrow> 's handler" where
  "run_until [] ctx s = ((s, ctx), Inr None)"
| "run_until (h # hs) ctx s =
     (case h ctx s of
        (st, Inl e) \<Rightarrow> (st, Inl e)
      | (st, Inr (Some r)) \<Rightarrow> (st, Inr (Some r))
      | ((s', ctx'), Inr None) \<Rightarrow> run_until hs ctx' s')"

fun run_after :: "'s middleware list \<Rightarrow> frame option \<Rightarrow> 's handler" where
  "run_after [] response ctx s = ((s, ctx), Inr response)"
| "run_after (m # ms) response ctx s =
     (case mw_after m response ctx s of
        (st, Inl e) \<Rightarrow> (st, Inl e)
      | ((s', ctx'), Inr (Some modified)) \<Rightarrow> run_after ms (Some modified) ctx' s'
      | ((s', ctx'), Inr None) \<Rightarrow> run_after ms response ctx' s')"

definition process_frame_with_parser ::
  "'s pipeline \<Rightarrow> frame \<Rightarrow> conn_id option \<Rightarrow> message_parser \<Rightarrow> 's \<Rightarrow> 's \<times> frame option result" where
  "process_frame_with_parser pl f cid p s =
     (case run_until (map mw_before (pl_middlewares pl)) (context_new f cid p) s of
        ((s1, _), Inl e) \<Rightarrow> (s1, Inl e)
      | ((s1, _), Inr (Some r)) \<Rightarrow> (s1, Inr (Some r))
      | ((s1, ctx1), Inr None) \<Rightarrow>
          (case run_until (map pr_process (pl_processors pl)) ctx1 s1 of
             ((s2, _), Inl e) \<Rightarrow> (s2, Inl e)
           | ((s2, ctx2), Inr response) \<Rightarrow>
               (case run_after (pl_middlewares pl) response ctx2 s2 of ((s3, _), r) \<Rightarrow> (s3, r))))"

definition process_frame :: "'s pipeline \<Rightarrow> frame \<Rightarrow> conn_id option \<Rightarrow> 's \<Rightarrow> 's \<times> frame option result" where
  "process_frame pl f cid s = process_frame_with_parser pl f cid (pl_parser pl) s"

definition process_raw ::
  "codec_env \<Rightarrow> bytes \<Rightarrow> 's pipeline \<Rightarrow> bytes \<Rightarrow> conn_id option \<Rightarrow> 's \<Rightarrow> 's \<times> bytes option result" where
  "process_raw env nonce pl d cid s =
     (case parse env (pl_parser pl) d of
        Inl e \<Rightarrow> (s, Inl (localized DeserializationError ''Failed to parse message''))
      | Inr f \<Rightarrow>
          (case process_frame_with_parser pl f cid (pl_parser pl) s of
             (s', Inl e) \<Rightarrow> (s', Inl e)
           | (s', Inr None) \<Rightarrow> (s', Inr None)
           | (s', Inr (Some r)) \<Rightarrow>
               (case serialize env nonce (pl_parser pl) r of
                  Inl e \<Rightarrow> (s', Inl (localized EncodingError ''Failed to serialize response''))
                | Inr out \<Rightarrow> (s', Inr (Some out)))))"

section \<open>Dispatch to observers\<close>

datatype message_event =
    EvSystem frame system_command system_type
  | EvMessage frame payload_command payload_type
  | EvNotification frame notification_command notification_type
  | EvCustom frame custom_command
  | EvUnknown frame

text \<open>The system types the dispatcher knows: the numbers 0 to 9.\<close>

definition dispatch_system_type :: "int \<Rightarrow> system_type option" where
  "dispatch_system_type n = (if 0 \<le> n \<and> n \<le> 9 then system_type_from_i32 n else None)"

definition parse_frame_to_event :: "frame \<Rightarrow> message_event result" where
  "parse_frame_to_event f =
     (case fr_command f of
        None \<Rightarrow> Inl (localized ProtocolError ''Frame missing command'')
      | Some c \<Rightarrow>
          (case cmd_type c of
             Some (CmdSystem sc) \<Rightarrow>
               (case dispatch_system_type (sc_type sc) of
                  Some t \<Rightarrow> Inr (EvSystem f sc t)
                | None \<Rightarrow> Inl (localized ProtocolError ''Invalid system command type''))
           | Some (CmdPayload pc) \<Rightarrow>
               (case payload_type_from_i32 (pc_type pc) of
                  Some t \<Rightarrow> Inr (EvMessage f pc t)
                | None \<Rightarrow> Inl (localized ProtocolError ''Invalid payload command type''))
           | Some (CmdNotification nc) \<Rightarrow>
               (case notification_type_from_i32 (nc_type nc) of
                  Some t \<Rightarrow> Inr (EvNotification f nc t)
                | None \<Rightarrow> Inl (localized ProtocolError ''Invalid notification command type''))
           | Some (CmdCustom cc) \<Rightarrow> Inr (EvCustom f cc)
           | None \<Rightarrow> Inr (EvUnknown f)))"

text \<open>An observer sees the event through the method for its kind; its error is printed and the
  next observer is called.\<close>

record 's message_observer =
  mo_id :: nat
  mo_handle :: "message_event \<Rightarrow> 's \<Rightarrow> 's \<times> unit result"

record 's message_handler =
  mh_observers :: "'s message_observer list"

definition handler_add_observer :: "'s message_observer \<Rightarrow> 's message_handler \<Rightarrow> 's message_handler" where
  "handler_add_observer ob h = h\<lparr>mh_observers := mh_observers h @ [ob]\<rparr>"

definition handler_remove_observer :: "'s message_observer \<Rightarrow> 's message_handler \<Rightarrow> 's message_handler" where
  "handler_remove_observer ob h = h\<lparr>mh_observers := filter (\<lambda>x. mo_id x \<noteq> mo_id ob) (mh_observers h)\<rparr>"

definition handle_frame :: "'s message_handler \<Rightarrow> frame \<Rightarrow> 's \<Rightarrow> 's \<times> message_event result" where
  "handle_frame h f s =
     (case parse_frame_to_event f of
        Inl e \<Rightarrow> (s, Inl e)
      | Inr ev \<Rightarrow> (fold (\<lambda>ob s. fst (mo_handle ob ev s)) (mh_observers h) s, Inr ev))"

section \<open>Facts\<close>

lemma sort_key_snoc: "sort_key f (sort_key f xs @ [x]) = sort_key f (xs @ [x])"
proof (rule properties_for_sort_key)
  show "mset (sort_key f (xs @ [x])) = mset (sort_key f xs @ [x])" by simp
  show "filter (\<lambda>y. f k = f y) (sort_key f (xs @ [x])) = filter (\<lambda>y. f k = f y) (sort_key f xs @ [x])"
    for k
    using sort_key_stable [of f "f k" "xs @ [x]"] sort_key_stable [of f "f k" xs] by (simp add: eq_commute)
qed simp

lemma add_middlewares_sorted:
  "pl_middlewares pl = sort_key mw_priority ms \<Longrightarrow>
   pl_middlewares (fold add_middleware ns pl) = sort_key mw_priority (ms @ ns)"
proof (induction ns arbitrary: pl ms)
  case (Cons n ns)
  then show ?case
    using Cons.IH [of "add_middleware n pl" "ms @ [n]"] by (simp add: add_middleware_def sort_key_snoc)
qed simp

lemma add_middlewares_rest:
  "pl_processors (fold add_middleware ns pl) = pl_processors pl \<and> pl_parser (fold add_middleware ns pl) = pl_parser pl"
  by (induction ns arbitrary: pl) (simp_all add: add_middleware_def)

lemma insort_key_first:
  "\<forall>y \<in> set ys. f x \<le> f y \<Longrightarrow> insort_key f x ys = x # ys"
  by (cases ys) auto

text \<open>An element that is smaller than all before it and no larger than all after it comes first.\<close>

lemma sort_key_first:
  assumes "\<forall>y \<in> set as. f x < f y" and "\<forall>y \<in> set bs. f x \<le> f y"
  shows "\<exists>rest. sort_key f (as @ x # bs) = x # rest"
  using assms
proof (induction as)
  case Nil
  then show ?case by (simp add: insort_key_first)
next
  case (Cons a as)
  then obtain rest where "sort_key f (as @ x # bs) = x # rest" by auto
  with Cons.prems show ?case by (auto dest: leD)
qed

section \<open>Properties\<close>

text \<open>Middlewares run in the order of their priority, and those of equal priority in the order
  in which they were added: adding them one after another leaves the stable sort of the sequence,
  and leaves the processors and the parser alone.\<close>

theorem middleware_order:
  "pl_middlewares (fold add_middleware ms (pipeline_new p)) = sort_key mw_priority ms
   \<and> sorted (map mw_priority (pl_middlewares (fold add_middleware ms (pipeline_new p))))
   \<and> (\<forall>k. filter (\<lambda>m. mw_priority m = k) (pl_middlewares (fold add_middleware ms (pipeline_new p)))
        = filter (\<lambda>m. mw_priority m = k) ms)
   \<and> pl_processors (fold add_middleware ms (pipeline_new p)) = []
   \<and> pl_parser (fold add_middleware ms (pipeline_new p)) = p"
  using add_middlewares_sorted [of "pipeline_new p" "[]" ms] add_middlewares_rest [of ms "pipeline_new p"]
  by (simp add: pipeline_new_def sort_key_stable)

text \<open>A frame that validation rejects reaches nothing else: when the validation middleware is
  added among others of larger priority number (or, after it, of the same one) and the validator
  refuses the frame, the pipeline returns the validator's error and no other middleware and no
  processor has run, whatever they are.\<close>

theorem validation_stops_pipeline:
  assumes "\<forall>m \<in> set as. 5 < mw_priority m" and "\<forall>m \<in> set bs. 5 \<le> mw_priority m"
    and "validator f = Inl e"
  shows "process_frame
      (fold add_processor ps (fold add_middleware (as @ validation_middleware validator i n # bs) (pipeline_new p)))
      f cid s = (s, Inl e)"
proof -
  let ?v = "validation_middleware validator i n" and ?ms = "as @ validation_middleware validator i n # bs"
  have pr: "pl_middlewares (fold add_processor ps pl) = pl_middlewares pl" for pl :: "'a pipeline"
    by (induction ps arbitrary: pl) (simp_all add: add_processor_def)
  have "\<exists>rest. sort_key mw_priority ?ms = ?v # rest"
    by (rule sort_key_first) (use assms in \<open>auto simp: validation_middleware_def\<close>)
  then obtain rest where "pl_middlewares (fold add_processor ps (fold add_middleware ?ms (pipeline_new p))) = ?v # rest"
    using add_middlewares_sorted [of "pipeline_new p" "[]" ?ms] pr by (auto simp: pipeline_new_def)
  then show ?thesis using assms(3)
    by (simp add: process_frame_def process_frame_with_parser_def validation_middleware_def context_new_def)
qed

theorem validation_stops_pipeline_witness:
  "process_frame
     (fold add_processor [function_processor 7 ''count'' (\<lambda>ctx s. ((Suc s, ctx), Inr None))]
       (fold add_middleware
         ([logging_middleware 1 ''log'' LogInfo]
          @ validation_middleware (\<lambda>f. Inl (localized ProtocolError ''no'')) 2 ''check''
          # [metrics_middleware (\<lambda>s. 0) 3 ''metrics'']) (pipeline_new parser_json)))
     ex_frame None (0 :: nat) = (0, Inl (localized ProtocolError ''no''))"
  by (rule validation_stops_pipeline) (simp_all add: logging_middleware_def metrics_middleware_def)

text \<open>The dispatcher knows fewer system commands than the protocol: a KICKED frame, which the
  server sends before it drops a device, is refused as invalid and reaches no observer, while
  every command of another system type with a number up to nine is delivered.\<close>

theorem dispatch_refuses_kicked:
  "frame_system_command f = Some sc \<Longrightarrow>
   (sc_type sc = system_type_as_i32 SysKicked \<longrightarrow>
      handle_frame h f s = (s, Inl (localized ProtocolError ''Invalid system command type'')))
   \<and> (\<forall>t. sc_type sc = system_type_as_i32 t \<and> system_type_as_i32 t \<le> 9 \<longrightarrow>
      handle_frame h f s = (fold (\<lambda>ob s. fst (mo_handle ob (EvSystem f sc t) s)) (mh_observers h) s,
        Inr (EvSystem f sc t)))"
proof -
  assume "frame_system_command f = Some sc"
  then obtain c where c: "fr_command f = Some c" "cmd_type c = Some (CmdSystem sc)"
    by (auto simp: frame_system_command_def frame_command_type_def bind_eq_Some_conv
        split: option.splits command_type.splits)
  have "0 \<le> system_type_as_i32 t" for t by (cases t) simp_all
  with c show ?thesis
    by (auto simp: handle_frame_def parse_frame_to_event_def dispatch_system_type_def)
qed

definition ex_kicked :: frame where
  "ex_kicked = fst (frame_with_system_command (kicked ''DEVICE_CONFLICT'' None) AtLeastOnce
     \<lparr>st_id_ms = 0, st_ts_ms = 0, st_counter = 0\<rparr>)"

theorem dispatch_refuses_kicked_witness:
  "handle_frame \<lparr>mh_observers = [\<lparr>mo_id = 0, mo_handle = (\<lambda>ev s. (Suc s, Inr ()))\<rparr>]\<rparr> ex_kicked 0
   = (0, Inl (localized ProtocolError ''Invalid system command type''))"
proof -
  have f: "frame_system_command ex_kicked = Some (kicked ''DEVICE_CONFLICT'' None)"
    by (simp add: ex_kicked_def)
  from dispatch_refuses_kicked [OF f, of "\<lparr>mh_observers = [\<lparr>mo_id = 0, mo_handle = (\<lambda>ev s. (Suc s, Inr ()))\<rparr>]\<rparr>" 0]
  show ?thesis
    by (simp add: kicked_def create_system_command_with_message_def)
qed

end
