(* ===== verification/ServerCore.thy ===== *)
theory ServerCore
  imports Negotiation ConnRun Pipeline
begin

text \<open>
  The server's handling of CONNECT: device conflicts
  (\<open>src/src/server/connection/device_handler.rs\<close>) and the composition of negotiation, authentication,
  registration, conflict handling, acknowledgement and notification in \<open>handle_connect_message\<close> and
  \<open>handle_connect_complete\<close> (\<open>src/src/server/transports/server_core.rs\<close>).  Frames that are written
  straight to a connection, past its write queue, are recorded with the handle of the connection.
\<close>

section \<open>State and environment\<close>

type_synonym pipeline_key = "serialization_format \<times> compression_algorithm \<times> encryption_algorithm"

text \<open>A pipeline object is a handle with its parser and the identities of its middlewares and
  processors.\<close>

record server_core =
  sv_manager :: conn_manager
  sv_devices :: "device_manager option"
  sv_defaults :: negotiation_defaults
  sv_auth_enabled :: bool
  sv_middlewares :: "nat list"
  sv_processors :: "nat list"
  sv_pipeline_cache :: "pipeline_key \<rightharpoonup> nat"
  sv_pipelines :: "nat \<rightharpoonup> message_parser \<times> nat list \<times> nat list"
  sv_next_pipeline :: nat
  sv_writes :: "(nat \<times> bytes) list"

text \<open>What the calls depend on: the tables' hashes, the codecs, the authenticator, the event handler,
  the result of a direct write, the JSON text of a list of strings, the debug text of a platform,
  and the clock, stamp and nonce of the call.\<close>

record connect_env =
  xe_mgr :: mgr_env
  xe_codecs :: codec_env
  xe_auth :: "authenticator option"
  xe_on_connect :: "(conn_id \<Rightarrow> unit result) option"
  xe_send :: "nat \<Rightarrow> bytes \<Rightarrow> unit result"
  xe_json_strings :: "string list \<Rightarrow> string"
  xe_debug_platform :: "device_platform \<Rightarrow> string"
  xe_clock :: clock
  xe_stamp :: stamp
  xe_nonce :: bytes

definition direct_send :: "connect_env \<Rightarrow> nat \<Rightarrow> bytes \<Rightarrow> server_core \<Rightarrow> server_core \<times> unit result" where
  "direct_send xe q d sv = (sv\<lparr>sv_writes := sv_writes sv @ [(q, d)]\<rparr>, xe_send xe q d)"

section \<open>Device conflicts\<close>

definition kick_frame :: "connect_env \<Rightarrow> device_platform \<Rightarrow> device_info \<Rightarrow> frame" where
  "kick_frame xe platform info =
     fst (frame_with_system_command
            (device_conflict_kicked (xe_debug_platform xe) platform (di_device_id info)) AtLeastOnce (xe_stamp xe))"

text \<open>One conflicting connection: it is told, its device is removed, and it is taken out of the
  connection manager.  The kick is written with the negotiated format and compression, and without
  encryption.\<close>

definition kick_connection ::
  "connect_env \<Rightarrow> device_owner \<Rightarrow> conn_id \<Rightarrow> device_platform \<Rightarrow> device_info \<Rightarrow> conn_id
   \<Rightarrow> server_core \<Rightarrow> server_core" where
  "kick_connection xe ow cid platform info victim sv =
     (if victim = cid then sv
      else
        (let sv1 =
           (case get_connection (xe_mgr xe) victim (sv_manager sv) of
              None \<Rightarrow> sv
            | Some (q, ci) \<Rightarrow>
                (let parser = parser_new (ci_serialization_format ci) (ci_compression ci) EncNone;
                     sv0 = (case serialize (xe_codecs xe) (xe_nonce xe) parser (kick_frame xe platform info) of
                              Inr d \<Rightarrow> fst (direct_send xe q d sv)
                            | Inl _ \<Rightarrow> sv)
                 in sv0\<lparr>sv_devices := map_option (remove_device ow victim) (sv_devices sv0)\<rparr>))
         in sv1\<lparr>sv_manager := fst (remove_connection (xe_mgr xe) victim (sv_manager sv1))\<rparr>))"

definition handle_device_conflict ::
  "connect_env \<Rightarrow> device_owner \<Rightarrow> conn_id \<Rightarrow> device_platform \<Rightarrow> device_info \<Rightarrow> server_core
   \<Rightarrow> server_core \<times> conn_id list" where
  "handle_device_conflict xe ow cid platform info sv =
     (case sv_devices sv of
        None \<Rightarrow> (sv, [])
      | Some dm \<Rightarrow>
          (case add_device ow cid info dm of
             (dm', conflicts) \<Rightarrow>
               (fold (kick_connection xe ow cid platform info) conflicts (sv\<lparr>sv_devices := Some dm'\<rparr>), conflicts)))"

text \<open>The method of the server core: nothing without a device manager, a device and an owner.\<close>

definition core_handle_device_conflict ::
  "connect_env \<Rightarrow> conn_id \<Rightarrow> negotiation_result \<Rightarrow> device_owner option \<Rightarrow> server_core
   \<Rightarrow> server_core \<times> conn_id list" where
  "core_handle_device_conflict xe cid n ow sv =
     (case (sv_devices sv, nr_device_info n, ow) of
        (Some _, Some info, Some ow') \<Rightarrow>
          (case handle_device_conflict xe ow' cid (di_platform info) info sv of
             (sv', conflicts) \<Rightarrow> (sv', filter (\<lambda>c. c \<noteq> cid) conflicts))
      | _ \<Rightarrow> (sv, []))"

section \<open>CONNECT\<close>

definition update_connection_info ::
  "connect_env \<Rightarrow> conn_id \<Rightarrow> negotiation_result
   \<Rightarrow> serialization_format \<times> compression_algorithm \<times> encryption_algorithm \<Rightarrow> connection_identity
   \<Rightarrow> server_core \<Rightarrow> server_core" where
  "update_connection_info xe cid n outcome ident sv =
     (case outcome of (fmt, cmpr, enc) \<Rightarrow>
        sv\<lparr>sv_manager := fst (update_connection_negotiation (xe_mgr xe) cid (nr_device_info n) fmt cmpr enc
             (id_user ident) (identity_connection_metadata ident) (sv_manager sv))\<rparr>)"

definition mark_connection_authenticated ::
  "connect_env \<Rightarrow> conn_id \<Rightarrow> string option \<Rightarrow> server_core \<Rightarrow> server_core" where
  "mark_connection_authenticated xe cid user sv =
     sv\<lparr>sv_manager := fst (set_connection_authenticated (xe_mgr xe) (xe_clock xe) cid user (sv_manager sv))\<rparr>"

definition core_create_connect_ack ::
  "connect_env \<Rightarrow> serialization_format \<times> compression_algorithm \<times> encryption_algorithm \<Rightarrow> conn_id list \<Rightarrow> frame" where
  "core_create_connect_ack xe outcome conflicts =
     (case outcome of (fmt, cmpr, enc) \<Rightarrow>
        (let md = (if conflicts = [] then [] else [(''conflict_connections'', xe_json_strings xe conflicts)])
         in fst (frame_with_system_command
                   (create_connect_ack (xe_codecs xe) fmt cmpr enc (Some md)) AtLeastOnce (xe_stamp xe))))"

definition handle_connect_message ::
  "connect_env \<Rightarrow> frame \<Rightarrow> conn_id \<Rightarrow> server_core \<Rightarrow> server_core \<times> (frame \<times> message_parser) result" where
  "handle_connect_message xe f cid sv =
     (case parse_connect_message f of
        Inl e \<Rightarrow> (sv, Inl e)
      | Inr n \<Rightarrow>
          (let outcome = determine_negotiation_result (sv_defaults sv) n in
           case authenticate_connection (sv_auth_enabled sv) (xe_auth xe) f cid n of
             Inl e \<Rightarrow> (sv, Inl e)
           | Inr ident \<Rightarrow>
               (let ow = map_option (owner_new (id_tenant ident)) (id_user ident);
                    sv1 = update_connection_info xe cid n outcome ident sv;
                    sv2 = mark_connection_authenticated xe cid (id_user ident) sv1;
                    (sv3, conflicts) = core_handle_device_conflict xe cid n ow sv2
                in case outcome of (fmt, cmpr, enc) \<Rightarrow>
                     (sv3, Inr (core_create_connect_ack xe outcome conflicts, parser_new fmt cmpr enc)))))"

definition pipeline_for_negotiation_profile ::
  "message_parser \<Rightarrow> pipeline_key \<Rightarrow> server_core \<Rightarrow> server_core \<times> nat option" where
  "pipeline_for_negotiation_profile p key sv =
     (if sv_middlewares sv = [] \<and> sv_processors sv = [] then (sv, None)
      else case sv_pipeline_cache sv key of
        Some pl \<Rightarrow> (sv, Some pl)
      | None \<Rightarrow>
          (let pl = sv_next_pipeline sv in
           (sv\<lparr>sv_pipelines := (sv_pipelines sv)(pl \<mapsto> (p, sv_middlewares sv, sv_processors sv)),
               sv_pipeline_cache := (sv_pipeline_cache sv)(key \<mapsto> pl), sv_next_pipeline := Suc pl\<rparr>, Some pl)))"

definition finalize_negotiation_after_ack ::
  "connect_env \<Rightarrow> conn_id \<Rightarrow> serialization_format \<Rightarrow> compression_algorithm \<Rightarrow> encryption_algorithm
   \<Rightarrow> server_core \<Rightarrow> server_core" where
  "finalize_negotiation_after_ack xe cid fmt cmpr enc sv =
     (case get_connection (xe_mgr xe) cid (sv_manager sv) of
        None \<Rightarrow> sv
      | Some (_, info) \<Rightarrow>
          (let parser = parser_new fmt cmpr enc;
               (sv1, pl) = pipeline_for_negotiation_profile parser (fmt, cmpr, enc) sv
           in sv1\<lparr>sv_manager := fst (update_connection_negotiation_with_pipeline (xe_mgr xe) cid
                    (ci_device_info info) fmt cmpr enc (ci_user_id info) parser pl (sv_manager sv1))\<rparr>))"

definition rejection_text :: "string \<Rightarrow> string \<Rightarrow> string" where
  "rejection_text reason code = (if is_typed_reason reason then reason else code)"

definition send_connect_rejection ::
  "connect_env \<Rightarrow> nat \<Rightarrow> error_code \<Rightarrow> string \<Rightarrow> server_core \<Rightarrow> server_core" where
  "send_connect_rejection xe q code reason sv =
     (let c = error_as_str code;
          fr = fst (frame_with_system_command
                 (error_command (rejection_text reason c) (Some [(''code'', c)])) BestEffort (xe_stamp xe))
      in case serialize (xe_codecs xe) (xe_nonce xe) PRE_NEGOTIATION_PARSER fr of
           Inl _ \<Rightarrow> sv
         | Inr d \<Rightarrow> fst (direct_send xe q d sv))"

definition send_post_ack_rejection ::
  "connect_env \<Rightarrow> nat \<Rightarrow> message_parser \<Rightarrow> flare_error \<Rightarrow> server_core \<Rightarrow> server_core" where
  "send_post_ack_rejection xe q parser e sv =
     (let c = error_as_str (unwrap_or ConnectionFailed (flare_error_code e));
          reason = rejection_text (flare_error_reason e) c;
          fr = fst (frame_with_system_command
                 (kicked reason (Some [(''reason'', reason), (''code'', c)])) BestEffort (xe_stamp xe))
      in case serialize (xe_codecs xe) (xe_nonce xe) parser fr of
           Inl _ \<Rightarrow> sv
         | Inr d \<Rightarrow> fst (direct_send xe q d sv))"

text \<open>\<open>q\<close> is the connection the caller holds.\<close>

definition handle_connect_complete ::
  "connect_env \<Rightarrow> frame \<Rightarrow> conn_id \<Rightarrow> nat \<Rightarrow> server_core \<Rightarrow> server_core \<times> unit result" where
  "handle_connect_complete xe f cid q sv =
     (case handle_connect_message xe f cid sv of
        (sv1, Inl e) \<Rightarrow>
          (case flare_error_code e of
             Some code \<Rightarrow>
               (if code = AuthenticationFailed \<or> code = ServiceUnavailable
                then send_connect_rejection xe q code (flare_error_reason e) sv1 else sv1, Inl e)
           | None \<Rightarrow> (sv1, Inl e))
      | (sv1, Inr (ack, parser)) \<Rightarrow>
          (case serialize (xe_codecs xe) (xe_nonce xe) PRE_NEGOTIATION_PARSER ack of
             Inl e \<Rightarrow> (sv1, Inl e)
           | Inr d \<Rightarrow>
               (case direct_send xe q d sv1 of
                  (sv2, Inl e) \<Rightarrow> (sv2, Inl e)
                | (sv2, Inr _) \<Rightarrow>
                    (let sv3 = finalize_negotiation_after_ack xe cid (mp_default_format parser)
                                 (mp_default_compression parser) (mp_default_encryption parser) sv2
                     in case xe_on_connect xe of
                          None \<Rightarrow> (sv3, Inl (localized ConfigurationError
                                    ''ServerEventHandler is required to complete connection but was not configured''))
                        | Some on_connect \<Rightarrow>
                            (case on_connect cid of
                               Inl e \<Rightarrow> (send_post_ack_rejection xe q parser e sv3, Inl e)
                             | Inr _ \<Rightarrow> (sv3, Inr ()))))))"

section \<open>Delegation to the connection manager\<close>

definition core_send_to :: "connect_env \<Rightarrow> nat \<Rightarrow> conn_id \<Rightarrow> frame \<Rightarrow> server_core \<Rightarrow> server_core \<times> unit result" where
  "core_send_to xe now cid f sv =
     (case send_frame_to (xe_mgr xe) (xe_codecs xe) now (\<lambda>_. xe_nonce xe) cid f None (sv_manager sv) of
        (cm, r) \<Rightarrow> (sv\<lparr>sv_manager := cm\<rparr>, r))"

definition core_send_to_user :: "connect_env \<Rightarrow> nat \<Rightarrow> device_owner \<Rightarrow> frame \<Rightarrow> server_core \<Rightarrow> server_core" where
  "core_send_to_user xe now ow f sv =
     sv\<lparr>sv_manager := send_frame_to_user (xe_mgr xe) (xe_codecs xe) now (\<lambda>_. xe_nonce xe) ow f None (sv_manager sv)\<rparr>"

definition core_broadcast :: "connect_env \<Rightarrow> nat \<Rightarrow> frame \<Rightarrow> server_core \<Rightarrow> server_core" where
  "core_broadcast xe now f sv =
     sv\<lparr>sv_manager := broadcast_frame (xe_mgr xe) (xe_codecs xe) now (\<lambda>_. xe_nonce xe) f None (sv_manager sv)\<rparr>"

definition core_broadcast_except :: "connect_env \<Rightarrow> nat \<Rightarrow> frame \<Rightarrow> conn_id \<Rightarrow> server_core \<Rightarrow> server_core" where
  "core_broadcast_except xe now f ex sv =
     sv\<lparr>sv_manager := broadcast_frame_except (xe_mgr xe) (xe_codecs xe) now (\<lambda>_. xe_nonce xe) f ex None (sv_manager sv)\<rparr>"

definition core_disconnect :: "connect_env \<Rightarrow> conn_id \<Rightarrow> server_core \<Rightarrow> server_core \<times> unit result" where
  "core_disconnect xe cid sv =
     (case remove_connection (xe_mgr xe) cid (sv_manager sv) of (cm, r) \<Rightarrow> (sv\<lparr>sv_manager := cm\<rparr>, r))"

text \<open>Changing the shared middlewares or processors drops the cached pipelines.\<close>

definition core_add_middleware :: "nat \<Rightarrow> server_core \<Rightarrow> server_core" where
  "core_add_middleware m sv = sv\<lparr>sv_middlewares := sv_middlewares sv @ [m], sv_pipeline_cache := Map.empty\<rparr>"

definition core_add_processor :: "nat \<Rightarrow> server_core \<Rightarrow> server_core" where
  "core_add_processor m sv = sv\<lparr>sv_processors := sv_processors sv @ [m], sv_pipeline_cache := Map.empty\<rparr>"

section \<open>Kicking\<close>

definition kick_data :: "connect_env \<Rightarrow> device_platform \<Rightarrow> device_info \<Rightarrow> conn_entry \<Rightarrow> bytes result" where
  "kick_data xe platform info e =
     serialize (xe_codecs xe) (xe_nonce xe)
       (parser_new (ci_serialization_format (en_info e)) (ci_compression (en_info e)) EncNone)
       (kick_frame xe platform info)"

text \<open>What is written to the connections of a list that are registered in \<open>look\<close>.\<close>

definition kick_writes ::
  "connect_env \<Rightarrow> device_platform \<Rightarrow> device_info \<Rightarrow> (conn_id \<rightharpoonup> conn_entry) \<Rightarrow> conn_id list \<Rightarrow> (nat \<times> bytes) list" where
  "kick_writes xe platform info look cs =
     concat (map (\<lambda>c. case look c of
                        None \<Rightarrow> []
                      | Some e \<Rightarrow> (case kick_data xe platform info e of Inl _ \<Rightarrow> [] | Inr d \<Rightarrow> [(en_writer e, d)])) cs)"

lemma kick_connection_spec:
  assumes inv: "cm_inv (xe_mgr xe) k (sv_manager sv)" and v: "v \<noteq> cid"
    and dev: "sv_devices sv = Some dm" "reg_owners (dm_registry dm) v \<noteq> Some ow"
  shows "cm_inv (xe_mgr xe) k (sv_manager (kick_connection xe ow cid pf info v sv))"
    and "lookup_conn (xe_mgr xe) (sv_manager (kick_connection xe ow cid pf info v sv))
       = (lookup_conn (xe_mgr xe) (sv_manager sv))(v := None)"
    and "sv_devices (kick_connection xe ow cid pf info v sv) = Some dm"
    and "sv_writes (kick_connection xe ow cid pf info v sv)
       = sv_writes sv @ kick_writes xe pf info (lookup_conn (xe_mgr xe) (sv_manager sv)) [v]"
proof -
  let ?sv = "kick_connection xe ow cid pf info v sv"
  have m: "sv_manager ?sv = fst (remove_connection (xe_mgr xe) v (sv_manager sv))"
    using v by (auto simp: kick_connection_def direct_send_def Let_def split: option.splits sum.splits)
  obtain cm' r where rm: "remove_connection (xe_mgr xe) v (sv_manager sv) = (cm', r)" by fastforce
  show "cm_inv (xe_mgr xe) k (sv_manager ?sv)" using remove_connection_spec(1) [OF inv rm] by (simp add: m rm)
  show "lookup_conn (xe_mgr xe) (sv_manager ?sv) = (lookup_conn (xe_mgr xe) (sv_manager sv))(v := None)"
    unfolding m by (rule remove_connection_lookup [OF inv])
  have "remove_device ow v dm = dm" using dev(2) by (simp add: remove_device_def Let_def)
  then show "sv_devices ?sv = Some dm"
    using dev(1) by (auto simp: kick_connection_def direct_send_def Let_def split: option.splits sum.splits)
  show "sv_writes ?sv = sv_writes sv @ kick_writes xe pf info (lookup_conn (xe_mgr xe) (sv_manager sv)) [v]"
    using v by (auto simp: kick_connection_def kick_writes_def kick_data_def direct_send_def get_connection_def Let_def
        split: option.splits sum.splits)
qed

lemma kick_writes_cong:
  "(\<And>c. c \<in> set cs \<Longrightarrow> look c = look' c) \<Longrightarrow> kick_writes xe pf info look cs = kick_writes xe pf info look' cs"
  by (simp add: kick_writes_def cong: map_cong)

lemma kick_writes_Cons:
  "kick_writes xe pf info look (c # cs) = kick_writes xe pf info look [c] @ kick_writes xe pf info look cs"
  by (simp add: kick_writes_def)

lemma set_kick_writes:
  "(q, d) \<in> set (kick_writes xe pf info look cs) \<longleftrightarrow>
   (\<exists>c \<in> set cs. \<exists>e. look c = Some e \<and> en_writer e = q \<and> kick_data xe pf info e = Inr d)"
proof (induction cs)
  case (Cons c cs)
  have "(q, d) \<in> set (kick_writes xe pf info look [c]) \<longleftrightarrow>
      (\<exists>e. look c = Some e \<and> en_writer e = q \<and> kick_data xe pf info e = Inr d)"
    by (cases "look c"; cases "kick_data xe pf info (the (look c))") (auto simp: kick_writes_def)
  then show ?case unfolding kick_writes_Cons [of _ _ _ _ c cs] using Cons by auto
qed (simp add: kick_writes_def)

lemma kick_all_spec:
  assumes "cm_inv (xe_mgr xe) k (sv_manager sv)" and "cid \<notin> set vs" and "distinct vs"
    and "sv_devices sv = Some dm" and "\<forall>v \<in> set vs. reg_owners (dm_registry dm) v \<noteq> Some ow"
  shows "cm_inv (xe_mgr xe) k (sv_manager (fold (kick_connection xe ow cid pf info) vs sv))
    \<and> lookup_conn (xe_mgr xe) (sv_manager (fold (kick_connection xe ow cid pf info) vs sv))
       = lookup_conn (xe_mgr xe) (sv_manager sv) |` (- set vs)
    \<and> sv_devices (fold (kick_connection xe ow cid pf info) vs sv) = Some dm
    \<and> sv_writes (fold (kick_connection xe ow cid pf info) vs sv)
       = sv_writes sv @ kick_writes xe pf info (lookup_conn (xe_mgr xe) (sv_manager sv)) vs"
  using assms
proof (induction vs arbitrary: sv)
  case Nil
  then show ?case by (simp add: kick_writes_def)
next
  case (Cons v vs)
  let ?sv = "kick_connection xe ow cid pf info v sv"
  have "v \<noteq> cid" "reg_owners (dm_registry dm) v \<noteq> Some ow" using Cons.prems by auto
  note step = kick_connection_spec [OF Cons.prems(1) this(1) Cons.prems(4) this(2), of pf info]
  have w: "kick_writes xe pf info (lookup_conn (xe_mgr xe) (sv_manager ?sv)) vs
      = kick_writes xe pf info (lookup_conn (xe_mgr xe) (sv_manager sv)) vs"
    using Cons.prems(3) by (intro kick_writes_cong) (auto simp: step(2))
  have r: "(lookup_conn (xe_mgr xe) (sv_manager sv))(v := None) |` (- set vs)
      = lookup_conn (xe_mgr xe) (sv_manager sv) |` (- set (v # vs))"
    by (auto simp: restrict_map_def fun_eq_iff)
  have "cid \<notin> set vs" "distinct vs" "\<forall>v \<in> set vs. reg_owners (dm_registry dm) v \<noteq> Some ow"
    using Cons.prems by auto
  note ih = Cons.IH [OF step(1) this(1,2) step(3) this(3), unfolded w, unfolded step(2,4) r]
  show ?case
    unfolding fold_Cons comp_apply kick_writes_Cons [of _ _ _ _ v vs] using ih by simp
qed

lemma handle_device_conflict_spec:
  assumes inv: "cm_inv (xe_mgr xe) k (sv_manager sv)" and dm: "sv_devices sv = Some dm" "registry_inv (dm_registry dm)"
    and h: "handle_device_conflict xe ow cid pf info sv = (sv', out)"
  shows "cm_inv (xe_mgr xe) k (sv_manager sv')"
    and "add_device ow cid info dm = (the (sv_devices sv'), out)" and "sv_devices sv' \<noteq> None"
    and "lookup_conn (xe_mgr xe) (sv_manager sv') = lookup_conn (xe_mgr xe) (sv_manager sv) |` (- set out)"
    and "sv_writes sv' = sv_writes sv @ kick_writes xe pf info (lookup_conn (xe_mgr xe) (sv_manager sv)) out"
    and "\<forall>c \<in> set out. c \<noteq> cid \<and> (\<exists>i. online (dm_registry dm) c = Some (ow, i))"
proof -
  obtain dm' where a: "add_device ow cid info dm = (dm', out)"
    and sv': "sv' = fold (kick_connection xe ow cid pf info) out (sv\<lparr>sv_devices := Some dm'\<rparr>)"
    using h dm(1) by (auto simp: handle_device_conflict_def split: prod.splits)
  have own: "c \<noteq> cid \<and> c \<in> fst ` set (bucket (dm_registry dm) ow)" if "c \<in> set out" for c
    using add_device_kicked_owned [OF dm(2) a that] .
  obtain ex where ex: "distinct ex" "set ex = other_platforms (online (dm_registry dm)) ow cid"
    using other_platforms_finite [OF dm(2)] finite_distinct_list by metis
  have d: "distinct out" by (rule add_device_kicked(1) [OF dm(2) a ex])
  show "\<forall>c \<in> set out. c \<noteq> cid \<and> (\<exists>i. online (dm_registry dm) c = Some (ow, i))"
    using add_device_kicked(2) [OF dm(2) a ex] by auto
  have "reg_owners (dm_registry dm') c = None" if "c \<in> set out" for c
    using add_device_parts(3) [OF dm(2) a] own [OF that] that by (simp add: restrict_map_def)
  then have all: "\<forall>v \<in> set out. reg_owners (dm_registry dm') v \<noteq> Some ow" by simp
  have nc: "cid \<notin> set out" using own by blast
  have "cm_inv (xe_mgr xe) k (sv_manager (sv\<lparr>sv_devices := Some dm'\<rparr>))" using inv by simp
  note k = kick_all_spec [OF this nc d _ all, of pf info]
  show "cm_inv (xe_mgr xe) k (sv_manager sv')"
    "lookup_conn (xe_mgr xe) (sv_manager sv') = lookup_conn (xe_mgr xe) (sv_manager sv) |` (- set out)"
    "sv_writes sv' = sv_writes sv @ kick_writes xe pf info (lookup_conn (xe_mgr xe) (sv_manager sv)) out"
    using k by (simp_all add: sv')
  have "sv_devices sv' = Some dm'" using k by (simp add: sv')
  then show "add_device ow cid info dm = (the (sv_devices sv'), out)" "sv_devices sv' \<noteq> None"
    using a by simp_all
qed

section \<open>A CONNECT that succeeds\<close>

lemma connect_message_parts:
  assumes "handle_connect_message xe f cid sv = (sv', Inr (ack, p))"
  obtains n ident fmt cmpr enc conflicts where
    "parse_connect_message f = Inr n"
    "authenticate_connection (sv_auth_enabled sv) (xe_auth xe) f cid n = Inr ident"
    "determine_negotiation_result (sv_defaults sv) n = (fmt, cmpr, enc)"
    "core_handle_device_conflict xe cid n (map_option (owner_new (id_tenant ident)) (id_user ident))
       (mark_connection_authenticated xe cid (id_user ident) (update_connection_info xe cid n (fmt, cmpr, enc) ident sv))
       = (sv', conflicts)"
    "ack = core_create_connect_ack xe (fmt, cmpr, enc) conflicts" "p = parser_new fmt cmpr enc"
  using assms
  by (auto simp: handle_connect_message_def Let_def split: sum.splits prod.splits)

lemma map_of_merge_metadata:
  "distinct (map fst new) \<Longrightarrow>
   map_of (merge_metadata new old) key = (case map_of new key of Some v \<Rightarrow> Some v | None \<Rightarrow> map_of old key)"
proof (induction new arbitrary: old)
  case Nil
  then show ?case by (simp add: merge_metadata_def)
next
  case (Cons kv new)
  obtain k v where kv: "kv = (k, v)" by fastforce
  have "map_of (merge_metadata (kv # new) old) key = map_of (merge_metadata new (AList.update k v old)) key"
    by (simp add: merge_metadata_def kv)
  then show ?case using Cons by (auto simp: kv update_conv' map_of_eq_None_iff [symmetric] split: option.splits)
qed

definition devices_ok :: "server_core \<Rightarrow> bool" where
  "devices_ok sv \<longleftrightarrow> (\<forall>dm. sv_devices sv = Some dm \<longrightarrow> registry_inv (dm_registry dm))"

lemma core_conflict_spec:
  assumes inv: "cm_inv (xe_mgr xe) k (sv_manager sv)" and dev: "devices_ok sv"
    and h: "core_handle_device_conflict xe cid n ow sv = (sv', out)"
  shows "cm_inv (xe_mgr xe) k (sv_manager sv')" and "devices_ok sv'"
    and "lookup_conn (xe_mgr xe) (sv_manager sv') = lookup_conn (xe_mgr xe) (sv_manager sv) |` (- set out)"
    and "\<forall>c \<in> set out. c \<noteq> cid \<and> (\<exists>dm i. sv_devices sv = Some dm \<and> online (dm_registry dm) c = Some (the ow, i) \<and> ow \<noteq> None)"
proof -
  have "cm_inv (xe_mgr xe) k (sv_manager sv') \<and> devices_ok sv'
    \<and> lookup_conn (xe_mgr xe) (sv_manager sv') = lookup_conn (xe_mgr xe) (sv_manager sv) |` (- set out)
    \<and> (\<forall>c \<in> set out. c \<noteq> cid \<and> (\<exists>dm i. sv_devices sv = Some dm \<and> online (dm_registry dm) c = Some (the ow, i) \<and> ow \<noteq> None))"
  proof (cases "sv_devices sv = None \<or> nr_device_info n = None \<or> ow = None")
    case True
    then have "sv' = sv" "out = []"
      using h by (auto simp: core_handle_device_conflict_def split: option.splits)
    then show ?thesis using inv dev by (simp add: restrict_map_def)
  next
    case False
    then obtain dm info ow' where s: "sv_devices sv = Some dm" "nr_device_info n = Some info" "ow = Some ow'" by auto
    obtain out' where h': "handle_device_conflict xe ow' cid (di_platform info) info sv = (sv', out')"
      and out: "out = filter (\<lambda>c. c \<noteq> cid) out'"
      using h s by (auto simp: core_handle_device_conflict_def split: prod.splits)
    have r: "registry_inv (dm_registry dm)" using dev s by (simp add: devices_ok_def)
    note spec = handle_device_conflict_spec [OF inv s(1) r h']
    have "out = out'" unfolding out using spec(6) by (auto simp: filter_id_conv)
    moreover have "devices_ok sv'"
      using add_device_inv [OF r spec(2)] spec(3) by (auto simp: devices_ok_def)
    ultimately show ?thesis using spec(1,4,6) s by auto
  qed
  then show "cm_inv (xe_mgr xe) k (sv_manager sv')" "devices_ok sv'"
    "lookup_conn (xe_mgr xe) (sv_manager sv') = lookup_conn (xe_mgr xe) (sv_manager sv) |` (- set out)"
    "\<forall>c \<in> set out. c \<noteq> cid \<and> (\<exists>dm i. sv_devices sv = Some dm \<and> online (dm_registry dm) c = Some (the ow, i) \<and> ow \<noteq> None)"
    by blast+
qed

text \<open>The information of a connection after the two updates that precede the conflict handling.\<close>

lemma connect_updates_spec:
  fixes xe cid n fmt cmpr enc ident sv
  defines "sv2 \<equiv> mark_connection_authenticated xe cid (id_user ident)
    (update_connection_info xe cid n (fmt, cmpr, enc) ident sv)"
  assumes inv: "cm_inv (xe_mgr xe) k (sv_manager sv)"
  shows "cm_inv (xe_mgr xe) k (sv_manager sv2)" and "sv_devices sv2 = sv_devices sv" and "sv_writes sv2 = sv_writes sv"
    and "infos (xe_mgr xe) (sv_manager sv2) = (case infos (xe_mgr xe) (sv_manager sv) cid of
        None \<Rightarrow> infos (xe_mgr xe) (sv_manager sv)
      | Some i \<Rightarrow> (infos (xe_mgr xe) (sv_manager sv))(cid \<mapsto>
          info_set_authenticated (xe_clock xe) (id_user ident)
            (negotiated_info (nr_device_info n) fmt cmpr enc (id_user ident) (identity_connection_metadata ident) i)))"
proof -
  let ?f = "negotiated_info (nr_device_info n) fmt cmpr enc (id_user ident) (identity_connection_metadata ident)"
  let ?g = "info_set_authenticated (xe_clock xe) (id_user ident)"
  have f: "\<And>i. ci_connection_id (?f i) = ci_connection_id i"
    by (simp add: negotiated_info_def Let_def split: option.splits)
  have g: "\<And>i. ci_connection_id (?g i) = ci_connection_id i"
    by (simp add: info_set_authenticated_def Let_def split: option.splits)
  obtain cm1 r1 where u1: "update_reindexed (xe_mgr xe) cid ?f (sv_manager sv) = (cm1, r1)" by fastforce
  obtain cm2 r2 where u2: "update_reindexed (xe_mgr xe) cid ?g cm1 = (cm2, r2)" by fastforce
  note s1 = update_reindexed_spec [OF inv f u1]
  note s2 = update_reindexed_spec [OF s1(1) g u2]
  have sv2: "sv_manager sv2 = cm2"
    using u1 u2 by (simp add: sv2_def mark_connection_authenticated_def update_connection_info_def
        update_connection_negotiation_def set_connection_authenticated_def)
  show "cm_inv (xe_mgr xe) k (sv_manager sv2)" using s2(1) by (simp add: sv2)
  show "sv_devices sv2 = sv_devices sv" "sv_writes sv2 = sv_writes sv"
    by (simp_all add: sv2_def mark_connection_authenticated_def update_connection_info_def)
  show "infos (xe_mgr xe) (sv_manager sv2) = (case infos (xe_mgr xe) (sv_manager sv) cid of
        None \<Rightarrow> infos (xe_mgr xe) (sv_manager sv)
      | Some i \<Rightarrow> (infos (xe_mgr xe) (sv_manager sv))(cid \<mapsto> ?g (?f i)))"
    using s1(2) s2(2) by (auto simp: sv2 split: option.splits)
qed

text \<open>The authenticator's answer behind an identity.\<close>

lemma authenticated_identity:
  assumes "authenticate_connection True (Some auth) f cid n = Inr ident"
  obtains token r u where "extract_token_from_frame f = Some token"
    "auth token cid (nr_device_info n) (extract_system_command_metadata f) = Inr r"
    "ar_authenticated r" "ar_user_id r = Some u" "trim u \<noteq> []"
    "id_user ident = Some u" "id_tenant ident = auth_tenant_id r" "id_metadata ident = ar_user_metadata r"
  using assms by (auto simp: authenticate_connection_def split: option.splits sum.splits if_splits)

lemma merged_tenant:
  assumes "\<forall>md. id_metadata ident = Some md \<longrightarrow> distinct (map fst md)"
    and "id_tenant ident = Option.bind (id_metadata ident) (\<lambda>md. map_of md TENANT_ID_METADATA_KEY)"
  shows "map_of (ci_metadata (negotiated_info dev fmt cmpr enc u (identity_connection_metadata ident) i)) TENANT_ID_METADATA_KEY
    = (case id_tenant ident of Some t \<Rightarrow> Some t | None \<Rightarrow> map_of (ci_metadata i) TENANT_ID_METADATA_KEY)"
proof (cases "id_metadata ident")
  case None
  then show ?thesis using assms(2) by (simp add: negotiated_info_def identity_connection_metadata_def Let_def)
next
  case (Some md)
  then have d: "distinct (map fst md)" using assms(1) by simp
  show ?thesis
    using Some assms(2) d distinct_update [OF d]
    by (auto simp: negotiated_info_def identity_connection_metadata_def Let_def map_of_merge_metadata update_conv'
        split: option.splits)
qed

section \<open>Properties\<close>

text \<open>C27: With authentication on, a connection's identity is the authenticator's. If the server answers
  a CONNECT with an acknowledgement, the authenticator accepted the token of that frame and named a
  user, and the registered connection is authenticated as that user, in the tenant the
  authenticator gave (in its earlier tenant when the authenticator gave none); what the client
  declares of itself plays no part. The invariants of both tables are kept.\<close>

theorem connect_identity_from_authenticator:
  assumes inv: "cm_inv (xe_mgr xe) k (sv_manager sv)" and dev: "devices_ok sv"
    and on: "sv_auth_enabled sv" "xe_auth xe = Some auth"
    and maps: "\<forall>token d md r m. auth token cid d md = Inr r \<and> ar_user_metadata r = Some m \<longrightarrow> distinct (map fst m)"
    and h: "handle_connect_message xe f cid sv = (sv', Inr (ack, p))"
    and i: "infos (xe_mgr xe) (sv_manager sv) cid = Some i"
  shows "cm_inv (xe_mgr xe) k (sv_manager sv') \<and> devices_ok sv' \<and>
    (\<exists>token d r u i'. extract_token_from_frame f = Some token
       \<and> auth token cid d (extract_system_command_metadata f) = Inr r
       \<and> ar_authenticated r \<and> ar_user_id r = Some u \<and> trim u \<noteq> []
       \<and> infos (xe_mgr xe) (sv_manager sv') cid = Some i' \<and> ci_authenticated i'
       \<and> info_owner i' = Some (owner_new
           (case auth_tenant_id r of Some t \<Rightarrow> Some t | None \<Rightarrow> map_of (ci_metadata i) TENANT_ID_METADATA_KEY) u))"
proof -
  obtain n ident fmt cmpr enc out where
    a: "authenticate_connection (sv_auth_enabled sv) (xe_auth xe) f cid n = Inr ident" and
    c: "core_handle_device_conflict xe cid n (map_option (owner_new (id_tenant ident)) (id_user ident))
       (mark_connection_authenticated xe cid (id_user ident) (update_connection_info xe cid n (fmt, cmpr, enc) ident sv))
       = (sv', out)"
    using h by (rule connect_message_parts)
  from a on have "authenticate_connection True (Some auth) f cid n = Inr ident" by simp
  then obtain token r u where t: "extract_token_from_frame f = Some token"
    "auth token cid (nr_device_info n) (extract_system_command_metadata f) = Inr r"
    "ar_authenticated r" "ar_user_id r = Some u" "trim u \<noteq> []"
    "id_user ident = Some u" "id_tenant ident = auth_tenant_id r" "id_metadata ident = ar_user_metadata r"
    by (rule authenticated_identity)
  note up = connect_updates_spec [OF inv, of cid ident n fmt cmpr enc]
  note co = core_conflict_spec [OF up(1) _ c]
  have dev2: "devices_ok (mark_connection_authenticated xe cid (id_user ident)
      (update_connection_info xe cid n (fmt, cmpr, enc) ident sv))"
    using dev up(2) by (simp add: devices_ok_def)
  let ?j = "negotiated_info (nr_device_info n) fmt cmpr enc (id_user ident) (identity_connection_metadata ident) i"
  have "cid \<notin> set out" using co(4) [OF dev2] by blast
  then have "infos (xe_mgr xe) (sv_manager sv') cid = infos (xe_mgr xe) (sv_manager (mark_connection_authenticated xe cid
      (id_user ident) (update_connection_info xe cid n (fmt, cmpr, enc) ident sv))) cid"
    using fun_cong [OF co(3) [OF dev2], of cid] by (simp add: infos_def [of _ _ cid] restrict_map_def)
  also have "\<dots> = Some (info_set_authenticated (xe_clock xe) (id_user ident) ?j)" using up(4) i by simp
  finally have inf: "infos (xe_mgr xe) (sv_manager sv') cid = Some (info_set_authenticated (xe_clock xe) (id_user ident) ?j)" .
  have "map_of (ci_metadata ?j) TENANT_ID_METADATA_KEY
      = (case id_tenant ident of Some t \<Rightarrow> Some t | None \<Rightarrow> map_of (ci_metadata i) TENANT_ID_METADATA_KEY)"
    by (rule merged_tenant) (use maps t in \<open>auto simp: auth_tenant_id_def\<close>)
  then have "info_owner (info_set_authenticated (xe_clock xe) (id_user ident) ?j) = Some (owner_new
      (case auth_tenant_id r of Some t \<Rightarrow> Some t | None \<Rightarrow> map_of (ci_metadata i) TENANT_ID_METADATA_KEY) u)"
    using t by (simp add: info_owner_def info_set_authenticated_def Let_def)
  moreover have "ci_authenticated (info_set_authenticated (xe_clock xe) (id_user ident) ?j)"
    using t by (simp add: info_set_authenticated_def Let_def)
  ultimately show ?thesis using co(1,2) [OF dev2] inf t by blast
qed

definition ex_token_frame :: frame where
  "ex_token_frame = fst (frame_with_system_command
     (connect Json [(''token'', ''T''), (''user_id'', ''MALLORY'')]) AtLeastOnce \<lparr>st_id_ms = 0, st_ts_ms = 0, st_counter = 0\<rparr>)"

definition ex_auth :: authenticator where
  "ex_auth token cid dev md =
     Inr (if token = ''T'' then auth_with_tenant_id ''TENANT'' (auth_success (Some ''ALICE'')) else auth_failure ''no'')"

definition ex_xe :: connect_env where
  "ex_xe = \<lparr>xe_mgr = ex_me, xe_codecs = global_codecs ex_lib, xe_auth = Some ex_auth, xe_on_connect = Some (\<lambda>_. Inr ()),
     xe_send = (\<lambda>_ _. Inr ()), xe_json_strings = concat, xe_debug_platform = platform_as_str, xe_clock = ex_clock,
     xe_stamp = \<lparr>st_id_ms = 0, st_ts_ms = 0, st_counter = 0\<rparr>, xe_nonce = []\<rparr>"

definition ex_sv :: "device_manager option \<Rightarrow> server_core" where
  "ex_sv dm = \<lparr>sv_manager = ex_mgr, sv_devices = dm,
     sv_defaults = \<lparr>nd_format = Json, nd_compression = CompNone, nd_encryption = EncNone\<rparr>, sv_auth_enabled = True,
     sv_middlewares = [], sv_processors = [], sv_pipeline_cache = Map.empty, sv_pipelines = Map.empty,
     sv_next_pipeline = 0, sv_writes = []\<rparr>"

lemma ex_sv_simps [simp]:
  "xe_mgr ex_xe = ex_me" "xe_auth ex_xe = Some ex_auth" "sv_manager (ex_sv dm) = ex_mgr" "sv_devices (ex_sv dm) = dm"
  "sv_auth_enabled (ex_sv dm)"
  by (simp_all add: ex_xe_def ex_sv_def)

lemma ex_token_frame_cmd: "frame_system_command ex_token_frame = Some (connect Json [(''token'', ''T''), (''user_id'', ''MALLORY'')])"
  by (simp add: ex_token_frame_def)

lemma ex_identity:
  "authenticate_connection True (Some ex_auth) ex_token_frame ''b'' n
   = Inr \<lparr>id_user = Some ''ALICE'', id_tenant = Some ''TENANT'', id_metadata = Some [(''tenant_id'', ''TENANT'')]\<rparr>"
  by (simp add: authenticate_connection_def extract_token_from_frame_def ex_token_frame_cmd connect_def ex_auth_def
      from_utf8_def auth_with_tenant_id_def auth_success_def auth_tenant_id_def TENANT_ID_METADATA_KEY_def trim_upper)

theorem connect_identity_from_authenticator_witness:
  "\<exists>sv' i'. fst (handle_connect_message ex_xe ex_token_frame ''b'' (ex_sv None)) = sv'
     \<and> infos ex_me (sv_manager sv') ''b'' = Some i' \<and> info_owner i' = Some (owner_new (Some ''TENANT'') ''ALICE'')"
proof -
  obtain n where n: "parse_connect_message ex_token_frame = Inr n"
    using parse_connect_total by blast
  have "\<exists>sv' ack p. handle_connect_message ex_xe ex_token_frame ''b'' (ex_sv None) = (sv', Inr (ack, p))"
    unfolding handle_connect_message_def by (simp add: n ex_identity Let_def split: prod.splits)
  then obtain sv' ack p where h: "handle_connect_message ex_xe ex_token_frame ''b'' (ex_sv None) = (sv', Inr (ack, p))"
    by blast
  have i: "infos ex_me ex_mgr ''b'' = Some ((conn_info_new ex_clock ''b'' True)\<lparr>ci_user_id := Some ''u''\<rparr>)"
    by (simp add: infos_def ex_mgr_lookup)
  have inv: "cm_inv (xe_mgr ex_xe) 0 (sv_manager (ex_sv None))" using ex_mgr_inv by simp
  have maps: "\<forall>token d md r m. ex_auth token ''b'' d md = Inr r \<and> ar_user_metadata r = Some m \<longrightarrow> distinct (map fst m)"
    by (auto simp: ex_auth_def auth_with_tenant_id_def auth_success_def auth_failure_def split: if_splits)
  have "devices_ok (ex_sv None)" "sv_auth_enabled (ex_sv None)" "xe_auth ex_xe = Some ex_auth"
    by (simp_all add: devices_ok_def)
  note thm0 = connect_identity_from_authenticator [OF inv this maps h]
  have "infos (xe_mgr ex_xe) (sv_manager (ex_sv None)) ''b'' = Some ((conn_info_new ex_clock ''b'' True)\<lparr>ci_user_id := Some ''u''\<rparr>)"
    using i by simp
  from thm0 [OF this]
  obtain token d r u i' where "extract_token_from_frame ex_token_frame = Some token"
    "ex_auth token ''b'' d (extract_system_command_metadata ex_token_frame) = Inr r" "ar_user_id r = Some u" "ar_authenticated r"
    "infos ex_me (sv_manager sv') ''b'' = Some i'"
    "info_owner i' = Some (owner_new (case auth_tenant_id r of Some t \<Rightarrow> Some t
       | None \<Rightarrow> map_of (ci_metadata ((conn_info_new ex_clock ''b'' True)\<lparr>ci_user_id := Some ''u''\<rparr>)) TENANT_ID_METADATA_KEY) u)"
    by auto
  moreover have "auth_tenant_id r = Some ''TENANT''" "u = ''ALICE''" if "ex_auth token c d md = Inr r" "ar_authenticated r" "ar_user_id r = Some u"
    for token c d md r u
    using that by (auto simp: ex_auth_def auth_with_tenant_id_def auth_success_def auth_failure_def auth_tenant_id_def split: if_splits)
  ultimately show ?thesis using h by fastforce
qed

text \<open>C28: A device conflict touches the connections of one owner only. Handling it removes from the
  connection manager exactly the connections whose devices were displaced, all of them of the same
  tenant and user as the new connection and none of them the new connection; each that is still
  registered is first written a KICKED frame in its own format; nothing else is written, the
  manager's invariant is kept and the registry is the one the login produces.\<close>

theorem device_conflict_isolation:
  assumes "cm_inv (xe_mgr xe) k (sv_manager sv)" and "sv_devices sv = Some dm" and "registry_inv (dm_registry dm)"
    and "handle_device_conflict xe ow cid pf info sv = (sv', out)"
  shows "cm_inv (xe_mgr xe) k (sv_manager sv')
    \<and> (\<exists>dm'. sv_devices sv' = Some dm' \<and> add_device ow cid info dm = (dm', out))
    \<and> lookup_conn (xe_mgr xe) (sv_manager sv') = lookup_conn (xe_mgr xe) (sv_manager sv) |` (- set out)
    \<and> (\<forall>c \<in> set out. c \<noteq> cid \<and> (\<exists>i. online (dm_registry dm) c = Some (ow, i)))
    \<and> (\<exists>ws. sv_writes sv' = sv_writes sv @ ws
        \<and> (\<forall>c e d. c \<in> set out \<and> lookup_conn (xe_mgr xe) (sv_manager sv) c = Some e \<and> kick_data xe pf info e = Inr d
             \<longrightarrow> (en_writer e, d) \<in> set ws)
        \<and> (\<forall>(q, d) \<in> set ws. \<exists>c \<in> set out. \<exists>e. lookup_conn (xe_mgr xe) (sv_manager sv) c = Some e
             \<and> en_writer e = q \<and> kick_data xe pf info e = Inr d))"
proof -
  note s = handle_device_conflict_spec [OF assms]
  define ws where "ws = kick_writes xe pf info (lookup_conn (xe_mgr xe) (sv_manager sv)) out"
  have "\<forall>c e d. c \<in> set out \<and> lookup_conn (xe_mgr xe) (sv_manager sv) c = Some e \<and> kick_data xe pf info e = Inr d
      \<longrightarrow> (en_writer e, d) \<in> set ws"
    unfolding ws_def set_kick_writes by blast
  moreover have "\<forall>(q, d) \<in> set ws. \<exists>c \<in> set out. \<exists>e. lookup_conn (xe_mgr xe) (sv_manager sv) c = Some e
      \<and> en_writer e = q \<and> kick_data xe pf info e = Inr d"
    using set_kick_writes by (fastforce simp: ws_def)
  moreover have "sv_writes sv' = sv_writes sv @ ws" using s(5) by (simp add: ws_def)
  ultimately show ?thesis using s by auto
qed

definition ex_devices :: device_manager where
  "ex_devices = fst (add_device (owner_new None ''u'') ''a'' (device_info_new ''d1'' PC) (device_manager_new PlatformExclusive))"

lemma ex_devices_inv: "registry_inv (dm_registry ex_devices)"
proof -
  obtain dm out where a: "add_device (owner_new None ''u'') ''a'' (device_info_new ''d1'' PC) (device_manager_new PlatformExclusive)
      = (dm, out)" by fastforce
  then have "ex_devices = dm" by (simp add: ex_devices_def)
  then show ?thesis using add_device_inv [OF _ a] by (simp add: device_manager_new_def)
qed

theorem device_conflict_isolation_witness:
  "\<exists>sv'. handle_device_conflict ex_xe (owner_new None ''u'') ''b'' PC (device_info_new ''d2'' PC) (ex_sv (Some ex_devices))
        = (sv', [''a''])
     \<and> lookup_conn ex_me (sv_manager sv') ''a'' = None
     \<and> lookup_conn ex_me (sv_manager sv') ''b'' = lookup_conn ex_me ex_mgr ''b''
     \<and> lookup_conn ex_me (sv_manager sv') ''c'' = lookup_conn ex_me ex_mgr ''c''"
proof -
  obtain sv' out where h: "handle_device_conflict ex_xe (owner_new None ''u'') ''b'' PC (device_info_new ''d2'' PC) (ex_sv (Some ex_devices))
      = (sv', out)" by fastforce
  have inv: "cm_inv (xe_mgr ex_xe) 0 (sv_manager (ex_sv (Some ex_devices)))" using ex_mgr_inv by simp
  have "sv_devices (ex_sv (Some ex_devices)) = Some ex_devices" by simp
  from device_conflict_isolation [OF inv this ex_devices_inv h]
  have a: "snd (add_device (owner_new None ''u'') ''b'' (device_info_new ''d2'' PC) ex_devices) = out"
    and l: "lookup_conn ex_me (sv_manager sv') = lookup_conn ex_me ex_mgr |` (- set out)" by auto
  have "out = [''a'']"
    unfolding a [symmetric] ex_devices_def
    by (auto simp: add_device_def device_manager_new_def registry_default_def device_info_new_def Let_def)
  then show ?thesis using h l by (simp add: restrict_map_def)
qed

text \<open>C29: A refused CONNECT leaves no trace. When authentication refuses, the connection table, the
  device registry and the pipelines are as before, and at most one frame has been written, to the
  refused connection: an ERROR whose text is a typed reason or the name of the error code, so that
  no internal text reaches the client.\<close>

theorem refused_connect_leaves_no_trace:
  assumes "parse_connect_message f = Inr n"
    and "authenticate_connection (sv_auth_enabled sv) (xe_auth xe) f cid n = Inl e"
  shows "\<exists>sv' ws. handle_connect_complete xe f cid q sv = (sv', Inl e) \<and> sv' = sv\<lparr>sv_writes := sv_writes sv @ ws\<rparr>
    \<and> length ws \<le> 1
    \<and> (\<forall>(q', d) \<in> set ws. q' = q \<and> (\<exists>text code.
         (is_typed_reason text \<or> text = error_as_str code) \<and> flare_error_code e = Some code
         \<and> (code = AuthenticationFailed \<or> code = ServiceUnavailable)
         \<and> serialize (xe_codecs xe) (xe_nonce xe) PRE_NEGOTIATION_PARSER
             (fst (frame_with_system_command (error_command text (Some [(''code'', error_as_str code)])) BestEffort (xe_stamp xe)))
           = Inr d))"
proof -
  have h: "handle_connect_message xe f cid sv = (sv, Inl e)"
    using assms by (simp add: handle_connect_message_def Let_def)
  show ?thesis
  proof (cases "\<exists>code. flare_error_code e = Some code \<and> (code = AuthenticationFailed \<or> code = ServiceUnavailable)")
    case False
    then have "handle_connect_complete xe f cid q sv = (sv, Inl e)"
      using h by (auto simp: handle_connect_complete_def split: option.splits)
    moreover have "sv = sv\<lparr>sv_writes := sv_writes sv @ []\<rparr>" by simp
    ultimately show ?thesis by fastforce
  next
    case True
    then obtain code where c: "flare_error_code e = Some code" "code = AuthenticationFailed \<or> code = ServiceUnavailable"
      by blast
    let ?text = "rejection_text (flare_error_reason e) (error_as_str code)"
    let ?fr = "fst (frame_with_system_command (error_command ?text (Some [(''code'', error_as_str code)])) BestEffort (xe_stamp xe))"
    have hc: "handle_connect_complete xe f cid q sv = (send_connect_rejection xe q code (flare_error_reason e) sv, Inl e)"
      using h c by (auto simp: handle_connect_complete_def)
    have ty: "is_typed_reason ?text \<or> ?text = error_as_str code" by (simp add: rejection_text_def)
    show ?thesis
    proof (cases "serialize (xe_codecs xe) (xe_nonce xe) PRE_NEGOTIATION_PARSER ?fr")
      case (Inl x)
      then have "handle_connect_complete xe f cid q sv = (sv\<lparr>sv_writes := sv_writes sv @ []\<rparr>, Inl e)"
        by (simp add: hc send_connect_rejection_def Let_def)
      then show ?thesis by fastforce
    next
      case (Inr d)
      then have "handle_connect_complete xe f cid q sv = (sv\<lparr>sv_writes := sv_writes sv @ [(q, d)]\<rparr>, Inl e)"
        by (simp add: hc send_connect_rejection_def direct_send_def Let_def)
      then show ?thesis using c ty Inr by fastforce
    qed
  qed
qed

theorem refused_connect_leaves_no_trace_witness:
  "\<exists>sv' e. handle_connect_complete ex_xe ex_frame ''b'' 1 (ex_sv None) = (sv', Inl e)
     \<and> sv_manager sv' = ex_mgr \<and> sv_devices sv' = None \<and> length (sv_writes sv') \<le> 1"
proof -
  have n: "parse_connect_message ex_frame = Inr negotiation_default"
    by (simp add: parse_connect_message_def connect_system_command_def ex_frame_def)
  have "authenticate_connection (sv_auth_enabled (ex_sv None)) (xe_auth ex_xe) ex_frame ''b'' negotiation_default
      = Inl (localized AuthenticationFailed ''no token'')"
    by (simp add: authenticate_connection_def extract_token_from_frame_def frame_system_command_def frame_command_type_def ex_frame_def)
  from refused_connect_leaves_no_trace [OF n this, of 1] show ?thesis by (auto simp: ex_sv_def)
qed

end
