(* ===== verification/Agreement.thy ===== *)
theory Agreement
  imports ClientRun ServerCore
begin

text \<open>
  Client and server together: the CONNECT a client builds from its configuration, as the server reads it
  and answers it, and the parser each end uses afterwards.
\<close>

section \<open>What the server reads\<close>

definition negotiation_keys :: "string set" where
  "negotiation_keys = {''format'', ''compression'', ''accept_compression'', ''encryption'', ''force_format''}"

text \<open>Metadata of the application and of the device stay off the keys of the negotiation.\<close>

definition custom_keys_ok :: "client_config \<Rightarrow> bool" where
  "custom_keys_ok cfg \<longleftrightarrow>
     fst ` set (cl_metadata cfg) \<inter> negotiation_keys = {}
     \<and> (\<forall>d. cl_device_info cfg = Some d \<longrightarrow> fst ` set (di_metadata d) \<inter> negotiation_keys = {})"

text \<open>An algorithm that survives its name: the built-in ones do, a custom one if its name is in lower
  case and not one of theirs.\<close>

definition wire_compression :: "compression_algorithm \<Rightarrow> bool" where
  "wire_compression a \<longleftrightarrow>
     from_utf8 (compression_as_str a) = Some (compression_as_str a)
     \<and> compression_from_str (compression_as_str a) = Some a"

definition wire_encryption :: "encryption_algorithm \<Rightarrow> bool" where
  "wire_encryption a \<longleftrightarrow> encryption_from_str (encryption_as_str a) = Some a"

lemma wire_builtin:
  "wire_compression CompNone" "wire_compression Gzip" "wire_compression Zstd"
  "wire_encryption EncNone" "wire_encryption Aes256Gcm"
  using compression_str_roundtrip [of CompNone] compression_str_roundtrip [of Gzip] compression_str_roundtrip [of Zstd]
    encryption_str_roundtrip [of EncNone] encryption_str_roundtrip [of Aes256Gcm]
  by (simp_all add: wire_compression_def wire_encryption_def from_utf8_def)

lemma map_of_insert_all: "k \<notin> fst ` set kvs \<Longrightarrow> map_of (insert_all kvs md) k = map_of md k"
  unfolding insert_all_def by (induction kvs arbitrary: md) (auto simp: update_conv' fun_upd_other)

lemma map_of_insert_opt: "k \<noteq> k' \<Longrightarrow> map_of (insert_opt k' v md) k = map_of md k"
  by (simp add: insert_opt_def update_conv' split: option.splits)

lemma map_of_device_metadata:
  assumes "custom_keys_ok cfg" and "k \<in> negotiation_keys"
  shows "map_of (add_device_metadata cfg md) k = map_of md k"
proof (cases "cl_device_info cfg")
  case (Some d)
  then have "k \<notin> fst ` set (di_metadata d)" using assms by (auto simp: custom_keys_ok_def)
  moreover have "k \<notin> {''system_version'', ''app_version'', ''model'', ''platform'', ''device_id''}"
    using assms(2) by (auto simp: negotiation_keys_def)
  ultimately show ?thesis
    using Some by (simp add: add_device_metadata_def map_of_insert_all map_of_insert_opt update_conv')
qed (simp add: add_device_metadata_def)

lemma connect_metadata:
  assumes "\<not> is_force_format cfg" and "custom_keys_ok cfg"
  shows "map_of (build_connect_metadata env cfg) ''format'' =
      (if cl_serialization_format cfg \<noteq> Json then Some (format_name (cl_serialization_format cfg)) else None)"
    "map_of (build_connect_metadata env cfg) ''compression'' =
      (if cl_compression cfg \<noteq> CompNone then Some (compression_as_str (cl_compression cfg)) else None)"
    "map_of (build_connect_metadata env cfg) ''accept_compression'' =
      (if accepted_compressions env \<noteq> [] then Some (join_str '','' (accepted_compressions env)) else None)"
    "map_of (build_connect_metadata env cfg) ''encryption'' = None"
    "map_of (build_connect_metadata env cfg) ''force_format'' = None"
proof -
  have outer: "map_of (build_connect_metadata env cfg) k = map_of
      (let md0 = (if cl_serialization_format cfg \<noteq> Json
                  then AList.update ''format'' (format_name (cl_serialization_format cfg)) [] else []);
           md1 = (if cl_compression cfg \<noteq> CompNone
                  then AList.update ''compression'' (compression_as_str (cl_compression cfg)) md0 else md0)
       in if accepted_compressions env \<noteq> []
          then AList.update ''accept_compression'' (join_str '','' (accepted_compressions env)) md1 else md1) k"
    if "k \<in> negotiation_keys" for k
  proof -
    have "k \<notin> fst ` set (cl_metadata cfg)" using that assms(2) unfolding custom_keys_ok_def by blast
    moreover have "k \<noteq> ''token''" "k \<noteq> ''user_id''" using that by (auto simp: negotiation_keys_def)
    ultimately show ?thesis
      using assms that
      by (simp add: build_connect_metadata_def determine_connect_format_def Let_def map_of_insert_all
          map_of_insert_opt map_of_device_metadata)
  qed
  show "map_of (build_connect_metadata env cfg) ''format'' =
      (if cl_serialization_format cfg \<noteq> Json then Some (format_name (cl_serialization_format cfg)) else None)"
    "map_of (build_connect_metadata env cfg) ''compression'' =
      (if cl_compression cfg \<noteq> CompNone then Some (compression_as_str (cl_compression cfg)) else None)"
    "map_of (build_connect_metadata env cfg) ''accept_compression'' =
      (if accepted_compressions env \<noteq> [] then Some (join_str '','' (accepted_compressions env)) else None)"
    "map_of (build_connect_metadata env cfg) ''encryption'' = None"
    "map_of (build_connect_metadata env cfg) ''force_format'' = None"
    by (subst outer; simp add: negotiation_keys_def Let_def update_conv')+
qed

lemma trim_names: "trim ''gzip'' = ''gzip''" "trim ''zstd'' = ''zstd''"
proof -
  have w: "list_all (\<lambda>w. w \<noteq> [] \<and> hd w \<notin> {CHR ''g'', CHR ''p'', CHR ''z'', CHR ''d''}
      \<and> hd (rev w) \<notin> {CHR ''g'', CHR ''p'', CHR ''z'', CHR ''d''}) white_space_encodings"
    by code_simp
  show "trim ''gzip'' = ''gzip''" "trim ''zstd'' = ''zstd''"
    by (rule trim_hd_last [OF w [unfolded list_all_iff]]; simp)+
qed

lemma accepted_read:
  assumes "map_of md ''accept_compression'' =
      (if accepted_compressions env \<noteq> [] then Some (join_str '','' (accepted_compressions env)) else None)"
  shows "set (parse_accepted_compressions md) =
    {a \<in> {Gzip, Zstd}. compression_registered env (compression_as_str a)}"
  using assms
  by (cases "compression_registered env ''gzip''"; cases "compression_registered env ''zstd''")
    (auto simp: parse_accepted_compressions_def accepted_compressions_def metadata_string_def bytes_to_string_def
      METADATA_ACCEPT_COMPRESSION_def from_utf8_def trim_names push_accepted_def compression_from_str_def
      to_lowercase_def to_ascii_lowercase_def ascii_lower_def List.map_filter_def split: if_splits)

section \<open>Agreement\<close>

lemma connect_frame_read:
  assumes "\<not> is_force_format cfg" "custom_keys_ok cfg" "wire_compression (cl_compression cfg)"
    and "parse_connect_message (connect_frame env cfg st) = Inr n"
  shows "nr_serialization_format n = cl_serialization_format cfg"
    "nr_serialization_format_specified n \<longleftrightarrow> cl_serialization_format cfg \<noteq> Json"
    "nr_compression n = cl_compression cfg" "nr_encryption n = EncNone" "\<not> nr_is_forced n"
    "set (nr_accepted_compressions n) = {a \<in> {Gzip, Zstd}. compression_registered env (compression_as_str a)}"
proof -
  let ?md = "build_connect_metadata env cfg"
  note md = connect_metadata [OF assms(1,2), of env]
  have "connect_system_command (connect_frame env cfg st) = Some (connect Json ?md)"
    using frame_with_system_command_cmd [of "connect Json ?md" AtLeastOnce st]
    by (auto simp: connect_frame_def connect_system_command_def frame_system_command_def frame_command_type_def)
  then have n: "n = \<lparr>nr_serialization_format = fst (parse_serialization_format ?md),
      nr_serialization_format_specified = snd (parse_serialization_format ?md), nr_compression = parse_compression ?md,
      nr_accepted_compressions = parse_accepted_compressions ?md, nr_encryption = parse_encryption ?md,
      nr_is_forced = (metadata_string ?md METADATA_FORCE_FORMAT = Some ''true''), nr_device_info = parse_device_info ?md,
      nr_user_id = metadata_string ?md METADATA_USER_ID, nr_tenant_id = metadata_string ?md METADATA_TENANT_ID\<rparr>"
    using assms(4) by (auto simp: parse_connect_message_def connect_def Let_def case_prod_unfold)
  have "parse_serialization_format ?md = (cl_serialization_format cfg, cl_serialization_format cfg \<noteq> Json)"
    by (cases "cl_serialization_format cfg")
      (simp_all add: parse_serialization_format_def metadata_string_def METADATA_FORMAT_def md bytes_to_string_def
        from_utf8_def)
  then show "nr_serialization_format n = cl_serialization_format cfg"
    "nr_serialization_format_specified n \<longleftrightarrow> cl_serialization_format cfg \<noteq> Json" by (simp_all add: n)
  show "nr_compression n = cl_compression cfg"
    using assms(3) by (simp add: n parse_compression_def metadata_string_def METADATA_COMPRESSION_def md
        bytes_to_string_def wire_compression_def)
  show "nr_encryption n = EncNone"
    by (simp add: n parse_encryption_def metadata_string_def METADATA_ENCRYPTION_def md)
  show "\<not> nr_is_forced n" by (simp add: n metadata_string_def METADATA_FORCE_FORMAT_def md)
  show "set (nr_accepted_compressions n) = {a \<in> {Gzip, Zstd}. compression_registered env (compression_as_str a)}"
    using accepted_read [OF md(3)] by (simp add: n)
qed

lemma ack_read:
  assumes "wire_compression cmpr" "wire_encryption enc"
    and "cmpr = CompNone \<or> compression_registered (xe_codecs xe) (compression_as_str cmpr)"
    and "enc = EncNone \<or> encryption_registered (xe_codecs xe) (encryption_as_str enc)"
  shows "handle_connect_ack (core_create_connect_ack xe (fmt, cmpr, enc) conflicts) = Inr (fmt, cmpr, enc)"
proof -
  let ?md = "if conflicts = [] then [] else [(''conflict_connections'', xe_json_strings xe conflicts)]"
  let ?s = "create_connect_ack (xe_codecs xe) fmt cmpr enc (Some ?md)"
  have f: "frame_system_command (core_create_connect_ack xe (fmt, cmpr, enc) conflicts) = Some ?s"
    by (simp only: core_create_connect_ack_def frame_with_system_command_cmd Let_def prod.case)
  have s: "sc_type ?s = system_type_as_i32 SysConnectAck" "sc_format ?s = serialization_format_as_i32 fmt"
    "sc_compression ?s = compression_as_str cmpr" "sc_encryption ?s = encryption_as_str enc"
    using assms(3,4) by (auto simp: create_connect_ack_def connect_ack_def Let_def)
  show ?thesis
    using assms(1,2) by (simp only: handle_connect_ack_def f s option.case system_type_i32_roundtrip
        serialization_format_i32_roundtrip wire_compression_def wire_encryption_def unwrap_or_simps if_False not_True_eq_False simp_thms)
qed

lemma connect_message_outcome:
  assumes "handle_connect_message xe f cid sv = (sv', Inr (ack, p))"
  shows "\<exists>n fmt cmpr enc conflicts. parse_connect_message f = Inr n
    \<and> determine_negotiation_result (sv_defaults sv) n = (fmt, cmpr, enc)
    \<and> ack = core_create_connect_ack xe (fmt, cmpr, enc) conflicts \<and> p = parser_new fmt cmpr enc"
  using assms
  by (auto simp: handle_connect_message_def Let_def split: sum.splits prod.splits)

lemma negotiated_fields:
  "co_parser (try_start_heartbeat ce c) = co_parser c" "co_negotiated (try_start_heartbeat ce c) = co_negotiated c"
  "co_parser (fst (send_negotiation_ready ce c)) = co_parser c"
  "co_negotiated (fst (send_negotiation_ready ce c)) = co_negotiated c" "co_config (call_handler k c) = co_config c"
  by (simp_all add: try_start_heartbeat_def send_negotiation_ready_def send_on_def call_handler_def
      split: option.splits sum.splits)

lemma connect_ack_parser:
  assumes "frame_system_command ack = Some s" and "handle_connect_ack ack = Inr (fmt, cmpr, enc)"
    and "\<not> is_force_format (co_config c)"
  shows "co_parser (handle_connect_ack_command ce ack c) = parser_new fmt cmpr enc \<and> co_negotiated (handle_connect_ack_command ce ack c)"
  using assms
  by (simp add: handle_connect_ack_command_def Let_def negotiated_fields core_update_parser_def)

text \<open>C4: Client and server end up with the same codec.  For a client that does not force a format, when
  the server accepts its CONNECT, the parser the client installs on CONNECT_ACK is the parser the server
  uses for the connection: the client's format if it is not JSON and the server's otherwise, the
  compression the client asked for or else the server's default if it is one the client can undo, and
  the server's encryption.  It takes algorithms that are registered at the server and survive their
  name, and metadata of the application that does not use the negotiation's keys.\<close>

theorem negotiation_agreement:
  assumes "\<not> is_force_format cfg" "custom_keys_ok cfg" "wire_compression (cl_compression cfg)"
    and "wire_compression (nd_compression (sv_defaults sv))" "wire_encryption (nd_encryption (sv_defaults sv))"
    and "\<forall>a \<in> {cl_compression cfg, nd_compression (sv_defaults sv)}.
           a = CompNone \<or> compression_registered (xe_codecs xe) (compression_as_str a)"
    and "nd_encryption (sv_defaults sv) = EncNone
         \<or> encryption_registered (xe_codecs xe) (encryption_as_str (nd_encryption (sv_defaults sv)))"
    and "handle_connect_message xe (connect_frame env cfg st) cid sv = (sv', Inr (ack, p))"
    and "co_config c = cfg"
  shows "co_parser (handle_connect_ack_command ce ack c) = p \<and> co_negotiated (handle_connect_ack_command ce ack c)
    \<and> p = parser_new
        (if cl_serialization_format cfg = Json then nd_format (sv_defaults sv) else cl_serialization_format cfg)
        (if cl_compression cfg \<noteq> CompNone then cl_compression cfg
         else if nd_compression (sv_defaults sv) \<in> {Gzip, Zstd}
              \<and> compression_registered env (compression_as_str (nd_compression (sv_defaults sv)))
         then nd_compression (sv_defaults sv) else CompNone)
        (nd_encryption (sv_defaults sv))"
proof -
  obtain n fmt cmpr enc conflicts where o: "parse_connect_message (connect_frame env cfg st) = Inr n"
    "determine_negotiation_result (sv_defaults sv) n = (fmt, cmpr, enc)"
    "ack = core_create_connect_ack xe (fmt, cmpr, enc) conflicts" "p = parser_new fmt cmpr enc"
    using connect_message_outcome [OF assms(8)] by blast
  note n = connect_frame_read [OF assms(1-3) o(1)]
  have out: "fmt = (if cl_serialization_format cfg = Json then nd_format (sv_defaults sv) else cl_serialization_format cfg)"
    "cmpr = (if cl_compression cfg \<noteq> CompNone then cl_compression cfg
         else if nd_compression (sv_defaults sv) \<in> {Gzip, Zstd}
              \<and> compression_registered env (compression_as_str (nd_compression (sv_defaults sv)))
         then nd_compression (sv_defaults sv) else CompNone)"
    "enc = nd_encryption (sv_defaults sv)"
    using o(2) unfolding determine_negotiation_result_def n by (auto simp: n)
  have "handle_connect_ack ack = Inr (fmt, cmpr, enc)"
    unfolding o(3)
  proof (rule ack_read)
    show "wire_compression cmpr" using assms(3,4) wire_builtin(1) out(2) by (simp split: if_splits)
    show "cmpr = CompNone \<or> compression_registered (xe_codecs xe) (compression_as_str cmpr)"
      unfolding out(2) using assms(6) by auto
  qed (use assms(5,7) out(3) in simp_all)
  moreover obtain s where "frame_system_command ack = Some s"
    using o(3) by (auto simp: core_create_connect_ack_def frame_with_system_command_cmd Let_def)
  ultimately show ?thesis using connect_ack_parser [of ack s fmt cmpr enc c ce] assms(1,9) o(4) out by simp
qed

lemma connect_without_authentication:
  "\<not> sv_auth_enabled sv \<Longrightarrow> \<exists>sv' ack p. handle_connect_message xe f cid sv = (sv', Inr (ack, p))"
  using parse_connect_total [of f]
  by (auto simp: handle_connect_message_def authenticate_connection_def Let_def case_prod_unfold)

definition ex_agreement_config :: client_config where
  "ex_agreement_config = client_config_default\<lparr>cl_serialization_format := Protobuf, cl_compression := Gzip\<rparr>"

theorem negotiation_agreement_witness:
  "\<exists>sv' ack. handle_connect_message ex_xe
       (connect_frame (global_codecs ex_lib) ex_agreement_config (xe_stamp ex_xe)) ''b'' ((ex_sv None)\<lparr>sv_auth_enabled := False\<rparr>)
     = (sv', Inr (ack, parser_new Protobuf Gzip EncNone))
   \<and> co_parser (handle_connect_ack_command ex_client_env ack (client_core_new 0 ex_agreement_config))
     = parser_new Protobuf Gzip EncNone"
proof -
  let ?f = "connect_frame (global_codecs ex_lib) ex_agreement_config (xe_stamp ex_xe)"
  let ?sv = "(ex_sv None)\<lparr>sv_auth_enabled := False\<rparr>"
  obtain sv' ack p where h: "handle_connect_message ex_xe ?f ''b'' ?sv = (sv', Inr (ack, p))"
    using connect_without_authentication [of ?sv ex_xe ?f "''b''"] by auto
  have d: "sv_defaults ?sv = \<lparr>nd_format = Json, nd_compression = CompNone, nd_encryption = EncNone\<rparr>"
    by (simp add: ex_sv_def)
  have reg: "compression_registered (xe_codecs ex_xe) ''gzip''"
    by (simp add: ex_xe_def compression_registered_def global_codecs_def compressor_defaults_def encryptor_defaults_def
        serializer_defaults_def register_compressor_def register_encryptor_def register_serializer_def)
  have cfg: "cl_serialization_format ex_agreement_config = Protobuf" "cl_compression ex_agreement_config = Gzip"
    "\<not> is_force_format ex_agreement_config" "custom_keys_ok ex_agreement_config"
    by (simp_all add: ex_agreement_config_def client_config_default_def is_force_format_def custom_keys_ok_def)
  show ?thesis
    using negotiation_agreement [OF cfg(3,4) _ _ _ _ _ h, of "client_core_new 0 ex_agreement_config" ex_client_env] h d reg cfg
      wire_builtin by (auto simp: client_core_new_def split: prod.splits)
qed

text \<open>A client that forces its format keeps its parser whatever the server answers, and so never decrypts:
  against a server whose default is AES-256-GCM, the two ends disagree from the first frame on.\<close>

theorem forced_client_ignores_encryption:
  assumes "is_force_format cfg" and "handle_connect_ack ack = Inr (fmt, cmpr, Aes256Gcm)"
  shows "co_negotiated (handle_connect_ack_command ce ack (client_core_new now cfg))
    \<and> mp_default_encryption (co_parser (handle_connect_ack_command ce ack (client_core_new now cfg))) = EncNone"
  using assms
  by (simp add: handle_connect_ack_command_def Let_def negotiated_fields call_handler_def client_core_new_def
      parser_new_def split: prod.splits)

end
