(* ===== verification/Transport.thy ===== *)
theory Transport
  imports Framing
begin

text \<open>
  The TCP transport and its observers (\<open>src/src/transport/tcp.rs\<close>, \<open>src/src/transport/events.rs\<close>)
  as a step relation: the read task, calls of \<open>add_observer\<close> and calls of \<open>close_with_reason\<close> run
  concurrently, and a step is the work between two accesses to shared state.  Observers are
  numbers; a panic in a callback is caught by the source, so a delivery always counts as made.
  The events each observer has received are recorded in \<open>tp_log\<close>.
\<close>

section \<open>State\<close>

type_synonym observer = nat

datatype 'g reader_phase =
    RWait
  | RCheck
  | RRead
  | RGot 'g
  | RDeliver "observer list" connection_event
  | RTake connection_event
  | RFinal "observer list" connection_event
  | RDone

text \<open>Calls under way: an attachment that has announced the connection and not yet taken the
  lock; a close that has set the flag; a close that is delivering.\<close>

datatype call =
    AttachRegister observer
  | CloseTake string
  | CloseDeliver "observer list" connection_event

record ('i, 'g) transport =
  tp_observers :: "observer list"
  tp_closed :: bool
  tp_gate :: bool
  tp_reader :: "'g reader_phase"
  tp_input :: 'i
  tp_calls :: "call list"
  tp_log :: "(observer \<times> connection_event) list"
  tp_attached :: "observer list"
  tp_removed :: "observer list"
  tp_reason :: string

text \<open>A new transport; \<open>reason\<close> is what an observer is told that comes when it is closed.\<close>

definition transport_start :: "string \<Rightarrow> 'i \<Rightarrow> ('i, 'g) transport" where
  "transport_start reason input =
     \<lparr>tp_observers = [], tp_closed = False, tp_gate = False, tp_reader = RWait, tp_input = input,
      tp_calls = [], tp_log = [], tp_attached = [], tp_removed = [], tp_reason = reason\<rparr>"

section \<open>Operations\<close>

definition deliver_to_observer :: "observer \<Rightarrow> connection_event \<Rightarrow> ('i, 'g) transport \<Rightarrow> ('i, 'g) transport" where
  "deliver_to_observer o' e tp = tp\<lparr>tp_log := tp_log tp @ [(o', e)]\<rparr>"

text \<open>\<open>attach_observer\<close> up to the lock.\<close>

definition attach_begin :: "observer \<Rightarrow> ('i, 'g) transport \<Rightarrow> ('i, 'g) transport" where
  "attach_begin o' tp =
     (let tp1 = tp\<lparr>tp_attached := o' # tp_attached tp\<rparr> in
      if tp_closed tp then deliver_to_observer o' (Disconnected (tp_reason tp)) tp1
      else (deliver_to_observer o' Connected tp1)\<lparr>tp_calls := AttachRegister o' # tp_calls tp\<rparr>)"

text \<open>\<open>attach_observer\<close> from the lock on, with the wake-up of the read task in \<open>add_observer\<close>.\<close>

definition attach_register :: "observer \<Rightarrow> ('i, 'g) transport \<Rightarrow> ('i, 'g) transport" where
  "attach_register o' tp =
     (if \<not> tp_closed tp then tp\<lparr>tp_observers := tp_observers tp @ [o'], tp_gate := True\<rparr>
      else deliver_to_observer o' (Disconnected (tp_reason tp)) tp)"

definition remove_observer :: "observer \<Rightarrow> ('i, 'g) transport \<Rightarrow> ('i, 'g) transport" where
  "remove_observer o' tp =
     tp\<lparr>tp_observers := filter (\<lambda>x. x \<noteq> o') (tp_observers tp), tp_removed := o' # tp_removed tp\<rparr>"

text \<open>\<open>close_with_reason\<close>: the flag is set and the read task released; then the observers are taken
  and told.\<close>

definition close_begin :: "string \<Rightarrow> ('i, 'g) transport \<Rightarrow> ('i, 'g) transport" where
  "close_begin reason tp =
     tp\<lparr>tp_closed := True, tp_gate := True, tp_calls := CloseTake reason # tp_calls tp\<rparr>"

definition close_take :: "string \<Rightarrow> ('i, 'g) transport \<Rightarrow> ('i, 'g) transport" where
  "close_take reason tp =
     tp\<lparr>tp_observers := [], tp_calls := CloseDeliver (tp_observers tp) (Disconnected reason) # tp_calls tp\<rparr>"

definition close_deliver :: "observer list \<Rightarrow> connection_event \<Rightarrow> ('i, 'g) transport \<Rightarrow> ('i, 'g) transport" where
  "close_deliver os e tp =
     (case os of
        [] \<Rightarrow> tp
      | o' # rest \<Rightarrow> (deliver_to_observer o' e tp)\<lparr>tp_calls := CloseDeliver rest e # tp_calls tp\<rparr>)"

lemmas transport_ops =
  attach_begin_def attach_register_def remove_observer_def close_begin_def close_take_def
  close_deliver_def deliver_to_observer_def Let_def

section \<open>Runs\<close>

text \<open>\<open>rd\<close> are the steps of the read task.\<close>

inductive observed_run :: "(('i, 'g) transport \<Rightarrow> ('i, 'g) transport \<Rightarrow> bool) \<Rightarrow> string \<Rightarrow> ('i, 'g) transport \<Rightarrow> bool" for rd reason where
  start: "observed_run rd reason (transport_start reason input)"
| attach: "observed_run rd reason tp \<Longrightarrow> o' \<notin> set (tp_attached tp) \<Longrightarrow> observed_run rd reason (attach_begin o' tp)"
| register: "observed_run rd reason tp \<Longrightarrow> tp_calls tp = cs @ AttachRegister o' # ds
    \<Longrightarrow> observed_run rd reason (attach_register o' (tp\<lparr>tp_calls := cs @ ds\<rparr>))"
| remove: "observed_run rd reason tp \<Longrightarrow> observed_run rd reason (remove_observer o' tp)"
| close_begin: "observed_run rd reason tp \<Longrightarrow> observed_run rd reason (close_begin why tp)"
| close_take: "observed_run rd reason tp \<Longrightarrow> tp_calls tp = cs @ CloseTake why # ds
    \<Longrightarrow> observed_run rd reason (close_take why (tp\<lparr>tp_calls := cs @ ds\<rparr>))"
| close_deliver: "observed_run rd reason tp \<Longrightarrow> tp_calls tp = cs @ CloseDeliver os e # ds
    \<Longrightarrow> observed_run rd reason (close_deliver os e (tp\<lparr>tp_calls := cs @ ds\<rparr>))"
| read_task: "observed_run rd reason tp \<Longrightarrow> rd tp tp' \<Longrightarrow> observed_run rd reason tp'"

section \<open>Terminal events\<close>

lemma is_terminal_simps [simp]:
  "is_terminal (Disconnected s)" "is_terminal (ErrorEvent e)" "\<not> is_terminal Connected" "\<not> is_terminal (Message d)"
  by (simp_all add: is_terminal_def)

definition events_of :: "observer \<Rightarrow> ('i, 'g) transport \<Rightarrow> connection_event list" where
  "events_of o' tp = map snd (filter (\<lambda>(x, _). x = o') (tp_log tp))"

definition terminals :: "observer \<Rightarrow> ('i, 'g) transport \<Rightarrow> nat" where
  "terminals o' tp = length (filter is_terminal (events_of o' tp))"

text \<open>The terminal events an observer is still going to receive.\<close>

fun owed_call :: "observer \<Rightarrow> call \<Rightarrow> nat" where
  "owed_call o' (AttachRegister x) = (if x = o' then 1 else 0)"
| "owed_call o' (CloseTake _) = 0"
| "owed_call o' (CloseDeliver os _) = count_list os o'"

fun owed_reader :: "observer \<Rightarrow> 'g reader_phase \<Rightarrow> nat" where
  "owed_reader o' (RFinal os _) = count_list os o'"
| "owed_reader o' _ = 0"

definition owed :: "observer \<Rightarrow> ('i, 'g) transport \<Rightarrow> nat" where
  "owed o' tp = sum_list (map (owed_call o') (tp_calls tp)) + owed_reader o' (tp_reader tp)
     + count_list (tp_observers tp) o'"

fun call_ok :: "call \<Rightarrow> bool" where
  "call_ok (CloseDeliver _ e) = is_terminal e"
| "call_ok _ = True"

fun reader_ok :: "'g reader_phase \<Rightarrow> bool" where
  "reader_ok (RDeliver _ e) = (\<exists>d. e = Message d)"
| "reader_ok (RTake e) = is_terminal e"
| "reader_ok (RFinal _ e) = is_terminal e"
| "reader_ok _ = True"

definition tally :: "observer \<Rightarrow> ('i, 'g) transport \<Rightarrow> nat" where
  "tally o' tp = terminals o' tp + owed o' tp"

lemma tally_simps [simp]:
  "tally x (tp\<lparr>tp_closed := b\<rparr>) = tally x tp" "tally x (tp\<lparr>tp_gate := b\<rparr>) = tally x tp"
  "tally x (tp\<lparr>tp_input := i\<rparr>) = tally x tp" "tally x (tp\<lparr>tp_attached := os\<rparr>) = tally x tp"
  "tally x (tp\<lparr>tp_removed := os\<rparr>) = tally x tp"
  by (simp_all add: tally_def terminals_def events_of_def owed_def)

lemma tally_deliver:
  "tally x (deliver_to_observer o' e tp) = tally x tp + (if x = o' \<and> is_terminal e then 1 else 0)"
  by (simp add: tally_def terminals_def events_of_def owed_def deliver_to_observer_def)

lemma tally_calls:
  "tally x (tp\<lparr>tp_calls := c # cs\<rparr>) = owed_call x c + tally x (tp\<lparr>tp_calls := cs\<rparr>)"
  "tp_calls tp = cs @ c # ds \<Longrightarrow> tally x tp = owed_call x c + tally x (tp\<lparr>tp_calls := cs @ ds\<rparr>)"
  by (simp_all add: tally_def terminals_def events_of_def owed_def)

lemma tally_reader:
  "tally x (tp\<lparr>tp_reader := p\<rparr>) + owed_reader x (tp_reader tp) = tally x tp + owed_reader x p"
  by (simp add: tally_def terminals_def events_of_def owed_def)

lemma tally_observers:
  "tally x (tp\<lparr>tp_observers := os\<rparr>) + count_list (tp_observers tp) x = tally x tp + count_list os x"
  by (simp add: tally_def terminals_def events_of_def owed_def)

lemma field_order:
  "tp\<lparr>tp_observers := os, tp_gate := b\<rparr> = (tp\<lparr>tp_gate := b\<rparr>)\<lparr>tp_observers := os\<rparr>"
  by simp

lemma tally_attach_begin: "tally x (attach_begin o' tp) = tally x tp + (if x = o' then 1 else 0)"
proof (cases "tp_closed tp")
  case True
  then show ?thesis by (simp add: attach_begin_def Let_def tally_deliver)
next
  case False
  let ?tp = "deliver_to_observer o' Connected (tp\<lparr>tp_attached := o' # tp_attached tp\<rparr>)"
  have "attach_begin o' tp = ?tp\<lparr>tp_calls := AttachRegister o' # tp_calls ?tp\<rparr>"
    using False by (simp add: attach_begin_def Let_def deliver_to_observer_def)
  then show ?thesis by (simp add: tally_calls(1) tally_deliver)
qed

lemma tally_attach_register:
  assumes "tp_calls tp = cs @ AttachRegister o' # ds"
  shows "tally x (attach_register o' (tp\<lparr>tp_calls := cs @ ds\<rparr>)) = tally x tp"
proof -
  let ?tp = "tp\<lparr>tp_calls := cs @ ds\<rparr>"
  have "tally x (?tp\<lparr>tp_observers := tp_observers ?tp @ [o']\<rparr>) = tally x ?tp + (if x = o' then 1 else 0)"
    using tally_observers [where x = x and tp = ?tp and os = "tp_observers ?tp @ [o']"] by auto
  then show ?thesis
    using tally_calls(2) [OF assms, of x]
    by (auto simp: attach_register_def tally_deliver)
qed

lemma tally_remove:
  "tally x (remove_observer o' tp) \<le> tally x tp" "x \<noteq> o' \<Longrightarrow> tally x (remove_observer o' tp) = tally x tp"
proof -
  have "count_list (filter (\<lambda>y. y \<noteq> o') os) x = (if x = o' then 0 else count_list os x)" for os
    by (induction os) auto
  then show "tally x (remove_observer o' tp) \<le> tally x tp" "x \<noteq> o' \<Longrightarrow> tally x (remove_observer o' tp) = tally x tp"
    using tally_observers [where x = x and tp = tp and os = "filter (\<lambda>y. y \<noteq> o') (tp_observers tp)"]
    by (auto simp: remove_observer_def split: if_splits)
qed

lemma tally_close:
  "tally x (close_begin reason tp) = tally x tp"
  "tp_calls tp = cs @ CloseTake reason # ds \<Longrightarrow> tally x (close_take reason (tp\<lparr>tp_calls := cs @ ds\<rparr>)) = tally x tp"
  "tp_calls tp = cs @ CloseDeliver os e # ds \<Longrightarrow> is_terminal e \<Longrightarrow>
     tally x (close_deliver os e (tp\<lparr>tp_calls := cs @ ds\<rparr>)) = tally x tp"
  by (auto simp: tally_def terminals_def events_of_def owed_def transport_ops split: list.splits)

section \<open>The invariant of every run\<close>

definition counting_ok :: "('i, 'g) transport \<Rightarrow> bool" where
  "counting_ok tp \<longleftrightarrow>
     (\<forall>x. (x \<notin> set (tp_attached tp) \<longrightarrow> tally x tp = 0) \<and> tally x tp \<le> 1 \<and>
        (x \<in> set (tp_attached tp) \<and> x \<notin> set (tp_removed tp) \<longrightarrow> tally x tp = 1))"

fun is_take :: "call \<Rightarrow> bool" where
  "is_take (CloseTake _) = True"
| "is_take _ = False"

fun reader_takes :: "'g reader_phase \<Rightarrow> bool" where
  "reader_takes (RTake _) = True"
| "reader_takes _ = False"

definition control_ok :: "('i, 'g) transport \<Rightarrow> bool" where
  "control_ok tp \<longleftrightarrow>
     list_all call_ok (tp_calls tp) \<and> reader_ok (tp_reader tp) \<and>
     (\<not> tp_closed tp \<or> tp_observers tp = [] \<or> list_ex is_take (tp_calls tp) \<or> reader_takes (tp_reader tp)) \<and>
     (tp_closed tp \<or> \<not> reader_takes (tp_reader tp)) \<and> (tp_closed tp \<or> \<not> list_ex is_take (tp_calls tp)) \<and>
     (tp_closed tp \<or> tp_removed tp \<noteq> [] \<or> tp_observers tp \<noteq> [] \<or> (\<not> tp_gate tp \<and> tp_reader tp = RWait))"

lemma counting_cong:
  "counting_ok tp \<Longrightarrow> (\<And>x. tally x tp' = tally x tp) \<Longrightarrow> tp_attached tp' = tp_attached tp \<Longrightarrow>
   tp_removed tp' = tp_removed tp \<Longrightarrow> counting_ok tp'"
  by (simp add: counting_ok_def)

section \<open>Read tasks\<close>

text \<open>What a read task has to keep for the observers: the control state, the terminal events that are owed, and who is attached.\<close>

locale observed_reader =
  fixes rd :: "('i, 'g) transport \<Rightarrow> ('i, 'g) transport \<Rightarrow> bool"
  assumes rd_control: "rd tp tp' \<Longrightarrow> control_ok tp \<Longrightarrow> control_ok tp'"
    and rd_tally: "rd tp tp' \<Longrightarrow> reader_ok (tp_reader tp) \<Longrightarrow> tally x tp' = tally x tp"
    and rd_keeps: "rd tp tp' \<Longrightarrow> tp_attached tp' = tp_attached tp \<and> tp_removed tp' = tp_removed tp"
begin

lemma run_control: "observed_run rd reason tp \<Longrightarrow> control_ok tp"
proof (induction rule: observed_run.induct)
  case (start input)
  then show ?case by (simp add: control_ok_def transport_start_def)
next
  case (read_task tp tp')
  from read_task.hyps(2) read_task.IH show ?case by (rule rd_control)
next
  case (close_deliver tp cs os e ds)
  then show ?case by (auto simp: control_ok_def transport_ops split: list.splits)
qed (auto simp: control_ok_def transport_ops)

lemma run_counting: "observed_run rd reason tp \<Longrightarrow> counting_ok tp"
proof (induction rule: observed_run.induct)
  case (start input)
  then show ?case by (simp add: counting_ok_def transport_start_def tally_def terminals_def events_of_def owed_def)
next
  case (attach tp o')
  have "tp_attached (attach_begin o' tp) = o' # tp_attached tp" "tp_removed (attach_begin o' tp) = tp_removed tp"
    by (simp_all add: transport_ops)
  with attach show ?case by (auto simp: counting_ok_def tally_attach_begin)
next
  case (register tp cs o' ds)
  then show ?case by (intro counting_cong [OF register.IH] tally_attach_register) (simp_all add: transport_ops)
next
  case (remove tp o')
  have "tp_attached (remove_observer o' tp) = tp_attached tp" "tp_removed (remove_observer o' tp) = o' # tp_removed tp"
    by (simp_all add: remove_observer_def)
  moreover have "tally x (remove_observer o' tp) \<le> tally x tp" "x \<noteq> o' \<Longrightarrow> tally x (remove_observer o' tp) = tally x tp" for x
    by (rule tally_remove)+
  ultimately show ?case
    using remove.IH unfolding counting_ok_def by (metis le_trans le_zero_eq list.set_intros set_ConsD list.set_intros(2))
next
  case (close_begin tp reason)
  then show ?case by (intro counting_cong [OF close_begin.IH] tally_close(1)) (simp_all add: close_begin_def)
next
  case (close_take tp cs reason ds)
  then show ?case by (intro counting_cong [OF close_take.IH] tally_close(2)) (simp_all add: close_take_def)
next
  case (close_deliver tp cs os e ds)
  have "is_terminal e"
    using run_control [OF close_deliver.hyps(1)] close_deliver.hyps(2) by (simp add: control_ok_def)
  with close_deliver show ?case
    by (intro counting_cong [OF close_deliver.IH] tally_close(3)) (simp_all add: transport_ops split: list.splits)
next
  case (read_task tp tp')
  have "reader_ok (tp_reader tp)" using run_control [OF read_task.hyps(1)] by (simp add: control_ok_def)
  then show ?case using rd_keeps [OF read_task.hyps(2)] rd_tally [OF read_task.hyps(2)] by (intro counting_cong [OF read_task.IH]) simp_all
qed

lemma terminal_once:
  assumes "observed_run rd reason tp"
  shows "terminals x tp \<le> 1
       \<and> (tp_closed tp \<and> tp_calls tp = [] \<and> (\<forall>e os. tp_reader tp \<noteq> RTake e \<and> tp_reader tp \<noteq> RFinal os e)
          \<and> x \<in> set (tp_attached tp) \<and> x \<notin> set (tp_removed tp) \<longrightarrow> terminals x tp = 1)
       \<and> (tp_removed tp = [] \<and> \<not> tp_closed tp \<and> tp_reader tp = RGot r \<longrightarrow> tp_observers tp \<noteq> [])"
proof (intro conjI impI)
  have count: "counting_ok tp" and ctl: "control_ok tp"
    using run_counting run_control assms by blast+
  from count have "tally x tp \<le> 1" unfolding counting_ok_def by blast
  then show "terminals x tp \<le> 1" by (simp add: tally_def)
  show "tp_observers tp \<noteq> []" if "tp_removed tp = [] \<and> \<not> tp_closed tp \<and> tp_reader tp = RGot r"
    using ctl that by (auto simp: control_ok_def)
  assume q: "tp_closed tp \<and> tp_calls tp = [] \<and> (\<forall>e os. tp_reader tp \<noteq> RTake e \<and> tp_reader tp \<noteq> RFinal os e)
          \<and> x \<in> set (tp_attached tp) \<and> x \<notin> set (tp_removed tp)"
  then have "\<not> reader_takes (tp_reader tp)" by (cases "tp_reader tp") auto
  with q ctl have "tp_observers tp = []" by (auto simp: control_ok_def)
  moreover have "owed_reader x (tp_reader tp) = 0" using q by (cases "tp_reader tp") auto
  ultimately have "owed x tp = 0" using q by (simp add: owed_def)
  moreover have "tally x tp = 1" using count q unfolding counting_ok_def by blast
  ultimately show "terminals x tp = 1" by (simp add: tally_def)
qed

end

section \<open>TCP\<close>

definition CONNECTION_CLOSED_REASON :: string where
  "CONNECTION_CLOSED_REASON = ''TCP connection is closed''"

type_synonym tcp_transport = "(byte_reader, bytes result) transport"

definition transport_new :: "byte_reader \<Rightarrow> tcp_transport" where
  "transport_new input = transport_start CONNECTION_CLOSED_REASON input"

text \<open>One step of \<open>receiver_task\<close>; \<open>disp\<close> is the display text of an error.\<close>

definition reader_step :: "(flare_error \<Rightarrow> string) \<Rightarrow> tcp_transport \<Rightarrow> tcp_transport" where
  "reader_step disp tp =
     (case tp_reader tp of
        RWait \<Rightarrow> if tp_gate tp then tp\<lparr>tp_gate := False, tp_reader := RCheck\<rparr> else tp
      | RCheck \<Rightarrow> tp\<lparr>tp_reader := (if tp_closed tp then RDone else RRead)\<rparr>
      | RRead \<Rightarrow> (case read_length_prefixed (tp_input tp) of
                   (input', r) \<Rightarrow> tp\<lparr>tp_input := input', tp_reader := RGot r\<rparr>)
      | RGot r \<Rightarrow>
          if tp_closed tp then tp\<lparr>tp_reader := RDone\<rparr>
          else (case r of
                  Inr d \<Rightarrow>
                    if d = [] then
                      tp\<lparr>tp_closed := True, tp_reader := RTake (Disconnected ''TCP connection closed by peer'')\<rparr>
                    else tp\<lparr>tp_reader := RDeliver (tp_observers tp) (Message d)\<rparr>
                | Inl e \<Rightarrow> tp\<lparr>tp_closed := True, tp_reader := RTake (read_error_event e (disp e))\<rparr>)
      | RDeliver os e \<Rightarrow>
          (case os of
             [] \<Rightarrow> tp\<lparr>tp_reader := RCheck\<rparr>
           | o' # rest \<Rightarrow> (deliver_to_observer o' e tp)\<lparr>tp_reader := RDeliver rest e\<rparr>)
      | RTake e \<Rightarrow> tp\<lparr>tp_observers := [], tp_reader := RFinal (tp_observers tp) e\<rparr>
      | RFinal os e \<Rightarrow>
          (case os of
             [] \<Rightarrow> tp\<lparr>tp_reader := RDone\<rparr>
           | o' # rest \<Rightarrow> (deliver_to_observer o' e tp)\<lparr>tp_reader := RFinal rest e\<rparr>)
      | RDone \<Rightarrow> tp)"

definition tcp_reads :: "(flare_error \<Rightarrow> string) \<Rightarrow> tcp_transport \<Rightarrow> tcp_transport \<Rightarrow> bool" where
  "tcp_reads disp tp tp' \<longleftrightarrow> tp' = reader_step disp tp"

definition transport_run :: "(flare_error \<Rightarrow> string) \<Rightarrow> tcp_transport \<Rightarrow> bool" where
  "transport_run disp = observed_run (tcp_reads disp) CONNECTION_CLOSED_REASON"

lemma tally_reader_step:
  assumes "reader_ok (tp_reader tp)"
  shows "tally x (reader_step disp tp) = tally x tp"
  using assms
  by (cases "tp_reader tp")
     (auto simp: reader_step_def tally_def terminals_def events_of_def owed_def deliver_to_observer_def
       split: list.splits sum.splits prod.splits)

lemma control_reader_step: "control_ok tp \<Longrightarrow> control_ok (reader_step disp tp)"
  by (cases "tp_reader tp")
     (auto simp: control_ok_def reader_step_def deliver_to_observer_def split: list.splits sum.splits prod.splits)

lemma reader_step_keeps [simp]:
  "tp_attached (reader_step disp tp) = tp_attached tp" "tp_removed (reader_step disp tp) = tp_removed tp"
  by (auto simp: reader_step_def deliver_to_observer_def split: reader_phase.splits list.splits sum.splits prod.splits)

interpretation tcp: observed_reader "tcp_reads disp" for disp
  by unfold_locales (auto simp: tcp_reads_def control_reader_step tally_reader_step)

lemma transport_run_rules:
  "transport_run disp (transport_new input)"
  "transport_run disp tp \<Longrightarrow> o' \<notin> set (tp_attached tp) \<Longrightarrow> transport_run disp (attach_begin o' tp)"
  "transport_run disp tp \<Longrightarrow> tp_calls tp = cs @ AttachRegister o' # ds \<Longrightarrow> transport_run disp (attach_register o' (tp\<lparr>tp_calls := cs @ ds\<rparr>))"
  "transport_run disp tp \<Longrightarrow> transport_run disp (close_begin why tp)"
  "transport_run disp tp \<Longrightarrow> tp_calls tp = cs @ CloseTake why # ds \<Longrightarrow> transport_run disp (close_take why (tp\<lparr>tp_calls := cs @ ds\<rparr>))"
  "transport_run disp tp \<Longrightarrow> tp_calls tp = cs @ CloseDeliver os e # ds \<Longrightarrow> transport_run disp (close_deliver os e (tp\<lparr>tp_calls := cs @ ds\<rparr>))"
  "transport_run disp tp \<Longrightarrow> transport_run disp (reader_step disp tp)"
  unfolding transport_run_def transport_new_def
  by (auto intro: observed_run.intros simp: tcp_reads_def)

section \<open>Properties\<close>

text \<open>A run in which a frame is read while the connection is closed locally.\<close>

definition ex_input :: byte_reader where
  "ex_input = \<lparr>rd_data = frame_bytes ''x'', rd_end = (UnexpectedEof, [])\<rparr>"

definition ex_attached :: tcp_transport where
  "ex_attached = attach_register 0 ((attach_begin 0 (transport_new ex_input))\<lparr>tp_calls := [] @ []\<rparr>)"

lemma ex_attached_run: "transport_run disp ex_attached"
  unfolding ex_attached_def
  by (intro transport_run_rules(3) transport_run_rules(2) transport_run_rules(1))
     (simp_all add: transport_new_def transport_start_def attach_begin_def deliver_to_observer_def Let_def)

definition ex_delivering :: tcp_transport where
  "ex_delivering = (reader_step (\<lambda>_. []) ^^ 4) ex_attached"

lemma ex_delivering_run: "transport_run (\<lambda>_. []) ex_delivering"
  unfolding ex_delivering_def by (simp add: numeral_eq_Suc) (intro transport_run_rules(7) ex_attached_run)

lemma ex_read: "read_length_prefixed ex_input = (\<lparr>rd_data = [], rd_end = (UnexpectedEof, [])\<rparr>, Inr ''x'')"
  using read_frame [of "''x''" ex_input "[]"] by (simp add: ex_input_def MAX_FRAME_LENGTH_def)

lemma ex_delivering_eq:
  "ex_delivering = \<lparr>tp_observers = [0], tp_closed = False, tp_gate = False, tp_reader = RDeliver [0] (Message ''x''),
     tp_input = \<lparr>rd_data = [], rd_end = (UnexpectedEof, [])\<rparr>, tp_calls = [], tp_log = [(0, Connected)],
     tp_attached = [0], tp_removed = [], tp_reason = CONNECTION_CLOSED_REASON\<rparr>"
  by (simp add: ex_delivering_def ex_attached_def transport_ops transport_new_def transport_start_def numeral_eq_Suc reader_step_def ex_read)

text \<open>C25: Every observer is told exactly once that the connection is over. Under every interleaving
  of the read task, attachments, removals and closes, an observer never receives two terminal
  events; once the connection is closed and no call and no final delivery is under way, every
  observer that was attached and not removed has received exactly one, also one whose attachment
  raced with the close. While the connection is open and no observer was removed, the read task
  holds a frame only when there is an observer to deliver it to.\<close>

theorem observer_terminal_once:
  assumes "transport_run disp tp"
  shows "terminals x tp \<le> 1
       \<and> (tp_closed tp \<and> tp_calls tp = [] \<and> (\<forall>e os. tp_reader tp \<noteq> RTake e \<and> tp_reader tp \<noteq> RFinal os e)
          \<and> x \<in> set (tp_attached tp) \<and> x \<notin> set (tp_removed tp) \<longrightarrow> terminals x tp = 1)
       \<and> (tp_removed tp = [] \<and> \<not> tp_closed tp \<and> tp_reader tp = RGot r \<longrightarrow> tp_observers tp \<noteq> [])"
  using tcp.terminal_once [OF assms [unfolded transport_run_def]] .

theorem observer_terminal_once_witness:
  "terminals 0 (close_deliver [] (Disconnected ''bye'') ((close_deliver [0] (Disconnected ''bye'')
     ((close_take ''bye'' ((close_begin ''bye'' ex_attached)\<lparr>tp_calls := [] @ []\<rparr>))\<lparr>tp_calls := [] @ []\<rparr>))\<lparr>tp_calls := [] @ []\<rparr>)) = 1"
proof -
  let ?a = "close_begin ''bye'' ex_attached"
  let ?b = "close_take ''bye'' (?a\<lparr>tp_calls := [] @ []\<rparr>)"
  let ?c = "close_deliver [0] (Disconnected ''bye'') (?b\<lparr>tp_calls := [] @ []\<rparr>)"
  let ?d = "close_deliver [] (Disconnected ''bye'') (?c\<lparr>tp_calls := [] @ []\<rparr>)"
  have eq: "ex_attached = \<lparr>tp_observers = [0], tp_closed = False, tp_gate = True, tp_reader = RWait, tp_input = ex_input,
     tp_calls = [], tp_log = [(0, Connected)], tp_attached = [0], tp_removed = [], tp_reason = CONNECTION_CLOSED_REASON\<rparr>"
    by (simp add: ex_attached_def transport_ops transport_new_def transport_start_def)
  have "transport_run (\<lambda>_. []) ?a" by (intro transport_run_rules(4) ex_attached_run)
  then have "transport_run (\<lambda>_. []) ?b" by (rule transport_run_rules(5)) (simp add: eq close_begin_def)
  then have "transport_run (\<lambda>_. []) ?c" by (rule transport_run_rules(6)) (simp add: eq transport_ops)
  then have "transport_run (\<lambda>_. []) ?d" by (rule transport_run_rules(6)) (simp add: eq transport_ops)
  from observer_terminal_once [OF this, of 0] show ?thesis by (simp add: eq transport_ops)
qed

text \<open>Disconnected is not always the last event. There is a run in which an observer receives a
  message after its Disconnected event: the read task has taken its snapshot of the observers,
  then the connection is closed locally and the observer told, and only then the read task
  delivers.\<close>

theorem message_after_disconnect:
  "\<exists>tp. transport_run (\<lambda>_. []) tp \<and> events_of 0 tp = [Connected, Disconnected ''bye'', Message ''x'']"
proof -
  let ?a = "close_begin ''bye'' ex_delivering"
  let ?b = "close_take ''bye'' (?a\<lparr>tp_calls := [] @ []\<rparr>)"
  let ?c = "close_deliver [0] (Disconnected ''bye'') (?b\<lparr>tp_calls := [] @ []\<rparr>)"
  let ?d = "reader_step (\<lambda>_. []) ?c"
  have "transport_run (\<lambda>_. []) ?a" by (intro transport_run_rules(4) ex_delivering_run)
  then have "transport_run (\<lambda>_. []) ?b" by (rule transport_run_rules(5)) (simp add: ex_delivering_eq close_begin_def)
  then have "transport_run (\<lambda>_. []) ?c" by (rule transport_run_rules(6)) (simp add: ex_delivering_eq transport_ops)
  then have "transport_run (\<lambda>_. []) ?d" by (rule transport_run_rules(7))
  moreover have "events_of 0 ?d = [Connected, Disconnected ''bye'', Message ''x'']"
    by (simp add: ex_delivering_eq transport_ops reader_step_def events_of_def)
  ultimately show ?thesis by blast
qed

end
