(* ===== verification/Sockets.thy ===== *)
theory Sockets
  imports Transport Protocol
begin

text \<open>
  The WebSocket and QUIC transports (\<open>src/src/transport/websocket.rs\<close>, \<open>src/src/transport/quic.rs\<close>).  They attach observers and
  close as the TCP transport does, so their runs are those of \<open>Transport.observed_run\<close> with read tasks of their own.  What the
  libraries deliver is data: the messages and errors of a WebSocket stream; the bytes of a QUIC stream and how it ends.
\<close>

section \<open>WebSocket\<close>

definition WS_CLOSED_REASON :: string where
  "WS_CLOSED_REASON = ''WebSocket connection is closed''"

datatype ws_error =
    WsConnectionClosed
  | WsAlreadyClosed
  | WsResetWithoutClosingHandshake
  | WsIo io_kind string
  | WsOtherError string

datatype ws_message =
    WsText bytes
  | WsBinary bytes
  | WsClose "string option"
  | WsPing bytes
  | WsPong bytes
  | WsFrame

record ws_stream =
  wi_items :: "(ws_error + ws_message) list"
  wi_sent :: "ws_message list"

type_synonym ws_transport = "(ws_stream, (ws_error + ws_message) option) transport"

text \<open>Sending and encoding: the error text of a write to the sink, and the encoded PONG frame.\<close>

record ws_env =
  wv_write :: "ws_message \<Rightarrow> string option"
  wv_pong :: "bytes result"

definition event_from_websocket_error :: "ws_error \<Rightarrow> connection_event" where
  "event_from_websocket_error e =
     (case e of
        WsConnectionClosed \<Rightarrow> Disconnected ''WebSocket connection closed by peer''
      | WsAlreadyClosed \<Rightarrow> Disconnected ''WebSocket connection closed by peer''
      | WsResetWithoutClosingHandshake \<Rightarrow> Disconnected ''WebSocket peer disconnected without close handshake''
      | WsIo kind text \<Rightarrow>
          if kind \<in> {ConnectionReset, ConnectionAborted, BrokenPipe, UnexpectedEof}
          then Disconnected (''WebSocket peer disconnected: '' @ text)
          else ErrorEvent (localized ConnectionFailed text)
      | WsOtherError text \<Rightarrow> ErrorEvent (localized ConnectionFailed text))"

text \<open>The PONG frame: \<open>pb\<close> is the protobuf encoder.\<close>

definition build_pong_frame :: "(frame \<Rightarrow> bytes option) \<Rightarrow> stamp \<Rightarrow> bytes result" where
  "build_pong_frame pb st =
     (case pb (fst (frame_with_system_command pong BestEffort st)) of
        Some d \<Rightarrow> Inr d
      | None \<Rightarrow> Inl (localized EncodingError ''Protobuf encode error''))"

definition ws_write :: "ws_env \<Rightarrow> ws_message \<Rightarrow> ws_stream \<Rightarrow> ws_stream \<times> unit result" where
  "ws_write we m s =
     (case wv_write we m of
        Some e \<Rightarrow> (s, Inl (localized ConnectionFailed e))
      | None \<Rightarrow> (s\<lparr>wi_sent := wi_sent s @ [m]\<rparr>, Inr ()))"

definition send_pong_response :: "ws_env \<Rightarrow> bytes \<Rightarrow> ws_stream \<Rightarrow> ws_stream \<times> unit result" where
  "send_pong_response we d s = ws_write we (WsPong d) s"

definition send_pong_frame :: "ws_env \<Rightarrow> ws_stream \<Rightarrow> ws_stream \<times> unit result" where
  "send_pong_frame we s =
     (case wv_pong we of
        Inl e \<Rightarrow> (s, Inl e)
      | Inr d \<Rightarrow> ws_write we (WsBinary d) s)"

text \<open>The event of an item, if it has one.\<close>

definition ws_event :: "ws_env \<Rightarrow> ws_error + ws_message \<Rightarrow> ws_stream \<Rightarrow> ws_stream \<times> connection_event option" where
  "ws_event we item s =
     (case item of
        Inl e \<Rightarrow> (s, Some (event_from_websocket_error e))
      | Inr (WsText d) \<Rightarrow> (s, Some (Message d))
      | Inr (WsBinary d) \<Rightarrow> (s, Some (Message d))
      | Inr (WsClose reason) \<Rightarrow> (s, Some (Disconnected (unwrap_or ''Connection closed by peer'' reason)))
      | Inr (WsPing d) \<Rightarrow>
          (case send_pong_response we d s of
             (s1, Inl e) \<Rightarrow> (s1, Some (ErrorEvent e))
           | (s1, Inr _) \<Rightarrow>
               (case send_pong_frame we s1 of
                  (s2, Inl e) \<Rightarrow> (s2, Some (ErrorEvent e))
                | (s2, Inr _) \<Rightarrow> (s2, None)))
      | Inr (WsPong _) \<Rightarrow>
          (case wv_pong we of Inr d \<Rightarrow> (s, Some (Message d)) | Inl e \<Rightarrow> (s, Some (ErrorEvent e)))
      | Inr WsFrame \<Rightarrow> (s, None))"

text \<open>A terminal event closes the transport first and then takes the observers.\<close>

definition ws_dispatch :: "connection_event \<Rightarrow> ws_transport \<Rightarrow> ws_transport" where
  "ws_dispatch e tp =
     (if is_terminal e then tp\<lparr>tp_closed := True, tp_reader := RTake e\<rparr>
      else tp\<lparr>tp_reader := RDeliver (tp_observers tp) e\<rparr>)"

definition ws_reader_step :: "ws_env \<Rightarrow> ws_transport \<Rightarrow> ws_transport" where
  "ws_reader_step we tp =
     (case tp_reader tp of
        RWait \<Rightarrow> if tp_gate tp then tp\<lparr>tp_gate := False, tp_reader := RCheck\<rparr> else tp
      | RCheck \<Rightarrow> tp\<lparr>tp_reader := (if tp_closed tp then RDone else RRead)\<rparr>
      | RRead \<Rightarrow>
          (case wi_items (tp_input tp) of
             [] \<Rightarrow> tp\<lparr>tp_reader := RGot None\<rparr>
           | i # is \<Rightarrow> tp\<lparr>tp_input := (tp_input tp)\<lparr>wi_items := is\<rparr>, tp_reader := RGot (Some i)\<rparr>)
      | RGot None \<Rightarrow>
          if tp_closed tp then tp\<lparr>tp_reader := RDone\<rparr>
          else ws_dispatch (Disconnected ''WebSocket connection closed by peer'') tp
      | RGot (Some i) \<Rightarrow>
          if tp_closed tp then tp\<lparr>tp_reader := RDone\<rparr>
          else (case ws_event we i (tp_input tp) of
                  (s, None) \<Rightarrow> tp\<lparr>tp_input := s, tp_reader := RRead\<rparr>
                | (s, Some e) \<Rightarrow> ws_dispatch e (tp\<lparr>tp_input := s\<rparr>))
      | RDeliver os e \<Rightarrow>
          (case os of
             [] \<Rightarrow> tp\<lparr>tp_reader := RRead\<rparr>
           | o' # rest \<Rightarrow> (deliver_to_observer o' e tp)\<lparr>tp_reader := RDeliver rest e\<rparr>)
      | RTake e \<Rightarrow> tp\<lparr>tp_observers := [], tp_reader := RFinal (tp_observers tp) e\<rparr>
      | RFinal os e \<Rightarrow>
          (case os of
             [] \<Rightarrow> tp\<lparr>tp_reader := RDone\<rparr>
           | o' # rest \<Rightarrow> (deliver_to_observer o' e tp)\<lparr>tp_reader := RFinal rest e\<rparr>)
      | RDone \<Rightarrow> tp)"

definition ws_send :: "ws_env \<Rightarrow> bytes \<Rightarrow> ws_transport \<Rightarrow> ws_transport \<times> unit result" where
  "ws_send we d tp =
     (if tp_closed tp then (tp, Inl (localized ConnectionClosed WS_CLOSED_REASON))
      else case ws_write we (WsBinary d) (tp_input tp) of (s, res) \<Rightarrow> (tp\<lparr>tp_input := s\<rparr>, res))"

text \<open>\<open>ending\<close> is the error of ending the sink, if any; a close that comes after the end of the connection does not fail.\<close>

definition ws_close_sink :: "ws_env \<Rightarrow> string option \<Rightarrow> string option \<Rightarrow> ws_stream \<Rightarrow> ws_stream \<times> unit result" where
  "ws_close_sink we ending going_away s =
     (let finish = (\<lambda>s. (s, case ending of None \<Rightarrow> Inr () | Some e \<Rightarrow> Inl (localized ConnectionFailed e))) in
      case going_away of
        None \<Rightarrow> finish s
      | Some reason \<Rightarrow>
          (case ws_write we (WsClose (Some reason)) s of
             (s1, Inl e) \<Rightarrow> (s1, Inl e)
           | (s1, Inr _) \<Rightarrow> finish s1))"

definition ws_close_inner ::
  "ws_env \<Rightarrow> string option \<Rightarrow> string \<Rightarrow> string option \<Rightarrow> ws_transport \<Rightarrow> ws_transport \<times> unit result" where
  "ws_close_inner we ending reason going_away tp =
     (case ws_close_sink we ending going_away (tp_input tp) of
        (s, res) \<Rightarrow> (close_begin reason (tp\<lparr>tp_input := s\<rparr>), if tp_closed tp then Inr () else res))"

definition ws_reads :: "ws_env \<Rightarrow> ws_transport \<Rightarrow> ws_transport \<Rightarrow> bool" where
  "ws_reads we tp tp' \<longleftrightarrow> tp' = ws_reader_step we tp"

definition ws_run :: "ws_env \<Rightarrow> ws_transport \<Rightarrow> bool" where
  "ws_run we = observed_run (ws_reads we) WS_CLOSED_REASON"

section \<open>QUIC\<close>

definition STREAM_CLOSED_REASON :: string where
  "STREAM_CLOSED_REASON = ''QUIC stream is closed''"

datatype transport_code =
  NoErrorCode | InternalErrorCode | ConnectionRefusedCode | ApplicationErrorCode | AeadLimitReachedCode | NoViablePathCode | OtherCode nat

text \<open>Errors of a read, with the display text of what the library reports: the connection closed by the peer's application
  (reason and code) or transport, lost for reasons that are no error, the stream reset, lost otherwise, other.\<close>

datatype quic_error =
    QApplicationClosed bytes string
  | QConnectionClosed transport_code string
  | QTimedOut string
  | QReset string
  | QLocallyClosed string
  | QStreamReset string
  | QLost string
  | QOther string

datatype read_failure = FClosed string | FError flare_error

record quic_stream =
  qs_data :: bytes
  qs_end :: "quic_error option"

type_synonym quic_transport = "(quic_stream, read_failure + bytes) transport"

definition peer_transport_close_is_disconnect :: "transport_code \<Rightarrow> bool" where
  "peer_transport_close_is_disconnect code \<longleftrightarrow>
     code \<in> {NoErrorCode, InternalErrorCode, ConnectionRefusedCode, ApplicationErrorCode, AeadLimitReachedCode, NoViablePathCode}"

definition classify_read_error :: "quic_error \<Rightarrow> read_failure" where
  "classify_read_error e =
     (case e of
        QApplicationClosed reason code \<Rightarrow>
          FClosed
            (case map_option trim (from_utf8 reason) of
               Some r \<Rightarrow> if r \<noteq> [] then r else ''QUIC connection closed by peer (application code '' @ code @ '')''
             | None \<Rightarrow> ''QUIC connection closed by peer (application code '' @ code @ '')'')
      | QConnectionClosed code text \<Rightarrow>
          if peer_transport_close_is_disconnect code then FClosed (''QUIC connection closed by peer: '' @ text)
          else FError (localized ProtocolError (''QUIC connection closed by peer with a protocol error: '' @ text))
      | QTimedOut text \<Rightarrow> FClosed (''QUIC connection closed: '' @ text)
      | QReset text \<Rightarrow> FClosed (''QUIC connection closed: '' @ text)
      | QLocallyClosed text \<Rightarrow> FClosed (''QUIC connection closed: '' @ text)
      | QStreamReset code \<Rightarrow> FClosed (''QUIC stream reset by peer (code '' @ code @ '')'')
      | QLost text \<Rightarrow> FError (IoError (''connection lost: '' @ text))
      | QOther text \<Rightarrow> FError (IoError text))"

text \<open>Reading a number of bytes: all of them, or how many there were and how the stream ended.\<close>

definition quic_read :: "nat \<Rightarrow> quic_stream \<Rightarrow> quic_stream \<times> ((nat \<times> quic_error option) + bytes)" where
  "quic_read n s =
     (if n \<le> length (qs_data s) then (s\<lparr>qs_data := drop n (qs_data s)\<rparr>, Inr (take n (qs_data s)))
      else (s\<lparr>qs_data := []\<rparr>, Inl (length (qs_data s), qs_end s)))"

definition read_stream :: "quic_stream \<Rightarrow> quic_stream \<times> (read_failure + bytes)" where
  "read_stream s =
     (case quic_read 4 s of
        (s1, Inl (got, None)) \<Rightarrow>
          if got = 0 then (s1, Inr []) else (s1, Inl (FError (IoError ''Stream closed while reading length prefix'')))
      | (s1, Inl (got, Some e)) \<Rightarrow> (s1, Inl (classify_read_error e))
      | (s1, Inr length_buf) \<Rightarrow>
          (let len = unat (from_be_bytes length_buf) in
           if len = 0 then (s1, Inr [])
           else if len > 10 * 1024 * 1024 then
             (s1, Inl (FError (IoError (''Message too large: '' @ dec_str len @ '' bytes''))))
           else (case quic_read len s1 of
                   (s2, Inl (got, None)) \<Rightarrow>
                     (s2, Inl (FError (IoError (''Stream closed while reading message: expected '' @ dec_str len
                                @ '' bytes, got '' @ dec_str got))))
                 | (s2, Inl (got, Some e)) \<Rightarrow> (s2, Inl (classify_read_error e))
                 | (s2, Inr d) \<Rightarrow> (s2, Inr d))))"

definition quic_reader_step :: "quic_transport \<Rightarrow> quic_transport" where
  "quic_reader_step tp =
     (case tp_reader tp of
        RWait \<Rightarrow> if tp_gate tp then tp\<lparr>tp_gate := False, tp_reader := RCheck\<rparr> else tp
      | RCheck \<Rightarrow> tp\<lparr>tp_reader := (if tp_closed tp then RDone else RRead)\<rparr>
      | RRead \<Rightarrow> (case read_stream (tp_input tp) of (s, r) \<Rightarrow> tp\<lparr>tp_input := s, tp_reader := RGot r\<rparr>)
      | RGot r \<Rightarrow>
          if tp_closed tp then tp\<lparr>tp_reader := RDone\<rparr>
          else (case r of
                  Inr d \<Rightarrow>
                    if d \<noteq> [] then tp\<lparr>tp_reader := RDeliver (tp_observers tp) (Message d)\<rparr>
                    else tp\<lparr>tp_closed := True, tp_reader := RTake (Disconnected ''Stream closed by peer'')\<rparr>
                | Inl (FClosed reason) \<Rightarrow> tp\<lparr>tp_closed := True, tp_reader := RTake (Disconnected reason)\<rparr>
                | Inl (FError e) \<Rightarrow> tp\<lparr>tp_closed := True, tp_reader := RTake (ErrorEvent e)\<rparr>)
      | RDeliver os e \<Rightarrow>
          (case os of
             [] \<Rightarrow> tp\<lparr>tp_reader := RCheck\<rparr>
           | o' # rest \<Rightarrow> (deliver_to_observer o' e tp)\<lparr>tp_reader := RDeliver rest e\<rparr>)
      | RTake e \<Rightarrow> tp\<lparr>tp_observers := [], tp_reader := RFinal (tp_observers tp) e\<rparr>
      | RFinal os e \<Rightarrow>
          (case os of
             [] \<Rightarrow> tp\<lparr>tp_reader := RDone\<rparr>
           | o' # rest \<Rightarrow> (deliver_to_observer o' e tp)\<lparr>tp_reader := RFinal rest e\<rparr>)
      | RDone \<Rightarrow> tp)"

definition quic_send :: "bytes \<Rightarrow> bool \<Rightarrow> byte_writer \<Rightarrow> byte_writer \<times> unit result" where
  "quic_send d closed w =
     (if closed then (w, Inl (localized ConnectionClosed STREAM_CLOSED_REASON))
      else case write_all (to_be_bytes (of_nat (length d))) w of
        (w1, Inl e) \<Rightarrow> (w1, Inl e)
      | (w1, Inr _) \<Rightarrow> write_all d w1)"

text \<open>\<open>finish\<close> is the error of finishing the stream, if any.\<close>

definition quic_close_with_reason :: "string option \<Rightarrow> string \<Rightarrow> quic_transport \<Rightarrow> quic_transport \<times> unit result" where
  "quic_close_with_reason finish reason tp =
     (close_begin reason tp,
      case finish of None \<Rightarrow> Inr () | Some e \<Rightarrow> if tp_closed tp then Inr () else Inl (IoError e))"

text \<open>What the peer's reads get after a closing with a reason, where the transport knows its connection.\<close>

definition quic_close_going_away :: "bool \<Rightarrow> string \<Rightarrow> quic_error option" where
  "quic_close_going_away knows_connection reason =
     (if knows_connection then Some (QApplicationClosed reason ''0'') else None)"

definition quic_reads :: "quic_transport \<Rightarrow> quic_transport \<Rightarrow> bool" where
  "quic_reads tp tp' \<longleftrightarrow> tp' = quic_reader_step tp"

definition quic_run :: "quic_transport \<Rightarrow> bool" where
  "quic_run = observed_run quic_reads STREAM_CLOSED_REASON"

section \<open>The read tasks keep what the observers rely on\<close>

lemma ws_event_not_connected: "snd (ws_event we i s) \<noteq> Some Connected"
  by (auto simp: ws_event_def event_from_websocket_error_def
      split: sum.splits ws_error.splits ws_message.splits prod.splits)

lemma ws_step_keeps:
  "control_ok tp \<Longrightarrow> control_ok (ws_reader_step we tp)"
  "reader_ok (tp_reader tp) \<Longrightarrow> tally x (ws_reader_step we tp) = tally x tp"
  "tp_attached (ws_reader_step we tp) = tp_attached tp \<and> tp_removed (ws_reader_step we tp) = tp_removed tp"
proof -
  have d: "control_ok tp \<Longrightarrow> \<not> tp_closed tp \<Longrightarrow> tp_reader tp = RGot g \<Longrightarrow> e \<noteq> Connected
      \<Longrightarrow> control_ok (ws_dispatch e (tp\<lparr>tp_input := s\<rparr>))"
    "tp_reader tp = RGot g \<Longrightarrow> tally x (ws_dispatch e (tp\<lparr>tp_input := s\<rparr>)) = tally x tp"
    "tp_attached (ws_dispatch e (tp\<lparr>tp_input := s\<rparr>)) = tp_attached tp" "tp_removed (ws_dispatch e (tp\<lparr>tp_input := s\<rparr>)) = tp_removed tp"
    for g e s
    by (auto simp: control_ok_def ws_dispatch_def tally_def terminals_def events_of_def owed_def is_terminal_def split: connection_event.splits)
  have n: "e \<noteq> Connected" if "ws_event we i s = (s', Some e)" for i s s' e
    using that ws_event_not_connected [of we i s] by auto
  show "control_ok tp \<Longrightarrow> control_ok (ws_reader_step we tp)"
    by (cases "tp_reader tp")
      (auto simp: ws_reader_step_def d(1) n d(1) [where s = "tp_input tp", simplified] split: option.splits prod.splits,
       auto simp: control_ok_def deliver_to_observer_def split: list.splits)
  show "reader_ok (tp_reader tp) \<Longrightarrow> tally x (ws_reader_step we tp) = tally x tp"
    by (cases "tp_reader tp")
      (auto simp: ws_reader_step_def d(2) d(2) [where s = "tp_input tp", simplified] split: option.splits prod.splits,
       auto simp: tally_def terminals_def events_of_def owed_def deliver_to_observer_def split: list.splits)
  show "tp_attached (ws_reader_step we tp) = tp_attached tp \<and> tp_removed (ws_reader_step we tp) = tp_removed tp"
    by (auto simp: ws_reader_step_def ws_dispatch_def deliver_to_observer_def split: reader_phase.splits list.splits option.splits prod.splits)
qed

interpretation ws: observed_reader "ws_reads we" for we
  by unfold_locales (auto simp: ws_reads_def ws_step_keeps)

lemma quic_step_keeps:
  "control_ok tp \<Longrightarrow> control_ok (quic_reader_step tp)"
  "reader_ok (tp_reader tp) \<Longrightarrow> tally x (quic_reader_step tp) = tally x tp"
  "tp_attached (quic_reader_step tp) = tp_attached tp \<and> tp_removed (quic_reader_step tp) = tp_removed tp"
  by (cases "tp_reader tp";
      auto simp: quic_reader_step_def control_ok_def tally_def terminals_def events_of_def owed_def deliver_to_observer_def
      split: list.splits sum.splits prod.splits read_failure.splits)+

interpretation quic: observed_reader quic_reads
  by unfold_locales (auto simp: quic_reads_def quic_step_keeps)

section \<open>Properties\<close>

text \<open>What \<open>Transport.observer_terminal_once\<close> says of TCP holds of the other two: no observer gets two terminal events, and when the
  connection is closed and all deliveries are made every observer that stayed has got one.\<close>

theorem ws_terminal_once:
  assumes "ws_run we tp"
  shows "terminals x tp \<le> 1
       \<and> (tp_closed tp \<and> tp_calls tp = [] \<and> (\<forall>e os. tp_reader tp \<noteq> RTake e \<and> tp_reader tp \<noteq> RFinal os e)
          \<and> x \<in> set (tp_attached tp) \<and> x \<notin> set (tp_removed tp) \<longrightarrow> terminals x tp = 1)"
  using ws.terminal_once [OF assms [unfolded ws_run_def], of x] by blast

theorem quic_terminal_once:
  assumes "quic_run tp"
  shows "terminals x tp \<le> 1
       \<and> (tp_closed tp \<and> tp_calls tp = [] \<and> (\<forall>e os. tp_reader tp \<noteq> RTake e \<and> tp_reader tp \<noteq> RFinal os e)
          \<and> x \<in> set (tp_attached tp) \<and> x \<notin> set (tp_removed tp) \<longrightarrow> terminals x tp = 1)"
  using quic.terminal_once [OF assms [unfolded quic_run_def], of x] by blast

text \<open>A frame that TCP sends has the same bytes over QUIC and is read back.\<close>

theorem quic_frame_roundtrip:
  assumes "d \<noteq> []" "length d \<le> MAX_FRAME_LENGTH" "wr_error w = None"
  shows "quic_send d False w = write_length_prefixed d w
    \<and> (\<forall>s rest. qs_data s = frame_bytes d @ rest \<longrightarrow> read_stream s = (s\<lparr>qs_data := rest\<rparr>, Inr d))"
  using assms unat_len32 [OF assms(2)]
  by (simp add: quic_send_def write_length_prefixed_def write_all_def read_stream_def quic_read_def frame_bytes_def Let_def
      MAX_FRAME_LENGTH_def)

text \<open>QUIC sends what TCP refuses: a frame beyond the limit is written, and the peer that reads it ends the connection with an error.\<close>

theorem quic_oversized_frame_ends_peer:
  assumes "MAX_FRAME_LENGTH < length d" "length d < 2 ^ 32" "wr_error w = None"
  shows "quic_send d False w = (w\<lparr>wr_data := wr_data w @ frame_bytes d\<rparr>, Inr ())
    \<and> (\<exists>s' e. read_stream \<lparr>qs_data = frame_bytes d, qs_end = None\<rparr> = (s', Inl (FError e)))
    \<and> (\<exists>e. write_length_prefixed d w = (w, Inl e))"
proof -
  have "unat (of_nat (length d) :: 32 word) = length d"
    using assms(2) by (simp add: unsigned_of_nat take_bit_nat_eq_self_iff)
  moreover have "d \<noteq> []" using assms(1) by auto
  ultimately show ?thesis
    using assms by (simp add: quic_send_def write_length_prefixed_def write_all_def read_stream_def quic_read_def frame_bytes_def Let_def
        MAX_FRAME_LENGTH_def)
qed

text \<open>The reason of a close that goes away reaches the peer's observers unchanged.\<close>

theorem quic_reason_understood:
  assumes "from_utf8 reason = Some reason" "trim reason = reason" "reason \<noteq> []"
    and "tp_reader tp = RGot (Inl (classify_read_error (the (quic_close_going_away True reason))))" "\<not> tp_closed tp"
  shows "tp_reader (quic_reader_step tp) = RTake (Disconnected reason)"
  using assms by (simp add: quic_reader_step_def classify_read_error_def quic_close_going_away_def)

end
