(* ===== verification/Conversation.thy ===== *)
theory Conversation
  imports Prelude "HOL-Library.List_Lexorder" "HOL-Library.Char_ord" "HOL-Library.Word"
begin

text \<open>
  Generation and validation of conversation ids (\<open>src/src/common/conversation.rs\<close>).  Strings are
  their UTF-8 bytes, compared byte by byte as \<open>str::cmp\<close> does.  SHA-256, the Base32 encoder and the
  ULID generator are parameters.
\<close>

section \<open>Types of conversations\<close>

datatype conversation_type =
  Single | Group | Ai | System | Customer | Temp | Channel | Broadcast

datatype cid_error = CidInvalid string | CidPanic

type_synonym 'a cid_result = "cid_error + 'a"

definition conversation_from_str :: "string \<Rightarrow> conversation_type cid_result" where
  "conversation_from_str s =
     (if s = ''1'' \<or> s = ''single'' then Inr Single
      else if s = ''2'' \<or> s = ''group'' then Inr Group
      else if s = ''3'' \<or> s = ''ai'' then Inr Ai
      else if s = ''4'' \<or> s = ''system'' then Inr System
      else if s = ''5'' \<or> s = ''customer'' then Inr Customer
      else if s = ''6'' \<or> s = ''temp'' then Inr Temp
      else if s = ''7'' \<or> s = ''channel'' then Inr Channel
      else if s = ''8'' \<or> s = ''broadcast'' then Inr Broadcast
      else Inl (CidInvalid ''Unknown session type''))"

primrec cid_prefix :: "conversation_type \<Rightarrow> string" where
  "cid_prefix Single = ''1''"
| "cid_prefix Group = ''2''"
| "cid_prefix Ai = ''3''"
| "cid_prefix System = ''4''"
| "cid_prefix Customer = ''5''"
| "cid_prefix Temp = ''6''"
| "cid_prefix Channel = ''7''"
| "cid_prefix Broadcast = ''8''"

definition cid_from_prefix :: "string \<Rightarrow> conversation_type cid_result" where
  "cid_from_prefix s =
     (if s = ''1'' then Inr Single else if s = ''2'' then Inr Group else if s = ''3'' then Inr Ai
      else if s = ''4'' then Inr System else if s = ''5'' then Inr Customer else if s = ''6'' then Inr Temp
      else if s = ''7'' then Inr Channel else if s = ''8'' then Inr Broadcast
      else Inl (CidInvalid ''Unknown session type prefix''))"

section \<open>Generation\<close>

record cid_lib =
  cl_sha256 :: "bytes \<Rightarrow> bytes"
  cl_base32 :: "bytes \<Rightarrow> string"

definition opaque :: "cid_lib \<Rightarrow> string \<Rightarrow> string" where
  "opaque lib input = cl_base32 lib (take 10 (cl_sha256 lib input))"

definition generate_single_chat_conversation_id :: "cid_lib \<Rightarrow> string \<Rightarrow> string \<Rightarrow> string" where
  "generate_single_chat_conversation_id lib user1 user2 =
     (let (min_id, max_id) = (if user1 \<le> user2 then (user1, user2) else (user2, user1))
      in ''1A'' @ opaque lib (''DM:v1:'' @ min_id @ '':'' @ max_id))"

definition generate_group_conversation_id :: "cid_lib \<Rightarrow> string \<Rightarrow> string" where
  "generate_group_conversation_id lib gid = ''2A'' @ opaque lib (''GROUP:v1:'' @ gid)"

definition generate_channel_conversation_id :: "cid_lib \<Rightarrow> string \<Rightarrow> string" where
  "generate_channel_conversation_id lib cid = ''7A'' @ opaque lib (''CHANNEL:v1:'' @ cid)"

definition generate_broadcast_conversation_id :: "cid_lib \<Rightarrow> string \<Rightarrow> string" where
  "generate_broadcast_conversation_id lib bid = ''8A'' @ opaque lib (''BROADCAST:v1:'' @ bid)"

definition generate_ai_conversation_id :: "cid_lib \<Rightarrow> string \<Rightarrow> string \<Rightarrow> string" where
  "generate_ai_conversation_id lib user scope = ''3A'' @ opaque lib (''AI:v1:'' @ user @ '':'' @ scope)"

definition generate_customer_conversation_id :: "cid_lib \<Rightarrow> string \<Rightarrow> string \<Rightarrow> string" where
  "generate_customer_conversation_id lib customer channel =
     ''5A'' @ opaque lib (''CS:v1:'' @ customer @ '':'' @ channel)"

definition generate_system_conversation_id :: "cid_lib \<Rightarrow> string \<Rightarrow> string option \<Rightarrow> string" where
  "generate_system_conversation_id lib sys scope =
     ''4A'' @ opaque lib (''SYS:v1:'' @ sys @ '':'' @ unwrap_or [] scope)"

text \<open>The two builds of \<open>generate_temp_conversation_id\<close>: with a fresh ULID, and on wasm with a random
  128-bit number in hexadecimal.\<close>

definition generate_temp_conversation_id :: "string \<Rightarrow> string" where
  "generate_temp_conversation_id ulid = ''6A'' @ ulid"

definition generate_temp_conversation_id_wasm :: "128 word \<Rightarrow> string" where
  "generate_temp_conversation_id_wasm r = ''6A'' @ hex_fixed 32 (unat r)"

section \<open>Validation\<close>

text \<open>Slicing a string at a byte index panics unless the index is a character boundary.\<close>

definition is_char_boundary :: "string \<Rightarrow> nat \<Rightarrow> bool" where
  "is_char_boundary s i \<longleftrightarrow> i = 0 \<or> i = length s \<or>
     (i < length s \<and> \<not> (128 \<le> (of_char (s ! i) :: nat) \<and> of_char (s ! i) < (192 :: nat)))"

definition crockford :: "char \<Rightarrow> bool" where
  "crockford c \<longleftrightarrow> c \<in> set ''0123456789ABCDEFGHJKMNPQRSTVWXYZ''"

definition validate_conversation_id :: "string \<Rightarrow> conversation_type cid_result" where
  "validate_conversation_id s =
     (if s = [] then Inl (CidInvalid ''Session ID cannot be empty'')
      else if length s < 3 then Inl (CidInvalid ''Session ID too short, expected CID format'')
      else if \<not> is_char_boundary s 1 \<or> \<not> is_char_boundary s 2 then Inl CidPanic
      else if take 1 (drop 1 s) \<noteq> ''A'' then Inl (CidInvalid ''Unsupported CID version'')
      else (case cid_from_prefix (take 1 s) of
              Inl e \<Rightarrow> Inl e
            | Inr t \<Rightarrow>
                (let opaque_id = drop 2 s in
                 if t = Temp then
                   (if length opaque_id \<noteq> 26 then Inl (CidInvalid ''Invalid temp session CID'') else Inr t)
                 else if length opaque_id \<noteq> 16 then Inl (CidInvalid ''Invalid CID opaque ID length'')
                 else if \<not> list_all crockford opaque_id then
                   Inl (CidInvalid ''Invalid CID opaque ID: contains invalid Base32 characters'')
                 else Inr t)))"

definition extract_conversation_type :: "string \<Rightarrow> conversation_type option" where
  "extract_conversation_type s =
     (case validate_conversation_id s of Inr t \<Rightarrow> Some t | Inl _ \<Rightarrow> None)"

definition is_single_chat_conversation :: "string \<Rightarrow> bool" where
  "is_single_chat_conversation s = (extract_conversation_type s = Some Single)"

definition is_group_chat_conversation :: "string \<Rightarrow> bool" where
  "is_group_chat_conversation s = (extract_conversation_type s = Some Group)"

section \<open>Facts\<close>

text \<open>Documented behaviour of SHA-256 and of the Crockford Base32 encoder on ten bytes.\<close>

definition cid_laws :: "cid_lib \<Rightarrow> bool" where
  "cid_laws lib \<longleftrightarrow> (\<forall>x. length (cl_sha256 lib x) = 32) \<and>
     (\<forall>b. length b = 10 \<longrightarrow> length (cl_base32 lib b) = 16 \<and> list_all crockford (cl_base32 lib b))"

lemma opaque_shape:
  "cid_laws lib \<Longrightarrow> length (opaque lib s) = 16 \<and> list_all crockford (opaque lib s)"
  by (simp add: cid_laws_def opaque_def)

lemma crockford_ascii: "crockford c \<Longrightarrow> of_char c < (128 :: nat)"
  by (auto simp: crockford_def)

lemma cid_from_prefix_prefix: "cid_from_prefix (cid_prefix t) = Inr t"
  by (cases t) (simp_all add: cid_from_prefix_def)

lemma boundary_ascii: "i < length s \<Longrightarrow> of_char (s ! i) < (128 :: nat) \<Longrightarrow> is_char_boundary s i"
  by (simp add: is_char_boundary_def)

lemma validate_generated:
  assumes "cid_laws lib" "t \<noteq> Temp"
  shows "validate_conversation_id (cid_prefix t @ ''A'' @ opaque lib x) = Inr t"
proof -
  let ?o = "opaque lib x"
  obtain p where p: "cid_prefix t = [p]" by (cases t) auto
  have o: "length ?o = 16" "list_all crockford ?o" using opaque_shape [OF assms(1)] by blast+
  then have "crockford (?o ! 0)" by (simp add: list_all_length)
  then have "is_char_boundary ([p] @ ''A'' @ ?o) 2"
    using crockford_ascii [of "?o ! 0"] o by (intro boundary_ascii) (simp_all add: numeral_2_eq_2)
  moreover have "is_char_boundary ([p] @ ''A'' @ ?o) 1" by (rule boundary_ascii) simp_all
  ultimately show ?thesis
    using cid_from_prefix_prefix [of t] o assms(2) by (simp add: validate_conversation_id_def p Let_def)
qed

section \<open>Properties\<close>

text \<open>C26: Generated conversation ids are valid and keep their type, and a single chat has one id
  whichever participant comes first: with a 32-byte hash and a Base32 encoder of the documented
  shape, every generator's result passes validation as its own type and has the documented form; so does a temporary
  id made of a ULID, 26 characters of the Crockford alphabet.\<close>

theorem conversation_ids_valid:
  assumes "cid_laws lib" "length ulid = 26" "list_all crockford ulid"
  shows "validate_conversation_id (generate_single_chat_conversation_id lib a b) = Inr Single
       \<and> generate_single_chat_conversation_id lib a b = generate_single_chat_conversation_id lib b a
       \<and> validate_conversation_id (generate_group_conversation_id lib a) = Inr Group
       \<and> validate_conversation_id (generate_channel_conversation_id lib a) = Inr Channel
       \<and> validate_conversation_id (generate_broadcast_conversation_id lib a) = Inr Broadcast
       \<and> validate_conversation_id (generate_ai_conversation_id lib a b) = Inr Ai
       \<and> validate_conversation_id (generate_customer_conversation_id lib a b) = Inr Customer
       \<and> validate_conversation_id (generate_system_conversation_id lib a sc) = Inr System
       \<and> validate_conversation_id (generate_temp_conversation_id ulid) = Inr Temp
       \<and> (\<forall>s \<in> {generate_single_chat_conversation_id lib a b, generate_group_conversation_id lib a,
              generate_channel_conversation_id lib a, generate_broadcast_conversation_id lib a, generate_ai_conversation_id lib a b,
              generate_customer_conversation_id lib a b, generate_system_conversation_id lib a sc}.
            length s = 18 \<and> list_all crockford s)"
proof -
  note v = validate_generated [OF assms(1)]
  have "is_char_boundary (''6A'' @ ulid) 2"
    using assms(2,3) crockford_ascii by (intro boundary_ascii) (auto simp: numeral_2_eq_2 list_all_length)
  moreover have "is_char_boundary (''6A'' @ ulid) 1" by (rule boundary_ascii) simp_all
  ultimately have temp: "validate_conversation_id (generate_temp_conversation_id ulid) = Inr Temp"
    using assms(2) by (simp add: generate_temp_conversation_id_def validate_conversation_id_def cid_from_prefix_def Let_def)
  have sym: "generate_single_chat_conversation_id lib a b = generate_single_chat_conversation_id lib b a"
    by (auto simp: generate_single_chat_conversation_id_def)
  have single: "validate_conversation_id (generate_single_chat_conversation_id lib a b) = Inr Single"
    using v [of Single "''DM:v1:'' @ a @ '':'' @ b"] v [of Single "''DM:v1:'' @ b @ '':'' @ a"]
    by (simp add: generate_single_chat_conversation_id_def)
  have forms: "\<forall>s \<in> {generate_single_chat_conversation_id lib a b, generate_group_conversation_id lib a,
              generate_channel_conversation_id lib a, generate_broadcast_conversation_id lib a, generate_ai_conversation_id lib a b,
              generate_customer_conversation_id lib a b, generate_system_conversation_id lib a sc}.
            length s = 18 \<and> list_all crockford s"
    using opaque_shape [OF assms(1)]
    by (simp add: generate_single_chat_conversation_id_def generate_group_conversation_id_def
        generate_channel_conversation_id_def generate_broadcast_conversation_id_def generate_ai_conversation_id_def
        generate_customer_conversation_id_def generate_system_conversation_id_def crockford_def)
  show ?thesis
    using v [of Group "''GROUP:v1:'' @ a"] v [of Channel "''CHANNEL:v1:'' @ a"] v [of Broadcast "''BROADCAST:v1:'' @ a"]
      v [of Ai "''AI:v1:'' @ a @ '':'' @ b"] v [of Customer "''CS:v1:'' @ a @ '':'' @ b"]
      v [of System "''SYS:v1:'' @ a @ '':'' @ unwrap_or [] sc"] single sym temp forms
    by (simp add: generate_group_conversation_id_def generate_channel_conversation_id_def
        generate_broadcast_conversation_id_def generate_ai_conversation_id_def
        generate_customer_conversation_id_def generate_system_conversation_id_def)
qed

definition ex_cid_lib :: cid_lib where
  "ex_cid_lib = \<lparr>cl_sha256 = (\<lambda>_. replicate 32 CHR ''h''), cl_base32 = (\<lambda>_. replicate 16 CHR ''Z'')\<rparr>"

theorem conversation_ids_valid_witness:
  "validate_conversation_id (generate_single_chat_conversation_id ex_cid_lib ''bob'' ''al'') = Inr Single"
proof -
  have laws: "cid_laws ex_cid_lib" by (simp add: cid_laws_def ex_cid_lib_def crockford_def list_all_iff)
  have "length (replicate 26 CHR ''0'') = 26" "list_all crockford (replicate 26 CHR ''0'')"
    by (simp_all add: list_all_iff crockford_def)
  from conversation_ids_valid [OF laws this, of "''bob''" "''al''" None] show ?thesis by blast
qed

text \<open>What validation guarantees of an id it accepts: a type prefix, version A, and sixteen Crockford
  characters as documented, but any 26 bytes for a temporary conversation.\<close>

theorem valid_id_form:
  assumes "validate_conversation_id s = Inr t"
  shows "\<exists>o'. s = cid_prefix t @ ''A'' @ o' \<and>
     (if t = Temp then length o' = 26 else length o' = 16 \<and> list_all crockford o')"
proof -
  from assms have len: "3 \<le> length s" and v: "take 1 (drop 1 s) = ''A''"
    and p: "cid_from_prefix (take 1 s) = Inr t"
    and o: "if t = Temp then length (drop 2 s) = 26 else length (drop 2 s) = 16 \<and> list_all crockford (drop 2 s)"
    by (auto simp: validate_conversation_id_def Let_def split: if_splits sum.splits)
  obtain c d rest where s: "s = c # d # rest"
    using len by (cases s; cases "tl s") auto
  from p s have "cid_prefix t = [c]" by (auto simp: cid_from_prefix_def split: if_splits)
  moreover have "drop 2 s = rest" by (simp add: s)
  ultimately show ?thesis using v o s by (intro exI [of _ rest]) (simp split: if_splits)
qed

text \<open>A temporary id is documented as a ULID, of which only the length is tested: 26 characters outside its alphabet are
  accepted.\<close>

theorem temp_id_alphabet_unchecked:
  "validate_conversation_id (''6A'' @ replicate 26 CHR ''x'') = Inr Temp \<and> \<not> crockford CHR ''x''"
  by (simp add: validate_conversation_id_def is_char_boundary_def cid_from_prefix_def numeral_2_eq_2 crockford_def)

text \<open>Different pairs of users can share a conversation. The separator of the hashed input is not
  escaped, so the pairs ("a", "b:c") and ("a:b", "c") get the same single chat id, whatever the hash
  function.\<close>

theorem single_chat_id_collision:
  "generate_single_chat_conversation_id lib ''a'' ''b:c'' = generate_single_chat_conversation_id lib ''a:b'' ''c''"
  by (simp add: generate_single_chat_conversation_id_def)

text \<open>Ids the code itself produces or receives are mishandled: a temporary id generated in the wasm
  build is always rejected by validation, and an id that starts with a two-byte character makes
  validation panic instead of returning an error.\<close>

theorem validation_rejects_wasm_temp:
  "validate_conversation_id (generate_temp_conversation_id_wasm r) = Inl (CidInvalid ''Invalid temp session CID'')
   \<and> from_utf8 [CHR 0xC3, CHR 0xA9, CHR ''A''] \<noteq> None
   \<and> validate_conversation_id [CHR 0xC3, CHR 0xA9, CHR ''A''] = Inl CidPanic"
proof -
  let ?h = "hex_fixed 32 (unat r)"
  have digit: "c \<in> set (hex_fixed w n) \<Longrightarrow> of_char c < (128 :: nat)" for c w n
    by (induction w arbitrary: n) (auto simp: of_digit_char)
  have "?h ! 0 \<in> set ?h" by (intro nth_mem) simp
  from digit [OF this] have "is_char_boundary (''6A'' @ ?h) 2"
    by (intro boundary_ascii) (simp_all add: numeral_2_eq_2)
  moreover have "is_char_boundary (''6A'' @ ?h) 1" by (rule boundary_ascii) simp_all
  ultimately have "validate_conversation_id (generate_temp_conversation_id_wasm r) = Inl (CidInvalid ''Invalid temp session CID'')"
    by (simp add: generate_temp_conversation_id_wasm_def validate_conversation_id_def cid_from_prefix_def Let_def)
  then show ?thesis
    by (simp add: validate_conversation_id_def is_char_boundary_def from_utf8_def utf8_cont_def)
qed

end
