(* ===== verification/Inbound.thy ===== *)
theory Inbound
  imports ServerCore Framing
begin

text \<open>
  What the server does with the events of one connection: the observer adapter with its bounded inbound
  queue and single consumer task (\<open>src/src/server/events/observer.rs\<close>), the routing of frames to the
  methods of the event handler and the clean-up of a connection that ends
  (\<open>src/src/server/events/event_wrapper.rs\<close>).  The event handler, the middlewares and the processors are user
  code over a state \<open>'s\<close> of their own.  A task that the source spawns is put in \<open>ib_tasks\<close> and runs at any later
  time; a call that the source awaits is part of the step that makes it.  Every call of the event handler
  is recorded in \<open>ib_log\<close>.  What is only logged is left out.
\<close>

section \<open>State and environment\<close>

datatype server_call =
    HandlePing frame
  | HandlePong frame
  | HandleSystemEvent frame
  | HandleMessage payload_command
  | HandleEvent payload_command
  | HandleAck payload_command
  | HandleData payload_command
  | HandleNotification notification_command
  | HandleCustom custom_command
  | OnDisconnect
  | OnError string

datatype server_task =
    TaskSystem frame int
  | TaskSystemEvent frame
  | TaskCustom frame custom_command
  | TaskActive
  | TaskConfirm
  | TaskSend frame
  | TaskDisconnect
  | TaskError string
  | TaskRemoveDevice

text \<open>The consumer task waits on its queue or has a frame ready for the pipeline and the event handler.\<close>

datatype consumer_phase = Waiting | Dispatching bytes frame "nat option"

record 's inbound =
  ib_server :: server_core
  ib_user :: 's
  ib_queue :: "bytes list"
  ib_phase :: consumer_phase
  ib_tasks :: "server_task list"
  ib_log :: "server_call list"

text \<open>The event handler (the results of \<open>on_disconnect\<close> and \<open>on_error\<close> are not used), the shared middlewares
  and processors by their identities, the display text of an error, the connection, and whether the
  adapter was given the server core and the wrapper the connection manager.\<close>

record 's inbound_env =
  ie_call :: "server_call \<Rightarrow> conn_id \<Rightarrow> 's \<Rightarrow> 's \<times> frame option result"
  ie_middleware :: "nat \<Rightarrow> 's middleware"
  ie_processor :: "nat \<Rightarrow> 's processor"
  ie_display :: "flare_error \<Rightarrow> string"
  ie_conn :: conn_id
  ie_core :: bool
  ie_manager :: bool

definition spawn_task :: "server_task \<Rightarrow> 's inbound \<Rightarrow> 's inbound" where
  "spawn_task t st = st\<lparr>ib_tasks := ib_tasks st @ [t]\<rparr>"

definition call_event_handler :: "'s inbound_env \<Rightarrow> server_call \<Rightarrow> 's inbound \<Rightarrow> 's inbound \<times> frame option result" where
  "call_event_handler ie c st =
     (case ie_call ie c (ie_conn ie) (ib_user st) of
        (s, r) \<Rightarrow> (st\<lparr>ib_user := s, ib_log := ib_log st @ [c]\<rparr>, r))"

definition upd_manager :: "(conn_manager \<Rightarrow> conn_manager \<times> 'r) \<Rightarrow> 's inbound \<Rightarrow> 's inbound" where
  "upd_manager g st = st\<lparr>ib_server := (ib_server st)\<lparr>sv_manager := fst (g (sv_manager (ib_server st)))\<rparr>\<rparr>"

section \<open>The wrapper of the event handler\<close>

definition response_frame :: "'s inbound_env \<Rightarrow> connect_env \<Rightarrow> string \<Rightarrow> frame option result \<Rightarrow> frame" where
  "response_frame ie xe mid r =
     (case r of
        Inr (Some f) \<Rightarrow> f
      | Inr None \<Rightarrow> fst (frame_with_payload_command (ack_message mid None) AtLeastOnce (xe_stamp xe))
      | Inl e \<Rightarrow>
          fst (frame_with_payload_command
            (ack_message mid (Some [(''error'', ''true''), (''error_message'', ie_display ie e)])) AtLeastOnce (xe_stamp xe)))"

definition send_response_frame_async :: "'s inbound_env \<Rightarrow> frame \<Rightarrow> 's inbound \<Rightarrow> 's inbound" where
  "send_response_frame_async ie f st = (if ie_manager ie then spawn_task (TaskSend f) st else st)"

definition handle_and_send_response ::
  "'s inbound_env \<Rightarrow> connect_env \<Rightarrow> server_call \<Rightarrow> string \<Rightarrow> 's inbound \<Rightarrow> 's inbound" where
  "handle_and_send_response ie xe c mid st =
     (case call_event_handler ie c st of (st1, r) \<Rightarrow> send_response_frame_async ie (response_frame ie xe mid r) st1)"

definition update_connection_active_async :: "'s inbound_env \<Rightarrow> 's inbound \<Rightarrow> 's inbound" where
  "update_connection_active_async ie st = (if ie_manager ie then spawn_task TaskActive st else st)"

definition handle_system_command ::
  "'s inbound_env \<Rightarrow> connect_env \<Rightarrow> frame \<Rightarrow> int \<Rightarrow> 's inbound \<Rightarrow> 's inbound" where
  "handle_system_command ie xe f t st =
     (case system_type_from_i32 t of
        Some SysPing \<Rightarrow>
          (case call_event_handler ie (HandlePing f) (update_connection_active_async ie st) of
             (st1, Inr (Some r)) \<Rightarrow> send_response_frame_async ie r st1
           | (st1, _) \<Rightarrow>
               send_response_frame_async ie (fst (frame_with_system_command pong AtLeastOnce (xe_stamp xe))) st1)
      | Some SysPong \<Rightarrow> update_connection_active_async ie (fst (call_event_handler ie (HandlePong f) st))
      | Some SysEvent \<Rightarrow> spawn_task (TaskSystemEvent f) (update_connection_active_async ie st)
      | Some SysNegotiationReady \<Rightarrow>
          (let st1 = update_connection_active_async ie st in if ie_manager ie then spawn_task TaskConfirm st1 else st1)
      | _ \<Rightarrow> st)"

definition payload_call :: "payload_type \<Rightarrow> payload_command \<Rightarrow> server_call option" where
  "payload_call t pc =
     (case t of
        PayMessage \<Rightarrow> Some (HandleMessage pc)
      | PayEvent \<Rightarrow> Some (HandleEvent pc)
      | PayAck \<Rightarrow> Some (HandleAck pc)
      | PayData \<Rightarrow> Some (HandleData pc)
      | PayUnspecified \<Rightarrow> None)"

definition handle_message_command ::
  "'s inbound_env \<Rightarrow> connect_env \<Rightarrow> payload_command \<Rightarrow> 's inbound \<Rightarrow> 's inbound \<times> unit result" where
  "handle_message_command ie xe pc st =
     (case payload_type_from_i32 (pc_type pc) of
        Some t \<Rightarrow>
          (case payload_call t pc of
             Some c \<Rightarrow> (handle_and_send_response ie xe c (pc_message_id pc) st, Inr ())
           | None \<Rightarrow> (st, Inr ()))
      | None \<Rightarrow> (st, Inl (localized GeneralError ''Unknown message type'')))"

definition handle_notification_command ::
  "'s inbound_env \<Rightarrow> connect_env \<Rightarrow> frame \<Rightarrow> notification_command \<Rightarrow> 's inbound \<Rightarrow> 's inbound" where
  "handle_notification_command ie xe f nc st =
     handle_and_send_response ie xe (HandleNotification nc) (fr_message_id f) st"

definition handle_custom_command ::
  "'s inbound_env \<Rightarrow> connect_env \<Rightarrow> frame \<Rightarrow> custom_command \<Rightarrow> 's inbound \<Rightarrow> 's inbound" where
  "handle_custom_command ie xe f cc st =
     handle_and_send_response ie xe (HandleCustom cc) (fr_message_id f) (update_connection_active_async ie st)"

text \<open>System and custom commands are handled by tasks of their own, payloads and notifications at once.\<close>

definition wrapper_handle_frame :: "'s inbound_env \<Rightarrow> connect_env \<Rightarrow> frame \<Rightarrow> 's inbound \<Rightarrow> 's inbound \<times> frame option result" where
  "wrapper_handle_frame ie xe f st =
     (case frame_command_type f of
        Some (CmdSystem sc) \<Rightarrow>
          if sc_type sc \<noteq> system_type_as_i32 SysConnect then spawn_task (TaskSystem f (sc_type sc)) st else st
      | Some (CmdPayload pc) \<Rightarrow> fst (handle_message_command ie xe pc st)
      | Some (CmdNotification nc) \<Rightarrow> handle_notification_command ie xe f nc st
      | Some (CmdCustom cc) \<Rightarrow> spawn_task (TaskCustom f cc) st
      | None \<Rightarrow> st, Inr None)"

definition on_disconnect :: "'s inbound_env \<Rightarrow> connect_env \<Rightarrow> 's inbound \<Rightarrow> 's inbound" where
  "on_disconnect ie xe st =
     (let st1 = fst (call_event_handler ie OnDisconnect st);
          st2 = (if ie_manager ie then upd_manager (remove_connection (xe_mgr xe) (ie_conn ie)) st1 else st1)
      in if sv_devices (ib_server st2) \<noteq> None then spawn_task TaskRemoveDevice st2 else st2)"

definition on_error :: "'s inbound_env \<Rightarrow> string \<Rightarrow> 's inbound \<Rightarrow> 's inbound" where
  "on_error ie err st = fst (call_event_handler ie (OnError err) st)"

text \<open>The body of each spawned task.\<close>

fun run_task :: "'s inbound_env \<Rightarrow> connect_env \<Rightarrow> server_task \<Rightarrow> 's inbound \<Rightarrow> 's inbound" where
  "run_task ie xe (TaskSystem f t) st = handle_system_command ie xe f t st"
| "run_task ie xe (TaskSystemEvent f) st = handle_and_send_response ie xe (HandleSystemEvent f) (fr_message_id f) st"
| "run_task ie xe (TaskCustom f cc) st = handle_custom_command ie xe f cc st"
| "run_task ie xe TaskActive st = upd_manager (update_connection_active (xe_mgr xe) (ck_instant (xe_clock xe)) (ie_conn ie)) st"
| "run_task ie xe TaskConfirm st = upd_manager (mark_negotiation_confirmed (xe_mgr xe) (ie_conn ie)) st"
| "run_task ie xe (TaskSend f) st =
     upd_manager (send_frame_to (xe_mgr xe) (xe_codecs xe) (ck_instant (xe_clock xe)) (\<lambda>_. xe_nonce xe) (ie_conn ie) f None) st"
| "run_task ie xe TaskDisconnect st = on_disconnect ie xe st"
| "run_task ie xe (TaskError err) st = on_disconnect ie xe (on_error ie err st)"
| "run_task ie xe TaskRemoveDevice st =
     st\<lparr>ib_server := (ib_server st)\<lparr>sv_devices :=
       map_option (\<lambda>dm. fst (dm_remove_connection (ie_conn ie) dm)) (sv_devices (ib_server st))\<rparr>\<rparr>"

section \<open>The observer adapter\<close>

definition INBOUND_QUEUE_CAPACITY :: nat where "INBOUND_QUEUE_CAPACITY = 1024"

record inbound_conn_state =
  cs_info :: conn_info
  cs_negotiation_completed :: bool
  cs_negotiation_confirmed :: bool
  cs_cached_parser :: "message_parser option"
  cs_cached_pipeline :: "nat option"

definition get_connection_state :: "connect_env \<Rightarrow> conn_id \<Rightarrow> conn_manager \<Rightarrow> inbound_conn_state" where
  "get_connection_state xe cid cm =
     (case get_connection (xe_mgr xe) cid cm of
        Some (_, info) \<Rightarrow>
          \<lparr>cs_info = info, cs_negotiation_completed = ci_negotiation_completed info,
           cs_negotiation_confirmed = ci_negotiation_confirmed info,
           cs_cached_parser = ci_cached_parser info, cs_cached_pipeline = ci_cached_pipeline info\<rparr>
      | None \<Rightarrow>
          \<lparr>cs_info = conn_info_new (xe_clock xe) cid True, cs_negotiation_completed = False,
           cs_negotiation_confirmed = False, cs_cached_parser = None, cs_cached_pipeline = None\<rparr>)"

definition is_system_type :: "system_type \<Rightarrow> frame \<Rightarrow> bool" where
  "is_system_type t f =
     (case frame_system_command f of Some sc \<Rightarrow> sc_type sc = system_type_as_i32 t | None \<Rightarrow> False)"

definition is_connect_message :: "frame \<Rightarrow> bool" where
  "is_connect_message f = is_system_type SysConnect f"

definition is_negotiation_ready_message :: "frame \<Rightarrow> bool" where
  "is_negotiation_ready_message f = is_system_type SysNegotiationReady f"

definition is_pre_negotiation_connect :: "connect_env \<Rightarrow> bytes \<Rightarrow> bool" where
  "is_pre_negotiation_connect xe d =
     (case parse (xe_codecs xe) PRE_NEGOTIATION_PARSER d of Inr f \<Rightarrow> is_connect_message f | Inl _ \<Rightarrow> False)"

text \<open>The parser of a negotiated connection.\<close>

definition state_parser :: "inbound_conn_state \<Rightarrow> message_parser" where
  "state_parser cs =
     (case cs_cached_parser cs of
        Some p \<Rightarrow> p
      | None \<Rightarrow> parser_new (ci_serialization_format (cs_info cs)) (ci_compression (cs_info cs)) (ci_encryption (cs_info cs)))"

text \<open>The frame handlers up to the point where user code is called: the state and, where the frame goes on to
  the pipeline and the event handler, the frame with its pipeline.\<close>

definition handle_negotiated_message ::
  "'s inbound_env \<Rightarrow> connect_env \<Rightarrow> bytes \<Rightarrow> inbound_conn_state \<Rightarrow> 's inbound \<Rightarrow> 's inbound \<times> (frame \<times> nat option) option" where
  "handle_negotiated_message ie xe d cs st =
     (if (case parse (xe_codecs xe) PRE_NEGOTIATION_PARSER d of Inr f \<Rightarrow> is_negotiation_ready_message f | Inl _ \<Rightarrow> False)
      then (upd_manager (mark_negotiation_confirmed (xe_mgr xe) (ie_conn ie)) st, None)
      else
        (let enc = ci_encryption (cs_info cs) in
         if enc \<noteq> EncNone \<and> \<not> encryption_registered (xe_codecs xe) (encryption_as_str enc) then (st, None)
         else case parse_with_fallback (xe_codecs xe) (state_parser cs) d (\<not> cs_negotiation_confirmed cs) of
                Inl _ \<Rightarrow> (st, None)
              | Inr f \<Rightarrow> (st, Some (f, cs_cached_pipeline cs))))"

definition observer_handle_connect :: "'s inbound_env \<Rightarrow> connect_env \<Rightarrow> frame \<Rightarrow> 's inbound \<Rightarrow> 's inbound" where
  "observer_handle_connect ie xe f st =
     (case get_connection (xe_mgr xe) (ie_conn ie) (sv_manager (ib_server st)) of
        None \<Rightarrow> st
      | Some (q, _) \<Rightarrow>
          if \<not> ie_core ie then st
          else (case handle_connect_complete xe f (ie_conn ie) q (ib_server st) of
                  (sv, Inr _) \<Rightarrow> st\<lparr>ib_server := sv\<rparr>
                | (sv, Inl _) \<Rightarrow> upd_manager (remove_connection (xe_mgr xe) (ie_conn ie)) (st\<lparr>ib_server := sv\<rparr>)))"

definition handle_pre_negotiation_message ::
  "'s inbound_env \<Rightarrow> connect_env \<Rightarrow> bytes \<Rightarrow> 's inbound \<Rightarrow> 's inbound \<times> (frame \<times> nat option) option" where
  "handle_pre_negotiation_message ie xe d st =
     (case parse (xe_codecs xe) PRE_NEGOTIATION_PARSER d of
        Inl _ \<Rightarrow> (st, None)
      | Inr f \<Rightarrow> if is_connect_message f then (observer_handle_connect ie xe f st, None) else (st, Some (f, None)))"

definition receive_message :: "'s inbound_env \<Rightarrow> connect_env \<Rightarrow> bytes \<Rightarrow> 's inbound \<Rightarrow> 's inbound \<times> (frame \<times> nat option) option" where
  "receive_message ie xe d st =
     (if get_connection (xe_mgr xe) (ie_conn ie) (sv_manager (ib_server st)) = None \<and> \<not> is_pre_negotiation_connect xe d
      then (st, None)
      else
        (let st1 = upd_manager (update_connection_active (xe_mgr xe) (ck_instant (xe_clock xe)) (ie_conn ie)) st;
             cs = get_connection_state xe (ie_conn ie) (sv_manager (ib_server st1))
         in if cs_negotiation_completed cs then handle_negotiated_message ie xe d cs st1
            else handle_pre_negotiation_message ie xe d st1))"

definition server_pipeline :: "'s inbound_env \<Rightarrow> message_parser \<times> nat list \<times> nat list \<Rightarrow> 's pipeline" where
  "server_pipeline ie pl =
     (case pl of (p, ms, ps) \<Rightarrow>
        fold add_processor (map (ie_processor ie) ps) (fold add_middleware (map (ie_middleware ie) ms) (pipeline_new p)))"

definition run_cached_pipeline :: "'s inbound_env \<Rightarrow> frame \<Rightarrow> nat option \<Rightarrow> 's inbound \<Rightarrow> 's inbound" where
  "run_cached_pipeline ie f pl st =
     (case Option.bind pl (sv_pipelines (ib_server st)) of
        None \<Rightarrow> st
      | Some p \<Rightarrow> st\<lparr>ib_user := fst (process_frame (server_pipeline ie p) f (Some (ie_conn ie)) (ib_user st))\<rparr>)"

text \<open>Whatever the pipeline answers, the frame goes to the event handler.\<close>

definition dispatch_received :: "'s inbound_env \<Rightarrow> connect_env \<Rightarrow> frame \<Rightarrow> nat option \<Rightarrow> 's inbound \<Rightarrow> 's inbound" where
  "dispatch_received ie xe f pl st = fst (wrapper_handle_frame ie xe f (run_cached_pipeline ie f pl st))"

definition handle_message_event :: "'s inbound_env \<Rightarrow> connect_env \<Rightarrow> bytes \<Rightarrow> 's inbound \<Rightarrow> 's inbound" where
  "handle_message_event ie xe d st =
     (case receive_message ie xe d st of
        (st1, None) \<Rightarrow> st1
      | (st1, Some (f, pl)) \<Rightarrow> dispatch_received ie xe f pl st1)"

text \<open>The callback of the transport.  A full queue drops the frame.\<close>

definition adapter_on_event :: "'s inbound_env \<Rightarrow> connection_event \<Rightarrow> 's inbound \<Rightarrow> 's inbound" where
  "adapter_on_event ie ev st =
     (case ev of
        Message d \<Rightarrow>
          if length (ib_queue st) < INBOUND_QUEUE_CAPACITY then st\<lparr>ib_queue := ib_queue st @ [d]\<rparr> else st
      | Connected \<Rightarrow> st
      | Disconnected _ \<Rightarrow> spawn_task TaskDisconnect st
      | ErrorEvent e \<Rightarrow> spawn_task (TaskError (ie_display ie e)) st)"

section \<open>Facts\<close>

lemma spawn_task_simps [simp]:
  "ib_server (spawn_task t st) = ib_server st" "ib_user (spawn_task t st) = ib_user st" "ib_queue (spawn_task t st) = ib_queue st"
  "ib_phase (spawn_task t st) = ib_phase st" "ib_log (spawn_task t st) = ib_log st" "ib_tasks (spawn_task t st) = ib_tasks st @ [t]"
  by (simp_all add: spawn_task_def)

lemma upd_manager_simps [simp]:
  "sv_manager (ib_server (upd_manager g st)) = fst (g (sv_manager (ib_server st)))"
  "sv_devices (ib_server (upd_manager g st)) = sv_devices (ib_server st)"
  "ib_user (upd_manager g st) = ib_user st" "ib_queue (upd_manager g st) = ib_queue st"
  "ib_phase (upd_manager g st) = ib_phase st" "ib_log (upd_manager g st) = ib_log st" "ib_tasks (upd_manager g st) = ib_tasks st"
  by (simp_all add: upd_manager_def)

lemma upd_manager_same [simp]: "fst (g (sv_manager (ib_server st))) = sv_manager (ib_server st) \<Longrightarrow> upd_manager g st = st"
  by (simp add: upd_manager_def)

lemma call_event_handler_simps [simp]:
  "ib_server (fst (call_event_handler ie c st)) = ib_server st" "ib_queue (fst (call_event_handler ie c st)) = ib_queue st"
  "ib_phase (fst (call_event_handler ie c st)) = ib_phase st" "ib_tasks (fst (call_event_handler ie c st)) = ib_tasks st"
  "ib_log (fst (call_event_handler ie c st)) = ib_log st @ [c]"
  by (simp_all add: call_event_handler_def split: prod.splits)

lemma send_response_simps [simp]:
  "ib_server (send_response_frame_async ie f st) = ib_server st" "ib_queue (send_response_frame_async ie f st) = ib_queue st"
  "ib_phase (send_response_frame_async ie f st) = ib_phase st" "ib_log (send_response_frame_async ie f st) = ib_log st"
  by (simp_all add: send_response_frame_async_def)

lemma active_async_simps [simp]:
  "ib_server (update_connection_active_async ie st) = ib_server st" "ib_queue (update_connection_active_async ie st) = ib_queue st"
  "ib_phase (update_connection_active_async ie st) = ib_phase st" "ib_log (update_connection_active_async ie st) = ib_log st"
  by (simp_all add: update_connection_active_async_def)

lemma handle_and_send_simps [simp]:
  "ib_server (handle_and_send_response ie xe c mid st) = ib_server st"
  "ib_queue (handle_and_send_response ie xe c mid st) = ib_queue st"
  "ib_phase (handle_and_send_response ie xe c mid st) = ib_phase st"
  "ib_log (handle_and_send_response ie xe c mid st) = ib_log st @ [c]"
  by (simp_all add: handle_and_send_response_def case_prod_unfold)

lemma get_connection_infos: "map_option snd (get_connection me cid cm) = infos me cm cid"
  by (simp add: get_connection_def infos_def option.map_comp comp_def)

lemma update_active_infos:
  assumes inv: "cm_inv me k cm" and i: "infos me cm cid = Some i"
  shows "cm_inv me k (fst (update_connection_active me now cid cm))"
    and "infos me (fst (update_connection_active me now cid cm)) = (infos me cm)(cid \<mapsto> i\<lparr>ci_last_active := now\<rparr>)"
proof -
  obtain e where e: "lookup_conn me cm cid = Some e" "en_info e = i" using i by (auto simp: infos_def)
  have o: "info_owner (info_update_active now i) = info_owner i" by (simp add: info_owner_def info_update_active_def)
  have u: "fst (update_connection_active me now cid cm) = put_info me cid e (info_update_active now i) cm"
    using e by (simp add: update_connection_active_def)
  have "ci_connection_id (info_update_active now i) = ci_connection_id (en_info e)"
    using e by (simp add: info_update_active_def)
  note put = put_info_same_owner_inv [OF inv e(1) this, unfolded e(2), OF o]
  show "cm_inv me k (fst (update_connection_active me now cid cm))"
    "infos me (fst (update_connection_active me now cid cm)) = (infos me cm)(cid \<mapsto> i\<lparr>ci_last_active := now\<rparr>)"
    using put by (simp_all add: u info_update_active_def)
qed

lemma mark_confirmed_again:
  assumes inv: "cm_inv me k cm" and i: "infos me cm cid = Some i" "ci_negotiation_completed i" "ci_negotiation_confirmed i"
  shows "infos me (fst (mark_negotiation_confirmed me cid cm)) = infos me cm"
proof -
  obtain e where e: "lookup_conn me cm cid = Some e" "en_info e = i" using i by (auto simp: infos_def)
  have same: "i\<lparr>ci_negotiation_confirmed := True\<rparr> = i" using i by (cases i) simp
  have "fst (mark_negotiation_confirmed me cid cm) = put_info me cid e (i\<lparr>ci_negotiation_confirmed := True\<rparr>) cm"
    using e i by (simp add: mark_negotiation_confirmed_def)
  then have "fst (mark_negotiation_confirmed me cid cm) = put_info me cid e i cm" unfolding same .
  then show ?thesis using put_info_same_owner_inv(2) [OF inv e(1), of i] e(2) i(1) by (simp add: fun_upd_idem)
qed

lemma strict_parse_decrypts:
  assumes "parse_with_fallback env p d False = Inr f" "mp_default_encryption p \<noteq> EncNone"
  obtains c pt where "find_encryptor env (encryption_as_str (mp_default_encryption p)) = Some c" "en_decrypt c d = Inr pt"
  using assms
  by (auto simp: parse_with_fallback_def decrypt_data_with_fallback_def split: sum.splits option.splits if_splits)

section \<open>Connections that are gone\<close>

text \<open>C19: A connection that has left the table is silent. Whatever is still queued for it - a frame, a CONNECT,
  garbage - changes nothing: no handler is called, no task started, nothing registered.\<close>

theorem removed_connection_silent:
  assumes "lookup_conn (xe_mgr xe) (sv_manager (ib_server st)) (ie_conn ie) = None"
  shows "handle_message_event ie xe d st = st"
proof -
  have g: "get_connection (xe_mgr xe) (ie_conn ie) (sv_manager (ib_server st)) = None"
    using assms by (simp add: get_connection_def)
  have u: "upd_manager (update_connection_active (xe_mgr xe) (ck_instant (xe_clock xe)) (ie_conn ie)) st = st"
    using assms by (simp add: update_connection_active_def)
  have "receive_message ie xe d st = (st, None)"
    using g by (auto simp: receive_message_def u get_connection_state_def is_pre_negotiation_connect_def
        handle_pre_negotiation_message_def observer_handle_connect_def Let_def split: sum.splits)
  then show ?thesis by (simp add: handle_message_event_def)
qed

definition only_touched :: "connect_env \<Rightarrow> 's inbound_env \<Rightarrow> conn_info \<Rightarrow> 's inbound \<Rightarrow> 's inbound \<Rightarrow> bool" where
  "only_touched xe ie i st st' \<longleftrightarrow>
     ib_log st' = ib_log st \<and> ib_tasks st' = ib_tasks st \<and> ib_user st' = ib_user st \<and> ib_queue st' = ib_queue st
     \<and> infos (xe_mgr xe) (sv_manager (ib_server st'))
       = (infos (xe_mgr xe) (sv_manager (ib_server st)))(ie_conn ie \<mapsto> i\<lparr>ci_last_active := ck_instant (xe_clock xe)\<rparr>)"

lemma receive_confirmed:
  assumes inv: "cm_inv (xe_mgr xe) k (sv_manager (ib_server st))"
    and i: "infos (xe_mgr xe) (sv_manager (ib_server st)) (ie_conn ie) = Some i"
      "ci_negotiation_completed i" "ci_negotiation_confirmed i" "ci_cached_parser i = Some p"
    and r: "receive_message ie xe d st = (st1, r)"
  shows "only_touched xe ie i st st1"
    and "r = Some (f, pl) \<Longrightarrow> parse_with_fallback (xe_codecs xe) p d False = Inr f"
proof -
  let ?st = "upd_manager (update_connection_active (xe_mgr xe) (ck_instant (xe_clock xe)) (ie_conn ie)) st"
  let ?i = "i\<lparr>ci_last_active := ck_instant (xe_clock xe)\<rparr>"
  note up = update_active_infos [OF inv i(1), of "ck_instant (xe_clock xe)"]
  have q: "only_touched xe ie i st ?st" by (simp add: only_touched_def up(2))
  have j: "infos (xe_mgr xe) (sv_manager (ib_server ?st)) (ie_conn ie) = Some ?i" by (simp add: up(2))
  then obtain w where g: "get_connection (xe_mgr xe) (ie_conn ie) (sv_manager (ib_server ?st)) = Some (w, ?i)"
    unfolding get_connection_infos [symmetric] by auto
  have mk: "only_touched xe ie i st (upd_manager (mark_negotiation_confirmed (xe_mgr xe) (ie_conn ie)) ?st)"
    using q i mark_confirmed_again [OF up(1), of "ie_conn ie" ?i] j by (simp add: only_touched_def)
  obtain x where "get_connection (xe_mgr xe) (ie_conn ie) (sv_manager (ib_server st)) = Some x"
    using i(1) unfolding get_connection_infos [symmetric] by auto
  then have h: "(st1, r) = handle_negotiated_message ie xe d
      \<lparr>cs_info = ?i, cs_negotiation_completed = True, cs_negotiation_confirmed = True,
       cs_cached_parser = Some p, cs_cached_pipeline = ci_cached_pipeline i\<rparr> ?st"
    using r i g by (simp add: receive_message_def get_connection_state_def Let_def)
  show "only_touched xe ie i st st1"
    using h q mk by (auto simp: handle_negotiated_message_def Let_def split: if_splits sum.splits)
  show "parse_with_fallback (xe_codecs xe) p d False = Inr f" if "r = Some (f, pl)"
    using h that by (auto simp: handle_negotiated_message_def state_parser_def Let_def split: if_splits sum.splits)
qed

text \<open>C6: Once the client has confirmed the negotiation, only frames that parse strictly with the negotiated
  parser reach user code. Data is either strictly parsed - and, on an encrypted connection, was decrypted by
  the registered encryptor - and its frame dispatched, or it calls no handler, starts no task and
  changes nothing but the time the connection was last active.\<close>

theorem confirmed_connection_strict:
  assumes "cm_inv (xe_mgr xe) k (sv_manager (ib_server st))"
    and "infos (xe_mgr xe) (sv_manager (ib_server st)) (ie_conn ie) = Some i"
    and "ci_negotiation_completed i" "ci_negotiation_confirmed i" "ci_cached_parser i = Some p"
  shows "only_touched xe ie i st (handle_message_event ie xe d st)
    \<or> (\<exists>f pl st1. parse_with_fallback (xe_codecs xe) p d False = Inr f
         \<and> (mp_default_encryption p \<noteq> EncNone \<longrightarrow> (\<exists>c pt.
              find_encryptor (xe_codecs xe) (encryption_as_str (mp_default_encryption p)) = Some c \<and> en_decrypt c d = Inr pt))
         \<and> only_touched xe ie i st st1 \<and> handle_message_event ie xe d st = dispatch_received ie xe f pl st1)"
proof -
  obtain st1 r where r: "receive_message ie xe d st = (st1, r)" by fastforce
  note c = receive_confirmed [OF assms r]
  show ?thesis
  proof (cases r)
    case None
    then show ?thesis using c(1) r by (simp add: handle_message_event_def)
  next
    case (Some fp)
    then obtain f pl where f: "r = Some (f, pl)" by (cases fp) auto
    have "handle_message_event ie xe d st = dispatch_received ie xe f pl st1"
      using r f by (simp add: handle_message_event_def)
    then show ?thesis using c(1) c(2) [OF f] strict_parse_decrypts by metis
  qed
qed

section \<open>Order\<close>

text \<open>The handler call that a frame makes before the next frame is looked at.\<close>

definition awaited_call :: "frame \<Rightarrow> server_call option" where
  "awaited_call f =
     (case frame_command_type f of
        Some (CmdPayload pc) \<Rightarrow> Option.bind (payload_type_from_i32 (pc_type pc)) (\<lambda>t. payload_call t pc)
      | Some (CmdNotification nc) \<Rightarrow> Some (HandleNotification nc)
      | _ \<Rightarrow> None)"

fun awaited :: "server_call \<Rightarrow> bool" where
  "awaited (HandleMessage _) = True"
| "awaited (HandleEvent _) = True"
| "awaited (HandleAck _) = True"
| "awaited (HandleData _) = True"
| "awaited (HandleNotification _) = True"
| "awaited _ = False"

fun current :: "consumer_phase \<Rightarrow> bytes list" where
  "current Waiting = []"
| "current (Dispatching d f pl) = [d]"

text \<open>Runs of one adapter.  \<open>acc\<close> are the frames its queue has accepted, \<open>hist\<close> the ones the consumer has
  finished with, each with the frame that went to the event handler, if any.  The rest of the server
  and the user code change their states at any time.\<close>

inductive inbound_run ::
  "codec_env \<Rightarrow> 's inbound_env \<Rightarrow> bytes list \<Rightarrow> (bytes \<times> frame option) list \<Rightarrow> 's inbound \<Rightarrow> bool" for cod ie where
  start: "ib_queue st = [] \<Longrightarrow> ib_phase st = Waiting \<Longrightarrow> ib_tasks st = [] \<Longrightarrow> ib_log st = [] \<Longrightarrow>
    inbound_run cod ie [] [] st"
| message: "inbound_run cod ie acc hist st \<Longrightarrow>
    inbound_run cod ie (if length (ib_queue st) < INBOUND_QUEUE_CAPACITY then acc @ [d] else acc) hist
      (adapter_on_event ie (Message d) st)"
| other_event: "inbound_run cod ie acc hist st \<Longrightarrow> \<forall>d. ev \<noteq> Message d \<Longrightarrow>
    inbound_run cod ie acc hist (adapter_on_event ie ev st)"
| discard: "inbound_run cod ie acc hist st \<Longrightarrow> ib_phase st = Waiting \<Longrightarrow> ib_queue st = d # q \<Longrightarrow> xe_codecs xe = cod \<Longrightarrow>
    receive_message ie xe d (st\<lparr>ib_queue := q\<rparr>) = (st', None) \<Longrightarrow>
    inbound_run cod ie acc (hist @ [(d, None)]) st'"
| receive: "inbound_run cod ie acc hist st \<Longrightarrow> ib_phase st = Waiting \<Longrightarrow> ib_queue st = d # q \<Longrightarrow> xe_codecs xe = cod \<Longrightarrow>
    receive_message ie xe d (st\<lparr>ib_queue := q\<rparr>) = (st', Some (f, pl)) \<Longrightarrow>
    inbound_run cod ie acc hist (st'\<lparr>ib_phase := Dispatching d f pl\<rparr>)"
| dispatch: "inbound_run cod ie acc hist st \<Longrightarrow> ib_phase st = Dispatching d f pl \<Longrightarrow>
    inbound_run cod ie acc (hist @ [(d, Some f)]) ((dispatch_received ie xe f pl st)\<lparr>ib_phase := Waiting\<rparr>)"
| task: "inbound_run cod ie acc hist st \<Longrightarrow> t \<in> set (ib_tasks st) \<Longrightarrow>
    inbound_run cod ie acc hist (run_task ie xe t (st\<lparr>ib_tasks := remove1 t (ib_tasks st)\<rparr>))"
| elsewhere: "inbound_run cod ie acc hist st \<Longrightarrow>
    inbound_run cod ie acc hist (st\<lparr>ib_server := sv, ib_user := s\<rparr>)"

definition parsed_frame :: "codec_env \<Rightarrow> bytes \<Rightarrow> frame \<Rightarrow> bool" where
  "parsed_frame cod d f \<longleftrightarrow> (\<exists>p b. parse_with_fallback cod p d b = Inr f)"

lemma receive_message_frame:
  assumes "receive_message ie xe d st = (st', r)"
  shows "ib_queue st' = ib_queue st" "ib_phase st' = ib_phase st" "ib_log st' = ib_log st" "ib_tasks st' = ib_tasks st"
    and "r = Some (f, pl) \<Longrightarrow> parsed_frame (xe_codecs xe) d f"
proof -
  note defs = receive_message_def handle_negotiated_message_def handle_pre_negotiation_message_def
    observer_handle_connect_def Let_def
  have "ib_queue st' = ib_queue st \<and> ib_phase st' = ib_phase st \<and> ib_log st' = ib_log st \<and> ib_tasks st' = ib_tasks st"
    using assms by (auto simp: defs split: if_splits sum.splits option.splits prod.splits)
  then show "ib_queue st' = ib_queue st" "ib_phase st' = ib_phase st" "ib_log st' = ib_log st" "ib_tasks st' = ib_tasks st"
    by simp_all
  show "parsed_frame (xe_codecs xe) d f" if "r = Some (f, pl)"
    using assms that by (auto simp: defs parsed_frame_def parse_def split: if_splits sum.splits option.splits prod.splits)
qed

lemma pipeline_frame [simp]:
  "ib_queue (run_cached_pipeline ie f pl st) = ib_queue st" "ib_log (run_cached_pipeline ie f pl st) = ib_log st"
  "ib_phase (run_cached_pipeline ie f pl st) = ib_phase st"
  by (simp_all add: run_cached_pipeline_def split: option.splits)

lemma payload_call_awaited [simp]: "payload_call t pc = Some c \<Longrightarrow> awaited c"
  by (cases t) (auto simp: payload_call_def)

lemma dispatch_frame:
  "ib_queue (dispatch_received ie xe f pl st) = ib_queue st"
  "filter awaited (ib_log (dispatch_received ie xe f pl st))
     = filter awaited (ib_log st) @ (case awaited_call f of Some c \<Rightarrow> [c] | None \<Rightarrow> [])"
  by (auto simp: dispatch_received_def wrapper_handle_frame_def handle_message_command_def handle_notification_command_def
      awaited_call_def split: option.splits command_type.splits)

lemma handle_system_command_frame:
  "ib_queue (handle_system_command ie xe f t st) = ib_queue st" "ib_phase (handle_system_command ie xe f t st) = ib_phase st"
  "filter awaited (ib_log (handle_system_command ie xe f t st)) = filter awaited (ib_log st)"
  by (auto simp: handle_system_command_def case_prod_unfold Let_def
      split: option.splits system_type.splits sum.splits)

lemma on_disconnect_frame:
  "ib_queue (on_disconnect ie xe st) = ib_queue st" "ib_phase (on_disconnect ie xe st) = ib_phase st"
  "ib_log (on_disconnect ie xe st) = ib_log st @ [OnDisconnect]"
  by (simp_all add: on_disconnect_def Let_def)

lemma run_task_frame:
  "ib_queue (run_task ie xe t st) = ib_queue st" "ib_phase (run_task ie xe t st) = ib_phase st"
  "filter awaited (ib_log (run_task ie xe t st)) = filter awaited (ib_log st)"
  by (cases t; simp add: handle_system_command_frame on_disconnect_frame handle_custom_command_def on_error_def)+

lemma inbound_run_inv:
  assumes "inbound_run cod ie acc hist st"
  shows "acc = map fst hist @ current (ib_phase st) @ ib_queue st
    \<and> filter awaited (ib_log st) = List.map_filter (\<lambda>(d, fo). Option.bind fo awaited_call) hist
    \<and> (\<forall>d f. (d, Some f) \<in> set hist \<longrightarrow> parsed_frame cod d f)
    \<and> (\<forall>d f pl. ib_phase st = Dispatching d f pl \<longrightarrow> parsed_frame cod d f)
    \<and> length (ib_queue st) \<le> INBOUND_QUEUE_CAPACITY"
  using assms
proof (induction rule: inbound_run.induct)
  case (other_event acc hist st ev)
  then show ?case by (cases ev) (simp_all add: adapter_on_event_def)
next
  case (discard acc hist st d q xe st')
  then show ?case using receive_message_frame [OF discard(5)] by (auto simp: map_filter_def)
next
  case (receive acc hist st d q xe st' f pl)
  then show ?case using receive_message_frame(1-4) [OF receive(5)] receive_message_frame(5) [OF receive(5) refl] by auto
next
  case (dispatch acc hist st d f pl xe)
  then show ?case by (auto simp: dispatch_frame map_filter_def split: option.splits)
next
  case (task acc hist st t xe)
  then show ?case by (simp add: run_task_frame)
qed (auto simp: adapter_on_event_def map_filter_def INBOUND_QUEUE_CAPACITY_def)

text \<open>C5: One connection's messages are handled in order, each once. In every run of an adapter, however its
  tasks and the rest of the server interleave, the frames its queue accepted are the ones the consumer
  has finished with, the one it is handling and the ones still queued, in this order; the calls of the event
  handler for payloads and notifications are those of the finished frames, in the order of arrival; every
  frame handed to the event handler was parsed from the data at its place; and the queue stays within its
  capacity.\<close>

theorem inbound_in_order:
  assumes "inbound_run cod ie acc hist st"
  shows "acc = map fst hist @ current (ib_phase st) @ ib_queue st
    \<and> filter awaited (ib_log st) = List.map_filter (\<lambda>(d, fo). Option.bind fo awaited_call) hist
    \<and> (\<forall>d f. (d, Some f) \<in> set hist \<longrightarrow> parsed_frame cod d f)
    \<and> length (ib_queue st) \<le> INBOUND_QUEUE_CAPACITY"
  using inbound_run_inv [OF assms] by blast

section \<open>The end of a connection\<close>

fun end_task :: "'s inbound_env \<Rightarrow> connection_event \<Rightarrow> server_task" where
  "end_task ie (ErrorEvent e) = TaskError (ie_display ie e)"
| "end_task ie _ = TaskDisconnect"

text \<open>C20: A connection that ends leaves no trace. The terminal event of the transport, an error as well as a
  disconnection, starts one task; when that task and the one it starts have run, the event handler has been
  told of the disconnection once, the connection is neither in the connection table nor in the device
  registry, and every other connection and device is as it was.\<close>

theorem connection_end_cleans_up:
  assumes inv: "cm_inv (xe_mgr xe) k (sv_manager (ib_server st))" and man: "ie_manager ie"
    and dm: "sv_devices (ib_server st) = Some dm" "registry_inv (dm_registry dm)" and ev: "is_terminal ev"
  shows "adapter_on_event ie ev st = st\<lparr>ib_tasks := ib_tasks st @ [end_task ie ev]\<rparr>
    \<and> (let st1 = run_task ie xe (end_task ie ev) st; st2 = run_task ie xe' TaskRemoveDevice st1
       in ib_tasks st1 = ib_tasks st @ [TaskRemoveDevice]
        \<and> ib_log st2 = ib_log st @ (case ev of ErrorEvent e \<Rightarrow> [OnError (ie_display ie e)] | _ \<Rightarrow> []) @ [OnDisconnect]
        \<and> cm_inv (xe_mgr xe) k (sv_manager (ib_server st2))
        \<and> infos (xe_mgr xe) (sv_manager (ib_server st2)) = (infos (xe_mgr xe) (sv_manager (ib_server st)))(ie_conn ie := None)
        \<and> (\<exists>dm'. sv_devices (ib_server st2) = Some dm' \<and> registry_inv (dm_registry dm')
             \<and> online (dm_registry dm') = (online (dm_registry dm))(ie_conn ie := None)))"
proof -
  let ?st1 = "run_task ie xe (end_task ie ev) st"
  obtain cm r where rm: "remove_connection (xe_mgr xe) (ie_conn ie) (sv_manager (ib_server st)) = (cm, r)" by fastforce
  obtain dm' own where d: "dm_remove_connection (ie_conn ie) dm = (dm', own)" by fastforce
  have b: "ib_log ?st1 = ib_log st @ (case ev of ErrorEvent e \<Rightarrow> [OnError (ie_display ie e)] | _ \<Rightarrow> []) @ [OnDisconnect]"
    using ev by (cases ev) (simp_all add: is_terminal_def on_error_def on_disconnect_frame)
  have s: "ib_tasks ?st1 = ib_tasks st @ [TaskRemoveDevice]" "sv_manager (ib_server ?st1) = cm"
    "sv_devices (ib_server ?st1) = Some dm"
    using ev man dm rm by (cases ev; simp add: is_terminal_def on_disconnect_def on_error_def Let_def)+
  have "adapter_on_event ie ev st = st\<lparr>ib_tasks := ib_tasks st @ [end_task ie ev]\<rparr>"
    using ev by (cases ev) (simp_all add: is_terminal_def adapter_on_event_def spawn_task_def)
  then show ?thesis
    using s b remove_connection_spec [OF inv rm] dm_remove_connection_inv [OF dm(2) d]
      dm_remove_connection_online [OF dm(2) d] by (auto simp: Let_def d)
qed

section \<open>Frames before CONNECT\<close>

lemma receive_before_negotiation:
  assumes inv: "cm_inv (xe_mgr xe) k (sv_manager (ib_server st))"
    and i: "infos (xe_mgr xe) (sv_manager (ib_server st)) (ie_conn ie) = Some i" "\<not> ci_negotiation_completed i"
    and f: "parse (xe_codecs xe) PRE_NEGOTIATION_PARSER d = Inr f" "\<not> is_connect_message f"
  shows "receive_message ie xe d st
    = (upd_manager (update_connection_active (xe_mgr xe) (ck_instant (xe_clock xe)) (ie_conn ie)) st, Some (f, None))"
proof -
  let ?st = "upd_manager (update_connection_active (xe_mgr xe) (ck_instant (xe_clock xe)) (ie_conn ie)) st"
  obtain x where g: "get_connection (xe_mgr xe) (ie_conn ie) (sv_manager (ib_server st)) = Some x"
    using i(1) unfolding get_connection_infos [symmetric] by auto
  obtain w where g': "get_connection (xe_mgr xe) (ie_conn ie) (sv_manager (ib_server ?st))
      = Some (w, i\<lparr>ci_last_active := ck_instant (xe_clock xe)\<rparr>)"
    using update_active_infos(2) [OF inv i(1), THEN fun_cong, of _ "ie_conn ie"]
    unfolding get_connection_infos [symmetric] by auto
  show ?thesis
    using g g' i(2) f by (simp add: receive_message_def get_connection_state_def handle_pre_negotiation_message_def Let_def)
qed

lemma payload_not_connect: "frame_command_type f = Some (CmdPayload pc) \<Longrightarrow> \<not> is_connect_message f"
  by (simp add: is_connect_message_def is_system_type_def frame_system_command_def)

text \<open>C21: Messages before CONNECT reach the application. Nothing on the way in asks whether a connection is
  authenticated: while the negotiation of a connection is not completed, a MESSAGE that parses in the format
  of the negotiation is given to the event handler, and its answer is put up for sending, whether or not
  authentication is enabled. The configuration promises the opposite, that a connection must pass
  authentication before it can send or receive; only the way out is guarded.\<close>

theorem unauthenticated_message_handled:
  assumes "cm_inv (xe_mgr xe) k (sv_manager (ib_server st))"
    and "infos (xe_mgr xe) (sv_manager (ib_server st)) (ie_conn ie) = Some i" "\<not> ci_negotiation_completed i"
    and f: "parse (xe_codecs xe) PRE_NEGOTIATION_PARSER d = Inr f" "frame_command_type f = Some (CmdPayload pc)"
      "payload_type_from_i32 (pc_type pc) = Some PayMessage"
  shows "ib_log (handle_message_event ie xe d st) = ib_log st @ [HandleMessage pc]
    \<and> (ie_manager ie \<longrightarrow> (\<exists>f'. ib_tasks (handle_message_event ie xe d st) = ib_tasks st @ [TaskSend f']))"
  using receive_before_negotiation [OF assms(1-4) payload_not_connect [OF f(2)]] f
  by (simp add: handle_message_event_def dispatch_received_def run_cached_pipeline_def wrapper_handle_frame_def
      handle_message_command_def payload_call_def handle_and_send_response_def send_response_frame_async_def case_prod_unfold)

section \<open>Examples\<close>

definition ex_payload :: payload_command where
  "ex_payload = \<lparr>pc_type = 1, pc_message_id = ''m1'', pc_payload = ''hello'', pc_metadata = [], pc_seq = 0\<rparr>"

definition ex_msg :: frame where
  "ex_msg = ex_frame\<lparr>fr_command := Some \<lparr>cmd_type = Some (CmdPayload ex_payload)\<rparr>\<rparr>"

definition ex_ie :: "unit inbound_env" where
  "ex_ie = \<lparr>ie_call = (\<lambda>_ _ s. (s, Inr None)), ie_middleware = (\<lambda>i. logging_middleware i [] LogInfo),
     ie_processor = (\<lambda>i. function_processor i [] default_before), ie_display = flare_error_reason,
     ie_conn = ''b'', ie_core = True, ie_manager = True\<rparr>"

definition ex_in :: "unit inbound" where
  "ex_in = \<lparr>ib_server = ex_sv (Some ex_devices), ib_user = (), ib_queue = [], ib_phase = Waiting, ib_tasks = [], ib_log = []\<rparr>"

definition ex_in_xe :: connect_env where
  "ex_in_xe = ex_xe\<lparr>xe_codecs := codecs_with_key (ex_lib\<lparr>lib_json_decode := (\<lambda>d. if d = ''{1}'' then Some ex_msg else None)\<rparr>) ex_key\<rparr>"

lemma ex_in_simps [simp]:
  "ie_conn ex_ie = ''b''" "ie_manager ex_ie" "ib_server ex_in = ex_sv (Some ex_devices)" "ib_queue ex_in = []"
  "ib_phase ex_in = Waiting" "ib_tasks ex_in = []" "ib_log ex_in = []" "xe_mgr ex_in_xe = ex_me"
  by (simp_all add: ex_ie_def ex_in_def ex_in_xe_def)

lemma ex_msg_parsed: "parse (xe_codecs ex_in_xe) PRE_NEGOTIATION_PARSER ''{1}'' = Inr ex_msg"
proof -
  have key: "length ex_key = 32" by (simp add: ex_key_def)
  show ?thesis
    by (simp add: ex_in_xe_def parse_def PRE_NEGOTIATION_PARSER_def parse_with_fallback_def decrypt_data_with_fallback_def parser_new_def
        codecs_with_key_aes [OF key] ex_lib_def ok_or_def
        decompress_data_with_fallback_def parse_decompressed_with_fallback_def
        detect_serializers_def protobuf_serializer_def json_serializer_def deserialize_ok_def)
qed

theorem removed_connection_silent_witness:
  "let st = upd_manager (remove_connection ex_me ''b'') ex_in in handle_message_event ex_ie ex_in_xe ''{1}'' st = st"
proof -
  let ?st = "upd_manager (remove_connection ex_me ''b'') ex_in"
  have "lookup_conn (xe_mgr ex_in_xe) (sv_manager (ib_server ?st)) (ie_conn ex_ie) = None"
    using remove_connection_lookup [OF ex_mgr_inv, of "''b''"] by simp
  from removed_connection_silent [OF this] show ?thesis by simp
qed

definition ex_confirmed_info :: conn_info where
  "ex_confirmed_info = (conn_info_new ex_clock ''b'' True)\<lparr>ci_user_id := Some ''u'', ci_encryption := Aes256Gcm,
     ci_negotiation_completed := True, ci_negotiation_confirmed := True,
     ci_cached_parser := Some (parser_new Json CompNone Aes256Gcm)\<rparr>"

definition ex_confirmed :: "unit inbound" where
  "ex_confirmed = upd_manager (\<lambda>cm. (put_info ex_me ''b'' (the (lookup_conn ex_me cm ''b'')) ex_confirmed_info cm, ())) ex_in"

lemma ex_confirmed_inv:
  "cm_inv ex_me 0 (sv_manager (ib_server ex_confirmed))"
  "infos ex_me (sv_manager (ib_server ex_confirmed)) ''b'' = Some ex_confirmed_info"
proof -
  have "info_owner ex_confirmed_info = info_owner (en_info (the (lookup_conn ex_me ex_mgr ''b'')))"
    "ci_connection_id ex_confirmed_info = ci_connection_id (en_info (the (lookup_conn ex_me ex_mgr ''b'')))"
    by (simp_all add: ex_mgr_lookup ex_confirmed_info_def info_owner_def conn_info_new_def)
  from put_info_same_owner_inv [OF ex_mgr_inv _ this(2,1), of "''b''"]
  show "cm_inv ex_me 0 (sv_manager (ib_server ex_confirmed))"
    "infos ex_me (sv_manager (ib_server ex_confirmed)) ''b'' = Some ex_confirmed_info"
    by (simp_all add: ex_confirmed_def ex_mgr_lookup)
qed

theorem confirmed_connection_strict_witness:
  "only_touched ex_in_xe ex_ie ex_confirmed_info ex_confirmed (handle_message_event ex_ie ex_in_xe ''{1}'' ex_confirmed)"
proof -
  have key: "length ex_key = 32" by (simp add: ex_key_def)
  let ?p = "parser_new Json CompNone Aes256Gcm"
  have "parse_with_fallback (xe_codecs ex_in_xe) ?p ''{1}'' False \<noteq> Inr f" for f
    by (simp add: ex_in_xe_def parse_with_fallback_def decrypt_data_with_fallback_def parser_new_def
        codecs_with_key_aes [OF key] aes_decrypt_def)
  moreover have "ci_negotiation_completed ex_confirmed_info" "ci_negotiation_confirmed ex_confirmed_info"
    "ci_cached_parser ex_confirmed_info = Some ?p" by (simp_all add: ex_confirmed_info_def)
  moreover have "cm_inv (xe_mgr ex_in_xe) 0 (sv_manager (ib_server ex_confirmed))"
    "infos (xe_mgr ex_in_xe) (sv_manager (ib_server ex_confirmed)) (ie_conn ex_ie) = Some ex_confirmed_info"
    using ex_confirmed_inv by simp_all
  ultimately show ?thesis using confirmed_connection_strict by blast
qed

theorem connection_end_cleans_up_witness:
  "infos ex_me (sv_manager (ib_server (run_task ex_ie ex_in_xe TaskDisconnect ex_in))) ''b'' = None
   \<and> ib_log (run_task ex_ie ex_in_xe TaskDisconnect ex_in) = [OnDisconnect]"
proof -
  have inv: "cm_inv (xe_mgr ex_in_xe) 0 (sv_manager (ib_server ex_in))" using ex_mgr_inv by simp
  have dm: "sv_devices (ib_server ex_in) = Some ex_devices" by simp
  show ?thesis
    using connection_end_cleans_up [OF inv ex_in_simps(2) dm ex_devices_inv, of "Disconnected []" ex_in_xe]
    by (simp add: is_terminal_def Let_def del: run_task.simps(7))
qed

theorem inbound_in_order_witness:
  "\<exists>st. inbound_run (xe_codecs ex_in_xe) ex_ie [''{1}''] [(''{1}'', Some ex_msg)] st
     \<and> filter awaited (ib_log st) = [HandleMessage ex_payload]"
proof -
  let ?cod = "xe_codecs ex_in_xe"
  let ?q = "ex_in\<lparr>ib_queue := [''{1}'']\<rparr>"
  have c: "frame_command_type ex_msg = Some (CmdPayload ex_payload)" by (simp add: ex_msg_def frame_command_type_def)
  have inv: "cm_inv (xe_mgr ex_in_xe) 0 (sv_manager (ib_server ex_in))" using ex_mgr_inv by simp
  have i: "infos (xe_mgr ex_in_xe) (sv_manager (ib_server ex_in)) (ie_conn ex_ie)
      = Some ((conn_info_new ex_clock ''b'' True)\<lparr>ci_user_id := Some ''u''\<rparr>)" by (simp add: infos_def ex_mgr_lookup)
  obtain st where r: "receive_message ex_ie ex_in_xe ''{1}'' ex_in = (st, Some (ex_msg, None))"
    using receive_before_negotiation [OF inv i _ ex_msg_parsed payload_not_connect [OF c]] by (simp add: conn_info_new_def)
  have "inbound_run ?cod ex_ie [] [] ex_in" by (rule inbound_run.start) simp_all
  from inbound_run.message [OF this, of "''{1}''"] have "inbound_run ?cod ex_ie [''{1}''] [] ?q"
    by (simp add: INBOUND_QUEUE_CAPACITY_def adapter_on_event_def)
  then have "inbound_run ?cod ex_ie [''{1}''] [] (st\<lparr>ib_phase := Dispatching ''{1}'' ex_msg None\<rparr>)"
  proof (rule inbound_run.receive)
    have "?q\<lparr>ib_queue := []\<rparr> = ex_in" by (simp add: ex_in_def)
    then show "receive_message ex_ie ex_in_xe ''{1}'' (?q\<lparr>ib_queue := []\<rparr>) = (st, Some (ex_msg, None))" using r by metis
  qed simp_all
  note run = inbound_run.dispatch [OF this, of "''{1}''" ex_msg None ex_in_xe, simplified]
  have "awaited_call ex_msg = Some (HandleMessage ex_payload)"
    by (simp add: awaited_call_def c ex_payload_def payload_type_from_i32_def payload_call_def)
  then have "filter awaited (ib_log ((dispatch_received ex_ie ex_in_xe ex_msg None
      (st\<lparr>ib_phase := Dispatching ''{1}'' ex_msg None\<rparr>))\<lparr>ib_phase := Waiting\<rparr>)) = [HandleMessage ex_payload]"
    using inbound_in_order [OF run] by (simp add: map_filter_def)
  with run show ?thesis by blast
qed

text \<open>The connection is not authenticated, and authentication is enabled.\<close>

theorem unauthenticated_message_handled_witness:
  "sv_auth_enabled (ib_server ex_in) \<and> map_option ci_authenticated (infos ex_me (sv_manager (ib_server ex_in)) ''b'') = Some False
   \<and> ib_log (handle_message_event ex_ie ex_in_xe ''{1}'' ex_in) = [HandleMessage ex_payload]"
proof -
  let ?i = "(conn_info_new ex_clock ''b'' True)\<lparr>ci_user_id := Some ''u''\<rparr>"
  have inv: "cm_inv (xe_mgr ex_in_xe) 0 (sv_manager (ib_server ex_in))" using ex_mgr_inv by simp
  have i: "infos (xe_mgr ex_in_xe) (sv_manager (ib_server ex_in)) (ie_conn ex_ie) = Some ?i"
    by (simp add: infos_def ex_mgr_lookup)
  have c: "frame_command_type ex_msg = Some (CmdPayload ex_payload)" "payload_type_from_i32 (pc_type ex_payload) = Some PayMessage"
    by (simp_all add: ex_msg_def frame_command_type_def ex_payload_def payload_type_from_i32_def)
  have "\<not> ci_negotiation_completed ?i" by (simp add: conn_info_new_def)
  from unauthenticated_message_handled [OF inv i this ex_msg_parsed c] i show ?thesis
    by (simp add: conn_info_new_def)
qed

end
