(* ===== verification/ServerConfig.thy ===== *)
theory ServerConfig
  imports Fanout Config Kick
begin

text \<open>
  The server's configuration (\<open>src/src/server/config.rs\<close>) and the handle through which an application sends
  (\<open>src/src/server/handle/default.rs\<close>).  Durations are numbers of nanoseconds, sizes are natural numbers.
\<close>

section \<open>Configuration\<close>

record server_config =
  svc_bind_address :: string
  svc_transport :: transport_protocol
  svc_transports :: "transport_protocol list option"
  svc_protocol_addresses :: "(transport_protocol, string) amap option"
  svc_default_serialization_format :: serialization_format
  svc_default_compression :: compression_algorithm
  svc_default_encryption :: encryption_algorithm
  svc_max_connections :: "64 word"
  svc_handshake_timeout :: duration
  svc_max_handshake_concurrency :: nat
  svc_write_timeout :: duration
  svc_fanout_concurrency :: nat
  svc_connection_timeout :: duration
  svc_default_heartbeat :: heartbeat_config
  svc_tls :: tls_config
  svc_max_message_size :: nat
  svc_device_conflict_strategy :: device_conflict_strategy
  svc_auth_enabled :: bool
  svc_auth_timeout :: duration
  svc_shutdown_close_grace :: duration

definition default_shutdown_close_grace :: duration where
  "default_shutdown_close_grace = SERVER_SHUTDOWN_CLOSE_GRACE"

definition server_config_default :: server_config where
  "server_config_default =
     \<lparr>svc_bind_address = ''0.0.0.0:8080'', svc_transport = WebSocket, svc_transports = None,
      svc_protocol_addresses = None, svc_default_serialization_format = Protobuf,
      svc_default_compression = CompNone, svc_default_encryption = EncNone, svc_max_connections = 10000,
      svc_handshake_timeout = from_secs 10, svc_max_handshake_concurrency = 1024,
      svc_write_timeout = from_secs 10, svc_fanout_concurrency = 256, svc_connection_timeout = from_secs 300,
      svc_default_heartbeat = heartbeat_default, svc_tls = tls_default, svc_max_message_size = 10 * 1024 * 1024,
      svc_device_conflict_strategy = AllowAll, svc_auth_enabled = False, svc_auth_timeout = from_secs 30,
      svc_shutdown_close_grace = default_shutdown_close_grace\<rparr>"

definition server_config_new :: "string \<Rightarrow> server_config" where
  "server_config_new addr = server_config_default\<lparr>svc_bind_address := addr\<rparr>"

definition svc_websocket :: "server_config \<Rightarrow> server_config" where
  "svc_websocket c = c\<lparr>svc_transport := WebSocket\<rparr>"

definition svc_quic :: "server_config \<Rightarrow> server_config" where
  "svc_quic c = c\<lparr>svc_transport := QUIC\<rparr>"

definition svc_tcp :: "server_config \<Rightarrow> server_config" where
  "svc_tcp c = c\<lparr>svc_transport := TCP\<rparr>"

definition svc_with_format :: "serialization_format \<Rightarrow> server_config \<Rightarrow> server_config" where
  "svc_with_format f c = c\<lparr>svc_default_serialization_format := f\<rparr>"

definition svc_with_compression :: "compression_algorithm \<Rightarrow> server_config \<Rightarrow> server_config" where
  "svc_with_compression a c = c\<lparr>svc_default_compression := a\<rparr>"

definition svc_with_encryption :: "encryption_algorithm \<Rightarrow> server_config \<Rightarrow> server_config" where
  "svc_with_encryption a c = c\<lparr>svc_default_encryption := a\<rparr>"

definition with_max_connections :: "64 word \<Rightarrow> server_config \<Rightarrow> server_config" where
  "with_max_connections n c = c\<lparr>svc_max_connections := n\<rparr>"

definition with_handshake_timeout :: "duration \<Rightarrow> server_config \<Rightarrow> server_config" where
  "with_handshake_timeout t c = c\<lparr>svc_handshake_timeout := t\<rparr>"

definition with_max_handshake_concurrency :: "nat \<Rightarrow> server_config \<Rightarrow> server_config" where
  "with_max_handshake_concurrency n c = c\<lparr>svc_max_handshake_concurrency := max n 1\<rparr>"

definition with_write_timeout :: "duration \<Rightarrow> server_config \<Rightarrow> server_config" where
  "with_write_timeout t c = c\<lparr>svc_write_timeout := t\<rparr>"

definition with_fanout_concurrency :: "nat \<Rightarrow> server_config \<Rightarrow> server_config" where
  "with_fanout_concurrency n c = c\<lparr>svc_fanout_concurrency := max n 1\<rparr>"

definition with_protocols :: "transport_protocol list \<Rightarrow> server_config \<Rightarrow> server_config" where
  "with_protocols ps c = c\<lparr>svc_transports := Some ps\<rparr>"

definition with_protocol_address :: "transport_protocol \<Rightarrow> string \<Rightarrow> server_config \<Rightarrow> server_config" where
  "with_protocol_address p a c =
     c\<lparr>svc_protocol_addresses := Some (AList.update p a (unwrap_or [] (svc_protocol_addresses c)))\<rparr>"

definition with_protocol_addresses :: "(transport_protocol, string) amap \<Rightarrow> server_config \<Rightarrow> server_config" where
  "with_protocol_addresses as c = c\<lparr>svc_protocol_addresses := Some as\<rparr>"

definition get_protocol_address :: "transport_protocol \<Rightarrow> server_config \<Rightarrow> string" where
  "get_protocol_address p c =
     normalize_server_bind_address
       (case svc_protocol_addresses c of
          None \<Rightarrow> svc_bind_address c
        | Some as \<Rightarrow> (case map_of as p of Some a \<Rightarrow> a | None \<Rightarrow> svc_bind_address c))"

definition svc_with_heartbeat :: "heartbeat_config \<Rightarrow> server_config \<Rightarrow> server_config" where
  "svc_with_heartbeat h c = c\<lparr>svc_default_heartbeat := h\<rparr>"

definition svc_with_tls :: "tls_config \<Rightarrow> server_config \<Rightarrow> server_config" where
  "svc_with_tls t c = c\<lparr>svc_tls := t\<rparr>"

definition with_connection_timeout :: "duration \<Rightarrow> server_config \<Rightarrow> server_config" where
  "with_connection_timeout t c = c\<lparr>svc_connection_timeout := t\<rparr>"

definition svc_get_protocols :: "server_config \<Rightarrow> transport_protocol list" where
  "svc_get_protocols c = (case svc_transports c of Some ps \<Rightarrow> ps | None \<Rightarrow> [svc_transport c])"

definition with_device_conflict_strategy :: "device_conflict_strategy \<Rightarrow> server_config \<Rightarrow> server_config" where
  "with_device_conflict_strategy s c = c\<lparr>svc_device_conflict_strategy := s\<rparr>"

definition enable_auth :: "server_config \<Rightarrow> server_config" where
  "enable_auth c = c\<lparr>svc_auth_enabled := True\<rparr>"

definition disable_auth :: "server_config \<Rightarrow> server_config" where
  "disable_auth c = c\<lparr>svc_auth_enabled := False\<rparr>"

definition with_auth_timeout :: "duration \<Rightarrow> server_config \<Rightarrow> server_config" where
  "with_auth_timeout t c = c\<lparr>svc_auth_timeout := t\<rparr>"

definition with_shutdown_close_grace :: "duration \<Rightarrow> server_config \<Rightarrow> server_config" where
  "with_shutdown_close_grace g c = c\<lparr>svc_shutdown_close_grace := g\<rparr>"

section \<open>The server handle\<close>

definition handle_send_to ::
  "mgr_env \<Rightarrow> codec_env \<Rightarrow> nat \<Rightarrow> (conn_id \<Rightarrow> bytes) \<Rightarrow> conn_id \<Rightarrow> frame \<Rightarrow> conn_manager \<Rightarrow> conn_manager \<times> unit result" where
  "handle_send_to me env now nz cid f cm = send_frame_to me env now nz cid f None cm"

text \<open>The default method of the trait: one send after the other, the outcomes counted in \<open>i32\<close>.\<close>

fun send_to_connections_loop ::
  "(conn_id \<Rightarrow> conn_manager \<Rightarrow> conn_manager \<times> unit result) \<Rightarrow> conn_id list \<Rightarrow> 32 word \<Rightarrow> 32 word \<Rightarrow> conn_manager
   \<Rightarrow> conn_manager \<times> 32 word \<times> 32 word" where
  "send_to_connections_loop send [] s x cm = (cm, s, x)"
| "send_to_connections_loop send (c # cs) s x cm =
     (case send c cm of
        (cm', Inr _) \<Rightarrow> send_to_connections_loop send cs (s + 1) x cm'
      | (cm', Inl _) \<Rightarrow> send_to_connections_loop send cs s (x + 1) cm')"

definition trait_send_to_connections ::
  "mgr_env \<Rightarrow> codec_env \<Rightarrow> nat \<Rightarrow> (conn_id \<Rightarrow> bytes) \<Rightarrow> conn_id list \<Rightarrow> frame \<Rightarrow> conn_manager
   \<Rightarrow> conn_manager \<times> 32 word \<times> 32 word" where
  "trait_send_to_connections me env now nz ids f cm =
     send_to_connections_loop (\<lambda>c. handle_send_to me env now nz c f) ids 0 0 cm"

text \<open>The method of the default handle, which the connection manager answers with its grouped fan-out.\<close>

definition handle_send_to_connections ::
  "mgr_env \<Rightarrow> codec_env \<Rightarrow> nat \<Rightarrow> (conn_id \<Rightarrow> bytes) \<Rightarrow> conn_id list \<Rightarrow> frame \<Rightarrow> conn_manager
   \<Rightarrow> conn_manager \<times> nat \<times> nat" where
  "handle_send_to_connections me env now nz ids f cm = fanout_frame_grouped_by_encoding me env now nz ids f cm"

definition handle_send_to_user ::
  "mgr_env \<Rightarrow> codec_env \<Rightarrow> nat \<Rightarrow> (conn_id \<Rightarrow> bytes) \<Rightarrow> device_owner \<Rightarrow> frame \<Rightarrow> conn_manager \<Rightarrow> conn_manager" where
  "handle_send_to_user me env now nz ow f cm = send_frame_to_user me env now nz ow f None cm"

definition handle_broadcast ::
  "mgr_env \<Rightarrow> codec_env \<Rightarrow> nat \<Rightarrow> (conn_id \<Rightarrow> bytes) \<Rightarrow> frame \<Rightarrow> conn_manager \<Rightarrow> conn_manager" where
  "handle_broadcast me env now nz f cm = broadcast_frame me env now nz f None cm"

definition handle_broadcast_except ::
  "mgr_env \<Rightarrow> codec_env \<Rightarrow> nat \<Rightarrow> (conn_id \<Rightarrow> bytes) \<Rightarrow> frame \<Rightarrow> conn_id \<Rightarrow> conn_manager \<Rightarrow> conn_manager" where
  "handle_broadcast_except me env now nz f ex cm = broadcast_frame_except me env now nz f ex None cm"

definition handle_disconnect :: "mgr_env \<Rightarrow> conn_id \<Rightarrow> conn_manager \<Rightarrow> conn_manager \<times> unit result" where
  "handle_disconnect me cid cm = remove_connection me cid cm"

definition handle_connection_count :: "conn_manager \<Rightarrow> 64 word" where
  "handle_connection_count cm = fst (stats cm)"

definition handle_user_count :: "conn_manager \<Rightarrow> 64 word" where
  "handle_user_count cm = snd (stats cm)"

section \<open>Counts\<close>

text \<open>The loop of the trait counts every id it is given, an unknown one as a failure; the default handle's
  fan-out counts the connections it finds, and an unknown id is neither a success nor a failure.\<close>

lemma send_loop_counts:
  "send_to_connections_loop send ids s x cm = (cm', s', x') \<Longrightarrow> s' + x' = s + x + of_nat (length ids)"
  by (induction send ids s x cm rule: send_to_connections_loop.induct)
     (auto simp: algebra_simps split: prod.splits sum.splits)

theorem missing_connection_counts:
  assumes inv: "cm_inv me k cm" and gone: "lookup_conn me cm c = None"
  shows "trait_send_to_connections me env now nz [c] f cm = (cm, 0, 1)"
    and "handle_send_to_connections me env now nz [c] f cm = (cm, 0, 0)"
proof -
  show "trait_send_to_connections me env now nz [c] f cm = (cm, 0, 1)"
    using gone by (simp add: trait_send_to_connections_def handle_send_to_def send_frame_to_def get_connection_snapshot_def)
  have "x \<notin> set (connection_snapshots_for_ids me [c] cm)" for x
    using gone by (cases x) (simp add: connection_snapshots_for_ids_def pick_ids_iff [OF inv])
  then have "connection_snapshots_for_ids me [c] cm = []" by (metis last_in_set)
  then show "handle_send_to_connections me env now nz [c] f cm = (cm, 0, 0)"
    by (simp add: handle_send_to_connections_def fanout_frame_grouped_by_encoding_def Let_def)
qed

end
