(* ===== verification/ServerLife.thy ===== *)
theory ServerLife
  imports ServerCore ServerConfig
begin

text \<open>
  The life of a server's connections: the set-up of a new connection and the shutdown
  (\<open>src/src/server/transports/common.rs\<close>), and the heartbeat detector, which sweeps the connections that have
  been silent for too long (\<open>src/src/server/heartbeat/detector.rs\<close>, \<open>start_heartbeat\<close> in
  \<open>src/src/server/transports/server_core.rs\<close>).  A tick of the detector awaits the sweep
  (\<open>cleanup_timeout_connections\<close> in \<open>src/src/server/connection/manager/trait_impl.rs\<close>), which closes the idle
  connections one after the other, with no bound on the time a closing takes, before it removes any.
  An instant is a number of nanoseconds.
\<close>

section \<open>The heartbeat detector\<close>

record heartbeat_detector =
  hd_timeout :: duration
  hd_check_interval :: duration
  hd_stop_tx :: bool

definition detector_new :: "duration \<Rightarrow> duration \<Rightarrow> heartbeat_detector" where
  "detector_new timeout interval = \<lparr>hd_timeout = timeout, hd_check_interval = interval, hd_stop_tx = False\<rparr>"

text \<open>The task of a detector: the instant of the next tick of its interval timer, the message in its stop
  channel, and whether it runs.  The first tick of an interval is due at once.\<close>

record detector_task =
  dt_next_tick :: nat
  dt_stop :: bool
  dt_running :: bool

definition detector_start :: "nat \<Rightarrow> heartbeat_detector \<Rightarrow> heartbeat_detector \<times> detector_task" where
  "detector_start now det =
     (det\<lparr>hd_stop_tx := True\<rparr>, \<lparr>dt_next_tick = now, dt_stop = False, dt_running = True\<rparr>)"

definition detector_stop :: "heartbeat_detector \<Rightarrow> detector_task \<Rightarrow> heartbeat_detector \<times> detector_task" where
  "detector_stop det task =
     (if hd_stop_tx det then (det\<lparr>hd_stop_tx := False\<rparr>, task\<lparr>dt_stop := True\<rparr>) else (det, task))"

text \<open>Where the task is in its loop: it waits in its select, since an instant; or it sweeps, since an instant, and
  closes the connections of its snapshot in turn, the closing of the first of those that are left having begun
  at the second instant; or it removes them.\<close>

datatype detector_phase =
    Waiting nat
  | Closing nat "conn_id list" nat "conn_id list"
  | Removing nat "conn_id list"

text \<open>The loop over the closings of a sweep: with nothing left to close the removals follow.\<close>

definition sweep_closings :: "nat \<Rightarrow> conn_id list \<Rightarrow> nat \<Rightarrow> conn_id list \<Rightarrow> detector_phase" where
  "sweep_closings start ids now todo = (if todo = [] then Removing start ids else Closing start ids now todo)"

text \<open>A tick: the snapshot of the idle connections, whose closing begins.\<close>

definition detector_tick ::
  "heartbeat_detector \<Rightarrow> nat \<Rightarrow> detector_task \<Rightarrow> conn_manager \<Rightarrow> detector_task \<times> detector_phase" where
  "detector_tick det now task cm =
     (let ids = map fst (timeout_connection_snapshots now (hd_timeout det) cm)
      in (task\<lparr>dt_next_tick := dt_next_tick task + hd_check_interval det\<rparr>, sweep_closings now ids now ids))"

definition detector_stopped :: "detector_task \<Rightarrow> detector_task" where
  "detector_stopped task = task\<lparr>dt_stop := False, dt_running := False\<rparr>"

definition timeout_cleanup_log_sample :: "conn_id list \<Rightarrow> nat \<Rightarrow> conn_id list \<times> nat" where
  "timeout_cleanup_log_sample ids limit =
     (let n = min (length ids) limit in (take n ids, length ids - n))"

definition as_secs :: "duration \<Rightarrow> nat" where "as_secs d = d div 1000000000"

definition check_interval :: "duration \<Rightarrow> duration" where
  "check_interval timeout = max (from_secs (as_secs timeout div 3)) (from_secs 10)"

definition server_start_heartbeat :: "server_config \<Rightarrow> nat \<Rightarrow> heartbeat_detector \<times> detector_task" where
  "server_start_heartbeat cfg now =
     detector_start now (detector_new (svc_connection_timeout cfg) (check_interval (svc_connection_timeout cfg)))"

section \<open>New connections\<close>

text \<open>Authentication is on when it is enabled and there is an authenticator.\<close>

definition core_auth_enabled :: "authenticator option \<Rightarrow> server_core \<Rightarrow> bool" where
  "core_auth_enabled auth sv \<longleftrightarrow> sv_auth_enabled sv \<and> auth \<noteq> None"

text \<open>\<open>auth\<close> is the authenticator of the core, \<open>handler\<close> says whether an event handler is configured, \<open>display\<close> is the
  text of an error.\<close>

definition setup_new_connection ::
  "mgr_env \<Rightarrow> (flare_error \<Rightarrow> string) \<Rightarrow> authenticator option \<Rightarrow> bool \<Rightarrow> server_config \<Rightarrow> clock \<Rightarrow> conn_id \<Rightarrow> server_core
   \<Rightarrow> server_core \<times> conn_id result" where
  "setup_new_connection me display auth handler cfg ck cid sv =
     (case add_connection_with_limit me ck cid None (core_auth_enabled auth sv) (svc_max_connections cfg) (sv_manager sv) of
        (cm, Inl e) \<Rightarrow>
          (sv\<lparr>sv_manager := cm\<rparr>, Inl (localized ConnectionFailed (''Failed to add connection: '' @ display e)))
      | (cm, Inr _) \<Rightarrow>
          (sv\<lparr>sv_manager := cm\<rparr>,
           if \<not> handler
           then Inl (localized ConfigurationError
                  ''ServerEventHandler is required for creating observer but was not configured'')
           else (case get_connection me cid cm of
                   Some _ \<Rightarrow> Inr cid
                 | None \<Rightarrow> Inl (localized ConnectionFailed ''Failed to get connection after adding''))))"

section \<open>Shutdown\<close>

definition SHUTDOWN_POLL_INTERVAL :: duration where "SHUTDOWN_POLL_INTERVAL = from_millis 20"
definition SHUTDOWN_CLOSE_CONCURRENCY :: nat where "SHUTDOWN_CLOSE_CONCURRENCY = 64"
definition SHUTDOWN_CLOSE_TIMEOUT :: duration where "SHUTDOWN_CLOSE_TIMEOUT = from_secs 1"
definition SHUTDOWN_BROADCAST_TIMEOUT :: duration where "SHUTDOWN_BROADCAST_TIMEOUT = from_secs 1"
definition SHUTDOWN_FORCE_CLOSE_BUDGET :: duration where "SHUTDOWN_FORCE_CLOSE_BUDGET = from_secs 5"
definition SHUTDOWN_DROP_TIMEOUT :: duration where "SHUTDOWN_DROP_TIMEOUT = from_millis 500"

text \<open>What happens around the shutdown: by how much the timer of a pause is late and what the rest of the
  server does to the connection manager meanwhile; how long the broadcast takes; how long the closing of a
  connection takes, if it ever ends; and what happens while connections are being closed.\<close>

record shutdown_env =
  se_pause :: "nat \<Rightarrow> conn_manager \<Rightarrow> nat \<times> conn_manager"
  se_broadcast_time :: duration
  se_close_time :: "conn_id \<Rightarrow> duration option"
  se_meanwhile :: "conn_manager \<Rightarrow> conn_manager"

text \<open>The wait for the clients to leave by themselves.\<close>

function grace_loop :: "shutdown_env \<Rightarrow> nat \<Rightarrow> nat \<Rightarrow> conn_manager \<Rightarrow> nat \<times> conn_manager" where
  "grace_loop se deadline now cm =
     (if cm_connection_count cm > 0 \<and> now < deadline
      then (case se_pause se now cm of
              (late, cm') \<Rightarrow> grace_loop se deadline (now + SHUTDOWN_POLL_INTERVAL + late) cm')
      else (now, cm))"
  by pat_completeness auto

termination grace_loop
  by (relation "measure (\<lambda>(se, deadline, now, cm). deadline - now)")
     (auto simp: SHUTDOWN_POLL_INTERVAL_def from_millis_def)

declare grace_loop.simps [simp del]

text \<open>When each closing ends: at most \<open>n\<close> are under way at a time, and the next one starts when one ends.
  \<open>busy\<close> holds the ends of those under way, in order.\<close>

fun closing_ends :: "nat \<Rightarrow> nat \<Rightarrow> nat list \<Rightarrow> (conn_id \<times> duration) list \<Rightarrow> (conn_id \<times> nat) list" where
  "closing_ends n start busy [] = []"
| "closing_ends n start busy ((c, d) # cs) =
     (if length busy < n then (c, start + d) # closing_ends n start (insort (start + d) busy) cs
      else (c, hd busy + d) # closing_ends n start (insort (hd busy + d) (tl busy)) cs)"

definition closing_time :: "mgr_env \<Rightarrow> shutdown_env \<Rightarrow> conn_manager \<Rightarrow> conn_id \<Rightarrow> duration" where
  "closing_time me se cm c =
     (if get_connection me c cm = None then 0
      else (case se_close_time se c of Some d \<Rightarrow> min d SHUTDOWN_CLOSE_TIMEOUT | None \<Rightarrow> SHUTDOWN_CLOSE_TIMEOUT))"

definition disconnect_all :: "mgr_env \<Rightarrow> conn_id list \<Rightarrow> conn_manager \<Rightarrow> conn_manager" where
  "disconnect_all me ids cm = fold (\<lambda>c cm. fst (remove_connection me c cm)) ids cm"

definition shutdown_connections_within ::
  "connect_env \<Rightarrow> shutdown_env \<Rightarrow> duration \<Rightarrow> duration \<Rightarrow> nat \<Rightarrow> conn_manager \<Rightarrow> nat \<times> conn_manager" where
  "shutdown_connections_within xe se grace budget now cm =
     (if cm_connection_count cm = 0 then (now, cm)
      else
        (let me = xe_mgr xe;
             cm1 = broadcast_frame me (xe_codecs xe) now (\<lambda>_. xe_nonce xe) (fst (server_shutdown_close_frame (xe_stamp xe))) None cm;
             now1 = now + min (se_broadcast_time se) SHUTDOWN_BROADCAST_TIMEOUT;
             (now2, cm2) = grace_loop se (now1 + grace) now1 cm1;
             remaining = list_connections cm2;
             ends = closing_ends SHUTDOWN_CLOSE_CONCURRENCY now2 [] (map (\<lambda>c. (c, closing_time me se cm2 c)) remaining);
             closed = map fst (filter (\<lambda>(c, t). t \<le> now2 + budget) ends);
             cm3 = se_meanwhile se (disconnect_all me closed cm2)
         in if list_all (\<lambda>(c, t). t \<le> now2 + budget) ends
            then (fold max (map snd ends) now2, cm3)
            else (now2 + budget, disconnect_all me (list_connections cm3) cm3)))"

definition shutdown_connections ::
  "connect_env \<Rightarrow> shutdown_env \<Rightarrow> duration \<Rightarrow> nat \<Rightarrow> conn_manager \<Rightarrow> nat \<times> conn_manager" where
  "shutdown_connections xe se grace now cm = shutdown_connections_within xe se grace SHUTDOWN_FORCE_CLOSE_BUDGET now cm"

text \<open>\<open>stop_server\<close>: the running flag, the detector, the connections.\<close>

definition stop_server ::
  "connect_env \<Rightarrow> shutdown_env \<Rightarrow> server_config \<Rightarrow> nat \<Rightarrow> bool \<times> (heartbeat_detector \<times> detector_task) \<times> conn_manager
   \<Rightarrow> nat \<times> bool \<times> (heartbeat_detector \<times> detector_task) \<times> conn_manager" where
  "stop_server xe se cfg now st =
     (case st of (running, (det, task), cm) \<Rightarrow>
        (case shutdown_connections xe se (svc_shutdown_close_grace cfg) now cm of
           (now', cm') \<Rightarrow> (now', False, detector_stop det task, cm')))"

section \<open>Activity\<close>

text \<open>Operations at the instant \<open>now\<close> leave the activity time of a connection or set it to \<open>now\<close>.\<close>

definition fresh_op :: "mgr_env \<Rightarrow> nat \<Rightarrow> conn_manager \<Rightarrow> conn_manager \<Rightarrow> bool" where
  "fresh_op me now cm cm' \<longleftrightarrow>
     (\<forall>c i'. infos me cm' c = Some i' \<longrightarrow>
        ci_last_active i' = now \<or> (\<exists>i. infos me cm c = Some i \<and> ci_last_active i' = ci_last_active i))"

lemma keeps_fresh: "keeps_but ix me now k S cm cm' \<Longrightarrow> fresh_op me now cm cm'"
  unfolding keeps_but_def aged_def fresh_op_def by fastforce

lemma restrict_fresh: "(\<And>c i. infos me cm' c = Some i \<Longrightarrow> infos me cm c = Some i) \<Longrightarrow> fresh_op me now cm cm'"
  by (auto simp: fresh_op_def)

lemma update_reindexed_fresh:
  assumes inv: "mgr_inv ix me k cm" and f: "\<And>i. ci_connection_id (f i) = ci_connection_id i"
    and act: "\<And>i. ci_last_active (f i) = ci_last_active i \<or> ci_last_active (f i) = now"
  shows "fresh_op me now cm (fst (update_reindexed me c f cm))"
proof -
  obtain cm' r where upd: "update_reindexed me c f cm = (cm', r)" by fastforce
  show ?thesis
    using update_reindexed_spec(2) [OF inv f upd] act
    by (auto simp: fresh_op_def upd split: option.splits if_splits)
qed

lemma put_info_fresh:
  assumes inv: "mgr_inv ix me k cm" and e: "lookup_conn me cm c = Some e"
    and i: "ci_connection_id i = ci_connection_id (en_info e)" "info_owner i = info_owner (en_info e)"
    and act: "ci_last_active i = ci_last_active (en_info e) \<or> ci_last_active i = now"
  shows "fresh_op me now cm (put_info me c e i cm)"
  using put_info_same_owner_inv(2) [OF inv e i] act e
  by (auto simp: fresh_op_def infos_def [of me cm c] split: if_splits)

lemma removal_fresh:
  assumes inv: "mgr_inv ix me k cm"
  shows "fresh_op me now cm (fst (remove_connection me c cm))"
  using remove_connection_spec(2) [OF inv surjective_pairing] by (intro restrict_fresh) (auto split: if_splits)

lemma info_fresh:
  assumes inv: "mgr_inv ix me k cm"
  shows "fresh_op me now cm (fst (mark_negotiation_confirmed me c cm))"
    "fresh_op me now cm (fst (update_connection_active me now c cm))"
    "fresh_op me now cm (fst (bind_user me c u cm))"
    "ck_instant ck = now \<Longrightarrow> fresh_op me now cm (fst (set_connection_authenticated me ck c w cm))"
    "fresh_op me now cm (fst (update_connection_negotiation me c dev fmt cmpr enc w md cm))"
    "fresh_op me now cm (fst (update_connection_negotiation_with_pipeline me c dev fmt cmpr enc w q pl cm))"
proof -
  have refl: "fresh_op me now cm cm" by (auto simp: fresh_op_def)
  show "fresh_op me now cm (fst (mark_negotiation_confirmed me c cm))"
    unfolding mark_negotiation_confirmed_def
    by (auto intro!: put_info_fresh [OF inv] simp: refl info_owner_def split: option.splits)
  show "fresh_op me now cm (fst (update_connection_active me now c cm))"
    unfolding update_connection_active_def
    by (auto intro!: put_info_fresh [OF inv] simp: refl info_update_active_def info_owner_def split: option.splits)
  show "fresh_op me now cm (fst (bind_user me c u cm))"
    unfolding bind_user_def by (rule update_reindexed_fresh [OF inv]) simp_all
  show "fresh_op me now cm (fst (set_connection_authenticated me ck c w cm))" if "ck_instant ck = now"
    unfolding set_connection_authenticated_def
    by (rule update_reindexed_fresh [OF inv]) (auto simp: that info_set_authenticated_def Let_def split: option.splits)
  show "fresh_op me now cm (fst (update_connection_negotiation me c dev fmt cmpr enc w md cm))"
    unfolding update_connection_negotiation_def
    by (rule update_reindexed_fresh [OF inv]) (auto simp: negotiated_info_def Let_def split: option.splits)
  show "fresh_op me now cm (fst (update_connection_negotiation_with_pipeline me c dev fmt cmpr enc w q pl cm))"
    unfolding update_connection_negotiation_with_pipeline_def
    by (rule update_reindexed_fresh [OF inv]) (auto simp: completed_info_def Let_def)
qed

lemma manager_writer_fresh:
  assumes inv: "mgr_inv ix me k cm"
  shows "fresh_op me now cm (fst (manager_writer_step q out cm))"
  by (rule restrict_fresh) (simp add: manager_writer_step_def infos_def Let_def split: option.splits prod.splits)

lemma mgr_op_step_fresh:
  assumes inv: "mgr_inv ix me k cm" and t: "op_at now p"
  shows "fresh_op me now cm (mgr_op_step me env nz p cm)"
  by (insert t, cases p;
      simp only: mgr_op_step_def mgr_op.case op_at.simps;
      (rule info_fresh [OF inv] removal_fresh [OF inv] manager_writer_fresh [OF inv]
        keeps_fresh [OF send_to_connection_keeps [OF inv]] keeps_fresh [OF raw_sends_keep(1) [OF inv]]
        keeps_fresh [OF raw_sends_keep(2) [OF inv]] keeps_fresh [OF raw_sends_keep(3) [OF inv]]
        keeps_fresh [OF send_frame_to_keeps [OF inv]] keeps_fresh [OF broadcast_frame_keeps(1) [OF inv]]
        keeps_fresh [OF broadcast_frame_keeps(2) [OF inv]] keeps_fresh [OF broadcast_frame_keeps(3) [OF inv]]
        keeps_fresh [OF grouped_fanout_keeps [OF inv]])?; assumption?)

lemma mgr_step_fresh:
  "mgr_step me env limit now s s' \<Longrightarrow> sys_ok me limit s \<Longrightarrow>
   fresh_op me now (snd (snd (snd (snd s)))) (snd (snd (snd (snd s'))))"
proof (induction rule: mgr_step.induct)
  case (reserve cm cm' pending leaving stale reused reg)
  then have "infos me cm' = infos me cm"
    by (auto simp: reserve_connection_slot_def infos_def [abs_def] split: if_splits)
  then show ?case by (intro restrict_fresh) simp
next
  case (register ck ps cid user ra qs leaving stale reused cm)
  then have inv: "mgr_inv (run_view stale reused) me (Suc (length (ps @ qs) + leaving)) cm" by simp
  show ?case
    using register_reserved_spec(2) [OF inv surjective_pairing] register.hyps
    by (auto simp: fresh_op_def conn_info_new_def split: if_splits)
next
  case (take_out cm cid e pending leaving stale reused shut)
  then have inv: "mgr_inv (run_view stale reused) me (length pending + leaving) cm" by simp
  let ?c = "if shut then close_queue me (en_writer e) cm else cm"
  have c: "mgr_inv (run_view stale reused) me (length pending + leaving) ?c" "infos me ?c = infos me cm" "lookup_conn me ?c cid = Some e"
    using inv close_queue_inv [OF inv] take_out.hyps by simp_all
  show ?case using take_out_inv(2) [OF c(1,3)] c(2) by (intro restrict_fresh) (auto split: if_splits)
next
  case (release pending leaving stale reused cm)
  show ?case by (rule restrict_fresh) (simp add: release_connection_slot_def infos_def)
next
  case (unindex pending leaving xs ow cid ys reused cm)
  show ?case by (rule restrict_fresh) (simp add: infos_def)
next
  case (operate p pending leaving stale reused cm nz)
  then have inv: "mgr_inv (run_view stale reused) me (length pending + leaving) cm" by simp
  from mgr_op_step_fresh [OF inv operate.hyps] show ?case by simp
qed

section \<open>Runs with a detector\<close>

text \<open>The steps of the connection manager at the instant they happen, the task of the detector, and time passing.
  \<open>close_time\<close> is the time from the moment the sweep asks for the lock of a connection to the end of its closing, if it
  ever ends.  A tick comes at most \<open>late\<close> after it is due and the task waits for it; the removals of a sweep
  take no time, but other steps come between them.\<close>

type_synonym detector_state = "nat \<times> detector_task \<times> detector_phase \<times> mgr_sys"

fun may_pass :: "nat \<Rightarrow> (conn_id \<Rightarrow> duration option) \<Rightarrow> detector_task \<Rightarrow> detector_phase \<Rightarrow> nat \<Rightarrow> bool" where
  "may_pass late close_time task (Waiting t) now' = (now' \<le> max t (dt_next_tick task) + late)"
| "may_pass late close_time task (Closing start ids t todo) now' =
     (case todo of
        [] \<Rightarrow> False
      | c # _ \<Rightarrow> (case close_time c of Some d \<Rightarrow> now' \<le> t + d | None \<Rightarrow> True))"
| "may_pass late close_time task (Removing start ids) now' = False"

inductive detector_step ::
  "mgr_env \<Rightarrow> codec_env \<Rightarrow> 64 word \<Rightarrow> heartbeat_detector \<Rightarrow> nat \<Rightarrow> (conn_id \<Rightarrow> duration option) \<Rightarrow> detector_state \<Rightarrow> detector_state \<Rightarrow> bool"
  for me env limit det late close_time where
  manager: "mgr_step me env limit now sys sys' \<Longrightarrow>
    detector_step me env limit det late close_time (now, task, phase, sys) (now, task, phase, sys')"
| tick: "dt_running task \<Longrightarrow> dt_next_tick task \<le> now \<Longrightarrow> detector_tick det now task cm = (task', phase') \<Longrightarrow>
    detector_step me env limit det late close_time (now, task, Waiting t, (pending, leaving, stale, reused, cm))
      (now, task', phase', (pending, leaving, stale, reused, cm))"
| closed: "close_time c = Some d \<Longrightarrow> now = t + d \<Longrightarrow>
    detector_step me env limit det late close_time (now, task, Closing start ids t (c # todo), sys)
      (now, task, sweep_closings start ids now todo, sys)"
| absent: "lookup_conn me cm c = None \<Longrightarrow>
    detector_step me env limit det late close_time (now, task, Removing start (c # ids), (pending, leaving, stale, reused, cm))
      (now, task, Removing start ids, (pending, leaving, stale, reused, cm))"
| remove: "lookup_conn me cm c = Some e \<Longrightarrow>
    detector_step me env limit det late close_time (now, task, Removing start (c # ids), (pending, leaving, stale, reused, cm))
      (now, task, Removing start ids, (pending, Suc leaving, left_behind c (en_info e) @ stale, reused,
         take_out me c (close_queue me (en_writer e) cm)))"
| swept: "detector_step me env limit det late close_time (now, task, Removing start [], sys) (now, task, Waiting now, sys)"
| pass: "now \<le> now' \<Longrightarrow> may_pass late close_time task phase now' \<Longrightarrow>
    detector_step me env limit det late close_time (now, task, phase, sys) (now', task, phase, sys)"

inductive detector_run ::
  "mgr_env \<Rightarrow> codec_env \<Rightarrow> 64 word \<Rightarrow> heartbeat_detector \<Rightarrow> nat \<Rightarrow> (conn_id \<Rightarrow> duration option) \<Rightarrow> detector_state \<Rightarrow> bool"
  for me env limit det late close_time where
  start: "detector_run me env limit det late close_time
    (now, snd (detector_start now det), Waiting now, ([], 0, [], False, with_write_queue_limits t fo n))"
| step: "detector_run me env limit det late close_time s \<Longrightarrow> detector_step me env limit det late close_time s s' \<Longrightarrow>
    detector_run me env limit det late close_time s'"

text \<open>A sweep removes in the steps of the manager, so that a run with a detector is a run of the manager.\<close>

lemma detector_step_sys:
  "detector_step me env limit det late close_time s s' \<Longrightarrow>
   snd (snd (snd s')) = snd (snd (snd s)) \<or> mgr_step me env limit (fst s) (snd (snd (snd s))) (snd (snd (snd s')))"
proof (induction rule: detector_step.induct)
  case (remove cm c e now task start ids pending leaving stale reused)
  from mgr_step.take_out [where shut = True, OF remove] show ?case by simp
qed auto

lemma detector_run_sys: "detector_run me env limit det late close_time s \<Longrightarrow> sys_ok me limit (snd (snd (snd s)))"
proof (induction rule: detector_run.induct)
  case (start now t fo n)
  from mgr_run_ok [OF mgr_run.init] show ?case by simp
next
  case (step s s')
  from detector_step_sys [OF step.hyps(2)] show ?case using step.IH mgr_step_ok by metis
qed

text \<open>The last sweep has begun at \<open>start\<close>, and every connection it has not yet to remove was active within the
  timeout before; those it has yet to remove were not missed by the sweep before it.\<close>

fun to_remove :: "detector_phase \<Rightarrow> conn_id set" where
  "to_remove (Waiting t) = {}"
| "to_remove (Closing start ids t todo) = set ids"
| "to_remove (Removing start ids) = set ids"

fun phase_ok :: "64 word \<Rightarrow> nat \<Rightarrow> nat \<Rightarrow> detector_task \<Rightarrow> nat \<Rightarrow> nat \<Rightarrow> detector_phase \<Rightarrow> bool" where
  "phase_ok limit late slow task now s (Waiting t) \<longleftrightarrow> t \<le> s + unat limit * slow \<and> now \<le> max t (dt_next_tick task) + late"
| "phase_ok limit late slow task now s (Closing s' ids t todo) \<longleftrightarrow>
     s' = s \<and> todo \<noteq> [] \<and> now \<le> t + slow \<and> t + slow * length todo \<le> s + slow * length ids \<and> length ids \<le> unat limit"
| "phase_ok limit late slow task now s (Removing s' ids) \<longleftrightarrow> s' = s \<and> now \<le> s + unat limit * slow"

definition sweeps_ok :: "mgr_env \<Rightarrow> 64 word \<Rightarrow> heartbeat_detector \<Rightarrow> nat \<Rightarrow> nat \<Rightarrow> nat \<Rightarrow> nat \<Rightarrow> detector_task \<Rightarrow> detector_phase \<Rightarrow> conn_manager \<Rightarrow> bool" where
  "sweeps_ok me limit det late slow s now task phase cm \<longleftrightarrow>
     s \<le> now \<and> dt_next_tick task \<le> s + hd_check_interval det \<and> phase_ok limit late slow task now s phase
   \<and> (\<forall>c i. infos me cm c = Some i \<longrightarrow> s \<le> ci_last_active i + hd_timeout det
        + (if c \<in> to_remove phase then max (hd_check_interval det) (unat limit * slow) + late else 0))"

lemma fresh_sweeps_ok:
  assumes ok: "sweeps_ok me limit det late slow s now task phase cm" and fresh: "fresh_op me now cm cm'"
  shows "sweeps_ok me limit det late slow s now task phase cm'"
proof -
  have "s \<le> ci_last_active i' + hd_timeout det
      + (if c \<in> to_remove phase then max (hd_check_interval det) (unat limit * slow) + late else 0)"
    if i': "infos me cm' c = Some i'" for c i'
  proof (cases "ci_last_active i' = now")
    case True
    then show ?thesis using ok by (simp add: sweeps_ok_def)
  next
    case False
    then obtain i where "infos me cm c = Some i" "ci_last_active i' = ci_last_active i"
      using fresh i' by (auto simp: fresh_op_def)
    then show ?thesis using ok unfolding sweeps_ok_def by metis
  qed
  then show ?thesis using ok by (simp add: sweeps_ok_def)
qed

lemma sweep_closings_ok:
  assumes "now + slow * length todo \<le> s + slow * length ids" "length ids \<le> unat limit"
  shows "phase_ok limit late slow task now s (sweep_closings s ids now todo)" "to_remove (sweep_closings s ids now todo) = set ids"
proof -
  have "slow * length ids \<le> unat limit * slow" using mult_le_mono1 [OF assms(2), of slow] by (simp add: mult.commute)
  moreover have "now \<le> s + slow * length ids" if "todo = []" using assms(1) that by simp
  ultimately have "now \<le> s + unat limit * slow" if "todo = []" using that by (meson add_left_mono le_trans)
  then show "phase_ok limit late slow task now s (sweep_closings s ids now todo)" "to_remove (sweep_closings s ids now todo) = set ids"
    using assms by (auto simp: sweep_closings_def)
qed

lemma tick_sweeps_ok:
  assumes sys: "sys_ok me limit (pending, leaving, stale, reused, cm)"
    and ok: "sweeps_ok me limit det late slow s now task (Waiting t) cm"
    and due: "dt_next_tick task \<le> now" and tick: "detector_tick det now task cm = (task', phase')"
  shows "sweeps_ok me limit det late slow now now task' phase' cm"
proof -
  let ?ids = "map fst (timeout_connection_snapshots now (hd_timeout det) cm)"
  have inv: "mgr_inv (run_view stale reused) me (length pending + leaving) cm" using sys by simp
  have ids: "c \<in> set ?ids \<longleftrightarrow> (\<exists>i. infos me cm c = Some i \<and> info_is_timeout now (hd_timeout det) i)" for c
    by (force simp: timeout_connection_snapshots_def scan_iff [OF inv] infos_def)
  have "distinct ?ids" by (simp add: timeout_connection_snapshots_def distinct_scan [OF inv])
  moreover have "set ?ids \<subseteq> dom (lookup_conn me cm)" using ids by (auto simp: infos_def)
  ultimately have "length ?ids \<le> card (dom (lookup_conn me cm))"
    using card_mono [OF owner_dom(1) [OF inv]] by (metis distinct_card)
  then have len: "length ?ids \<le> unat limit" using mgr_invD(4) [OF inv] sys by simp
  have task': "dt_next_tick task' = dt_next_tick task + hd_check_interval det" "phase' = sweep_closings now ?ids now ?ids"
    using tick by (auto simp: detector_tick_def Let_def)
  note ph = sweep_closings_ok [where s = now and now = now and ids = ?ids and todo = ?ids, OF le_refl len]
  have "now \<le> ci_last_active i + hd_timeout det
      + (if c \<in> to_remove phase' then max (hd_check_interval det) (unat limit * slow) + late else 0)"
    if i: "infos me cm c = Some i" for c i
  proof (cases "c \<in> set ?ids")
    case True
    have "s \<le> ci_last_active i + hd_timeout det" using ok i by (fastforce simp: sweeps_ok_def)
    moreover have "now \<le> s + max (hd_check_interval det) (unat limit * slow) + late"
      using ok by (auto simp: sweeps_ok_def max_def split: if_splits)
    ultimately show ?thesis using True by (simp add: task'(2) ph(2) del: set_map)
  next
    case False
    then have "\<not> info_is_timeout now (hd_timeout det) i" using ids i by blast
    then show ?thesis by (simp add: info_is_timeout_def)
  qed
  then show ?thesis using due ph(1) task' by (simp add: sweeps_ok_def)
qed

lemma gone_sweeps_ok:
  assumes ok: "sweeps_ok me limit det late slow s now task (Removing s' (c # ids)) cm"
    and gone: "infos me cm' = (infos me cm)(c := None)"
  shows "sweeps_ok me limit det late slow s now task (Removing s' ids) cm'"
  using ok unfolding sweeps_ok_def gone by (auto split: if_splits)

lemma remove_sweeps_ok:
  assumes sys: "sys_ok me limit (pending, leaving, stale, reused, cm)"
    and ok: "sweeps_ok me limit det late slow s now task (Removing s' (c # ids)) cm"
    and e: "lookup_conn me cm c = Some e"
  shows "sweeps_ok me limit det late slow s now task (Removing s' ids) (take_out me c (close_queue me (en_writer e) cm))"
proof -
  have inv: "mgr_inv (run_view stale reused) me (length pending + leaving) cm" using sys by simp
  have l: "lookup_conn me (close_queue me (en_writer e) cm) c = Some e" using e close_queue_inv(3) [OF inv] by simp
  have "infos me (take_out me c (close_queue me (en_writer e) cm)) = (infos me cm)(c := None)"
    using take_out_inv(2) [OF close_queue_inv(1) [OF inv] l] close_queue_inv(2) [OF inv] by simp
  from gone_sweeps_ok [OF ok this] show ?thesis .
qed

lemma detector_step_sweeps:
  assumes "detector_step me env limit det late close_time (now, task, phase, sys) (now', task', phase', sys')"
    and "sys_ok me limit sys" and "\<And>c. \<exists>d. close_time c = Some d \<and> d \<le> slow"
    and "sweeps_ok me limit det late slow s now task phase (snd (snd (snd (snd sys))))"
  shows "\<exists>s. sweeps_ok me limit det late slow s now' task' phase' (snd (snd (snd (snd sys'))))"
  using assms(1)
proof cases
  case manager
  show ?thesis
    using fresh_sweeps_ok [OF assms(4) mgr_step_fresh [OF manager(4) assms(2)]] manager by blast
next
  case (tick cm t pending leaving stale reused)
  show ?thesis using tick_sweeps_ok [of me limit pending leaving stale reused cm det late slow s now task t] tick assms(2,4) by auto
next
  case (closed c d t start ids todo)
  have "d \<le> slow" using assms(3) [of c] closed by auto
  then have "t + d + slow * length todo \<le> s + slow * length ids" "length ids \<le> unat limit" "start = s"
    using assms(4) closed by (auto simp: sweeps_ok_def)
  note ph = sweep_closings_ok [OF this(1,2)]
  have "sweeps_ok me limit det late slow s now task (sweep_closings s ids now todo) (snd (snd (snd (snd sys))))"
    using assms(4) ph \<open>start = s\<close> unfolding sweeps_ok_def closed by simp
  then show ?thesis using closed \<open>start = s\<close> by blast
next
  case (absent cm c start ids pending leaving stale reused)
  then have "infos me cm = (infos me cm)(c := None)" by (auto simp: infos_def fun_eq_iff)
  from gone_sweeps_ok [OF _ this] show ?thesis using assms(4) unfolding absent snd_conv by blast
next
  case (remove cm c e start ids pending leaving stale reused)
  from remove_sweeps_ok [OF assms(2) [unfolded remove] _ remove(7)] show ?thesis
    using assms(4) unfolding remove snd_conv by blast
next
  case (swept start)
  then show ?thesis using assms(4) by (auto simp: sweeps_ok_def intro!: exI [of _ s])
next
  case pass
  have "phase_ok limit late slow task now' s phase"
  proof (cases phase)
    case (Waiting t)
    then show ?thesis using pass assms(4) by (simp add: sweeps_ok_def)
  next
    case (Closing b ids t todo)
    then obtain c rest where todo: "todo = c # rest" using pass assms(4) by (cases todo) (auto simp: sweeps_ok_def)
    obtain d where "close_time c = Some d" "d \<le> slow" using assms(3) by blast
    then have "now' \<le> t + slow" using pass todo by (simp add: Closing)
    then show ?thesis using assms(4) by (auto simp: sweeps_ok_def Closing)
  next
    case (Removing b ids)
    then show ?thesis using pass by simp
  qed
  then have "sweeps_ok me limit det late slow s now' task phase (snd (snd (snd (snd sys))))"
    using assms(4) pass(4) by (simp add: sweeps_ok_def)
  then show ?thesis unfolding pass by blast
qed

lemma detector_run_sweeps:
  assumes slow: "\<And>c. \<exists>d. close_time c = Some d \<and> d \<le> slow"
  shows "detector_run me env limit det late close_time s \<Longrightarrow>
    \<exists>b. sweeps_ok me limit det late slow b (fst s) (fst (snd s)) (fst (snd (snd s))) (snd (snd (snd (snd (snd (snd (snd s)))))))"
proof (induction rule: detector_run.induct)
  case (start now t fo n)
  have "infos me (with_write_queue_limits t fo n) c = None" for c
    by (simp add: infos_def lookup_conn_def with_write_queue_limits_def CONNECTION_SHARD_COUNT_def)
  then show ?case by (auto simp: sweeps_ok_def detector_start_def)
next
  case (step s s')
  obtain now task phase sys where s: "s = (now, task, phase, sys)" by (cases s)
  obtain now' task' phase' sys' where s': "s' = (now', task', phase', sys')" by (cases s')
  show ?case
    using step.IH detector_step_sweeps [OF step.hyps(2) [unfolded s s'] _ slow] detector_run_sys [OF step.hyps(1)]
    by (auto simp: s s')
qed

text \<open>C22: A silent connection is removed in time, when closings end. In every run of the connection manager with the
  detector that the server starts, if there is a bound on the time from asking for a connection's lock to the end of its
  closing, a registered connection was last active - it registered, it sent, or something was sent
  to it - no longer ago than the connection timeout, the time between two sweeps with the lateness of the timer, and
  the time of a sweep.  A sweep closes at most as many connections as the limit allows, one after the other;
  sweeps are an interval of the detector apart, or follow each other when a sweep is longer; the interval is a
  third of the timeout or ten seconds.\<close>

theorem idle_connection_removed:
  assumes "server_start_heartbeat cfg t0 = (det, task0)"
    and "detector_run me env limit det late close_time (now, task, phase, (pending, leaving, stale, reused, cm))"
    and "\<And>c. \<exists>d. close_time c = Some d \<and> d \<le> slow"
    and "infos me cm c = Some i"
  shows "now \<le> ci_last_active i + svc_connection_timeout cfg
      + max (max (from_secs (as_secs (svc_connection_timeout cfg) div 3)) (from_secs 10)) (unat limit * slow) + late
      + unat limit * slow"
proof -
  let ?W = "unat limit * slow" and ?I = "check_interval (svc_connection_timeout cfg)"
  have det: "hd_timeout det = svc_connection_timeout cfg" "hd_check_interval det = ?I"
    using assms(1) by (auto simp: server_start_heartbeat_def detector_start_def detector_new_def)
  obtain s where ok: "sweeps_ok me limit det late slow s now task phase cm"
    using detector_run_sweeps [OF assms(3,2)] by auto
  have la: "s \<le> ci_last_active i + svc_connection_timeout cfg + (if c \<in> to_remove phase then max ?I ?W + late else 0)"
    using ok assms(4) unfolding sweeps_ok_def det by blast
  have "now \<le> ci_last_active i + svc_connection_timeout cfg + max ?I ?W + late + ?W"
  proof (cases phase)
    case (Waiting t)
    then have "now \<le> s + max ?I ?W + late" using ok by (auto simp: sweeps_ok_def det max_def split: if_splits)
    then show ?thesis using la Waiting by simp
  next
    case (Closing b ids t todo)
    then have a: "now \<le> t + slow" "t + slow * length todo \<le> s + slow * length ids" "length ids \<le> unat limit" "todo \<noteq> []"
      using ok by (auto simp: sweeps_ok_def)
    then have "slow \<le> slow * length todo" "slow * length ids \<le> ?W"
      using mult_le_mono1 [OF a(3), of slow] by (cases todo, simp_all add: mult.commute)
    then have "now \<le> s + ?W" using a by linarith
    then show ?thesis using la by (auto split: if_splits)
  next
    case (Removing b ids)
    then have "now \<le> s + ?W" using ok by (auto simp: sweeps_ok_def)
    then show ?thesis using la by (auto split: if_splits)
  qed
  then show ?thesis by (simp add: check_interval_def)
qed

text \<open>A connection whose closing never ends stalls the detector for good: whatever else happens, the sweep that has reached
  it stays there, removes nothing and never ticks again, however much time passes.\<close>

theorem never_closing_stalls_detector:
  assumes stuck: "close_time c = None"
    and steps: "(detector_step me env limit det late close_time)\<^sup>*\<^sup>* (now, task, Closing start ids t (c # todo), sys) (now', task', phase', sys')"
  shows "task' = task \<and> phase' = Closing start ids t (c # todo)
    \<and> detector_step me env limit det late close_time (now', task', phase', sys') (now' + n, task', phase', sys')"
proof -
  have "fst (snd x) = task \<and> fst (snd (snd x)) = Closing start ids t (c # todo)"
    if "(detector_step me env limit det late close_time)\<^sup>*\<^sup>* (now, task, Closing start ids t (c # todo), sys) x" for x
    using that
  proof (induction rule: rtranclp_induct)
    case (step y z)
    from step.hyps(2) step.IH stuck show ?case by cases auto
  qed simp
  from this [OF steps] have "task' = task" "phase' = Closing start ids t (c # todo)" by simp_all
  then show ?thesis using stuck by (auto intro!: detector_step.pass)
qed

section \<open>Termination of the shutdown\<close>

text \<open>Once no connection is accepted any more, the rest of the server only takes connections out.\<close>

definition only_leaving :: "mgr_env \<Rightarrow> (conn_manager \<Rightarrow> conn_manager) \<Rightarrow> bool" where
  "only_leaving me g \<longleftrightarrow>
     (\<forall>cm. cm_inv me 0 cm \<longrightarrow> cm_inv me 0 (g cm) \<and> dom (infos me (g cm)) \<subseteq> dom (infos me cm))"

lemma disconnect_all_spec:
  assumes "cm_inv me k cm"
  shows "cm_inv me k (disconnect_all me ids cm) \<and> infos me (disconnect_all me ids cm) = infos me cm |` (- set ids)"
  using assms
proof (induction ids arbitrary: cm)
  case (Cons c ids)
  note rm = remove_connection_spec(1,2) [OF Cons.prems surjective_pairing, of c]
  have eq: "(infos me cm)(c := None) |` (- set ids) = infos me cm |` (- set (c # ids))"
    by (auto simp: restrict_map_def fun_eq_iff)
  have "disconnect_all me (c # ids) cm = disconnect_all me ids (fst (remove_connection me c cm))"
    by (simp add: disconnect_all_def)
  then show ?case using Cons.IH [OF rm(1), unfolded rm(2) eq] by (simp only: simp_thms)
qed (simp add: disconnect_all_def restrict_map_def fun_eq_iff)

lemma disconnect_everyone:
  assumes inv: "cm_inv me k cm"
  shows "infos me (disconnect_all me (list_connections cm) cm) = Map.empty"
proof -
  have "set (list_connections cm) = dom (infos me cm)"
    using list_connections_set(1) [OF inv] by (auto simp: infos_def)
  then show ?thesis using disconnect_all_spec [OF inv] by (auto simp: restrict_map_def fun_eq_iff)
qed

lemma count_zero_iff:
  assumes "cm_inv me 0 cm"
  shows "cm_connection_count cm = 0 \<longleftrightarrow> infos me cm = Map.empty"
proof -
  have "finite (dom (lookup_conn me cm))" by (rule owner_dom(1) [OF assms])
  then have "card (dom (lookup_conn me cm)) = 0 \<longleftrightarrow> (\<forall>c. lookup_conn me cm c = None)" by (auto simp: fun_eq_iff)
  moreover have "cm_connection_count cm = 0 \<longleftrightarrow> unat (cm_connection_count cm) = 0" by (simp add: unat_eq_zero)
  ultimately show ?thesis using mgr_invD(4) [OF assms] by (simp add: infos_def fun_eq_iff)
qed

lemma grace_loop_spec:
  assumes "\<And>t. only_leaving me (\<lambda>cm. snd (se_pause se t cm))" and "\<And>t cm. fst (se_pause se t cm) \<le> late"
    and "cm_inv me 0 cm" and "now \<le> deadline + SHUTDOWN_POLL_INTERVAL + late" and "grace_loop se deadline now cm = (now', cm')"
  shows "cm_inv me 0 cm' \<and> now' \<le> deadline + SHUTDOWN_POLL_INTERVAL + late"
  using assms
proof (induction se deadline now cm rule: grace_loop.induct)
  case (1 se deadline now cm)
  obtain l cm1 where p: "se_pause se now cm = (l, cm1)" by fastforce
  have c: "cm_inv me 0 cm1" "l \<le> late"
    using 1(2) [of now] 1(3) [of now cm] 1(4) p by (auto simp: only_leaving_def)
  show ?case
  proof (cases "cm_connection_count cm > 0 \<and> now < deadline")
    case True
    then have "grace_loop se deadline (now + SHUTDOWN_POLL_INTERVAL + l) cm1 = (now', cm')"
      using 1(6) p by (simp add: grace_loop.simps [of se deadline now cm])
    then show ?thesis using 1(1) [OF True p [symmetric] 1(2,3) c(1)] True c(2) by simp
  next
    case False
    then have "grace_loop se deadline now cm = (now, cm)" by (subst grace_loop.simps) (simp only: if_False)
    then have "now' = now" "cm' = cm" using 1(6) by simp_all
    then show ?thesis using 1(4,5) by simp
  qed
qed

lemma closing_ends_fst: "map fst (closing_ends n start busy cs) = map fst cs"
  by (induction n start busy cs rule: closing_ends.induct) simp_all


lemma fold_max_le: "fold max xs (a::nat) \<le> b \<longleftrightarrow> a \<le> b \<and> (\<forall>x \<in> set xs. x \<le> b)"
  by (induction xs arbitrary: a) auto

lemma shutdown_within_spec:
  assumes inv: "cm_inv (xe_mgr xe) 0 cm"
    and w: "\<And>t. only_leaving (xe_mgr xe) (\<lambda>cm. snd (se_pause se t cm))" "only_leaving (xe_mgr xe) (se_meanwhile se)"
    and late: "\<And>t cm. fst (se_pause se t cm) \<le> late"
    and run: "shutdown_connections_within xe se grace budget now cm = (now', cm')"
  shows "cm_inv (xe_mgr xe) 0 cm' \<and> infos (xe_mgr xe) cm' = Map.empty \<and> cm_connection_count cm' = 0
    \<and> now' \<le> now + SHUTDOWN_BROADCAST_TIMEOUT + grace + SHUTDOWN_POLL_INTERVAL + late + budget"
proof (cases "cm_connection_count cm = 0")
  case True
  then show ?thesis using run inv count_zero_iff [OF inv] by (simp add: shutdown_connections_within_def)
next
  case False
  let ?me = "xe_mgr xe"
  define cm1 where "cm1 = broadcast_frame ?me (xe_codecs xe) now (\<lambda>_. xe_nonce xe)
      (fst (server_shutdown_close_frame (xe_stamp xe))) None cm"
  define now1 where "now1 = now + min (se_broadcast_time se) SHUTDOWN_BROADCAST_TIMEOUT"
  obtain now2 cm2 where g: "grace_loop se (now1 + grace) now1 cm1 = (now2, cm2)" by fastforce
  have "cm_inv ?me 0 cm1" unfolding cm1_def using broadcast_frame_keeps(1) [OF inv] by (simp add: keeps_but_def)
  from grace_loop_spec [OF w(1) late this _ g]
  have g2: "cm_inv ?me 0 cm2" "now2 \<le> now1 + grace + SHUTDOWN_POLL_INTERVAL + late" by simp_all
  define ends where "ends = closing_ends SHUTDOWN_CLOSE_CONCURRENCY now2 []
      (map (\<lambda>c. (c, closing_time ?me se cm2 c)) (list_connections cm2))"
  define closed where "closed = map fst (filter (\<lambda>(c, t). t \<le> now2 + budget) ends)"
  define cm3 where "cm3 = se_meanwhile se (disconnect_all ?me closed cm2)"
  have ids: "map fst ends = list_connections cm2" by (simp add: ends_def closing_ends_fst comp_def)
  have inv3: "cm_inv ?me 0 cm3" and dom3: "dom (infos ?me cm3) \<subseteq> dom (infos ?me (disconnect_all ?me closed cm2))"
    unfolding cm3_def using w(2) conjunct1 [OF disconnect_all_spec [OF g2(1)]] unfolding only_leaving_def by blast+
  have "shutdown_connections_within xe se grace budget now cm = (if list_all (\<lambda>(c, t). t \<le> now2 + budget) ends then (fold max (map snd ends) now2, cm3)
      else (now2 + budget, disconnect_all ?me (list_connections cm3) cm3))"
    unfolding shutdown_connections_within_def Let_def if_not_P [OF False] cm1_def [symmetric] now1_def [symmetric] g prod.case
      ends_def [symmetric] closed_def [symmetric] cm3_def [symmetric] by (rule refl)
  note r = trans [OF run [symmetric] this]
  have res: "cm_inv ?me 0 cm' \<and> infos ?me cm' = Map.empty \<and> now' \<le> now2 + budget"
  proof (cases "list_all (\<lambda>(c, t). t \<le> now2 + budget) ends")
    case True
    then have "filter (\<lambda>(c, t). t \<le> now2 + budget) ends = ends" by (simp add: list_all_iff)
    then have "closed = list_connections cm2" by (simp add: closed_def ids)
    then have "infos ?me cm3 = Map.empty" using dom3 disconnect_everyone [OF g2(1)] by simp
    moreover have "fold max (map snd ends) now2 \<le> now2 + budget"
      using True by (auto simp: fold_max_le list_all_iff)
    ultimately show ?thesis using r True inv3 by simp
  next
    case False
    then show ?thesis using r disconnect_everyone [OF inv3] disconnect_all_spec [OF inv3] by auto
  qed
  then show ?thesis using g2(2) count_zero_iff [of ?me cm'] by (auto simp: now1_def)
qed

text \<open>C23: A shutdown ends in bounded time with no connection left. If, once connections are no longer accepted,
  the rest of the server only takes connections out, then the shutdown returns with an empty
  connection table and a connection count of zero, however many connections never finish closing, and at the
  latest after the bound of the broadcast, the grace period, one poll with its lateness and the budget for closing.\<close>

theorem shutdown_terminates:
  assumes inv: "cm_inv (xe_mgr xe) 0 cm"
    and w: "\<And>t. only_leaving (xe_mgr xe) (\<lambda>cm. snd (se_pause se t cm))" "only_leaving (xe_mgr xe) (se_meanwhile se)"
    and late: "\<And>t cm. fst (se_pause se t cm) \<le> late"
    and run: "shutdown_connections_within xe se grace budget now cm = (now', cm')"
  shows "infos (xe_mgr xe) cm' = Map.empty \<and> cm_connection_count cm' = 0
    \<and> now' \<le> now + SHUTDOWN_BROADCAST_TIMEOUT + grace + SHUTDOWN_POLL_INTERVAL + late + budget"
  using shutdown_within_spec [OF inv w late run] by blast

section \<open>A set-up that fails late\<close>

text \<open>Without an event handler the set-up reports an error after it has registered the connection, which
  stays in the table without an observer, and counts against the limit, until the detector removes it.\<close>

theorem failed_setup_keeps_connection:
  assumes "cm_inv me k (sv_manager sv)" "infos me (sv_manager sv) cid = None"
    and "add_connection_with_limit me ck cid None (core_auth_enabled auth sv) (svc_max_connections cfg) (sv_manager sv) = (cm, Inr u)"
  shows "\<exists>e. setup_new_connection me display auth False cfg ck cid sv = (sv\<lparr>sv_manager := cm\<rparr>, Inl e)
    \<and> infos me cm cid \<noteq> None"
  using assms add_connection_with_limit_spec [OF assms(1,3)]
  by (auto simp: setup_new_connection_def split: if_splits)

section \<open>Examples\<close>

definition ex_detector :: heartbeat_detector where
  "ex_detector = fst (server_start_heartbeat server_config_default 0)"

theorem idle_connection_removed_witness:
  "\<exists>cm i task. detector_run ex_me (global_codecs ex_lib) 3 ex_detector 0 (\<lambda>_. Some (from_secs 1))
       (from_secs 100, task, Waiting 0, ([], 0, [], False, cm))
     \<and> infos ex_me cm ''a'' = Some i \<and> from_secs 100 \<le> ci_last_active i + from_secs 300 + from_secs 100 + from_secs 3"
proof -
  let ?run = "detector_run ex_me (global_codecs ex_lib) 3 ex_detector 0 (\<lambda>_. Some (from_secs 1))"
  let ?ck = "ex_clock\<lparr>ck_instant := 0\<rparr>"
  define m where "m = with_write_queue_limits 10 4 1"
  define task where "task = snd (detector_start 0 ex_detector)"
  define task' where "task' = fst (detector_tick ex_detector 0 task m)"
  have r0: "?run (0, task, Waiting 0, ([], 0, [], False, m))" unfolding task_def m_def by (rule detector_run.start)
  have none: "infos ex_me m c = None" for c
    by (simp add: m_def infos_def lookup_conn_def with_write_queue_limits_def CONNECTION_SHARD_COUNT_def)
  have "timeout_connection_snapshots 0 (hd_timeout ex_detector) m = []"
    by (simp add: m_def timeout_connection_snapshots_def scan_def with_write_queue_limits_def shards_empty_def)
  then have "detector_tick ex_detector 0 task m = (task', Removing 0 [])"
    by (simp add: task'_def detector_tick_def sweep_closings_def)
  then have "detector_step ex_me (global_codecs ex_lib) 3 ex_detector 0 (\<lambda>_. Some (from_secs 1))
      (0, task, Waiting 0, ([], 0, [], False, m)) (0, task', Removing 0 [], ([], 0, [], False, m))"
    by (intro detector_step.tick) (simp_all add: task_def detector_start_def)
  note r1 = detector_run.step [OF detector_run.step [OF r0 this] detector_step.swept]
  have inv: "cm_inv ex_me 0 m" by (simp add: m_def)
  obtain m2 where m2: "reserve_connection_slot 3 m = (m2, Inr ())"
    using count_zero_iff [OF inv] none by (auto simp: reserve_connection_slot_def fun_eq_iff)
  have r2: "?run (0, task', Waiting 0, ([] @ (''a'', None, False) # [], 0, [], False, m2))"
    using detector_run.step [OF r1 detector_step.manager [OF mgr_step.reserve [OF m2]]] by simp
  define m3 where "m3 = fst (register_reserved ex_me ?ck ''a'' None False m2)"
  have r3: "?run (0, task', Waiting 0, ([], 0, [], False, m3))"
    using detector_run.step [OF r2 detector_step.manager [OF mgr_step.register [where ck = ?ck]]] by (simp add: m3_def)
  have inv2: "cm_inv ex_me (Suc 0) m2" using reserve_inv [OF inv m2] by simp
  have "infos ex_me m2 c = None" for c using reserve_inv(2) [OF inv m2] none by simp
  then obtain i where i: "infos ex_me m3 ''a'' = Some i"
    using register_reserved_spec(2) [OF inv2 surjective_pairing, of ?ck "''a''" None False] by (simp add: m3_def)
  have cfg: "server_start_heartbeat server_config_default 0 = (ex_detector, task)"
    by (simp add: ex_detector_def task_def server_start_heartbeat_def detector_start_def)
  have "dt_next_tick task' = from_secs 100"
    by (simp add: task'_def task_def detector_tick_def detector_start_def ex_detector_def server_start_heartbeat_def detector_new_def
        check_interval_def server_config_default_def from_secs_def as_secs_def Let_def)
  then have r4: "?run (from_secs 100, task', Waiting 0, ([], 0, [], False, m3))"
    by (intro detector_run.step [OF r3 detector_step.pass]) simp_all
  from idle_connection_removed [OF cfg r4 _ i, of "from_secs 1"]
  have "from_secs 100 \<le> ci_last_active i + from_secs 300 + from_secs 100 + from_secs 3"
    by (simp add: server_config_default_def from_secs_def as_secs_def)
  with r4 i show ?thesis by blast
qed

definition ex_shutdown :: shutdown_env where
  "ex_shutdown = \<lparr>se_pause = (\<lambda>t cm. (0, cm)), se_broadcast_time = 0, se_close_time = (\<lambda>_. None), se_meanwhile = (\<lambda>cm. cm)\<rparr>"

theorem shutdown_terminates_witness:
  "\<exists>now' cm'. shutdown_connections_within ex_xe ex_shutdown (from_secs 1) (from_secs 5) 0 ex_mgr = (now', cm')
     \<and> infos ex_me cm' = Map.empty \<and> now' \<le> from_secs 8"
proof -
  obtain now' cm' where r: "shutdown_connections_within ex_xe ex_shutdown (from_secs 1) (from_secs 5) 0 ex_mgr = (now', cm')"
    by fastforce
  have inv: "cm_inv (xe_mgr ex_xe) 0 ex_mgr" using ex_mgr_inv by simp
  have w: "only_leaving (xe_mgr ex_xe) (\<lambda>cm. snd (se_pause ex_shutdown t cm))"
    "only_leaving (xe_mgr ex_xe) (se_meanwhile ex_shutdown)" "fst (se_pause ex_shutdown t cm) \<le> 0" for t cm
    by (simp_all add: only_leaving_def ex_shutdown_def)
  from shutdown_terminates [OF inv w(1,2,3) r] r show ?thesis
    by (simp add: from_secs_def from_millis_def SHUTDOWN_BROADCAST_TIMEOUT_def SHUTDOWN_POLL_INTERVAL_def)
qed

end
