(* ===== verification/ServerTransport.thy ===== *)
theory ServerTransport
  imports ServerLife
begin

text \<open>
  The servers of the three protocols (\<open>src/src/server/transports/{tcp,websocket,quic}.rs\<close>) and the server that runs
  several of them on one core (\<open>hybrid.rs\<close>).  Each start of a server opens an accept loop with a gate of its own; the loop
  hands a peer to a task that holds one of the permits of the loop.  A step of the loop is the work between two
  accesses to what it shares: the running flag, the gate, the listener.  What the sockets and the TLS library answer
  (addresses, binding, handshakes, streams) is an argument.
\<close>

section \<open>Accept loops\<close>

datatype loop_stage = LoopCheck | LoopSelect | LoopGateOpen | LoopEnded

text \<open>What \<open>accept\<close> yields; only a QUIC endpoint says that there are no more connections.\<close>

datatype accepted = AcceptedPeer nat | AcceptFailed | NoMoreConnections

datatype task_stage = Handshaking | AwaitingStream

record accept_loop =
  al_gate :: nat
  al_stage :: loop_stage
  al_permits :: nat
  al_tasks :: "(nat \<times> task_stage) list"

text \<open>A turn of the loop: the test of the running flag, then the biased selection, which polls the gate first and the
  listener after it.  A peer for which no permit is left is dropped.\<close>

definition loop_accept :: "accepted \<Rightarrow> accept_loop \<Rightarrow> accept_loop \<times> nat list" where
  "loop_accept a al =
     (case a of
        AcceptedPeer p \<Rightarrow>
          if al_permits al = 0 then (al\<lparr>al_stage := LoopCheck\<rparr>, [])
          else (al\<lparr>al_stage := LoopCheck, al_permits := al_permits al - 1, al_tasks := al_tasks al @ [(p, Handshaking)]\<rparr>, [p])
      | AcceptFailed \<Rightarrow> (al\<lparr>al_stage := LoopCheck\<rparr>, [])
      | NoMoreConnections \<Rightarrow> (al\<lparr>al_stage := LoopEnded\<rparr>, []))"

definition loop_step :: "bool \<Rightarrow> bool \<Rightarrow> accepted option \<Rightarrow> accept_loop \<Rightarrow> accept_loop \<times> nat list" where
  "loop_step running closed ready al =
     (case al_stage al of
        LoopCheck \<Rightarrow> (al\<lparr>al_stage := if running then LoopSelect else LoopEnded\<rparr>, [])
      | LoopSelect \<Rightarrow> (al\<lparr>al_stage := if closed then LoopEnded else LoopGateOpen\<rparr>, [])
      | LoopGateOpen \<Rightarrow>
          (case ready of
             None \<Rightarrow> (al\<lparr>al_stage := LoopSelect\<rparr>, [])
           | Some a \<Rightarrow> loop_accept a al)
      | LoopEnded \<Rightarrow> (al, []))"

section \<open>Tasks for accepted peers\<close>

text \<open>How a bounded wait for the peer ends.\<close>

datatype wait_outcome = WaitDone | WaitFailed | WaitTimedOut

record setup_env =
  su_mgr :: mgr_env
  su_display :: "flare_error \<Rightarrow> string"
  su_auth :: "authenticator option"
  su_handler :: bool

definition handle_tcp_connection ::
  "setup_env \<Rightarrow> server_config \<Rightarrow> clock \<Rightarrow> conn_id \<Rightarrow> server_core \<Rightarrow> server_core" where
  "handle_tcp_connection su cfg ck cid sv =
     fst (setup_new_connection (su_mgr su) (su_display su) (su_auth su) (su_handler su) cfg ck cid sv)"

definition handle_websocket_connection ::
  "setup_env \<Rightarrow> server_config \<Rightarrow> wait_outcome \<Rightarrow> clock \<Rightarrow> conn_id \<Rightarrow> server_core \<Rightarrow> server_core" where
  "handle_websocket_connection su cfg out ck cid sv =
     (case out of
        WaitDone \<Rightarrow> fst (setup_new_connection (su_mgr su) (su_display su) (su_auth su) (su_handler su) cfg ck cid sv)
      | _ \<Rightarrow> sv)"

text \<open>A QUIC connection: the limit is tested when the handshake is done, the set-up follows when the peer has opened a
  stream.  The text is the reason with which the connection is closed.\<close>

definition quic_handshaken :: "server_config \<Rightarrow> wait_outcome \<Rightarrow> server_core \<Rightarrow> task_stage option \<times> string option" where
  "quic_handshaken cfg out sv =
     (case out of
        WaitDone \<Rightarrow>
          if cm_connection_count (sv_manager sv) \<ge> svc_max_connections cfg then (None, Some ''limit exceeded'')
          else (Some AwaitingStream, None)
      | _ \<Rightarrow> (None, None))"

definition quic_stream_accepted ::
  "setup_env \<Rightarrow> server_config \<Rightarrow> wait_outcome \<Rightarrow> clock \<Rightarrow> conn_id \<Rightarrow> server_core \<Rightarrow> server_core \<times> string option" where
  "quic_stream_accepted su cfg out ck cid sv =
     (case out of
        WaitDone \<Rightarrow> (fst (setup_new_connection (su_mgr su) (su_display su) (su_auth su) (su_handler su) cfg ck cid sv), None)
      | WaitFailed \<Rightarrow> (sv, Some ''stream error'')
      | WaitTimedOut \<Rightarrow> (sv, Some ''stream timeout''))"

text \<open>A step of the task of a peer: the core, the next stage (none when the task ends) and the reason of a close.\<close>

definition task_step ::
  "transport_protocol \<Rightarrow> setup_env \<Rightarrow> server_config \<Rightarrow> wait_outcome \<Rightarrow> clock \<Rightarrow> conn_id \<Rightarrow> task_stage \<Rightarrow> server_core
   \<Rightarrow> server_core \<times> task_stage option \<times> string option" where
  "task_step p su cfg out ck cid stage sv =
     (case p of
        TCP \<Rightarrow> (handle_tcp_connection su cfg ck cid sv, None, None)
      | WebSocket \<Rightarrow> (handle_websocket_connection su cfg out ck cid sv, None, None)
      | QUIC \<Rightarrow>
          (case stage of
             Handshaking \<Rightarrow> (sv, quic_handshaken cfg out sv)
           | AwaitingStream \<Rightarrow> (case quic_stream_accepted su cfg out ck cid sv of (sv', r) \<Rightarrow> (sv', None, r))))"

text \<open>A task that ends gives its permit back.\<close>

definition loop_task_done :: "nat \<Rightarrow> task_stage option \<Rightarrow> accept_loop \<Rightarrow> accept_loop" where
  "loop_task_done k next al =
     (case next of
        None \<Rightarrow> al\<lparr>al_permits := al_permits al + 1, al_tasks := take k (al_tasks al) @ drop (Suc k) (al_tasks al)\<rparr>
      | Some s \<Rightarrow> al\<lparr>al_tasks := (al_tasks al)[k := (fst (al_tasks al ! k), s)]\<rparr>)"

section \<open>The servers\<close>

text \<open>What the servers of one core share: the core and the slot of its heartbeat detector.  An empty slot is a detector
  that was never started.  The gates of all starts so far are kept, closed or not; the endpoint fields are those of QUIC.\<close>

record server_shared =
  ss_core :: server_core
  ss_detector :: "heartbeat_detector \<times> detector_task"

record proto_server =
  ps_protocol :: transport_protocol
  ps_config :: server_config
  ps_running :: bool
  ps_gates :: "bool list"
  ps_gate :: nat
  ps_loops :: "accept_loop list"
  ps_closes :: "(nat \<times> string) list"
  ps_endpoint :: bool
  ps_running_endpoint :: bool
  ps_refusing :: bool
  ps_endpoint_closed :: bool

definition proto_server_new :: "transport_protocol \<Rightarrow> server_config \<Rightarrow> proto_server" where
  "proto_server_new p cfg =
     \<lparr>ps_protocol = p, ps_config = cfg, ps_running = False, ps_gates = [False], ps_gate = 0, ps_loops = [], ps_closes = [],
      ps_endpoint = (p = QUIC), ps_running_endpoint = False, ps_refusing = False, ps_endpoint_closed = False\<rparr>"

text \<open>What the system answers: the error text of parsing an address and of binding it, the certificate and the key, the
  error text of the QUIC configuration and of opening an endpoint.\<close>

record listen_env =
  le_parse :: "string \<Rightarrow> string option"
  le_bind :: "string \<Rightarrow> string option"
  le_cert :: "string + bytes"
  le_key :: "string + bytes"
  le_quic_config :: "bytes \<Rightarrow> bytes \<Rightarrow> string option"
  le_endpoint :: "string \<Rightarrow> string option"

text \<open>\<open>str::replace\<close> by the empty string.\<close>

function remove_all :: "string \<Rightarrow> string \<Rightarrow> string" where
  "remove_all pat [] = []"
| "remove_all pat (c # s) =
     (case strip_prefix pat (c # s) of
        Some r \<Rightarrow> if length r < length (c # s) then remove_all pat r else c # remove_all pat s
      | None \<Rightarrow> c # remove_all pat s)"
  by pat_completeness auto

termination remove_all
  by (relation "measure (\<lambda>(pat, s). length s)") auto

definition create_quic_endpoint :: "listen_env \<Rightarrow> server_config \<Rightarrow> unit result" where
  "create_quic_endpoint le cfg =
     (case le_cert le of
        Inl e \<Rightarrow> Inl (localized ProtocolError
          (byte_str [229, 138, 160, 232, 189, 189, 230, 156, 141, 229, 138, 161, 229, 153, 168, 232, 175, 129, 228, 185, 166,
             229, 164, 177, 232, 180, 165, 58, 32] @ e))
      | Inr cert \<Rightarrow>
      (case le_key le of
        Inl e \<Rightarrow> Inl (localized ProtocolError
          (byte_str [229, 138, 160, 232, 189, 189, 230, 156, 141, 229, 138, 161, 229, 153, 168, 231, 167, 129, 233, 146, 165,
             229, 164, 177, 232, 180, 165, 58, 32] @ e))
      | Inr key \<Rightarrow>
      if key = [] then Inl (localized ProtocolError (byte_str [231, 167, 129, 233, 146, 165, 228, 184, 186, 231, 169, 186]))
      else
      (case le_quic_config le cert key of
        Some e \<Rightarrow> Inl (localized ProtocolError
          (byte_str [229, 136, 155, 229, 187, 186, 32, 81, 85, 73, 67, 32, 230, 156, 141, 229, 138, 161, 231, 171, 175, 233, 133,
             141, 231, 189, 174, 229, 164, 177, 232, 180, 165, 58, 32] @ e))
      | None \<Rightarrow>
      (case le_parse le (get_protocol_address QUIC cfg) of
        Some e \<Rightarrow> Inl (localized ProtocolError (byte_str [230, 151, 160, 230, 149, 136, 229, 156, 176, 229, 157, 128, 58, 32] @ e))
      | None \<Rightarrow>
      (case le_endpoint le (get_protocol_address QUIC cfg) of
        Some e \<Rightarrow> Inl (localized ConnectionFailed
          (byte_str [229, 136, 155, 229, 187, 186, 32, 81, 85, 73, 67, 32, 231, 171, 175, 231, 130, 185, 229, 164, 177, 232, 180,
             165, 58, 32] @ e))
      | None \<Rightarrow> Inr ())))))"

text \<open>A server on a shared core; only that of QUIC can fail here.\<close>

definition with_shared_core :: "listen_env \<Rightarrow> transport_protocol \<Rightarrow> server_config \<Rightarrow> proto_server result" where
  "with_shared_core le p cfg =
     (if p = QUIC
      then (case create_quic_endpoint le cfg of Inl e \<Rightarrow> Inl e | Inr _ \<Rightarrow> Inr (proto_server_new p cfg))
      else Inr (proto_server_new p cfg))"

definition core_start_heartbeat :: "server_config \<Rightarrow> nat \<Rightarrow> server_shared \<Rightarrow> server_shared" where
  "core_start_heartbeat cfg now ss = ss\<lparr>ss_detector := server_start_heartbeat cfg now\<rparr>"

definition core_stop_heartbeat :: "server_shared \<Rightarrow> server_shared" where
  "core_stop_heartbeat ss = ss\<lparr>ss_detector := (case ss_detector ss of (det, task) \<Rightarrow> detector_stop det task)\<rparr>"

text \<open>A new gate and a new loop with its permits.\<close>

definition open_loop :: "proto_server \<Rightarrow> proto_server" where
  "open_loop ps =
     ps\<lparr>ps_gates := ps_gates ps @ [False], ps_gate := length (ps_gates ps),
        ps_loops := ps_loops ps @
          [\<lparr>al_gate = length (ps_gates ps), al_stage = LoopCheck,
            al_permits = max (svc_max_handshake_concurrency (ps_config ps)) 1, al_tasks = []\<rparr>]\<rparr>"

definition listen_start ::
  "listen_env \<Rightarrow> nat \<Rightarrow> string \<Rightarrow> proto_server \<times> server_shared \<Rightarrow> (proto_server \<times> server_shared) \<times> unit result" where
  "listen_start le now addr st =
     (case st of (ps, ss) \<Rightarrow>
      (case le_parse le addr of
         Some e \<Rightarrow> (st, Inl (localized ProtocolError (''Invalid address: '' @ e)))
       | None \<Rightarrow>
         (case le_bind le addr of
            Some e \<Rightarrow> (st, Inl (localized ConnectionFailed (''Failed to bind: '' @ e)))
          | None \<Rightarrow> ((open_loop (ps\<lparr>ps_running := True\<rparr>), core_start_heartbeat (ps_config ps) now ss), Inr ()))))"

definition tcp_start ::
  "listen_env \<Rightarrow> nat \<Rightarrow> proto_server \<times> server_shared \<Rightarrow> (proto_server \<times> server_shared) \<times> unit result" where
  "tcp_start le now st =
     listen_start le now (remove_all ''TCP://'' (remove_all ''tcp://'' (get_protocol_address TCP (ps_config (fst st))))) st"

definition websocket_start ::
  "listen_env \<Rightarrow> nat \<Rightarrow> proto_server \<times> server_shared \<Rightarrow> (proto_server \<times> server_shared) \<times> unit result" where
  "websocket_start le now st = listen_start le now (get_protocol_address WebSocket (ps_config (fst st))) st"

definition quic_start ::
  "nat \<Rightarrow> proto_server \<times> server_shared \<Rightarrow> (proto_server \<times> server_shared) \<times> unit result" where
  "quic_start now st =
     (case st of (ps, ss) \<Rightarrow>
      (let ps1 = ps\<lparr>ps_running := True\<rparr>; ss1 = core_start_heartbeat (ps_config ps) now ss
       in if ps_endpoint ps
          then ((open_loop (ps1\<lparr>ps_endpoint := False, ps_running_endpoint := True\<rparr>), ss1), Inr ())
          else ((ps1, ss1), Inl (localized ConnectionFailed
             (byte_str [231, 171, 175, 231, 130, 185, 230, 156, 170, 229, 136, 157, 229, 167, 139, 229, 140, 150])))))"

definition proto_start ::
  "listen_env \<Rightarrow> nat \<Rightarrow> proto_server \<times> server_shared \<Rightarrow> (proto_server \<times> server_shared) \<times> unit result" where
  "proto_start le now st =
     (case ps_protocol (fst st) of
        TCP \<Rightarrow> tcp_start le now st
      | WebSocket \<Rightarrow> websocket_start le now st
      | QUIC \<Rightarrow> quic_start now st)"

definition gate_close :: "proto_server \<Rightarrow> proto_server" where
  "gate_close ps = ps\<lparr>ps_gates := (ps_gates ps)[ps_gate ps := True]\<rparr>"

definition stop_accepting :: "proto_server \<Rightarrow> proto_server" where
  "stop_accepting ps =
     (if ps_protocol ps = QUIC \<and> ps_running_endpoint ps then (gate_close ps)\<lparr>ps_refusing := True\<rparr> else gate_close ps)"

text \<open>The error of \<open>stop_server\<close> is never one: stopping always succeeds.\<close>

definition proto_stop ::
  "connect_env \<Rightarrow> shutdown_env \<Rightarrow> nat \<Rightarrow> proto_server \<times> server_shared \<Rightarrow> nat \<times> proto_server \<times> server_shared" where
  "proto_stop xe se now st =
     (case st of (ps, ss) \<Rightarrow>
      (let ps1 = stop_accepting ps in
       case stop_server xe se (ps_config ps) now (ps_running ps1, ss_detector ss, sv_manager (ss_core ss)) of
         (now', running, det, cm) \<Rightarrow>
           (now',
            (if ps_protocol ps = QUIC \<and> ps_running_endpoint ps1
             then ps1\<lparr>ps_running := running, ps_running_endpoint := False, ps_endpoint_closed := True\<rparr>
             else ps1\<lparr>ps_running := running\<rparr>),
            ss\<lparr>ss_core := (ss_core ss)\<lparr>sv_manager := cm\<rparr>, ss_detector := det\<rparr>)))"

text \<open>A step of a loop and a step of a task, in the server.\<close>

definition server_loop_step :: "nat \<Rightarrow> accepted option \<Rightarrow> proto_server \<Rightarrow> proto_server \<times> nat list" where
  "server_loop_step i ready ps =
     (let al = ps_loops ps ! i in
      case loop_step (ps_running ps) (ps_gates ps ! al_gate al) ready al of
        (al', peers) \<Rightarrow> (ps\<lparr>ps_loops := (ps_loops ps)[i := al']\<rparr>, peers))"

definition server_task_step ::
  "setup_env \<Rightarrow> nat \<Rightarrow> nat \<Rightarrow> wait_outcome \<Rightarrow> clock \<Rightarrow> conn_id \<Rightarrow> proto_server \<times> server_shared
   \<Rightarrow> proto_server \<times> server_shared" where
  "server_task_step su i k out ck cid st =
     (case st of (ps, ss) \<Rightarrow>
      (let al = ps_loops ps ! i; (peer, stage) = al_tasks al ! k in
       case task_step (ps_protocol ps) su (ps_config ps) out ck cid stage (ss_core ss) of
         (sv, next, reason) \<Rightarrow>
           (ps\<lparr>ps_loops := (ps_loops ps)[i := loop_task_done k next al],
               ps_closes := ps_closes ps @ (case reason of None \<Rightarrow> [] | Some r \<Rightarrow> [(peer, r)])\<rparr>,
            ss\<lparr>ss_core := sv\<rparr>)))"

section \<open>Runs\<close>

text \<open>The loops and tasks of a server, its starts and stops and everything else that happens to the shared core, in any
  order; the trace lists the peers handed to a task, with the loop that accepted them.\<close>

inductive accept_run ::
  "setup_env \<Rightarrow> connect_env \<Rightarrow> proto_server \<times> server_shared \<Rightarrow> (nat \<times> nat) list \<Rightarrow> proto_server \<times> server_shared \<Rightarrow> bool"
  for su xe st
  where
    refl: "accept_run su xe st [] st"
  | start: "accept_run su xe st tr st1 \<Longrightarrow> accept_run su xe st tr (fst (proto_start le now st1))"
  | loop: "accept_run su xe st tr (ps, ss) \<Longrightarrow> i < length (ps_loops ps) \<Longrightarrow> server_loop_step i ready ps = (ps', peers)
      \<Longrightarrow> accept_run su xe st (tr @ map (Pair i) peers) (ps', ss)"
  | task: "accept_run su xe st tr (ps, ss) \<Longrightarrow> i < length (ps_loops ps) \<Longrightarrow> k < length (al_tasks (ps_loops ps ! i))
      \<Longrightarrow> accept_run su xe st tr (server_task_step su i k out ck cid (ps, ss))"
  | stop_accepting: "accept_run su xe st tr (ps, ss) \<Longrightarrow> accept_run su xe st tr (stop_accepting ps, ss)"
  | stop: "accept_run su xe st tr st1 \<Longrightarrow> accept_run su xe st tr (snd (proto_stop xe se now st1))"
  | others: "accept_run su xe st tr (ps, ss) \<Longrightarrow> accept_run su xe st tr (ps, ss')"


section \<open>Facts about the steps\<close>

text \<open>The permits of a loop and the tasks that hold one add up to the configured concurrency, and its gate exists.\<close>

definition loop_ok :: "nat \<Rightarrow> server_config \<Rightarrow> accept_loop \<Rightarrow> bool" where
  "loop_ok gates cfg al \<longleftrightarrow>
     al_gate al < gates \<and> al_permits al + length (al_tasks al) = max (svc_max_handshake_concurrency cfg) 1"

definition server_ok :: "server_config \<Rightarrow> proto_server \<Rightarrow> bool" where
  "server_ok cfg ps \<longleftrightarrow>
     ps_config ps = cfg \<and> ps_gate ps < length (ps_gates ps) \<and> list_all (loop_ok (length (ps_gates ps)) cfg) (ps_loops ps)"

lemma loop_ok_mono: "loop_ok g cfg al \<Longrightarrow> g \<le> h \<Longrightarrow> loop_ok h cfg al"
  by (simp add: loop_ok_def)

lemma loop_step_ok: "loop_ok g cfg al \<Longrightarrow> loop_step r c ready al = (al', peers) \<Longrightarrow> loop_ok g cfg al'"
  by (auto simp: loop_ok_def loop_step_def loop_accept_def split: loop_stage.splits option.splits accepted.splits if_splits)

lemma loop_step_gate: "loop_step r c ready al = (al', peers) \<Longrightarrow> al_gate al' = al_gate al"
  by (auto simp: loop_step_def loop_accept_def split: loop_stage.splits option.splits accepted.splits if_splits)

lemma loop_task_done_ok: "loop_ok g cfg al \<Longrightarrow> k < length (al_tasks al) \<Longrightarrow> loop_ok g cfg (loop_task_done k next al)"
  by (auto simp: loop_ok_def loop_task_done_def split: option.splits)

lemma loop_task_done_rest [simp]:
  "al_gate (loop_task_done k next al) = al_gate al" "al_stage (loop_task_done k next al) = al_stage al"
  by (simp_all add: loop_task_done_def split: option.splits)

text \<open>What a start does to the server: nothing to its gates and loops, or a new gate and a new loop behind it.\<close>

lemma proto_start_effect:
  assumes "proto_start le now (ps, ss) = ((ps', ss'), r)"
  shows "ps_config ps' = ps_config ps
    \<and> (ps_gates ps' = ps_gates ps \<and> ps_gate ps' = ps_gate ps \<and> ps_loops ps' = ps_loops ps
       \<or> ps_gates ps' = ps_gates ps @ [False] \<and> ps_gate ps' = length (ps_gates ps)
         \<and> ps_loops ps' = ps_loops ps @ [\<lparr>al_gate = length (ps_gates ps), al_stage = LoopCheck,
             al_permits = max (svc_max_handshake_concurrency (ps_config ps)) 1, al_tasks = []\<rparr>])"
proof (cases "ps_protocol ps")
  case QUIC
  then show ?thesis using assms by (auto simp: proto_start_def quic_start_def open_loop_def Let_def split: if_splits)
qed (use assms in \<open>auto simp: proto_start_def tcp_start_def websocket_start_def listen_start_def open_loop_def split: option.splits\<close>)

lemma proto_stop_effect:
  assumes "proto_stop xe se now (ps, ss) = (now', ps', ss')"
  shows "ps_config ps' = ps_config ps" "ps_gates ps' = (ps_gates ps)[ps_gate ps := True]" "ps_gate ps' = ps_gate ps"
    and "ps_loops ps' = ps_loops ps" "\<not> ps_running ps'" "ps_protocol ps' = ps_protocol ps"
    and "shutdown_connections xe se (svc_shutdown_close_grace (ps_config ps)) now (sv_manager (ss_core ss)) =
      (now', sv_manager (ss_core ss'))"
    and "ss_core ss' = (ss_core ss)\<lparr>sv_manager := sv_manager (ss_core ss')\<rparr>"
    and "ss_detector ss' = (case ss_detector ss of (det, task) \<Rightarrow> detector_stop det task)"
  using assms
  by (auto simp: proto_stop_def Let_def stop_accepting_def gate_close_def stop_server_def split: prod.splits if_splits)

lemma stop_accepting_rest [simp]:
  "ps_config (stop_accepting ps) = ps_config ps" "ps_gates (stop_accepting ps) = (ps_gates ps)[ps_gate ps := True]"
  "ps_gate (stop_accepting ps) = ps_gate ps" "ps_loops (stop_accepting ps) = ps_loops ps"
  by (simp_all add: stop_accepting_def gate_close_def)

lemma server_loop_step_effect:
  assumes "server_loop_step i ready ps = (ps', peers)"
  obtains al where "ps' = ps\<lparr>ps_loops := (ps_loops ps)[i := al]\<rparr>"
    and "loop_step (ps_running ps) (ps_gates ps ! al_gate (ps_loops ps ! i)) ready (ps_loops ps ! i) = (al, peers)"
  using assms by (auto simp: server_loop_step_def Let_def split: prod.splits)

lemma server_task_step_effect:
  assumes "server_task_step su i k out ck cid (ps, ss) = (ps', ss')"
  obtains nx closes where "ps' = ps\<lparr>ps_loops := (ps_loops ps)[i := loop_task_done k nx (ps_loops ps ! i)], ps_closes := closes\<rparr>"
  using assms by (auto simp: server_task_step_def Let_def split: prod.splits)

section \<open>The number of handshakes\<close>

lemma server_ok_update:
  "server_ok cfg ps \<Longrightarrow> loop_ok (length (ps_gates ps)) cfg al \<Longrightarrow>
   server_ok cfg (ps\<lparr>ps_loops := (ps_loops ps)[i := al], ps_closes := cs\<rparr>)"
  unfolding server_ok_def list_all_iff using set_update_subset_insert [of "ps_loops ps" i al] by auto

lemma server_ok_nth: "server_ok cfg ps \<Longrightarrow> i < length (ps_loops ps) \<Longrightarrow> loop_ok (length (ps_gates ps)) cfg (ps_loops ps ! i)"
  by (simp add: server_ok_def list_all_length)

lemma accept_run_ok: "accept_run su xe st tr st' \<Longrightarrow> server_ok cfg (fst st) \<Longrightarrow> server_ok cfg (fst st')"
proof (induction rule: accept_run.induct)
  case (start tr st1 le now)
  obtain ps ss where st1: "st1 = (ps, ss)" by fastforce
  obtain ps' ss' r where s: "proto_start le now st1 = ((ps', ss'), r)" by (metis surj_pair)
  from proto_start_effect [OF s [unfolded st1]] start s st1 show ?case
    by (auto simp: server_ok_def list_all_iff loop_ok_def less_Suc_eq)
next
  case (loop tr ps ss i ready ps' peers)
  from loop.hyps(3) obtain al where al: "ps' = ps\<lparr>ps_loops := (ps_loops ps)[i := al]\<rparr>"
    and "loop_step (ps_running ps) (ps_gates ps ! al_gate (ps_loops ps ! i)) ready (ps_loops ps ! i) = (al, peers)"
    by (rule server_loop_step_effect)
  then have "loop_ok (length (ps_gates ps)) cfg al"
    using server_ok_nth [of cfg ps i] loop loop_step_ok by auto
  with server_ok_update [of cfg ps al "ps_closes ps" i] loop al show ?case by simp
next
  case (task tr ps ss i k out ck cid)
  obtain ps' ss' where s: "server_task_step su i k out ck cid (ps, ss) = (ps', ss')" by fastforce
  from server_task_step_effect [OF s] obtain nx cs
    where "ps' = ps\<lparr>ps_loops := (ps_loops ps)[i := loop_task_done k nx (ps_loops ps ! i)], ps_closes := cs\<rparr>" .
  then show ?case using s task server_ok_nth [of cfg ps i] by (simp add: server_ok_update loop_task_done_ok)
next
  case (stop tr st1 se now)
  obtain ps ss where st1: "st1 = (ps, ss)" by fastforce
  obtain now' ps' ss' where s: "proto_stop xe se now st1 = (now', ps', ss')" by (metis surj_pair)
  from proto_stop_effect [OF s [unfolded st1]] stop s st1 show ?case by (simp add: server_ok_def)
qed (simp_all add: server_ok_def)

text \<open>The handshakes of an accept loop are limited.  In every run of a server of any protocol, however its loops, tasks,
  starts and stops interleave, each accept loop has at most as many tasks under way as the configuration allows
  handshakes (one if it allows none), and the permits it has left are exactly those not held by a task.\<close>

theorem handshakes_bounded:
  assumes run: "accept_run su xe (proto_server_new p cfg, ss) tr (ps, ss')" and i: "i < length (ps_loops ps)"
  shows "length (al_tasks (ps_loops ps ! i)) \<le> max (svc_max_handshake_concurrency cfg) 1
    \<and> al_permits (ps_loops ps ! i) = max (svc_max_handshake_concurrency cfg) 1 - length (al_tasks (ps_loops ps ! i))"
proof -
  have "server_ok cfg (proto_server_new p cfg)" by (simp add: server_ok_def proto_server_new_def)
  then have "server_ok cfg ps" using accept_run_ok [OF run] by simp
  from server_ok_nth [OF this i] show ?thesis by (auto simp: loop_ok_def)
qed

section \<open>The gate\<close>

text \<open>How many peers a loop with a closed gate can still accept: one, when it has polled the gate before.\<close>

definition admits :: "accept_loop \<Rightarrow> nat" where
  "admits al = (if al_stage al = LoopGateOpen then 1 else 0)"

lemma loop_step_admits:
  "loop_step r True ready al = (al', peers) \<Longrightarrow> length peers + admits al' \<le> admits al"
  by (auto simp: admits_def loop_step_def loop_accept_def split: loop_stage.splits option.splits accepted.splits if_splits)

definition gate_shut :: "nat \<Rightarrow> proto_server \<Rightarrow> bool" where
  "gate_shut i ps \<longleftrightarrow> i < length (ps_loops ps) \<and> al_gate (ps_loops ps ! i) < length (ps_gates ps)
     \<and> ps_gates ps ! al_gate (ps_loops ps ! i)"

lemma shut_update: "gate_shut i ps \<Longrightarrow> ps_gates ps' = (ps_gates ps)[g := True]
  \<Longrightarrow> ps_loops ps' = ps_loops ps \<Longrightarrow> gate_shut i ps'"
  by (cases "g = al_gate (ps_loops ps ! i)") (simp_all add: gate_shut_def)

lemma accept_run_shut:
  assumes "accept_run su xe st tr st'" and "gate_shut i (fst st)"
  shows "gate_shut i (fst st')
    \<and> length (filter (\<lambda>(j, p). j = i) tr) + admits (ps_loops (fst st') ! i) \<le> admits (ps_loops (fst st) ! i)"
  using assms
proof (induction rule: accept_run.induct)
  case (start tr st1 le now)
  obtain ps ss where st1: "st1 = (ps, ss)" by fastforce
  obtain ps' ss' r where s: "proto_start le now st1 = ((ps', ss'), r)" by (metis surj_pair)
  from proto_start_effect [OF s [unfolded st1]] start s st1 show ?case
    by (auto simp: gate_shut_def nth_append)
next
  case (loop tr ps ss j ready ps' peers)
  from loop.hyps(3) obtain al where al: "ps' = ps\<lparr>ps_loops := (ps_loops ps)[j := al]\<rparr>"
    and l: "loop_step (ps_running ps) (ps_gates ps ! al_gate (ps_loops ps ! j)) ready (ps_loops ps ! j) = (al, peers)"
    by (rule server_loop_step_effect)
  have IH: "gate_shut i ps"
    "length (filter (\<lambda>(j, p). j = i) tr) + admits (ps_loops ps ! i) \<le> admits (ps_loops (fst st) ! i)"
    using loop by simp_all
  show ?case
  proof (cases "j = i")
    case True
    then have "length peers + admits al \<le> admits (ps_loops ps ! i)"
      using IH(1) l loop_step_admits by (auto simp: gate_shut_def)
    moreover have "filter (\<lambda>(j, p). j = i) (map (Pair j) peers) = map (Pair j) peers" using True by simp
    ultimately show ?thesis using True IH al loop_step_gate [OF l] loop.hyps(2) by (simp add: gate_shut_def)
  next
    case False
    then have "filter (\<lambda>(j, p). j = i) (map (Pair j) peers) = []" by simp
    then show ?thesis using False IH al loop.hyps(2) by (simp add: gate_shut_def)
  qed
next
  case (task tr ps ss j k out ck cid)
  obtain ps' ss' where s: "server_task_step su j k out ck cid (ps, ss) = (ps', ss')" by fastforce
  from server_task_step_effect [OF s] obtain nx cs
    where "ps' = ps\<lparr>ps_loops := (ps_loops ps)[j := loop_task_done k nx (ps_loops ps ! j)], ps_closes := cs\<rparr>" .
  then show ?case using s task by (cases "i = j") (simp_all add: gate_shut_def admits_def)
next
  case (stop tr st1 se now)
  obtain ps ss where st1: "st1 = (ps, ss)" by fastforce
  obtain now' ps' ss' where s: "proto_stop xe se now st1 = (now', ps', ss')" by (metis surj_pair)
  note e = proto_stop_effect [OF s [unfolded st1]]
  from stop s st1 e(4) shut_update [OF _ e(2,4), of i] show ?case by simp
next
  case (stop_accepting tr ps ss)
  from stop_accepting shut_update [of i ps "stop_accepting ps" "ps_gate ps"] show ?case by simp
qed simp_all

text \<open>C38: A closed gate admits nobody.  From the moment the gate of an accept loop is closed, and whatever else happens, later
  starts included, the loop hands no further peer to a task, except for one it was just about to accept, having polled
  the gate while it was open; and the gate stays closed.\<close>

theorem closed_gate_admits_nobody:
  assumes run: "accept_run su xe (ps, ss) tr (ps', ss')"
    and i: "i < length (ps_loops ps)" "al_gate (ps_loops ps ! i) < length (ps_gates ps)"
    and closed: "ps_gates ps ! al_gate (ps_loops ps ! i)"
  shows "length (filter (\<lambda>(j, p). j = i) tr) \<le> (if al_stage (ps_loops ps ! i) = LoopGateOpen then 1 else 0)
    \<and> i < length (ps_loops ps') \<and> ps_gates ps' ! al_gate (ps_loops ps' ! i)"
  using accept_run_shut [OF run, of i] i closed by (auto simp: gate_shut_def admits_def)

text \<open>Three steps of its own end a loop with a closed gate, even if the server runs.\<close>

lemma closed_loop_ends:
  "al_stage (fst (loop_step r3 True a3 (fst (loop_step r2 True a2 (fst (loop_step r1 True a1 al)))))) = LoopEnded"
  by (auto simp: loop_step_def loop_accept_def split: loop_stage.splits option.splits accepted.splits)

section \<open>Stopping\<close>



text \<open>The QUIC endpoint is taken by the first start, so that a stopped QUIC server cannot be started again; the failed start
  leaves it marked as running, with a heartbeat detector and no accept loop.\<close>

theorem quic_restart_fails:
  assumes first: "quic_start now (ps, ss) = ((ps1, ss1), Inr ())"
    and stop: "proto_stop xe se t (ps1, ss1) = (t', ps2, ss2)"
  shows "\<exists>e ps3 ss3. quic_start now2 (ps2, ss2) = ((ps3, ss3), Inl e) \<and> ps_running ps3
    \<and> dt_running (snd (ss_detector ss3)) \<and> ps_loops ps3 = ps_loops ps2"
proof -
  have "\<not> ps_endpoint ps1" using first by (auto simp: quic_start_def open_loop_def Let_def split: if_splits)
  then have "\<not> ps_endpoint ps2"
    using stop by (auto simp: proto_stop_def Let_def stop_accepting_def gate_close_def split: prod.splits if_splits)
  then show ?thesis
    by (simp add: quic_start_def Let_def core_start_heartbeat_def server_start_heartbeat_def detector_start_def)
qed

section \<open>Several protocols on one core\<close>

record hybrid_server =
  hs_servers :: "proto_server list"
  hs_protocols :: "transport_protocol list"
  hs_running :: bool
  hs_shared :: server_shared
  hs_config :: server_config

definition server_core_new :: "server_config \<Rightarrow> conn_manager option \<Rightarrow> server_core" where
  "server_core_new cfg manager =
     \<lparr>sv_manager = (case manager of Some cm \<Rightarrow> cm | None \<Rightarrow> with_limits (svc_write_timeout cfg) (svc_fanout_concurrency cfg)),
      sv_devices = None,
      sv_defaults = \<lparr>nd_format = svc_default_serialization_format cfg, nd_compression = svc_default_compression cfg,
        nd_encryption = svc_default_encryption cfg\<rparr>,
      sv_auth_enabled = svc_auth_enabled cfg, sv_middlewares = [], sv_processors = [],
      sv_pipeline_cache = Map.empty, sv_pipelines = Map.empty, sv_next_pipeline = 0, sv_writes = []\<rparr>"

definition final_device_manager :: "device_manager option \<Rightarrow> server_config \<Rightarrow> device_manager option" where
  "final_device_manager dm cfg =
     (case dm of
        Some d \<Rightarrow> Some d
      | None \<Rightarrow> if svc_device_conflict_strategy cfg \<noteq> AllowAll
                then Some (device_manager_new (svc_device_conflict_strategy cfg)) else None)"

definition protocol_config :: "server_config \<Rightarrow> transport_protocol \<Rightarrow> server_config" where
  "protocol_config cfg p =
     cfg\<lparr>svc_transport := p, svc_transports := None, svc_bind_address := get_protocol_address p cfg\<rparr>"

text \<open>The servers of the protocols: one that cannot be created ends the construction, except QUIC beside WebSocket.
  The three protocols are compiled in.\<close>

fun hybrid_servers ::
  "listen_env \<Rightarrow> server_config \<Rightarrow> bool \<Rightarrow> transport_protocol list \<Rightarrow> (proto_server list \<times> transport_protocol list) result" where
  "hybrid_servers le cfg has_websocket [] = Inr ([], [])"
| "hybrid_servers le cfg has_websocket (p # ps) =
     (case with_shared_core le p (protocol_config cfg p) of
        Inr s \<Rightarrow>
          (case hybrid_servers le cfg has_websocket ps of
             Inr (ss, qs) \<Rightarrow> Inr (s # ss, p # qs)
           | Inl e \<Rightarrow> Inl e)
      | Inl e \<Rightarrow> if p = QUIC \<and> has_websocket then hybrid_servers le cfg has_websocket ps else Inl e)"

text \<open>The middlewares and processors are added in a blocking section, which needs a runtime; the event handler and the
  authenticator are part of the environment of the calls.\<close>

definition hybrid_server_new ::
  "listen_env \<Rightarrow> bool \<Rightarrow> (flare_error \<Rightarrow> string) \<Rightarrow> server_config \<Rightarrow> conn_manager option \<Rightarrow> device_manager option
   \<Rightarrow> nat list \<Rightarrow> nat list \<Rightarrow> hybrid_server result" where
  "hybrid_server_new le runtime display cfg manager dm middlewares processors =
     (let core0 = (server_core_new cfg manager)\<lparr>sv_devices := final_device_manager dm cfg\<rparr>;
          core = fold core_add_processor processors (fold core_add_middleware middlewares core0)
      in if (middlewares \<noteq> [] \<or> processors \<noteq> []) \<and> \<not> runtime
         then Inl (localized GeneralError
           (''Failed to add middlewares/processors: '' @ display (localized GeneralError ''Tokio runtime not available'')))
         else
           (case hybrid_servers le cfg (WebSocket \<in> set (svc_get_protocols cfg)) (svc_get_protocols cfg) of
              Inl e \<Rightarrow> Inl e
            | Inr (servers, protocols) \<Rightarrow>
                if protocols = [] then Inl (localized ConnectionFailed ''No transport servers could be started'')
                else Inr \<lparr>hs_servers = servers, hs_protocols = protocols, hs_running = False,
                          hs_shared = \<lparr>ss_core = core, ss_detector =
                            (detector_new 0 0, \<lparr>dt_next_tick = 0, dt_stop = False, dt_running = False\<rparr>)\<rparr>,
                          hs_config = cfg\<rparr>))"

fun start_servers ::
  "listen_env \<Rightarrow> nat \<Rightarrow> proto_server list \<Rightarrow> server_shared \<Rightarrow> proto_server list \<times> server_shared \<times> nat \<times> flare_error list" where
  "start_servers le now [] ss = ([], ss, 0, [])"
| "start_servers le now (s # servers) ss =
     (case proto_start le now (s, ss) of
        ((s', ss1), r) \<Rightarrow>
          (case start_servers le now servers ss1 of
             (servers', ss', n, errs) \<Rightarrow>
               (s' # servers', ss',
                (case r of Inr _ \<Rightarrow> Suc n | Inl _ \<Rightarrow> n), (case r of Inr _ \<Rightarrow> errs | Inl e \<Rightarrow> e # errs))))"

definition hybrid_start :: "listen_env \<Rightarrow> nat \<Rightarrow> hybrid_server \<Rightarrow> hybrid_server \<times> unit result" where
  "hybrid_start le now h =
     (case start_servers le now (hs_servers h) (core_start_heartbeat (hs_config h) now (hs_shared h)) of
        (servers, ss, started, errors) \<Rightarrow>
          (let h1 = h\<lparr>hs_servers := servers, hs_shared := ss\<rparr> in
           if started = 0 \<and> errors \<noteq> [] then (h1\<lparr>hs_running := False\<rparr>, Inl (hd errors))
           else (if started > 0 then h1\<lparr>hs_running := True\<rparr> else h1, Inr ())))"

fun stop_servers ::
  "connect_env \<Rightarrow> shutdown_env \<Rightarrow> nat \<Rightarrow> proto_server list \<Rightarrow> server_shared \<Rightarrow> nat \<times> proto_server list \<times> server_shared" where
  "stop_servers xe se now [] ss = (now, [], ss)"
| "stop_servers xe se now (s # servers) ss =
     (case proto_stop xe se now (s, ss) of
        (now1, s', ss1) \<Rightarrow>
          (case stop_servers xe se now1 servers ss1 of (now', servers', ss') \<Rightarrow> (now', s' # servers', ss')))"

definition hybrid_stop ::
  "connect_env \<Rightarrow> shutdown_env \<Rightarrow> nat \<Rightarrow> hybrid_server \<Rightarrow> nat \<times> hybrid_server \<times> unit result" where
  "hybrid_stop xe se now h =
     (let ss0 = core_stop_heartbeat (hs_shared h);
          shut = map stop_accepting (hs_servers h)
      in case shutdown_connections xe se (svc_shutdown_close_grace (hs_config h)) now (sv_manager (ss_core ss0)) of
           (now1, cm) \<Rightarrow>
             (case stop_servers xe se now1 shut (ss0\<lparr>ss_core := (ss_core ss0)\<lparr>sv_manager := cm\<rparr>\<rparr>) of
                (now', servers, ss) \<Rightarrow>
                  (now', h\<lparr>hs_running := False, hs_servers := servers, hs_shared := ss\<rparr>, Inr ())))"

text \<open>Which protocols a constructed server has: all that were asked for, but for QUIC when it cannot be created and
  WebSocket was asked for.\<close>

lemma hybrid_servers_spec:
  "hybrid_servers le cfg ws ps = Inr (servers, qs) \<Longrightarrow>
     qs = filter (\<lambda>p. \<exists>s. with_shared_core le p (protocol_config cfg p) = Inr s) ps
     \<and> (\<forall>p. p \<in> set ps \<longrightarrow> p \<notin> set qs \<longrightarrow> p = QUIC \<and> ws) \<and> map ps_protocol servers = qs"
proof (induction ps arbitrary: servers qs)
  case (Cons p ps)
  have proto: "with_shared_core le q c = Inr s \<Longrightarrow> ps_protocol s = q" for q c s
    by (auto simp: with_shared_core_def proto_server_new_def split: if_splits sum.splits)
  show ?case
  proof (cases "with_shared_core le p (protocol_config cfg p)")
    case (Inl e)
    then show ?thesis using Cons.IH [of servers qs] Cons.prems by (auto split: if_splits)
  next
    case (Inr s)
    then obtain ss rs where r: "hybrid_servers le cfg ws ps = Inr (ss, rs)" "servers = s # ss" "qs = p # rs"
      using Cons.prems by (auto split: sum.splits)
    then show ?thesis using Cons.IH [OF r(1)] Inr proto [OF Inr] by auto
  qed
qed simp

text \<open>A server that is constructed listens on every protocol asked for, with the sole exception of QUIC, which may be missing
  when it cannot be opened and WebSocket is there; it has at least one.\<close>

theorem hybrid_protocols:
  assumes "hybrid_server_new le runtime display cfg manager dm ms ps = Inr h"
  shows "hs_protocols h \<noteq> [] \<and> map ps_protocol (hs_servers h) = hs_protocols h
    \<and> (\<forall>p. p \<in> set (svc_get_protocols cfg) \<longrightarrow> p \<notin> set (hs_protocols h) \<longrightarrow>
         p = QUIC \<and> WebSocket \<in> set (hs_protocols h))"
proof -
  have ws: "with_shared_core le WebSocket c = Inr (proto_server_new WebSocket c)" for c by (simp add: with_shared_core_def)
  from assms obtain servers qs
    where s: "hybrid_servers le cfg (WebSocket \<in> set (svc_get_protocols cfg)) (svc_get_protocols cfg) = Inr (servers, qs)"
      and h: "hs_protocols h = qs" "hs_servers h = servers" "qs \<noteq> []"
    by (auto simp: hybrid_server_new_def Let_def split: if_splits sum.splits)
  from hybrid_servers_spec [OF s] h ws show ?thesis by auto
qed

text \<open>The result of a start: it fails only when every server failed, with the first error; the heartbeat detector it started
  runs in either case.\<close>

lemma core_start_heartbeat_runs: "dt_running (snd (ss_detector (core_start_heartbeat cfg now ss)))"
  by (simp add: core_start_heartbeat_def server_start_heartbeat_def detector_start_def)

lemma proto_start_detector:
  "dt_running (snd (ss_detector ss)) \<Longrightarrow> proto_start le now (ps, ss) = ((ps', ss'), r) \<Longrightarrow> dt_running (snd (ss_detector ss'))"
  using core_start_heartbeat_runs [of "ps_config ps" now ss]
  by (cases "ps_protocol ps")
     (auto simp: proto_start_def tcp_start_def websocket_start_def quic_start_def listen_start_def Let_def
       split: option.splits if_splits)

lemma start_servers_spec:
  "start_servers le now servers ss = (servers', ss', n, errs) \<Longrightarrow> dt_running (snd (ss_detector ss)) \<Longrightarrow>
     n + length errs = length servers \<and> dt_running (snd (ss_detector ss'))"
proof (induction servers arbitrary: ss servers' n errs)
  case (Cons s servers)
  obtain s' ss1 r where p: "proto_start le now (s, ss) = ((s', ss1), r)" by (metis surj_pair)
  obtain servers'' ss'' m es where q: "start_servers le now servers ss1 = (servers'', ss'', m, es)" by (metis surj_pair)
  from Cons.IH [of ss1] q Cons.prems p proto_start_detector [OF Cons.prems(2) p] show ?case by (auto split: sum.splits)
qed simp

theorem hybrid_start_result:
  assumes start: "hybrid_start le now h = (h', r)" and some: "hs_servers h \<noteq> []"
  shows "dt_running (snd (ss_detector (hs_shared h')))"
    and "hs_running h' \<longleftrightarrow> r = Inr ()"
    and "r = Inr () \<longleftrightarrow> fst (snd (snd (start_servers le now (hs_servers h) (core_start_heartbeat (hs_config h) now (hs_shared h))))) > 0"
proof -
  obtain servers ss n errs where s: "start_servers le now (hs_servers h) (core_start_heartbeat (hs_config h) now (hs_shared h))
      = (servers, ss, n, errs)" by (metis surj_pair)
  note spec = start_servers_spec [OF s core_start_heartbeat_runs]
  then have "errs = [] \<Longrightarrow> n > 0" using some by (cases "hs_servers h") auto
  with spec start s show "dt_running (snd (ss_detector (hs_shared h')))" "hs_running h' \<longleftrightarrow> r = Inr ()"
    "r = Inr () \<longleftrightarrow> fst (snd (snd (start_servers le now (hs_servers h) (core_start_heartbeat (hs_config h) now (hs_shared h))))) > 0"
    by (auto simp: hybrid_start_def Let_def split: if_splits)
qed

text \<open>Stopping the servers of an empty core takes no time.\<close>

lemma stop_servers_empty:
  assumes "stop_servers xe se now servers ss = (now', servers', ss')"
    and "cm_inv (xe_mgr xe) 0 (sv_manager (ss_core ss))" "infos (xe_mgr xe) (sv_manager (ss_core ss)) = Map.empty"
  shows "now' = now \<and> sv_manager (ss_core ss') = sv_manager (ss_core ss) \<and> list_all (\<lambda>s. \<not> ps_running s) servers'
    \<and> map ps_loops servers' = map ps_loops servers
    \<and> map ps_gates servers' = map (\<lambda>s. (ps_gates s)[ps_gate s := True]) servers"
  using assms
proof (induction servers arbitrary: now ss servers' now' ss')
  case (Cons s servers)
  obtain now1 s' ss1 where p: "proto_stop xe se now (s, ss) = (now1, s', ss1)" by (metis surj_pair)
  note e = proto_stop_effect [OF p]
  have cm: "now1 = now" "sv_manager (ss_core ss1) = sv_manager (ss_core ss)"
    using e(7) count_zero_iff [OF Cons.prems(2)] Cons.prems(3)
    by (auto simp: shutdown_connections_def shutdown_connections_within_def)
  obtain now2 servers2 ss2 where q: "stop_servers xe se now1 servers ss1 = (now2, servers2, ss2)" by (metis surj_pair)
  from Cons.IH [OF q] cm Cons.prems p q e(2,4,5) show ?case by auto
qed simp

text \<open>Stopping a server of several protocols takes the time of one shutdown.  If the rest of the program only takes
  connections out meanwhile, the stop ends with an empty connection table, no server running and every gate closed, and
  at the latest after the bound of a single shutdown, however many protocols there are: the gates are closed first, the
  connections of all protocols are shut down together, and the servers find nothing left to wait for.\<close>

theorem hybrid_stop_bounded:
  assumes stop: "hybrid_stop xe se now h = (now', h', r)"
    and inv: "cm_inv (xe_mgr xe) 0 (sv_manager (ss_core (hs_shared h)))"
    and w: "\<And>t. only_leaving (xe_mgr xe) (\<lambda>cm. snd (se_pause se t cm))" "only_leaving (xe_mgr xe) (se_meanwhile se)"
    and late: "\<And>t cm. fst (se_pause se t cm) \<le> late"
    and gates: "list_all (\<lambda>s. ps_gate s < length (ps_gates s)) (hs_servers h)"
  shows "infos (xe_mgr xe) (sv_manager (ss_core (hs_shared h'))) = Map.empty
    \<and> list_all (\<lambda>s. \<not> ps_running s) (hs_servers h') \<and> \<not> hs_running h'
    \<and> list_all2 (\<lambda>s s'. ps_loops s' = ps_loops s \<and> ps_gates s' ! ps_gate s) (hs_servers h) (hs_servers h')
    \<and> now' \<le> now + SHUTDOWN_BROADCAST_TIMEOUT + svc_shutdown_close_grace (hs_config h) + SHUTDOWN_POLL_INTERVAL + late
        + SHUTDOWN_FORCE_CLOSE_BUDGET"
proof -
  let ?ss = "core_stop_heartbeat (hs_shared h)"
  have core: "ss_core ?ss = ss_core (hs_shared h)" by (simp add: core_stop_heartbeat_def)
  obtain now1 cm where sh: "shutdown_connections xe se (svc_shutdown_close_grace (hs_config h)) now (sv_manager (ss_core ?ss)) = (now1, cm)"
    by fastforce
  let ?ss1 = "?ss\<lparr>ss_core := (ss_core ?ss)\<lparr>sv_manager := cm\<rparr>\<rparr>" and ?shut = "map stop_accepting (hs_servers h)"
  obtain now2 servers ss where ser: "stop_servers xe se now1 ?shut ?ss1 = (now2, servers, ss)"
    by (metis surj_pair)
  have res: "now' = now2" "h' = h\<lparr>hs_running := False, hs_servers := servers, hs_shared := ss\<rparr>"
    using stop sh ser by (auto simp: hybrid_stop_def Let_def)
  note emptied = shutdown_within_spec [OF inv w late sh [unfolded core shutdown_connections_def]]
  have stopped: "now2 = now1 \<and> sv_manager (ss_core ss) = cm \<and> list_all (\<lambda>s. \<not> ps_running s) servers
      \<and> map ps_loops servers = map ps_loops ?shut \<and> map ps_gates servers = map (\<lambda>s. (ps_gates s)[ps_gate s := True]) ?shut"
    using stop_servers_empty [OF ser] emptied by simp
  have "list_all2 (\<lambda>s s'. ps_loops s' = ps_loops s \<and> ps_gates s' ! ps_gate s) (hs_servers h) servers"
    using stopped gates by (auto simp: list_all2_conv_all_nth list_eq_iff_nth_eq list_all_length)
  then show ?thesis using res stopped emptied by (simp add: add.assoc)
qed

section \<open>Examples\<close>

definition ex_listen :: listen_env where
  "ex_listen = \<lparr>le_parse = (\<lambda>_. None), le_bind = (\<lambda>_. None), le_cert = Inl [], le_key = Inl [],
     le_quic_config = (\<lambda>_ _. None), le_endpoint = (\<lambda>_. None)\<rparr>"

definition ex_setup :: setup_env where
  "ex_setup = \<lparr>su_mgr = ex_me, su_display = (\<lambda>_. []), su_auth = Some ex_auth, su_handler = True\<rparr>"

definition ex_shared :: server_shared where
  "ex_shared = \<lparr>ss_core = ex_sv None, ss_detector = server_start_heartbeat server_config_default 0\<rparr>"

text \<open>A WebSocket server with one loop, at the given stage and with the given tasks.\<close>

definition ex_server :: "loop_stage \<Rightarrow> (nat \<times> task_stage) list \<Rightarrow> proto_server" where
  "ex_server stage tasks = (proto_server_new WebSocket server_config_default)\<lparr>ps_running := True, ps_gates := [False, False],
     ps_gate := 1, ps_loops := [\<lparr>al_gate = 1, al_stage = stage, al_permits = 1024 - length tasks, al_tasks = tasks\<rparr>]\<rparr>"

lemma ex_shutdown_ok:
  "only_leaving (xe_mgr ex_xe) (\<lambda>cm. snd (se_pause ex_shutdown t cm))" "only_leaving (xe_mgr ex_xe) (se_meanwhile ex_shutdown)"
  "fst (se_pause ex_shutdown t cm) \<le> 0"
  by (simp_all add: only_leaving_def ex_shutdown_def)

lemma ex_shared_inv: "cm_inv (xe_mgr ex_xe) 0 (sv_manager (ss_core ex_shared))"
  using ex_mgr_inv by (simp add: ex_shared_def)

text \<open>The peer 7 is ready when the loop has polled the gate, which closes before the loop takes it: it is the last one.\<close>

theorem closed_gate_admits_nobody_witness:
  "\<exists>ps'. accept_run ex_setup ex_xe (stop_accepting (ex_server LoopGateOpen []), ex_shared) [(0, 7)] (ps', ex_shared)
     \<and> ps_gates ps' ! al_gate (ps_loops ps' ! 0)"
proof -
  let ?ps = "stop_accepting (ex_server LoopGateOpen [])"
  obtain ps' where s: "server_loop_step 0 (Some (AcceptedPeer 7)) ?ps = (ps', [7])"
    by (simp add: server_loop_step_def loop_step_def loop_accept_def ex_server_def proto_server_new_def)
  have l: "0 < length (ps_loops ?ps)" "al_gate (ps_loops ?ps ! 0) < length (ps_gates ?ps)" "ps_gates ?ps ! al_gate (ps_loops ?ps ! 0)"
    by (simp_all add: ex_server_def)
  have run: "accept_run ex_setup ex_xe (?ps, ex_shared) [(0, 7)] (ps', ex_shared)"
    using accept_run.loop [OF accept_run.refl l(1) s] by simp
  from closed_gate_admits_nobody [OF run l] run show ?thesis by blast
qed

theorem handshakes_bounded_witness:
  "\<exists>ps ss'. accept_run ex_setup ex_xe (proto_server_new WebSocket server_config_default, ex_shared) [] (ps, ss')
     \<and> length (ps_loops ps) = 1 \<and> length (al_tasks (ps_loops ps ! 0)) \<le> 1024"
proof -
  let ?st = "(proto_server_new WebSocket server_config_default, ex_shared)"
  obtain ps ss' r where s: "proto_start ex_listen 0 ?st = ((ps, ss'), r)" by (metis surj_pair)
  then have l: "length (ps_loops ps) = 1"
    by (auto simp: proto_start_def websocket_start_def listen_start_def ex_listen_def proto_server_new_def open_loop_def)
  have run: "accept_run ex_setup ex_xe ?st [] (ps, ss')"
    using accept_run.start [OF accept_run.refl, of ex_setup ex_xe ?st ex_listen 0] s by simp
  with l handshakes_bounded [OF run, of 0] show ?thesis by (auto simp: server_config_default_def)
qed


theorem hybrid_stop_bounded_witness:
  "\<exists>now' h'. hybrid_stop ex_xe ex_shutdown 0
       \<lparr>hs_servers = [ex_server LoopSelect [], proto_server_new TCP server_config_default], hs_protocols = [WebSocket, TCP],
        hs_running = True, hs_shared = ex_shared, hs_config = server_config_default\<rparr> = (now', h', Inr ())
     \<and> infos ex_me (sv_manager (ss_core (hs_shared h'))) = Map.empty \<and> now' \<le> from_secs 8"
proof -
  let ?h = "\<lparr>hs_servers = [ex_server LoopSelect [], proto_server_new TCP server_config_default], hs_protocols = [WebSocket, TCP],
        hs_running = True, hs_shared = ex_shared, hs_config = server_config_default\<rparr>"
  obtain now' h' r where stop: "hybrid_stop ex_xe ex_shutdown 0 ?h = (now', h', r)" by (metis surj_pair)
  then have r: "r = Inr ()" by (auto simp: hybrid_stop_def Let_def split: prod.splits)
  have inv: "cm_inv (xe_mgr ex_xe) 0 (sv_manager (ss_core (hs_shared ?h)))" using ex_shared_inv by simp
  have gates: "list_all (\<lambda>s. ps_gate s < length (ps_gates s)) (hs_servers ?h)"
    by (simp add: ex_server_def proto_server_new_def)
  have "svc_shutdown_close_grace server_config_default = from_secs 1"
    by (simp add: server_config_default_def default_shutdown_close_grace_def SERVER_SHUTDOWN_CLOSE_GRACE_def)
  with hybrid_stop_bounded [OF stop inv ex_shutdown_ok gates] stop r show ?thesis
    by (simp add: from_secs_def from_millis_def SHUTDOWN_BROADCAST_TIMEOUT_def SHUTDOWN_POLL_INTERVAL_def SHUTDOWN_FORCE_CLOSE_BUDGET_def)
qed

end
