(* ===== verification/ServerBuilder.thy ===== *)
theory ServerBuilder
  imports ServerTransport
begin

text \<open>
  The builders of servers (\<open>src/src/server/builder\<close>): the configuration they share (\<open>base.rs\<close>), the test of the authentication
  settings and the parser (\<open>common.rs\<close>), the construction of the three kinds of server (\<open>flare.rs\<close>, \<open>observer.rs\<close>, \<open>simple.rs\<close>),
  and the event handler made of closures.  A closure is a function of the frame and the connection; what it does to the
  server through its handle is not represented.
\<close>

record server_builder_base =
  bb_config :: server_config
  bb_authenticator :: "authenticator option"

definition base_new :: "string \<Rightarrow> server_builder_base" where
  "base_new addr = \<lparr>bb_config = server_config_new addr, bb_authenticator = None\<rparr>"

definition base_with_authenticator :: "authenticator \<Rightarrow> server_builder_base \<Rightarrow> server_builder_base" where
  "base_with_authenticator a b = b\<lparr>bb_authenticator := Some a\<rparr>"

definition base_enable_auth :: "server_builder_base \<Rightarrow> server_builder_base" where
  "base_enable_auth b = b\<lparr>bb_config := enable_auth (bb_config b)\<rparr>"

definition base_with_protocol :: "transport_protocol \<Rightarrow> server_builder_base \<Rightarrow> server_builder_base" where
  "base_with_protocol p b = b\<lparr>bb_config := (bb_config b)\<lparr>svc_transport := p\<rparr>\<rparr>"

definition base_with_protocols :: "transport_protocol list \<Rightarrow> server_builder_base \<Rightarrow> server_builder_base" where
  "base_with_protocols ps b = b\<lparr>bb_config := with_protocols ps (bb_config b)\<rparr>"

definition validate_auth_config :: "server_config \<Rightarrow> authenticator option \<Rightarrow> unit result" where
  "validate_auth_config cfg auth =
     (if svc_auth_enabled cfg \<and> auth = None
      then Inl (localized ConfigurationError
        (byte_str [232, 174, 164, 232, 175, 129, 229, 183, 178, 229, 144, 175, 231, 148, 168, 228, 189, 134, 230, 156, 170, 230, 143,
           144, 228, 190, 155, 232, 174, 164, 232, 175, 129, 229, 153, 168, 239, 188, 140, 232, 175, 183, 228, 189, 191, 231, 148, 168]
         @ '' with_authenticator() '' @ byte_str [232, 174, 190, 231, 189, 174, 232, 174, 164, 232, 175, 129, 229, 153, 168]))
      else Inr ())"

definition create_message_parser :: "server_config \<Rightarrow> message_parser" where
  "create_message_parser cfg =
     parser_new (svc_default_serialization_format cfg) (svc_default_compression cfg) (svc_default_encryption cfg)"

section \<open>Closures as an event handler\<close>

record simple_handler =
  sh_message :: "(frame \<Rightarrow> conn_id \<Rightarrow> frame option result) option"
  sh_on_connect :: "(conn_id \<Rightarrow> unit result) option"
  sh_on_disconnect :: "(conn_id \<Rightarrow> unit result) option"
  sh_handle :: bool

definition set_handle :: "simple_handler \<Rightarrow> simple_handler" where
  "set_handle h = h\<lparr>sh_handle := True\<rparr>"

definition handle_unavailable :: flare_error where
  "handle_unavailable = localized GeneralError ''Server handle is not available''"

definition simple_handle_message :: "simple_handler \<Rightarrow> payload_command \<Rightarrow> conn_id \<Rightarrow> frame option result" where
  "simple_handle_message h c cid =
     (if \<not> sh_handle h then Inl handle_unavailable
      else
        (let f = \<lparr>fr_command = Some \<lparr>cmd_type = Some (CmdPayload c)\<rparr>, fr_message_id = pc_message_id c,
                  fr_reliability = reliability_as_i32 AtLeastOnce, fr_timestamp = 0, fr_metadata = []\<rparr>
         in case sh_message h of Some m \<Rightarrow> m f cid | None \<Rightarrow> Inr None))"

definition simple_on_connect :: "simple_handler \<Rightarrow> conn_id \<Rightarrow> unit result" where
  "simple_on_connect h cid =
     (if \<not> sh_handle h then Inl handle_unavailable
      else case sh_on_connect h of Some k \<Rightarrow> k cid | None \<Rightarrow> Inr ())"

definition simple_on_disconnect :: "simple_handler \<Rightarrow> conn_id \<Rightarrow> string option \<Rightarrow> unit result" where
  "simple_on_disconnect h cid reason =
     (if \<not> sh_handle h then Inl handle_unavailable
      else case sh_on_disconnect h of Some k \<Rightarrow> k cid | None \<Rightarrow> Inr ())"

section \<open>Building\<close>

text \<open>A built server, with the authenticator its core consults and, for a simple server, its closures.\<close>

record built_server =
  bs_server :: hybrid_server
  bs_authenticator :: "authenticator option"
  bs_handler :: "simple_handler option"

definition flare_server_build ::
  "listen_env \<Rightarrow> bool \<Rightarrow> (flare_error \<Rightarrow> string) \<Rightarrow> server_builder_base \<Rightarrow> conn_manager option \<Rightarrow> device_manager option
   \<Rightarrow> nat list \<Rightarrow> nat list \<Rightarrow> built_server result" where
  "flare_server_build le runtime display b manager dm middlewares processors =
     (case validate_auth_config (bb_config b) (bb_authenticator b) of
        Inl e \<Rightarrow> Inl e
      | Inr _ \<Rightarrow>
          (case hybrid_server_new le runtime display (bb_config b) manager dm middlewares processors of
             Inl e \<Rightarrow> Inl e
           | Inr h \<Rightarrow> Inr \<lparr>bs_server = h, bs_authenticator = bb_authenticator b, bs_handler = None\<rparr>))"

definition observer_server_build ::
  "listen_env \<Rightarrow> bool \<Rightarrow> (flare_error \<Rightarrow> string) \<Rightarrow> server_builder_base \<Rightarrow> conn_manager option \<Rightarrow> device_manager option
   \<Rightarrow> built_server result" where
  "observer_server_build le runtime display b manager dm =
     (case validate_auth_config (bb_config b) (bb_authenticator b) of
        Inl e \<Rightarrow> Inl e
      | Inr _ \<Rightarrow>
          (case hybrid_server_new le runtime display (bb_config b) manager dm [] [] of
             Inl e \<Rightarrow> Inl e
           | Inr h \<Rightarrow> Inr \<lparr>bs_server = h, bs_authenticator = bb_authenticator b, bs_handler = None\<rparr>))"

text \<open>The handle of the server is there, since a hybrid server always has its core.\<close>

definition simple_server_build ::
  "listen_env \<Rightarrow> bool \<Rightarrow> (flare_error \<Rightarrow> string) \<Rightarrow> server_builder_base \<Rightarrow> simple_handler \<Rightarrow> built_server result" where
  "simple_server_build le runtime display b closures =
     (case hybrid_server_new le runtime display (bb_config b) None None [] [] of
        Inl e \<Rightarrow> Inl e
      | Inr h \<Rightarrow> Inr \<lparr>bs_server = h, bs_authenticator = bb_authenticator b,
                       bs_handler = Some (closures\<lparr>sh_handle := False\<rparr>)\<rparr>)"

definition simple_server_start :: "listen_env \<Rightarrow> nat \<Rightarrow> built_server \<Rightarrow> built_server \<times> unit result" where
  "simple_server_start le now b =
     (case hybrid_start le now (bs_server b) of
        (h, r) \<Rightarrow> (b\<lparr>bs_server := h, bs_handler := map_option set_handle (bs_handler b)\<rparr>, r))"

section \<open>Authentication\<close>

lemma fold_add_auth:
  "sv_auth_enabled (fold core_add_processor ps (fold core_add_middleware ms sv)) = sv_auth_enabled sv"
proof -
  have "sv_auth_enabled (fold core_add_middleware ms sv) = sv_auth_enabled sv" for sv
    by (induction ms arbitrary: sv) (simp_all add: core_add_middleware_def)
  moreover have "sv_auth_enabled (fold core_add_processor ps sv) = sv_auth_enabled sv" for sv
    by (induction ps arbitrary: sv) (simp_all add: core_add_processor_def)
  ultimately show ?thesis by simp
qed

lemma hybrid_server_new_auth:
  "hybrid_server_new le runtime display cfg manager dm ms ps = Inr h \<Longrightarrow>
   sv_auth_enabled (ss_core (hs_shared h)) = svc_auth_enabled cfg"
  by (auto simp: hybrid_server_new_def Let_def fold_add_auth server_core_new_def split: if_splits sum.splits)

text \<open>The two builders that test their settings never yield a server that is to authenticate and has nothing to
  authenticate with.\<close>

theorem checked_build_has_authenticator:
  "flare_server_build le runtime display b manager dm ms ps = Inr s \<Longrightarrow> sv_auth_enabled (ss_core (hs_shared (bs_server s))) \<Longrightarrow>
     bs_authenticator s \<noteq> None"
  "observer_server_build le runtime display b manager dm = Inr s \<Longrightarrow> sv_auth_enabled (ss_core (hs_shared (bs_server s))) \<Longrightarrow>
     bs_authenticator s \<noteq> None"
  by (auto simp: flare_server_build_def observer_server_build_def validate_auth_config_def hybrid_server_new_auth
      split: if_splits sum.splits)

text \<open>With authentication off a new connection is registered as authenticated.\<close>

lemma open_setup_authenticated:
  assumes inv: "cm_inv me k (sv_manager sv)" and off: "\<not> core_auth_enabled auth sv"
    and su: "setup_new_connection me display auth handler cfg ck cid sv = (sv', Inr r)"
  shows "\<exists>i. infos me (sv_manager sv') r = Some i \<and> ci_authenticated i"
proof -
  obtain cm u where add: "add_connection_with_limit me ck cid None False (svc_max_connections cfg) (sv_manager sv) = (cm, u)"
    by fastforce
  with su off have u: "u = Inr ()" "sv_manager sv' = cm" "r = cid"
    by (auto simp: setup_new_connection_def split: sum.splits if_splits option.splits)
  with add_connection_with_limit_spec(3) [OF inv add] show ?thesis by (simp add: conn_info_new_def)
qed

text \<open>C40: A simple server with authentication enabled in its configuration and no authenticator authenticates nobody.  Its
  builder does not test the settings, as the two others do, which refuse them: the server is built and, though its
  configuration and the flag of its core ask for authentication, the auth_enabled() of its core answers that it is off.
  So every new connection is registered as authenticated, before any CONNECT, and for every CONNECT, with or without
  a token, the connection gets the identity that the client declares.\<close>

theorem simple_server_auth_unchecked:
  assumes build: "simple_server_build le runtime display (base_enable_auth \<lparr>bb_config = cfg, bb_authenticator = None\<rparr>) closures = Inr s"
  shows "svc_auth_enabled (hs_config (bs_server s)) \<and> sv_auth_enabled (ss_core (hs_shared (bs_server s)))
    \<and> \<not> core_auth_enabled (bs_authenticator s) (ss_core (hs_shared (bs_server s)))
    \<and> (\<forall>me display' handler ck cid sv' r.
         setup_new_connection me display' (bs_authenticator s) handler (hs_config (bs_server s)) ck cid (ss_core (hs_shared (bs_server s)))
           = (sv', Inr r) \<longrightarrow> (\<exists>i. infos me (sv_manager sv') r = Some i \<and> ci_authenticated i))
    \<and> authenticate_connection (sv_auth_enabled (ss_core (hs_shared (bs_server s)))) (bs_authenticator s) f cid n
        = Inr (identity_declared n)
    \<and> (\<exists>e. flare_server_build le runtime display (base_enable_auth \<lparr>bb_config = cfg, bb_authenticator = None\<rparr>) None None [] [] = Inl e)
    \<and> (\<exists>e. observer_server_build le runtime display (base_enable_auth \<lparr>bb_config = cfg, bb_authenticator = None\<rparr>) None None = Inl e)"
proof -
  from build obtain h where h: "hybrid_server_new le runtime display (enable_auth cfg) None None [] [] = Inr h"
    and s: "bs_server s = h" "bs_authenticator s = None"
    by (auto simp: simple_server_build_def base_enable_auth_def split: sum.splits)
  have cfg: "hs_config h = enable_auth cfg" and inv: "cm_inv me 0 (sv_manager (ss_core (hs_shared h)))" for me
    using h by (auto simp: hybrid_server_new_def Let_def server_core_new_def with_limits_def split: if_splits sum.splits)
  have off: "\<not> core_auth_enabled (bs_authenticator s) (ss_core (hs_shared h))" by (simp add: core_auth_enabled_def s)
  have reg: "\<exists>i. infos me (sv_manager sv') r = Some i \<and> ci_authenticated i"
    if "setup_new_connection me display' (bs_authenticator s) handler (hs_config h) ck cid (ss_core (hs_shared h)) = (sv', Inr r)"
    for me display' handler ck cid sv' r
    by (rule open_setup_authenticated [OF inv off that])
  show ?thesis using hybrid_server_new_auth [OF h] reg off cfg
    by (simp add: s enable_auth_def authenticate_connection_def base_enable_auth_def flare_server_build_def observer_server_build_def
        validate_auth_config_def)
qed

text \<open>Until it is started, a simple server refuses what its closures would handle.\<close>

theorem simple_server_before_start:
  assumes "simple_server_build le runtime display b closures = Inr s"
  shows "\<exists>h. bs_handler s = Some h \<and> simple_handle_message h c cid = Inl handle_unavailable
    \<and> simple_on_connect h cid = Inl handle_unavailable
    \<and> bs_handler (fst (simple_server_start le now s)) = Some (set_handle closures)"
  using assms
  by (auto simp: simple_server_build_def simple_handle_message_def simple_on_connect_def simple_server_start_def set_handle_def
      split: sum.splits prod.splits)

theorem simple_server_auth_unchecked_witness:
  "\<exists>s. simple_server_build ex_listen True (\<lambda>_. []) (base_enable_auth (base_new ''0.0.0.0:80''))
         \<lparr>sh_message = None, sh_on_connect = None, sh_on_disconnect = None, sh_handle = False\<rparr> = Inr s
     \<and> (\<forall>f cid n. authenticate_connection True (bs_authenticator s) f cid n = Inr (identity_declared n))"
proof -
  let ?cl = "\<lparr>sh_message = None, sh_on_connect = None, sh_on_disconnect = None, sh_handle = False\<rparr>"
  let ?b = "base_enable_auth \<lparr>bb_config = server_config_new ''0.0.0.0:80'', bb_authenticator = None\<rparr>"
  obtain s where s: "simple_server_build ex_listen True (\<lambda>_. []) ?b ?cl = Inr s"
    by (simp add: simple_server_build_def hybrid_server_new_def Let_def base_enable_auth_def enable_auth_def server_config_new_def
        server_config_default_def svc_get_protocols_def with_shared_core_def)
  have "authenticate_connection True (bs_authenticator s) f cid n = Inr (identity_declared n)" for f cid n
    using simple_server_auth_unchecked [OF s, of f cid n] by auto
  with s show ?thesis by (auto simp: base_new_def)
qed

end
