(* ===== verification/Pinning.thy ===== *)
theory Pinning
  imports Config Errors
begin

text \<open>
  Certificate pinning (\<open>src/src/common/cert/pinning.rs\<close>): the pins of a TLS configuration and the verifier that tests the
  presented certificates against them after the ordinary verification.  Hashes, the decoders and the certificate parser
  are parameters.
\<close>

record pin_lib =
  pn_sha256 :: "bytes \<Rightarrow> bytes"
  pn_spki :: "bytes \<Rightarrow> string + bytes"
  pn_hex_decode :: "string \<Rightarrow> bytes option"
  pn_base64_decode :: "string \<Rightarrow> bytes option"
  pn_base64_encode :: "bytes \<Rightarrow> string"

record tls_pinning_policy =
  spki_sha256_pins :: "bytes list"
  certificate_sha256_pins :: "bytes list"

definition is_ascii_hexdigit :: "char \<Rightarrow> bool" where
  "is_ascii_hexdigit c \<longleftrightarrow> c \<in> set ''0123456789abcdefABCDEF''"

definition strip_pin_label :: "string \<Rightarrow> string" where
  "strip_pin_label pin =
     (case strip_prefix ''spki-sha256/'' pin of
        Some r \<Rightarrow> r
      | None \<Rightarrow> unwrap_or pin (strip_prefix ''sha256/'' pin))"

definition normalize_sha256_pin :: "pin_lib \<Rightarrow> string \<Rightarrow> bytes option" where
  "normalize_sha256_pin pl pin0 =
     (let pin = strip_pin_label (trim pin0);
          hex_candidate = filter (\<lambda>c. c \<noteq> CHR '':'') pin
      in if length hex_candidate = 64 \<and> list_all is_ascii_hexdigit hex_candidate then pn_hex_decode pl hex_candidate
         else pn_base64_decode pl pin)"

fun normalize_pin_list :: "pin_lib \<Rightarrow> string list \<Rightarrow> string \<Rightarrow> bytes list result" where
  "normalize_pin_list pl [] label = Inr []"
| "normalize_pin_list pl (pin # pins) label =
     (case normalize_sha256_pin pl pin of
        None \<Rightarrow> Inl (localized ProtocolError (''invalid '' @ label @ '' pin: '' @ pin))
      | Some b \<Rightarrow>
          (case normalize_pin_list pl pins label of
             Inl e \<Rightarrow> Inl e
           | Inr bs \<Rightarrow> Inr (b # bs)))"

definition from_tls_config :: "pin_lib \<Rightarrow> tls_config \<Rightarrow> tls_pinning_policy result" where
  "from_tls_config pl tls =
     (case normalize_pin_list pl (tls_spki_sha256_pins tls) ''SPKI SHA-256'' of
        Inl e \<Rightarrow> Inl e
      | Inr sp \<Rightarrow>
          (case normalize_pin_list pl (tls_certificate_sha256_pins tls) ''certificate SHA-256'' of
             Inl e \<Rightarrow> Inl e
           | Inr cp \<Rightarrow> Inr \<lparr>spki_sha256_pins = sp, certificate_sha256_pins = cp\<rparr>))"

definition pinning_is_enabled :: "tls_pinning_policy \<Rightarrow> bool" where
  "pinning_is_enabled pol \<longleftrightarrow> spki_sha256_pins pol \<noteq> [] \<or> certificate_sha256_pins pol \<noteq> []"

definition spki_sha256 :: "pin_lib \<Rightarrow> bytes \<Rightarrow> string + bytes" where
  "spki_sha256 pl der =
     (case pn_spki pl der of
        Inl e \<Rightarrow> Inl (''parse certificate DER failed: '' @ e)
      | Inr raw \<Rightarrow> Inr (pn_sha256 pl raw))"

definition spki_sha256_pin :: "pin_lib \<Rightarrow> bytes \<Rightarrow> string + string" where
  "spki_sha256_pin pl der =
     (case spki_sha256 pl der of Inl e \<Rightarrow> Inl e | Inr h \<Rightarrow> Inr (''spki-sha256/'' @ pn_base64_encode pl h))"

definition certificate_chain_der :: "bytes \<Rightarrow> bytes list \<Rightarrow> bytes list" where
  "certificate_chain_der end_entity intermediates = end_entity # intermediates"

definition verify_chain :: "pin_lib \<Rightarrow> tls_pinning_policy \<Rightarrow> bytes \<Rightarrow> bytes list \<Rightarrow> string + unit" where
  "verify_chain pl pol end_entity intermediates =
     (if spki_sha256_pins pol \<noteq> [] \<and>
         list_ex (\<lambda>c. case spki_sha256 pl c of
                        Inr actual \<Rightarrow> list_ex (\<lambda>pin. pin = actual) (spki_sha256_pins pol)
                      | Inl _ \<Rightarrow> False)
           (certificate_chain_der end_entity intermediates)
      then Inr ()
      else if certificate_sha256_pins pol \<noteq> [] \<and>
         list_ex (\<lambda>c. list_ex (\<lambda>pin. pin = pn_sha256 pl c) (certificate_sha256_pins pol))
           (certificate_chain_der end_entity intermediates)
      then Inr ()
      else Inl (''TLS certificate pin mismatch; leaf '' @
             (case spki_sha256 pl end_entity of
                Inr h \<Rightarrow> ''spki-sha256/'' @ pn_base64_encode pl h
              | Inl e \<Rightarrow> ''spki-unavailable('' @ e @ '')'')))"

text \<open>The verifier around the ordinary one, \<open>delegate\<close>, for one server name, response and instant.\<close>

datatype tls_error = DelegateError string | ApplicationVerificationFailure

definition pinned_verify_server_cert ::
  "pin_lib \<Rightarrow> (bytes \<Rightarrow> bytes list \<Rightarrow> string + unit) \<Rightarrow> tls_pinning_policy \<Rightarrow> bytes \<Rightarrow> bytes list \<Rightarrow> tls_error + unit" where
  "pinned_verify_server_cert pl delegate pol end_entity intermediates =
     (case delegate end_entity intermediates of
        Inl e \<Rightarrow> Inl (DelegateError e)
      | Inr _ \<Rightarrow>
          (case verify_chain pl pol end_entity intermediates of
             Inl _ \<Rightarrow> Inl ApplicationVerificationFailure
           | Inr _ \<Rightarrow> Inr ()))"

text \<open>A certificate that one of the pins names.\<close>

definition pinned :: "pin_lib \<Rightarrow> tls_pinning_policy \<Rightarrow> bytes \<Rightarrow> bool" where
  "pinned pl pol c \<longleftrightarrow>
     (\<exists>raw. pn_spki pl c = Inr raw \<and> pn_sha256 pl raw \<in> set (spki_sha256_pins pol))
     \<or> pn_sha256 pl c \<in> set (certificate_sha256_pins pol)"

lemma spki_matches:
  "(case spki_sha256 pl c of Inr actual \<Rightarrow> list_ex (\<lambda>pin. pin = actual) pins | Inl _ \<Rightarrow> False) \<longleftrightarrow>
     (\<exists>raw. pn_spki pl c = Inr raw \<and> pn_sha256 pl raw \<in> set pins)"
  by (cases "pn_spki pl c") (auto simp: spki_sha256_def list_ex_iff)

lemma verify_chain_iff:
  "verify_chain pl pol ee ints = Inr () \<longleftrightarrow> pinned pl pol ee \<or> (\<exists>c \<in> set ints. pinned pl pol c)"
proof -
  have cert: "list_ex (\<lambda>pin. pin = h) pins \<longleftrightarrow> h \<in> set pins" for h :: bytes and pins
    by (auto simp: list_ex_iff)
  show ?thesis unfolding verify_chain_def spki_matches
    unfolding cert certificate_chain_der_def pinned_def by (auto simp: list_ex_iff)
qed

text \<open>Pinning only narrows the ordinary verification: a server is accepted exactly when the ordinary verifier accepts it and
  one of the certificates it presents is pinned.\<close>

theorem pinned_verification:
  "pinned_verify_server_cert pl delegate pol ee ints = Inr () \<longleftrightarrow>
     delegate ee ints = Inr () \<and> (pinned pl pol ee \<or> (\<exists>c \<in> set ints. pinned pl pol c))"
  using verify_chain_iff [of pl pol ee ints]
  by (cases "verify_chain pl pol ee ints"; cases "delegate ee ints") (auto simp: pinned_verify_server_cert_def)

text \<open>The presented certificates are tested, not the path that was verified.  If the ordinary verifier does not mind
  certificates it has no use for, then whoever has any certificate it accepts passes the pinning too by presenting a pinned
  certificate, which is public, beside its own.\<close>

theorem appended_certificate_passes:
  assumes extra: "\<And>ee ints c. delegate ee ints = Inr () \<Longrightarrow> delegate ee (ints @ [c]) = Inr ()"
    and other: "delegate attacker ints = Inr ()" and pin: "pinned pl pol c"
  shows "pinned_verify_server_cert pl delegate pol attacker (ints @ [c]) = Inr ()"
  using extra [OF other] pin by (simp add: pinned_verification)

text \<open>A pin that is printed for a certificate is read back, as long as its base64 form is not taken for hexadecimal.\<close>

theorem spki_pin_roundtrip:
  assumes pin: "spki_sha256_pin pl der = Inr s" and h: "spki_sha256 pl der = Inr h"
    and base64: "pn_base64_decode pl (pn_base64_encode pl h) = Some h" "length (pn_base64_encode pl h) < 64"
    and trimmed: "trim s = s"
  shows "normalize_sha256_pin pl s = Some h"
proof -
  have s: "s = ''spki-sha256/'' @ pn_base64_encode pl h" using pin h by (simp add: spki_sha256_pin_def)
  then have strip: "strip_pin_label s = pn_base64_encode pl h" by (simp add: strip_pin_label_def)
  have "length (filter (\<lambda>c. c \<noteq> CHR '':'') (pn_base64_encode pl h)) \<noteq> 64"
    using base64(2) length_filter_le [of "\<lambda>c. c \<noteq> CHR '':''" "pn_base64_encode pl h"] by linarith
  then show ?thesis using base64(1) by (simp add: normalize_sha256_pin_def trimmed strip)
qed

text \<open>The length of a pin is not tested: a pin that does not decode to a hash is accepted and matches no certificate.\<close>

theorem misfit_pin_refuses_everyone:
  assumes cfg: "from_tls_config pl (with_spki_sha256_pin pin tls_default) = Inr pol"
    and sha: "\<And>x. length (pn_sha256 pl x) = 32" and misfit: "normalize_sha256_pin pl pin = Some b" "length b \<noteq> 32"
  shows "pinned_verify_server_cert pl delegate pol ee ints \<noteq> Inr ()"
proof -
  have "spki_sha256_pins pol = [b]" "certificate_sha256_pins pol = []"
    using cfg misfit(1) by (auto simp: from_tls_config_def with_spki_sha256_pin_def tls_default_def)
  then have "\<not> pinned pl pol c" for c using sha misfit(2) by (auto simp: pinned_def)
  then show ?thesis by (simp add: pinned_verification)
qed

end
