(* ===== verification/ClientManager.thy ===== *)
theory ClientManager
  imports ClientConfig Heartbeat Framing "HOL-Library.Word"
begin

text \<open>
  The client connection manager (\<open>src/src/client/manager.rs\<close>): connecting, disconnecting, and the task that
  reconnects with growing delays.  The client it manages is a trait object; what the manager uses of it is
  whether it is connected and the results of connecting and disconnecting.  Milliseconds are 64-bit words
  in the source and are kept within their range here; a step of the reconnect task is its work between two
  suspensions.  The instants at which the task tries to connect and the events given to observers are recorded.
\<close>

section \<open>Delays\<close>

definition AUTO_RECONNECT_MAX_DELAY :: duration where "AUTO_RECONNECT_MAX_DELAY = from_secs 30"
definition AUTO_RECONNECT_MIN_NOMINAL :: duration where "AUTO_RECONNECT_MIN_NOMINAL = from_secs 1"

definition as_millis_u64 :: "duration \<Rightarrow> nat" where
  "as_millis_u64 d = (d div 1000000) mod 2 ^ 64"

definition saturating_mul_u64 :: "nat \<Rightarrow> nat \<Rightarrow> nat" where
  "saturating_mul_u64 a b = min (a * b) (2 ^ 64 - 1)"

definition div_ceil :: "nat \<Rightarrow> nat \<Rightarrow> nat" where
  "div_ceil a b = (if a mod b = 0 then a div b else a div b + 1)"

definition clamp :: "nat \<Rightarrow> nat \<Rightarrow> nat \<Rightarrow> nat" where
  "clamp lo hi x = (if x < lo then lo else if x > hi then hi else x)"

definition auto_reconnect_delay_bounds :: "duration \<Rightarrow> 32 word \<Rightarrow> duration \<times> duration" where
  "auto_reconnect_delay_bounds base attempt =
     (let shift = min (unat attempt - 1) 4;
          cap_ms = as_millis_u64 AUTO_RECONNECT_MAX_DELAY;
          nominal_ms = clamp (as_millis_u64 AUTO_RECONNECT_MIN_NOMINAL) cap_ms
                         (saturating_mul_u64 (as_millis_u64 base) (2 ^ shift));
          min_ms = div_ceil (saturating_mul_u64 nominal_ms 80) 100;
          max_ms = clamp min_ms cap_ms (div_ceil (saturating_mul_u64 nominal_ms 120) 100)
      in (from_millis min_ms, from_millis max_ms))"

text \<open>\<open>r\<close> is the random number: a value of the range, in milliseconds.\<close>

definition auto_reconnect_delay :: "nat \<Rightarrow> duration \<Rightarrow> 32 word \<Rightarrow> duration" where
  "auto_reconnect_delay r base attempt =
     (case auto_reconnect_delay_bounds base attempt of
        (lo, hi) \<Rightarrow> (let a = as_millis_u64 lo; b = as_millis_u64 hi in from_millis (a + r mod (b - a + 1))))"

section \<open>State\<close>

text \<open>The reconnect task: at the top of its loop, asleep while connected, waiting before an attempt, in an
  attempt, or at its end.\<close>

datatype reconnect_phase =
    RcTop "32 word"
  | RcAsleep nat
  | RcBackoff "32 word" nat
  | RcConnecting "32 word"
  | RcEnd

record client_manager =
  mg_config :: client_config
  mg_connected :: bool
  mg_state :: state_manager
  mg_heartbeat :: "heartbeat_manager option"
  mg_observers :: "nat list"
  mg_handle :: bool
  mg_reconnecting :: bool
  mg_task :: "reconnect_phase option"
  mg_log :: "(nat list \<times> connection_event) list"
  mg_attempts :: "nat list"

definition client_manager_new :: "nat \<Rightarrow> bool \<Rightarrow> client_config \<Rightarrow> client_manager" where
  "client_manager_new now connected cfg =
     \<lparr>mg_config = cfg, mg_connected = connected, mg_state = state_manager_new now, mg_heartbeat = None,
      mg_observers = [], mg_handle = False, mg_reconnecting = False, mg_task = None, mg_log = [], mg_attempts = []\<rparr>"

definition mg_set_state :: "nat \<Rightarrow> connection_state \<Rightarrow> client_manager \<Rightarrow> client_manager" where
  "mg_set_state now s m = m\<lparr>mg_state := set_state now s (mg_state m)\<rparr>"

definition mg_notify :: "connection_event \<Rightarrow> client_manager \<Rightarrow> client_manager" where
  "mg_notify e m = m\<lparr>mg_log := mg_log m @ [(mg_observers m, e)]\<rparr>"

definition mg_add_observer :: "nat \<Rightarrow> client_manager \<Rightarrow> client_manager" where
  "mg_add_observer x m = m\<lparr>mg_observers := mg_observers m @ [x]\<rparr>"

definition mg_remove_observer :: "nat \<Rightarrow> client_manager \<Rightarrow> client_manager" where
  "mg_remove_observer x m = m\<lparr>mg_observers := filter (\<lambda>y. y \<noteq> x) (mg_observers m)\<rparr>"

section \<open>Operations\<close>

definition mg_start_heartbeat :: "client_manager \<Rightarrow> client_manager" where
  "mg_start_heartbeat m =
     (let h = cl_heartbeat (mg_config m) in
      if \<not> hc_enabled h then m else m\<lparr>mg_heartbeat := Some (hb_new (hc_interval h) (hc_timeout h))\<rparr>)"

definition mg_stop_heartbeat :: "client_manager \<Rightarrow> client_manager" where
  "mg_stop_heartbeat m = m\<lparr>mg_heartbeat := None\<rparr>"

text \<open>\<open>res\<close> is what the client's own \<open>connect\<close> returns; a client that returns success is connected.\<close>

definition mg_connect :: "nat \<Rightarrow> unit result \<Rightarrow> client_manager \<Rightarrow> client_manager \<times> unit result" where
  "mg_connect now res m =
     (if mg_connected m then (m, Inr ())
      else
        (let m1 = mg_set_state now StConnecting m in
         case res of
           Inr _ \<Rightarrow>
             (let m2 = mg_set_state now StConnected (m1\<lparr>mg_connected := True\<rparr>);
                  m3 = (if hc_enabled (cl_heartbeat (mg_config m2)) then mg_start_heartbeat m2 else m2)
              in (mg_notify Connected m3, Inr ()))
         | Inl e \<Rightarrow> (mg_set_state now StDisconnected m1, Inl e)))"

definition stop_reconnect :: "client_manager \<Rightarrow> client_manager" where
  "stop_reconnect m =
     (if mg_handle m then m\<lparr>mg_handle := False, mg_task := None, mg_reconnecting := False\<rparr>
      else m\<lparr>mg_reconnecting := False\<rparr>)"

text \<open>\<open>res\<close> is what the client's \<open>disconnect\<close> returns and \<open>still\<close> whether the client is connected afterwards.\<close>

definition mg_disconnect :: "nat \<Rightarrow> bool \<Rightarrow> unit result \<Rightarrow> client_manager \<Rightarrow> client_manager \<times> unit result" where
  "mg_disconnect now still res m =
     (let m1 = mg_stop_heartbeat (stop_reconnect m);
          m2 = m1\<lparr>mg_connected := still\<rparr>
      in (mg_notify (Disconnected []) (mg_set_state now StDisconnected m2), res))"

definition mg_send_frame :: "unit result \<Rightarrow> client_manager \<Rightarrow> unit result" where
  "mg_send_frame res m =
     (if \<not> can_send (sm_state (mg_state m)) then Inl (localized ConnectionFailed ''Not connected'') else res)"

definition needs_reconnect :: "client_manager \<Rightarrow> bool" where
  "needs_reconnect m \<longleftrightarrow> \<not> mg_connected m \<and> sm_state (mg_state m) = StDisconnected"

text \<open>The handle is stored after the task is spawned; a task that ends before leaves a handle whose abort has
  no effect, which is not distinguished from none.\<close>

definition start_auto_reconnect :: "client_manager \<Rightarrow> client_manager" where
  "start_auto_reconnect m =
     (if mg_reconnecting m then m
      else m\<lparr>mg_reconnecting := True, mg_handle := True, mg_task := Some (RcTop 0)\<rparr>)"

subsection \<open>The reconnect task\<close>

definition rc_top :: "nat \<Rightarrow> nat \<Rightarrow> 32 word \<Rightarrow> client_manager \<Rightarrow> client_manager" where
  "rc_top now r attempt m =
     (if \<not> needs_reconnect m then m\<lparr>mg_task := Some (RcAsleep (now + from_secs 1))\<rparr>
      else if (case cl_max_reconnect_attempts (mg_config m) of Some n \<Rightarrow> attempt \<ge> n | None \<Rightarrow> False)
      then m\<lparr>mg_task := Some RcEnd\<rparr>
      else (let attempt' = attempt + 1;
                wait = auto_reconnect_delay r (cl_reconnect_interval (mg_config m)) attempt'
            in m\<lparr>mg_task := Some (RcBackoff attempt' (now + wait))\<rparr>))"

definition rc_try :: "nat \<Rightarrow> 32 word \<Rightarrow> client_manager \<Rightarrow> client_manager" where
  "rc_try now attempt m =
     (if \<not> needs_reconnect m then m\<lparr>mg_task := Some (RcTop attempt)\<rparr>
      else (mg_set_state now StConnecting m)\<lparr>mg_task := Some (RcConnecting attempt), mg_attempts := mg_attempts m @ [now]\<rparr>)"

definition rc_result :: "nat \<Rightarrow> unit result \<Rightarrow> 32 word \<Rightarrow> client_manager \<Rightarrow> client_manager" where
  "rc_result now res attempt m =
     (case res of
        Inr _ \<Rightarrow>
          (mg_notify Connected (mg_set_state now StConnected (m\<lparr>mg_connected := True\<rparr>)))\<lparr>mg_task := Some RcEnd\<rparr>
      | Inl _ \<Rightarrow> (mg_set_state now StDisconnected m)\<lparr>mg_task := Some (RcTop attempt)\<rparr>)"

definition rc_finish :: "client_manager \<Rightarrow> client_manager" where
  "rc_finish m = m\<lparr>mg_reconnecting := False, mg_handle := False, mg_task := None\<rparr>"

text \<open>One step of the task at the instant \<open>now\<close>; \<open>r\<close> is its random number and \<open>res\<close> the result of the
  client's \<open>connect\<close>.  A sleep that is not over makes no step.\<close>

definition rc_step :: "nat \<Rightarrow> nat \<Rightarrow> unit result \<Rightarrow> client_manager \<Rightarrow> client_manager" where
  "rc_step now r res m =
     (case mg_task m of
        None \<Rightarrow> m
      | Some (RcTop a) \<Rightarrow> rc_top now r a m
      | Some (RcAsleep due) \<Rightarrow> if due \<le> now then m\<lparr>mg_task := Some (RcTop 0)\<rparr> else m
      | Some (RcBackoff a due) \<Rightarrow> if due \<le> now then rc_try now a m else m
      | Some (RcConnecting a) \<Rightarrow> rc_result now res a m
      | Some RcEnd \<Rightarrow> rc_finish m)"

section \<open>The delays\<close>

lemma millis_consts [simp]:
  "as_millis_u64 AUTO_RECONNECT_MAX_DELAY = 30000" "as_millis_u64 AUTO_RECONNECT_MIN_NOMINAL = 1000"
  by (simp_all add: as_millis_u64_def AUTO_RECONNECT_MAX_DELAY_def AUTO_RECONNECT_MIN_NOMINAL_def from_secs_def)

definition nominal_delay :: "duration \<Rightarrow> 32 word \<Rightarrow> nat" where
  "nominal_delay base attempt = clamp 1000 30000 (saturating_mul_u64 (as_millis_u64 base) (2 ^ min (unat attempt - 1) 4))"

lemma nominal_range: "1000 \<le> nominal_delay base attempt" "nominal_delay base attempt \<le> 30000"
  by (auto simp: nominal_delay_def clamp_def)

lemma div_ceil_100: "div_ceil a 100 = (a + 99) div 100"
proof -
  have "(a + 99) div 100 = a div 100 + (a mod 100 + 99) div 100" by (rule trans [OF div_add1_eq]) simp
  moreover have "(a mod 100 + 99) div 100 = (if a mod 100 = 0 then 0 else 1)"
    using mod_less_divisor [of 100 a] by (auto intro!: div_nat_eqI)
  ultimately show ?thesis by (simp add: div_ceil_def)
qed

lemma bounds_nominal:
  "auto_reconnect_delay_bounds base attempt =
     (from_millis ((nominal_delay base attempt * 80 + 99) div 100),
      from_millis (min 30000 ((nominal_delay base attempt * 120 + 99) div 100)))"
proof -
  let ?n = "nominal_delay base attempt"
  have m: "saturating_mul_u64 ?n 80 = ?n * 80" "saturating_mul_u64 ?n 120 = ?n * 120"
    using nominal_range [of base attempt] by (simp_all add: saturating_mul_u64_def)
  have "clamp ((?n * 80 + 99) div 100) 30000 ((?n * 120 + 99) div 100) = min 30000 ((?n * 120 + 99) div 100)"
    using nominal_range [of base attempt] by (simp add: clamp_def min_def)
  then show ?thesis
    unfolding auto_reconnect_delay_bounds_def Let_def millis_consts nominal_delay_def [symmetric] m div_ceil_100 by simp
qed

lemma delay_bounds:
  assumes "auto_reconnect_delay_bounds base attempt = (lo, hi)"
  shows "from_millis 800 \<le> lo" "lo \<le> auto_reconnect_delay r base attempt" "auto_reconnect_delay r base attempt \<le> hi"
    "hi \<le> AUTO_RECONNECT_MAX_DELAY"
proof -
  let ?n = "nominal_delay base attempt"
  define a where "a = (?n * 80 + 99) div 100"
  define b where "b = min 30000 ((?n * 120 + 99) div 100)"
  have ab: "800 \<le> a" "a \<le> b" "b \<le> 30000"
    using nominal_range [of base attempt] by (auto simp: a_def b_def)
  have lh: "lo = from_millis a" "hi = from_millis b"
    using assms by (simp_all add: bounds_nominal a_def b_def)
  have ms: "as_millis_u64 (from_millis x) = x" if "x \<le> 30000" for x
    using that by (simp add: as_millis_u64_def from_millis_def)
  have d: "auto_reconnect_delay r base attempt = from_millis (a + r mod (b - a + 1))"
    using assms ab by (simp add: auto_reconnect_delay_def lh ms Let_def)
  have "r mod (b - a + 1) < b - a + 1" by simp
  then have "a + r mod (b - a + 1) \<le> b" using ab by linarith
  then show "from_millis 800 \<le> lo" "lo \<le> auto_reconnect_delay r base attempt" "auto_reconnect_delay r base attempt \<le> hi"
    "hi \<le> AUTO_RECONNECT_MAX_DELAY"
    using ab unfolding d lh by (auto simp: from_millis_def AUTO_RECONNECT_MAX_DELAY_def from_secs_def)
qed

section \<open>Runs\<close>

text \<open>Time passes, the task makes its steps, and, if \<open>drops\<close>, the client gains or loses its connection by
  itself.\<close>

inductive task_run :: "bool \<Rightarrow> nat \<Rightarrow> client_manager \<Rightarrow> nat \<Rightarrow> client_manager \<Rightarrow> bool" for drops now0 m0 where
  begin_run: "task_run drops now0 m0 now0 m0"
| pass_time: "task_run drops now0 m0 now m \<Longrightarrow> now \<le> now' \<Longrightarrow> task_run drops now0 m0 now' m"
| task_step: "task_run drops now0 m0 now m \<Longrightarrow> task_run drops now0 m0 now (rc_step now r res m)"
| client_change: "task_run drops now0 m0 now m \<Longrightarrow> drops \<Longrightarrow> task_run drops now0 m0 now (m\<lparr>mg_connected := b\<rparr>)"

lemma set_state_simps [simp]: "sm_state (set_state now s sm) = s" by (simp add: set_state_def)

lemmas rc_defs = rc_step_def rc_top_def rc_try_def rc_result_def rc_finish_def mg_set_state_def mg_notify_def needs_reconnect_def Let_def

text \<open>What the attempts of a run look like.\<close>

definition spaced :: "nat \<Rightarrow> client_manager \<Rightarrow> bool" where
  "spaced now m \<longleftrightarrow>
     sorted_wrt (\<lambda>s t. s + from_millis 800 \<le> t) (mg_attempts m) \<and> (\<forall>t \<in> set (mg_attempts m). t \<le> now)
     \<and> (\<forall>a due. mg_task m = Some (RcBackoff a due) \<longrightarrow> (\<forall>t \<in> set (mg_attempts m). t + from_millis 800 \<le> due))"

lemma rc_step_spaced:
  assumes "spaced now m"
  shows "spaced now (rc_step now r res m)"
proof (cases "\<exists>a. mg_task m = Some (RcTop a)")
  case True
  then obtain a where a: "mg_task m = Some (RcTop a)" by blast
  have "from_millis 800 \<le> auto_reconnect_delay r base x" for base x
  proof -
    obtain lo hi where b: "auto_reconnect_delay_bounds base x = (lo, hi)" by fastforce
    show ?thesis using delay_bounds(1,2) [OF b] order_trans by blast
  qed
  then have "t + from_millis 800 \<le> now + auto_reconnect_delay r base x" if "t \<le> now" for t base x
    using that by (meson add_mono)
  then show ?thesis using assms a by (auto simp: spaced_def rc_defs)
next
  case False
  then show ?thesis
    using assms by (auto simp: spaced_def rc_defs sorted_wrt_append split: option.splits reconnect_phase.splits sum.splits)
      (meson order_trans)
qed

lemma task_run_spaced: "task_run drops now0 m0 now m \<Longrightarrow> spaced now0 m0 \<Longrightarrow> spaced now m"
proof (induction rule: task_run.induct)
  case (pass_time now m now')
  then show ?case by (fastforce simp: spaced_def)
qed (auto simp: rc_step_spaced, auto simp: spaced_def)

text \<open>Attempts that all fail.\<close>

fun attempts_ok :: "nat \<Rightarrow> client_manager \<Rightarrow> bool" where
  "attempts_ok n m = (case mg_task m of
       Some (RcTop a) \<Rightarrow> needs_reconnect m \<and> length (mg_attempts m) = unat a \<and> unat a \<le> n
     | Some (RcBackoff a due) \<Rightarrow> needs_reconnect m \<and> length (mg_attempts m) + 1 = unat a \<and> unat a \<le> n
     | Some (RcConnecting a) \<Rightarrow> \<not> mg_connected m \<and> length (mg_attempts m) = unat a \<and> unat a \<le> n
     | Some (RcAsleep due) \<Rightarrow> False
     | _ \<Rightarrow> length (mg_attempts m) \<le> n \<and> (\<not> mg_connected m \<longrightarrow> length (mg_attempts m) = n))"

lemma attempt_incr: "a < w \<Longrightarrow> unat (a + 1 :: 32 word) = unat a + 1"
proof -
  assume "a < w"
  moreover have "unat w < 2 ^ LENGTH(32)" by (rule unsigned_less)
  ultimately show ?thesis by (simp add: unat_word_ariths(1) word_less_nat_alt)
qed

lemma rc_step_attempts:
  assumes "attempts_ok n m" and "cl_max_reconnect_attempts (mg_config m) = Some w" "unat w = n"
  shows "attempts_ok n (rc_step now r res m)"
proof (cases "mg_task m")
  case None
  then show ?thesis using assms by (simp add: rc_defs)
next
  case (Some ph)
  show ?thesis
  proof (cases ph)
    case (RcTop a)
    have "unat (a + 1) = unat a + 1" if "a < w"
      using that by (rule attempt_incr)
    then show ?thesis using assms Some RcTop by (auto simp: rc_defs word_le_nat_alt word_less_nat_alt not_le)
  qed (use assms Some in \<open>auto simp: rc_defs split: sum.splits\<close>)
qed

lemma rc_step_config [simp]: "mg_config (rc_step now r res m) = mg_config m"
  by (auto simp: rc_defs split: option.splits reconnect_phase.splits sum.splits)

lemma delay_attained: "auto_reconnect_delay 0 0 1 = from_millis 800" "from_millis 800 < AUTO_RECONNECT_MIN_NOMINAL"
  by (simp_all add: auto_reconnect_delay_def bounds_nominal nominal_delay_def clamp_def saturating_mul_u64_def
      as_millis_u64_def from_millis_def AUTO_RECONNECT_MIN_NOMINAL_def from_secs_def)

section \<open>Properties\<close>

text \<open>C32: Reconnecting is patient and bounded. However the task, the client and time interleave, two attempts of
  the reconnect task are at least 800 milliseconds apart, whatever interval is configured. The comment on the nominal
  minimum promises a whole second; the jitter takes up to a fifth of it, and the bound is attained: with a configured
  interval of zero and the smallest random number the first wait is 800 milliseconds, less than the nominal minimum. And
  when the client does not connect by itself, a task that was started while disconnected makes at most the configured number of attempts, and
  exactly that number if it ends without a connection.\<close>

theorem reconnect_attempts:
  assumes run: "task_run drops now0 (start_auto_reconnect m0) now m"
    and m0: "\<not> mg_reconnecting m0" "mg_attempts m0 = []"
  shows "sorted_wrt (\<lambda>s t. s + from_millis 800 \<le> t) (mg_attempts m)
    \<and> auto_reconnect_delay 0 0 1 = from_millis 800 \<and> from_millis 800 < AUTO_RECONNECT_MIN_NOMINAL
    \<and> (\<not> drops \<and> needs_reconnect m0 \<and> cl_max_reconnect_attempts (mg_config m0) = Some w \<longrightarrow>
         length (mg_attempts m) \<le> unat w
         \<and> (mg_task m = None \<and> \<not> mg_connected m \<longrightarrow> length (mg_attempts m) = unat w))"
proof -
  have "spaced now0 (start_auto_reconnect m0)" using m0 by (simp add: spaced_def start_auto_reconnect_def)
  then have s: "spaced now m" by (rule task_run_spaced [OF run])
  have "attempts_ok (unat w) m \<and> mg_config m = mg_config m0"
    if "\<not> drops" "needs_reconnect m0" "cl_max_reconnect_attempts (mg_config m0) = Some w"
    using run that
  proof (induction rule: task_run.induct)
    case begin_run
    then show ?case using m0 by (simp add: start_auto_reconnect_def needs_reconnect_def)
  qed (use rc_step_attempts in \<open>auto simp del: attempts_ok.simps\<close>)
  then show ?thesis
    using s delay_attained by (auto simp: spaced_def split: option.splits reconnect_phase.splits)
qed

text \<open>C33: A lost connection is not reconnected. After a successful connect the manager's own state says Connected,
  and nothing but its own methods changes it: if then the connection is lost, the reconnect task, which acts only
  when that state is Disconnected, never tries to connect, never gives up and goes on polling.\<close>

theorem lost_connection_not_reconnected:
  assumes conn: "mg_connect now1 (Inr ()) m1 = (m2, Inr ())" "\<not> mg_connected m1" "\<not> mg_reconnecting m1"
    and run: "task_run True now0 (start_auto_reconnect m2) now m"
  shows "mg_attempts m = mg_attempts m1 \<and> sm_state (mg_state m) = StConnected
    \<and> (mg_task m = Some (RcTop 0) \<or> (\<exists>due. mg_task m = Some (RcAsleep due)))"
  using run
proof (induction rule: task_run.induct)
  case begin_run
  then show ?case
    using conn by (cases "hc_enabled (cl_heartbeat (mg_config m1))")
      (auto simp: mg_connect_def mg_set_state_def mg_notify_def mg_start_heartbeat_def start_auto_reconnect_def Let_def)
next
  case (task_step now m r res)
  then show ?case by (auto simp: rc_defs split: if_splits)
qed simp_all

section \<open>Examples\<close>

definition ex_mg :: client_manager where
  "ex_mg = client_manager_new 0 False (client_config_default\<lparr>cl_max_reconnect_attempts := Some 1\<rparr>)"

text \<open>One failing attempt, and the task gives up.\<close>

definition ex_mg_end :: client_manager where
  "ex_mg_end =
     rc_step (from_secs 9) 0 (Inr ()) (rc_step (from_secs 9) 0 (Inr ()) (rc_step (from_secs 9) 0 (Inl (IoError []))
       (rc_step (from_secs 9) 0 (Inr ()) (rc_step 0 0 (Inr ()) (start_auto_reconnect ex_mg)))))"

lemma ex_mg_run: "task_run False 0 (start_auto_reconnect ex_mg) (from_secs 9) ex_mg_end"
  unfolding ex_mg_end_def
  by (intro task_run.task_step, rule task_run.pass_time, rule task_run.task_step, rule task_run.begin_run) simp

lemma ex_mg_end_task: "mg_task ex_mg_end = None" "\<not> mg_connected ex_mg_end"
  by (simp_all add: ex_mg_end_def ex_mg_def client_manager_new_def client_config_default_def start_auto_reconnect_def rc_defs
      state_manager_new_def auto_reconnect_delay_def bounds_nominal nominal_delay_def clamp_def saturating_mul_u64_def
      as_millis_u64_def from_secs_def from_millis_def)

theorem reconnect_attempts_witness: "length (mg_attempts ex_mg_end) = 1"
proof -
  have "\<not> mg_reconnecting ex_mg" "mg_attempts ex_mg = []" "needs_reconnect ex_mg"
    "cl_max_reconnect_attempts (mg_config ex_mg) = Some 1"
    by (simp_all add: ex_mg_def client_manager_new_def needs_reconnect_def state_manager_new_def)
  with reconnect_attempts [OF ex_mg_run, of 1] ex_mg_end_task show ?thesis by simp
qed

theorem lost_connection_not_reconnected_witness:
  "let m2 = fst (mg_connect 0 (Inr ()) ex_mg);
       m = rc_step (from_secs 5) 0 (Inr ()) (rc_step 0 0 (Inr ()) ((start_auto_reconnect m2)\<lparr>mg_connected := False\<rparr>))
   in \<not> mg_connected m \<and> mg_attempts m = []"
proof -
  obtain m2 where m2: "mg_connect 0 (Inr ()) ex_mg = (m2, Inr ())"
    by (simp add: mg_connect_def ex_mg_def client_manager_new_def Let_def)
  let ?d = "(start_auto_reconnect m2)\<lparr>mg_connected := False\<rparr>"
  let ?m = "rc_step (from_secs 5) 0 (Inr ()) (rc_step 0 0 (Inr ()) ?d)"
  have "task_run True 0 (start_auto_reconnect m2) (from_secs 5) ?m"
    by (rule task_run.task_step, rule task_run.pass_time, rule task_run.task_step, rule task_run.client_change,
        rule task_run.begin_run) simp_all
  note r = lost_connection_not_reconnected [OF m2 _ _ this]
  have e: "\<not> mg_connected ex_mg" "\<not> mg_reconnecting ex_mg" "mg_attempts ex_mg = []"
    by (simp_all add: ex_mg_def client_manager_new_def)
  have "\<not> mg_connected ?m"
    using m2 e by (auto simp: rc_defs mg_connect_def mg_start_heartbeat_def start_auto_reconnect_def split: if_splits)
  then show ?thesis using r e by (simp add: m2)
qed

end
