(* ===== verification/ClientTransport.thy ===== *)
theory ClientTransport
  imports ClientCore
begin

text \<open>
  The clients of the three transports (\<open>src/src/client/transports/tcp.rs\<close>, \<open>quic.rs\<close>, \<open>websocket.rs\<close>): how they open a
  network connection, send CONNECT on it, reconnect and send.  The three files have the same operations; where they
  differ the operation looks at the protocol of the client.  The network is a parameter: the parsing of a socket
  address, the name lookup and the outcome of dialling.  While a client sleeps before it reconnects, or waits for a
  response, other tasks work on its core: what they do is the argument \<open>during\<close>.
\<close>

section \<open>Opening a connection\<close>

datatype dial = DialTimeout | DialFailed string | Dialled nat

text \<open>The parsing of socket addresses, the lookup of names, the creation of a TLS configuration, and dialling: TCP by
  address, QUIC by address and server name, WebSocket by address and whether a TLS connector is given.\<close>

record net_env =
  nv_parse :: "string \<Rightarrow> nat option"
  nv_lookup :: "string \<Rightarrow> string + nat list"
  nv_tls :: "tls_config \<Rightarrow> string + unit"
  nv_tcp :: "nat \<Rightarrow> dial"
  nv_quic :: "nat \<Rightarrow> string \<Rightarrow> dial"
  nv_ws :: "string \<Rightarrow> bool \<Rightarrow> dial"

record transport_client =
  tc_kind :: transport_protocol
  tc_config :: client_config
  tc_connection :: "nat option"
  tc_prepared :: bool
  tc_connection_id :: string
  tc_core :: client_core
  tc_attempts :: "32 word"

definition tr_with_core :: "transport_protocol \<Rightarrow> string \<Rightarrow> client_config \<Rightarrow> client_core \<Rightarrow> transport_client" where
  "tr_with_core kind generated cfg core =
     \<lparr>tc_kind = kind, tc_config = cfg, tc_connection = None, tc_prepared = False,
      tc_connection_id = unwrap_or generated (cl_connection_id cfg), tc_core = core, tc_attempts = 0\<rparr>"

definition tr_new :: "transport_protocol \<Rightarrow> string \<Rightarrow> nat \<Rightarrow> client_config \<Rightarrow> transport_client" where
  "tr_new kind generated now cfg = tr_with_core kind generated cfg (client_core_new now cfg)"

text \<open>All occurrences of a text removed, from left to right.\<close>

function remove_str :: "string \<Rightarrow> string \<Rightarrow> string" where
  "remove_str p s =
     (if p = [] \<or> s = [] then s
      else if starts_with p s then remove_str p (drop (length p) s)
      else hd s # remove_str p (tl s))"
  by pat_completeness auto
termination by (relation "measure (\<lambda>(p, s). length s)") auto

declare remove_str.simps [simp del]

definition resolve_address :: "net_env \<Rightarrow> string \<Rightarrow> nat result" where
  "resolve_address ne address =
     (case nv_parse ne address of
        Some a \<Rightarrow> Inr a
      | None \<Rightarrow>
          (case nv_lookup ne address of
             Inl e \<Rightarrow> Inl (protocol_error (''DNS lookup failed: '' @ e))
           | Inr [] \<Rightarrow> Inl (protocol_error (''No address found for '' @ address))
           | Inr (a # _) \<Rightarrow> Inr a))"

definition parse_tcp_address :: "net_env \<Rightarrow> client_config \<Rightarrow> nat result" where
  "parse_tcp_address ne cfg =
     resolve_address ne (remove_str ''TCP://'' (remove_str ''tcp://'' (get_protocol_url TCP cfg)))"

definition quic_hostname :: "string \<Rightarrow> string" where
  "quic_hostname address =
     (if starts_with ''localhost'' address \<or> starts_with ''127.0.0.1'' address then ''localhost''
      else takeWhile (\<lambda>c. c \<noteq> CHR '':'') address)"

definition parse_quic_address :: "net_env \<Rightarrow> client_config \<Rightarrow> (nat \<times> string) result" where
  "parse_quic_address ne cfg =
     (let address = remove_str ''quic://'' (get_protocol_url QUIC cfg)
      in map_sum id (\<lambda>a. (a, quic_hostname address)) (resolve_address ne address))"

definition connection_timeout :: "string \<Rightarrow> flare_error" where
  "connection_timeout m = localized ConnectionTimeout m"

definition dial_result :: "dial \<Rightarrow> nat result" where
  "dial_result d =
     (case d of
        DialTimeout \<Rightarrow> Inl (connection_timeout ''Connection timeout'')
      | DialFailed e \<Rightarrow> Inl (connection_failed e)
      | Dialled n \<Rightarrow> Inr n)"

text \<open>Whether dialling gets a TLS connector of its own.\<close>

definition tls_connector :: "net_env \<Rightarrow> client_config \<Rightarrow> string \<Rightarrow> bool result" where
  "tls_connector ne cfg url =
     (if starts_with ''ws://'' url then Inr False
      else if \<not> requires_custom_client_tls (cl_tls cfg) then Inr False
      else if \<not> starts_with ''wss://'' url then
        Inl (connection_failed (''WebSocket URL must start with ws:// or wss://, got: '' @ url))
      else case nv_tls ne (cl_tls cfg) of
        Inl e \<Rightarrow> Inl (connection_failed e)
      | Inr _ \<Rightarrow> Inr True)"

definition establish_tcp_connection :: "net_env \<Rightarrow> client_config \<Rightarrow> nat result" where
  "establish_tcp_connection ne cfg =
     (case parse_tcp_address ne cfg of Inl e \<Rightarrow> Inl e | Inr a \<Rightarrow> dial_result (nv_tcp ne a))"

definition establish_quic_connection :: "net_env \<Rightarrow> client_config \<Rightarrow> nat result" where
  "establish_quic_connection ne cfg =
     (case parse_quic_address ne cfg of Inl e \<Rightarrow> Inl e | Inr (a, host) \<Rightarrow> dial_result (nv_quic ne a host))"

definition establish_websocket_connection :: "net_env \<Rightarrow> client_config \<Rightarrow> nat result" where
  "establish_websocket_connection ne cfg =
     (let url = get_protocol_url WebSocket cfg in
      case tls_connector ne cfg url of Inl e \<Rightarrow> Inl e | Inr tls \<Rightarrow> dial_result (nv_ws ne url tls))"

definition establish_connection :: "net_env \<Rightarrow> transport_client \<Rightarrow> nat result" where
  "establish_connection ne t =
     (case tc_kind t of
        TCP \<Rightarrow> establish_tcp_connection ne (tc_config t)
      | QUIC \<Rightarrow> establish_quic_connection ne (tc_config t)
      | WebSocket \<Rightarrow> establish_websocket_connection ne (tc_config t))"

definition establish_network_connection :: "net_env \<Rightarrow> transport_client \<Rightarrow> transport_client \<times> nat result" where
  "establish_network_connection ne t =
     (case establish_connection ne t of
        Inl e \<Rightarrow> (t, Inl e)
      | Inr n \<Rightarrow> (t\<lparr>tc_connection := Some n, tc_prepared := True\<rparr>, Inr n))"

section \<open>Connecting\<close>

definition tr_set_state :: "(state_manager \<Rightarrow> state_manager) \<Rightarrow> transport_client \<Rightarrow> transport_client" where
  "tr_set_state f t = t\<lparr>tc_core := (tc_core t)\<lparr>co_state := f (co_state (tc_core t))\<rparr>\<rparr>"

definition tr_state :: "transport_client \<Rightarrow> connection_state" where
  "tr_state t = sm_state (co_state (tc_core t))"

definition setup_connection_with_observer ::
  "client_env \<Rightarrow> nat \<Rightarrow> transport_client \<Rightarrow> transport_client \<times> unit result" where
  "setup_connection_with_observer ce n t =
     (case setup_connection_and_send_connect ce n (tc_core t) of
        (c, Inl e) \<Rightarrow> (t\<lparr>tc_core := c\<rparr>, Inl e)
      | (c, Inr _) \<Rightarrow> (t\<lparr>tc_core := c, tc_connection := Some n\<rparr>, Inr ()))"

text \<open>Dropping the connection the client still holds.\<close>

definition drop_connection :: "client_env \<Rightarrow> transport_client \<Rightarrow> transport_client" where
  "drop_connection ce t =
     (let t1 = t\<lparr>tc_connection := None, tc_prepared := False\<rparr> in
      case tc_connection t of
        None \<Rightarrow> t1
      | Some n \<Rightarrow> t1\<lparr>tc_core := close_connection ce n (ce_closed_text ce) (tc_core t1)\<rparr>)"

text \<open>The connection on which CONNECT is sent: the one prepared by a race, once, or a new one.\<close>

definition connection_for_connect ::
  "client_env \<Rightarrow> net_env \<Rightarrow> transport_client \<Rightarrow> transport_client \<times> nat result" where
  "connection_for_connect ce ne t =
     (case (tc_connection t, tc_prepared t) of
        (Some n, True) \<Rightarrow>
          (if tc_kind t = WebSocket then (t\<lparr>tc_prepared := False\<rparr>, Inr n)
           else (t\<lparr>tc_connection := None, tc_prepared := False\<rparr>, Inr n))
      | _ \<Rightarrow>
          (if tc_kind t = WebSocket then
             (case establish_network_connection ne t of
                (t1, Inl e) \<Rightarrow> (t1, Inl e)
              | (t1, Inr n) \<Rightarrow> (t1\<lparr>tc_prepared := False\<rparr>, Inr n))
           else (let t1 = drop_connection ce t in (t1, establish_connection ne t1))))"

definition internal_connect ::
  "client_env \<Rightarrow> net_env \<Rightarrow> transport_client \<Rightarrow> transport_client \<times> unit result" where
  "internal_connect ce ne t =
     (case connection_for_connect ce ne t of
        (t1, Inl e) \<Rightarrow> (t1, Inl e)
      | (t1, Inr n) \<Rightarrow>
          (case setup_connection_with_observer ce n t1 of
             (t2, Inl e) \<Rightarrow> (t2, Inl e)
           | (t2, Inr _) \<Rightarrow>
               (t2\<lparr>tc_core := handle_connection_event ce Connected (tc_core t2), tc_attempts := 0\<rparr>, Inr ())))"

definition attempts_exhausted :: "transport_client \<Rightarrow> 32 word option" where
  "attempts_exhausted t =
     (case cl_max_reconnect_attempts (tc_config t) of
        Some m \<Rightarrow> if tc_attempts t \<ge> m then Some m else None
      | None \<Rightarrow> None)"

text \<open>\<open>r\<close> is the random number of the delay after a server shutdown; the client continues after the delay.\<close>

definition tr_try_reconnect ::
  "client_env \<Rightarrow> net_env \<Rightarrow> nat \<Rightarrow> (client_core \<Rightarrow> client_core) \<Rightarrow> transport_client \<Rightarrow> transport_client \<times> unit result"
  where
  "tr_try_reconnect ce ne r during t =
     (case attempts_exhausted t of
        Some m \<Rightarrow>
          (tr_set_state (set_failed (ce_now ce)) t,
           Inl (connection_failed (''Max reconnect attempts ('' @ int_str (uint m) @ '') exceeded'')))
      | None \<Rightarrow>
          (let t1 = (tr_set_state (start_connecting (ce_now ce)) t)\<lparr>tc_attempts := tc_attempts t + 1\<rparr> in
           case reconnect_delay (cl_reconnect_interval (tc_config t1)) r (tc_core t1) of
             (c, wait) \<Rightarrow>
               (let ce' = ce\<lparr>ce_now := ce_now ce + wait\<rparr>;
                    t2 = drop_connection ce' (t1\<lparr>tc_core := during c\<rparr>)
                in case internal_connect ce' ne t2 of
                     (t3, Inr _) \<Rightarrow> (t3, Inr ())
                   | (t3, Inl e) \<Rightarrow> (tr_set_state (set_failed (ce_now ce')) t3, Inl e))))"

definition unavailable_error :: "transport_protocol \<Rightarrow> flare_error" where
  "unavailable_error kind =
     protocol_error (if kind = QUIC then ''Cannot connect: connection state is not ready''
                     else ''Cannot connect: state is unavailable'')"

text \<open>\<open>ne\<close> and \<open>ne'\<close> are the network at the first attempt and at the reconnection.\<close>

definition tr_connect ::
  "client_env \<Rightarrow> net_env \<Rightarrow> net_env \<Rightarrow> nat \<Rightarrow> (client_core \<Rightarrow> client_core) \<Rightarrow> transport_client
   \<Rightarrow> transport_client \<times> unit result" where
  "tr_connect ce ne ne' r during t =
     (if \<not> can_connect (tr_state t) then (t, Inl (unavailable_error (tc_kind t)))
      else case internal_connect ce ne (tr_set_state (start_connecting (ce_now ce)) t) of
        (t1, Inr _) \<Rightarrow> (t1, Inr ())
      | (t1, Inl e) \<Rightarrow>
          (let t2 = tr_set_state (set_failed (ce_now ce)) t1 in
           if can_reconnect (cl_max_reconnect_attempts (tc_config t2)) then tr_try_reconnect ce ne' r during t2
           else (t2, Inl e)))"

definition tr_is_connected :: "transport_client \<Rightarrow> bool" where
  "tr_is_connected t \<longleftrightarrow>
     tr_state t = StConnected \<and> tc_connection t \<noteq> None \<and> (tc_kind t = QUIC \<or> co_negotiated (tc_core t))"

definition tr_set_disconnect_requested :: "bool \<Rightarrow> transport_client \<Rightarrow> transport_client" where
  "tr_set_disconnect_requested v t = t\<lparr>tc_core := set_disconnect_requested v (tc_core t)\<rparr>"

definition tr_disconnect :: "client_env \<Rightarrow> transport_client \<Rightarrow> transport_client" where
  "tr_disconnect ce t =
     t\<lparr>tc_connection := None, tc_prepared := False, tc_core := disconnect_internal ce (tc_connection t) (tc_core t)\<rparr>"

section \<open>Sending\<close>

definition tr_send_frame_internal :: "client_env \<Rightarrow> frame \<Rightarrow> transport_client \<Rightarrow> transport_client \<times> unit result" where
  "tr_send_frame_internal ce f t =
     (case send_frame_internal ce (tc_connection t) f (tc_core t) of (c, res) \<Rightarrow> (t\<lparr>tc_core := c\<rparr>, res))"

definition tr_send_frame ::
  "client_env \<Rightarrow> net_env \<Rightarrow> nat \<Rightarrow> (client_core \<Rightarrow> client_core) \<Rightarrow> frame \<Rightarrow> transport_client
   \<Rightarrow> transport_client \<times> unit result" where
  "tr_send_frame ce ne r during f t =
     (if should_reconnect_before_send (tr_is_connected t) (tc_core t) (tc_config t) then
        (case tr_try_reconnect ce ne r during t of
           (t1, Inl e) \<Rightarrow> (t1, Inl e)
         | (t1, Inr _) \<Rightarrow> tr_send_frame_internal ce f t1)
      else tr_send_frame_internal ce f t)"

datatype wait_outcome = Answered frame | ChannelClosed | WaitTimedOut

text \<open>What a waiter does with the outcome of its wait.\<close>

definition wait_result :: "string \<Rightarrow> wait_outcome \<Rightarrow> client_core \<Rightarrow> client_core \<times> frame result" where
  "wait_result i w c =
     (case w of
        Answered f \<Rightarrow> (c, Inr f)
      | ChannelClosed \<Rightarrow> (cancel_pending_response i c, Inl (protocol_error ''Response channel closed''))
      | WaitTimedOut \<Rightarrow>
          (cancel_pending_response i c, Inl (protocol_error (''Response timeout for message_id '' @ i))))"

definition ws_send_frame_and_wait ::
  "client_env \<Rightarrow> net_env \<Rightarrow> nat \<Rightarrow> (client_core \<Rightarrow> client_core) \<Rightarrow> nat \<Rightarrow> wait_outcome \<Rightarrow> (client_core \<Rightarrow> client_core)
   \<Rightarrow> frame \<Rightarrow> transport_client \<Rightarrow> transport_client \<times> frame result" where
  "ws_send_frame_and_wait ce ne r during waiter w meanwhile f t =
     (if fr_message_id f = [] then (t, Inl (protocol_error ''message_id is empty''))
      else
        (let t1 = t\<lparr>tc_core := register_pending_response (fr_message_id f) waiter (tc_core t)\<rparr> in
         case tr_send_frame ce ne r during f t1 of
           (t2, Inl e) \<Rightarrow> (t2, Inl e)
         | (t2, Inr _) \<Rightarrow>
             (case wait_result (fr_message_id f) w (meanwhile (tc_core t2)) of
                (c, res) \<Rightarrow> (t2\<lparr>tc_core := c\<rparr>, res))))"

section \<open>What the parts keep\<close>

lemma connection_event_keeps [simp]:
  "co_disconnect_requested (handle_connection_event ce e c) = co_disconnect_requested c"
  "co_sent (handle_connection_event ce e c) = co_sent c"
  "co_config (handle_connection_event ce e c) = co_config c"
proof -
  have g: "co_disconnect_requested (connection_gone f during d c) = co_disconnect_requested c"
    "co_sent (connection_gone f during d c) = co_sent c" "co_config (connection_gone f during d c) = co_config c" for f during d c
    by (simp_all add: connection_gone_def stop_heartbeat_def fail_negotiation_on_close_def spawn_def Let_def split: option.splits)
  have r: "co_disconnect_requested (report_event r e c) = co_disconnect_requested c"
    "co_sent (report_event r e c) = co_sent c" "co_config (report_event r e c) = co_config c" for r e c
    by (simp_all add: report_event_def notify_observers_def split: close_report.splits)
  have o: "co_disconnect_requested (on_connected ce c) = co_disconnect_requested c"
    "co_sent (on_connected ce c) = co_sent c" "co_config (on_connected ce c) = co_config c" for c
    by (simp_all add: on_connected_def reset_negotiation_state_def Let_def)
  have k: "co_disconnect_requested (fst (close_report_of c)) = co_disconnect_requested c"
    "co_sent (fst (close_report_of c)) = co_sent c" "co_config (fst (close_report_of c)) = co_config c" for c
    by (simp_all add: close_report_of_def split: option.splits)
  show "co_disconnect_requested (handle_connection_event ce e c) = co_disconnect_requested c"
    "co_sent (handle_connection_event ce e c) = co_sent c" "co_config (handle_connection_event ce e c) = co_config c"
    by (cases e; simp add: handle_connection_event_def case_prod_beta g r o k call_handler_def Let_def)+
qed

lemma disconnected_event_state [simp]: "sm_state (co_state (handle_connection_event ce (Disconnected reason) c)) = StDisconnected"
  by (auto simp: handle_connection_event_def report_event_def notify_observers_def connection_gone_def stop_heartbeat_def
      fail_negotiation_on_close_def spawn_def set_disconnected_def set_state_def Let_def split: option.splits close_report.splits prod.splits)

lemma core_keeps [simp]:
  "co_disconnect_requested (close_connection ce n reason c) = co_disconnect_requested c"
  "co_disconnect_requested (set_client_connection n c) = co_disconnect_requested c"
  "co_sent (close_connection ce n reason c) = co_sent c"
  "co_sent (set_client_connection n c) = co_sent c"
  "co_config (close_connection ce n reason c) = co_config c"
  by (simp_all add: set_client_connection_def close_connection_def on_event_def spawn_def)

lemma connected_event_state [simp]: "sm_state (co_state (handle_connection_event ce Connected c)) = StConnected"
  by (simp add: handle_connection_event_def report_event_def notify_observers_def on_connected_def set_connected_def
      set_state_def reset_negotiation_state_def Let_def)

lemma tr_set_state_simps [simp]:
  "tr_state (tr_set_state (set_failed now) t) = StFailed"
  "tc_kind (tr_set_state f t) = tc_kind t" "tc_config (tr_set_state f t) = tc_config t"
  "tc_connection (tr_set_state f t) = tc_connection t" "tc_prepared (tr_set_state f t) = tc_prepared t"
  "tc_attempts (tr_set_state f t) = tc_attempts t" "co_sent (tc_core (tr_set_state f t)) = co_sent (tc_core t)"
  "co_disconnect_requested (tc_core (tr_set_state f t)) = co_disconnect_requested (tc_core t)"
  by (simp_all add: tr_state_def tr_set_state_def set_failed_def set_state_def)

lemma drop_connection_simps [simp]:
  "tc_connection (drop_connection ce t) = None" "\<not> tc_prepared (drop_connection ce t)"
  "tc_kind (drop_connection ce t) = tc_kind t" "tc_config (drop_connection ce t) = tc_config t"
  "tc_attempts (drop_connection ce t) = tc_attempts t"
  "co_sent (tc_core (drop_connection ce t)) = co_sent (tc_core t)"
  "co_disconnect_requested (tc_core (drop_connection ce t)) = co_disconnect_requested (tc_core t)"
  by (simp_all add: drop_connection_def Let_def split: option.splits)

lemma setup_sent:
  "setup_connection_and_send_connect ce n c = (c', res) \<Longrightarrow>
     co_disconnect_requested c' = co_disconnect_requested c
     \<and> (\<exists>xs. co_sent c' = co_sent c @ xs \<and> fst ` set xs \<subseteq> {n} \<and> length xs \<le> 1 \<and> (res = Inr () \<longrightarrow> length xs = 1))"
  by (auto simp: setup_connection_and_send_connect_def send_connect_message_def send_on_def on_event_def Let_def
      split: sum.splits)

text \<open>The connection for CONNECT is the prepared one or a new one, and the preparation is used up.\<close>

lemma connection_for_connect_cases:
  assumes "connection_for_connect ce ne t = (t1, res)"
  shows "co_sent (tc_core t1) = co_sent (tc_core t) \<and> co_disconnect_requested (tc_core t1) = co_disconnect_requested (tc_core t)
    \<and> tc_config t1 = tc_config t \<and> tc_kind t1 = tc_kind t \<and> tc_attempts t1 = tc_attempts t
    \<and> (tc_prepared t1 \<longrightarrow> tc_connection t1 = None)
    \<and> (\<forall>n. res = Inr n \<longrightarrow> \<not> tc_prepared t1 \<and> (tc_prepared t \<and> tc_connection t = Some n \<or> establish_connection ne t = Inr n))"
proof (cases "tc_prepared t \<and> tc_connection t \<noteq> None")
  case True
  then show ?thesis using assms by (auto simp: connection_for_connect_def split: if_splits)
next
  case False
  have est: "establish_connection ne (drop_connection ce t) = establish_connection ne t"
    by (cases "tc_kind t") (simp_all add: establish_connection_def)
  show ?thesis
  proof (cases "tc_kind t = WebSocket")
    case True
    then show ?thesis using assms False
      by (auto simp: connection_for_connect_def establish_network_connection_def split: option.splits bool.splits sum.splits)
  next
    case kind: False
    then have "t1 = drop_connection ce t" "res = establish_connection ne t"
      using assms False est by (auto simp: connection_for_connect_def Let_def split: option.splits bool.splits)
    then show ?thesis by simp
  qed
qed

lemma internal_connect_requested:
  assumes "internal_connect ce ne t = (t', res)"
  shows "co_disconnect_requested (tc_core t') = co_disconnect_requested (tc_core t) \<and> tc_config t' = tc_config t"
proof -
  obtain t1 r1 where 1: "connection_for_connect ce ne t = (t1, r1)" by fastforce
  note c = connection_for_connect_cases [OF 1]
  show ?thesis
  proof (cases r1)
    case (Inl e)
    then show ?thesis using assms c 1 by (simp add: internal_connect_def)
  next
    case (Inr n)
    obtain c' r2 where 2: "setup_connection_and_send_connect ce n (tc_core t1) = (c', r2)" by fastforce
    show ?thesis using assms c setup_sent [OF 2] 1 2 Inr
      by (auto simp: internal_connect_def setup_connection_with_observer_def split: sum.splits)
  qed
qed

lemma internal_connect_connected:
  "internal_connect ce ne t = (t', Inr ()) \<Longrightarrow> tr_state t' = StConnected \<and> tc_attempts t' = 0"
  by (auto simp: internal_connect_def tr_state_def split: prod.splits sum.splits)

lemma try_reconnect_state:
  "tr_try_reconnect ce ne r during t = (t', res) \<Longrightarrow> tr_state t' = (case res of Inr _ \<Rightarrow> StConnected | Inl _ \<Rightarrow> StFailed)"
  using internal_connect_connected
  by (auto simp: tr_try_reconnect_def Let_def split: prod.splits option.splits sum.splits)

lemma try_reconnect_attempts:
  "tr_try_reconnect ce ne r during t = (t', Inr ()) \<Longrightarrow> tc_attempts t' = 0"
  using internal_connect_connected
  by (auto simp: tr_try_reconnect_def Let_def split: prod.splits option.splits sum.splits)

lemma try_reconnect_requested:
  assumes "\<And>c. co_disconnect_requested (during c) = co_disconnect_requested c"
    and "tr_try_reconnect ce ne r during t = (t', res)"
  shows "co_disconnect_requested (tc_core t') = co_disconnect_requested (tc_core t)"
  using assms(2) internal_connect_requested
  by (fastforce simp: tr_try_reconnect_def Let_def assms(1) reconnect_delay_def split: prod.splits option.splits sum.splits)

section \<open>Properties\<close>

text \<open>C34: A client is never stuck while connecting. However the network behaves at the first attempt and at the
  reconnection, and whatever other tasks do to the core meanwhile, a connect that was possible leaves the client connected if it
  succeeds and failed if it does not, and a failed client can connect again; success starts the count of
  reconnection attempts anew.\<close>

theorem connect_settles:
  assumes "tr_connect ce ne ne' r during t = (t', res)" "can_connect (tr_state t)"
  shows "(res = Inr () \<longrightarrow> tr_state t' = StConnected \<and> tc_attempts t' = 0)
    \<and> (res \<noteq> Inr () \<longrightarrow> tr_state t' = StFailed \<and> can_connect (tr_state t'))"
proof -
  obtain t1 r1 where 1: "internal_connect ce ne (tr_set_state (start_connecting (ce_now ce)) t) = (t1, r1)" by fastforce
  show ?thesis
  proof (cases r1)
    case (Inr u)
    then have "t' = t1" "res = Inr ()" using assms 1 by (auto simp: tr_connect_def)
    then show ?thesis using internal_connect_connected 1 Inr by auto
  next
    case (Inl e)
    let ?t2 = "tr_set_state (set_failed (ce_now ce)) t1"
    have "tr_try_reconnect ce ne' r during ?t2 = (t', res) \<or> t' = ?t2 \<and> res = Inl e"
      using assms 1 Inl by (auto simp: tr_connect_def Let_def split: if_splits)
    then show ?thesis
      using try_reconnect_state [of ce ne' r during ?t2 t' res] try_reconnect_attempts [of ce ne' r during ?t2 t']
      by (cases res) (auto simp: can_connect_def)
  qed
qed

text \<open>A send that fails to reconnect leaves the client able to connect.\<close>

theorem failed_reconnect_settles:
  assumes "tr_send_frame ce ne r during f t = (t', Inl e)"
    and "should_reconnect_before_send (tr_is_connected t) (tc_core t) (tc_config t)"
  shows "can_connect (tr_state t') \<or> can_send (tr_state t')"
proof -
  obtain t1 r1 where 1: "tr_try_reconnect ce ne r during t = (t1, r1)" by fastforce
  have send: "tr_state (fst (tr_send_frame_internal ce f v)) = tr_state v" for v
    by (auto simp: tr_send_frame_internal_def send_frame_internal_def send_on_def tr_state_def split: prod.splits sum.splits option.splits)
  have "tr_state t' = tr_state t1"
    using assms 1 send [of t1] by (cases r1) (auto simp: tr_send_frame_def)
  then show ?thesis using try_reconnect_state [OF 1] by (cases r1) (auto simp: can_connect_def can_send_def)
qed

text \<open>CONNECT is never written to a connection left from an earlier session. What connecting writes goes to the
  connection that a race prepared, if there is one, or to one that was opened for it; the preparation is used once; and a client
  that has connected holds the connection on which it sent CONNECT.\<close>

theorem connect_on_fresh_connection:
  assumes "internal_connect ce ne t = (t', res)"
  shows "\<exists>xs. co_sent (tc_core t') = co_sent (tc_core t) @ xs \<and> length xs \<le> 1
    \<and> (\<forall>(n, d) \<in> set xs. (tc_prepared t \<and> tc_connection t = Some n \<or> establish_connection ne t = Inr n))
    \<and> (res = Inr () \<longrightarrow> \<not> tc_prepared t' \<and> tc_attempts t' = 0 \<and> (\<exists>n d. xs = [(n, d)] \<and> tc_connection t' = Some n))"
proof -
  obtain t1 r1 where 1: "connection_for_connect ce ne t = (t1, r1)" by fastforce
  note c = connection_for_connect_cases [OF 1]
  show ?thesis
  proof (cases r1)
    case (Inl e)
    then show ?thesis using assms c 1 by (auto simp: internal_connect_def)
  next
    case (Inr n)
    obtain c' r2 where 2: "setup_connection_and_send_connect ce n (tc_core t1) = (c', r2)" by fastforce
    obtain xs where xs: "co_sent c' = co_sent (tc_core t) @ xs" "fst ` set xs \<subseteq> {n}" "length xs \<le> 1" "r2 = Inr () \<longrightarrow> length xs = 1"
      using setup_sent [OF 2] c by auto
    have n: "tc_prepared t \<and> tc_connection t = Some n \<or> establish_connection ne t = Inr n" using c Inr by blast
    have e: "co_sent (tc_core t') = co_sent c'" "res = r2"
      "r2 = Inr () \<Longrightarrow> tc_connection t' = Some n \<and> tc_attempts t' = 0 \<and> \<not> tc_prepared t'"
      using assms 1 2 Inr c by (auto simp: internal_connect_def setup_connection_with_observer_def split: sum.splits)
    have "\<exists>d. xs = [(n, d)]" if "r2 = Inr ()" using that xs by (cases xs) auto
    then show ?thesis using xs e n by (intro exI [of _ xs]) auto
  qed
qed

text \<open>After it disconnected on request, or the server ended its session, or where the configuration forbids it, a client
  does not reconnect in order to send: the send fails and nothing changes.\<close>

theorem no_reconnect_to_send:
  assumes "tr_state t \<noteq> StConnected"
    and "co_disconnect_requested (tc_core t) \<or> co_session_ended (tc_core t) \<noteq> None \<or> \<not> cl_reconnect_on_send (tc_config t)
      \<or> cl_max_reconnect_attempts (tc_config t) = Some 0"
  shows "tr_send_frame ce ne r during f t = (t, Inl (connection_failed ''Cannot send: connection state is not ready''))"
  using assms
  by (auto simp: tr_send_frame_def should_reconnect_before_send_def can_reconnect_def tr_send_frame_internal_def
      send_frame_internal_def can_send_def tr_state_def)

text \<open>C35: A client that disconnected on request and then connects again is not told of kicks. Connecting does not
  withdraw the mark that the client asked to disconnect, so in the new session a KICKED command registers no reason to report
  and does not end the session, whatever its reason.\<close>

theorem reconnected_client_deaf_to_kicks:
  assumes "\<And>c. co_disconnect_requested (during c) = co_disconnect_requested c"
    and "tr_connect ce ne ne' r during (tr_disconnect ce0 t) = (t', Inr ())"
  shows "tr_state t' = StConnected
    \<and> kicked_register f s True (tc_core t') = (call_handler (OnSystem SysKicked f) (tc_core t'), None)"
proof -
  let ?d = "tr_disconnect ce0 t"
  have d: "co_disconnect_requested (tc_core ?d)"
    by (simp add: tr_disconnect_def disconnect_internal_def Let_def cancel_all_pending_responses_def clear_client_connection_def
        stop_heartbeat_def set_disconnect_requested_def split: option.splits)
  have can: "can_connect (tr_state ?d)" using assms(2) by (auto simp: tr_connect_def split: if_splits)
  obtain t1 r1 where 1: "internal_connect ce ne (tr_set_state (start_connecting (ce_now ce)) ?d) = (t1, r1)" by fastforce
  have "tr_state t' = StConnected \<and> co_disconnect_requested (tc_core t')"
  proof (cases r1)
    case (Inl e)
    then have "tr_try_reconnect ce ne' r during (tr_set_state (set_failed (ce_now ce)) t1) = (t', Inr ())"
      using assms(2) can 1 by (auto simp: tr_connect_def Let_def split: if_splits)
    then show ?thesis
      using try_reconnect_requested [of during, OF assms(1)] try_reconnect_state internal_connect_requested [OF 1] d by fastforce
  next
    case (Inr u)
    then have "t' = t1" using assms(2) can 1 by (auto simp: tr_connect_def)
    then show ?thesis using internal_connect_requested [OF 1] internal_connect_connected 1 Inr d by fastforce
  qed
  then show ?thesis by (auto simp: kicked_register_def call_handler_def Let_def)
qed

text \<open>The entry of a waiting request: it is gone when the wait ends without an answer, but a request that cannot be
  sent leaves it behind.\<close>

theorem request_entry:
  "w = ChannelClosed \<or> w = WaitTimedOut \<Longrightarrow>
     fr_message_id f \<noteq> [] \<Longrightarrow>
     (\<exists>t2. tr_send_frame ce ne r during f (t\<lparr>tc_core := register_pending_response (fr_message_id f) waiter (tc_core t)\<rparr>) = (t2, Inr ())) \<Longrightarrow>
     map_of (co_pending (tc_core (fst (ws_send_frame_and_wait ce ne r during waiter w meanwhile f t)))) (fr_message_id f) = None"
  "co_disconnect_requested (tc_core t) \<Longrightarrow> tr_state t \<noteq> StConnected \<Longrightarrow> fr_message_id f \<noteq> [] \<Longrightarrow>
     (\<exists>e. snd (ws_send_frame_and_wait ce ne r during waiter w meanwhile f t) = Inl e)
     \<and> map_of (co_pending (tc_core (fst (ws_send_frame_and_wait ce ne r during waiter w meanwhile f t)))) (fr_message_id f) = Some waiter"
proof -
  assume "w = ChannelClosed \<or> w = WaitTimedOut" "fr_message_id f \<noteq> []"
    "\<exists>t2. tr_send_frame ce ne r during f (t\<lparr>tc_core := register_pending_response (fr_message_id f) waiter (tc_core t)\<rparr>) = (t2, Inr ())"
  then show "map_of (co_pending (tc_core (fst (ws_send_frame_and_wait ce ne r during waiter w meanwhile f t)))) (fr_message_id f) = None"
    by (auto simp: ws_send_frame_and_wait_def wait_result_def cancel_pending_response_def Let_def delete_conv)
next
  assume a: "co_disconnect_requested (tc_core t)" "tr_state t \<noteq> StConnected" "fr_message_id f \<noteq> []"
  let ?t1 = "t\<lparr>tc_core := register_pending_response (fr_message_id f) waiter (tc_core t)\<rparr>"
  have "tr_send_frame ce ne r during f ?t1 = (?t1, Inl (connection_failed ''Cannot send: connection state is not ready''))"
    using a by (intro no_reconnect_to_send) (simp_all add: register_pending_response_def tr_state_def)
  then show "(\<exists>e. snd (ws_send_frame_and_wait ce ne r during waiter w meanwhile f t) = Inl e)
     \<and> map_of (co_pending (tc_core (fst (ws_send_frame_and_wait ce ne r during waiter w meanwhile f t)))) (fr_message_id f) = Some waiter"
    using a by (simp add: ws_send_frame_and_wait_def register_pending_response_def Let_def update_conv)
qed

section \<open>Examples\<close>

definition ex_net :: "dial \<Rightarrow> net_env" where
  "ex_net d = \<lparr>nv_parse = (\<lambda>_. Some 0), nv_lookup = (\<lambda>_. Inr []), nv_tls = (\<lambda>_. Inr ()), nv_tcp = (\<lambda>_. d), nv_quic = (\<lambda>_ _. d), nv_ws = (\<lambda>_ _. d)\<rparr>"

definition ex_tr_lib :: codec_lib where
  "ex_tr_lib = ex_lib\<lparr>lib_json_encode := (\<lambda>_. Some ''{}'')\<rparr>"

definition ex_tr_env :: client_env where
  "ex_tr_env =
     \<lparr>ce_codecs = global_codecs ex_tr_lib, ce_nonce = [], ce_stamp = \<lparr>st_id_ms = 0, st_ts_ms = 0, st_counter = 0\<rparr>, ce_now = 0,
      ce_send = (\<lambda>_ _. Inr ()), ce_waiting = (\<lambda>_. True), ce_display = (\<lambda>_. []), ce_closed_text = ''closed''\<rparr>"

definition ex_tcp :: transport_client where
  "ex_tcp = tr_new TCP ''c'' 0 (client_config_default\<lparr>cl_max_reconnect_attempts := Some 0\<rparr>)"

lemma ex_tcp_core: "tc_core ex_tcp = client_core_new 0 (client_config_default\<lparr>cl_max_reconnect_attempts := Some 0\<rparr>)"
  by (simp add: ex_tcp_def tr_new_def tr_with_core_def)

lemma ex_tcp_fields [simp]:
  "tc_kind ex_tcp = TCP" "tc_connection ex_tcp = None" "\<not> tc_prepared ex_tcp" "tr_state ex_tcp = StDisconnected"
  "cl_max_reconnect_attempts (tc_config ex_tcp) = Some 0" "co_sent (tc_core ex_tcp) = []"
  "\<not> is_force_format (co_config (tc_core ex_tcp))"
  by (simp_all add: ex_tcp_def tr_new_def tr_with_core_def tr_state_def client_core_new_def state_manager_new_def
      is_force_format_def client_config_default_def split: prod.splits)

lemma ex_establish [simp]: "tc_kind t = TCP \<Longrightarrow> establish_connection (ex_net d) t = dial_result d"
  by (simp add: establish_connection_def establish_tcp_connection_def parse_tcp_address_def resolve_address_def ex_net_def)

lemma ex_tr_env_fields [simp]:
  "ce_codecs ex_tr_env = global_codecs ex_tr_lib" "ce_nonce ex_tr_env = []" "ce_send ex_tr_env n d = Inr ()"
  by (simp_all add: ex_tr_env_def)

lemma ex_serialize: "serialize (global_codecs ex_tr_lib) [] PRE_NEGOTIATION_PARSER f = Inr ''{}''"
  by (simp add: serialize_def serialize_with_format_def PRE_NEGOTIATION_PARSER_def parser_new_def global_codecs_def
      serializer_defaults_def compressor_defaults_def encryptor_defaults_def register_serializer_def register_compressor_def
      register_encryptor_def json_serializer_def protobuf_serializer_def pick_serializer_def find_by_format_def find_serializer_def should_compress_payload_def encrypt_data_def ok_or_def ex_tr_lib_def)

lemma connected_event_config [simp]: "co_config (on_event ce Connected c) = co_config c"
  by (simp add: on_event_def handle_connection_event_def call_handler_def report_event_def notify_observers_def on_connected_def
      reset_negotiation_state_def Let_def)

lemma ex_connect:
  "\<not> is_force_format (co_config c) \<Longrightarrow> snd (setup_connection_and_send_connect ex_tr_env n c) = Inr ()"
  by (simp add: setup_connection_and_send_connect_def send_connect_message_def serialize_connect_frame_def ex_serialize
      send_on_def Let_def set_client_connection_def)

theorem connect_settles_witness:
  "tr_state (fst (tr_connect ex_tr_env (ex_net DialTimeout) (ex_net DialTimeout) 0 (\<lambda>c. c) ex_tcp)) = StFailed"
proof -
  let ?r = "tr_connect ex_tr_env (ex_net DialTimeout) (ex_net DialTimeout) 0 (\<lambda>c. c) ex_tcp"
  have "can_connect (tr_state ex_tcp)" by (simp add: can_connect_def)
  moreover have "snd ?r \<noteq> Inr ()"
    by (simp add: tr_connect_def internal_connect_def connection_for_connect_def dial_result_def Let_def can_connect_def can_reconnect_def)
  ultimately show ?thesis
    using connect_settles [of ex_tr_env "ex_net DialTimeout" "ex_net DialTimeout" 0 "\<lambda>c. c" ex_tcp "fst ?r" "snd ?r"] by simp
qed

text \<open>A race prepared connection 7; no other can be opened.\<close>

theorem connect_on_fresh_connection_witness:
  "\<exists>t' d. internal_connect ex_tr_env (ex_net DialTimeout) (ex_tcp\<lparr>tc_connection := Some 7, tc_prepared := True\<rparr>) = (t', Inr ())
     \<and> co_sent (tc_core t') = [(7, d)] \<and> tc_connection t' = Some 7"
proof -
  let ?t = "ex_tcp\<lparr>tc_connection := Some 7, tc_prepared := True\<rparr>"
  have "snd (internal_connect ex_tr_env (ex_net DialTimeout) ?t) = Inr ()"
    using ex_connect [of "tc_core ex_tcp" 7]
    by (auto simp: internal_connect_def connection_for_connect_def setup_connection_with_observer_def split: prod.splits sum.splits)
  then obtain t' where t': "internal_connect ex_tr_env (ex_net DialTimeout) ?t = (t', Inr ())" by (metis surj_pair snd_conv)
  obtain xs where "co_sent (tc_core t') = xs" "\<forall>(n, d) \<in> set xs. n = 7" "\<exists>n d. xs = [(n, d)] \<and> tc_connection t' = Some n"
    using connect_on_fresh_connection [OF t'] by (auto simp: dial_result_def)
  with t' show ?thesis by auto
qed

theorem reconnected_client_deaf_to_kicks_witness:
  "\<exists>t'. tr_connect ex_tr_env (ex_net (Dialled 7)) (ex_net (Dialled 7)) 0 (\<lambda>c. c) (tr_disconnect ex_tr_env ex_tcp) = (t', Inr ())
     \<and> snd (kicked_register ex_frame (kicked DEVICE_CONFLICT_REASON None) True (tc_core t')) = None"
proof -
  let ?d = "tr_disconnect ex_tr_env ex_tcp"
  let ?s = "tr_set_state (start_connecting (ce_now ex_tr_env)) ?d"
  have d: "tc_kind ?s = TCP" "tc_connection ?s = None" "\<not> is_force_format (co_config (tc_core (drop_connection ex_tr_env ?s)))"
    "can_connect (tr_state ?d)"
    using ex_tcp_fields
    by (simp_all add: tr_disconnect_def tr_set_state_def drop_connection_def disconnect_internal_def Let_def cancel_all_pending_responses_def
        clear_client_connection_def stop_heartbeat_def set_disconnect_requested_def tr_state_def can_connect_def split: option.splits)
  have "snd (tr_connect ex_tr_env (ex_net (Dialled 7)) (ex_net (Dialled 7)) 0 (\<lambda>c. c) ?d) = Inr ()"
    using ex_connect [OF d(3), of 7] d
    by (auto simp: tr_connect_def internal_connect_def connection_for_connect_def setup_connection_with_observer_def dial_result_def Let_def
        split: prod.splits sum.splits)
  then obtain t' where t': "tr_connect ex_tr_env (ex_net (Dialled 7)) (ex_net (Dialled 7)) 0 (\<lambda>c. c) ?d = (t', Inr ())"
    by (metis surj_pair snd_conv)
  then show ?thesis using reconnected_client_deaf_to_kicks [OF refl t'] by simp
qed

end
