(* ===== verification/HybridClient.thy ===== *)
theory HybridClient
  imports ClientTransport
begin

text \<open>
  The client over several transports (\<open>src/src/client/transports/hybrid.rs\<close>): one protocol, or a race in which every
  protocol opens a network connection, the first one that is open wins and CONNECT is sent on it, and the others are
  closed.  The clients of a race share parts of their cores with the core of the race (\<open>share_race_state_from\<close> and
  \<open>detach_race_state\<close> of \<open>client_core.rs\<close>); the shared cells live in a store and a client holds their address.

  A race is given by the results of its tasks in the order in which they finish; tasks that do not finish before
  the race is decided are aborted and have no result.  A panic is the value \<open>None\<close>.
\<close>

section \<open>Shared cells\<close>

record race_cells =
  rs_observers :: "nat list"
  rs_pending :: "(string, nat) amap"
  rs_disconnect_requested :: bool
  rs_negotiated :: bool
  rs_failure :: "flare_error option"
  rs_server_shutdown :: bool
  rs_session_ended :: "string option"
  rs_pending_kick :: "string option"
  rs_kick_reported :: bool
  rs_heartbeat_config :: heartbeat_config
  rs_probe_wake :: bool

type_synonym store = "nat \<Rightarrow> race_cells"

definition cells_of :: "client_core \<Rightarrow> race_cells" where
  "cells_of c =
     \<lparr>rs_observers = co_observers c, rs_pending = co_pending c, rs_disconnect_requested = co_disconnect_requested c,
      rs_negotiated = co_negotiated c, rs_failure = co_failure c, rs_server_shutdown = co_server_shutdown c,
      rs_session_ended = co_session_ended c, rs_pending_kick = co_pending_kick c, rs_kick_reported = co_kick_reported c,
      rs_heartbeat_config = co_heartbeat_config c, rs_probe_wake = co_probe_wake c\<rparr>"

definition with_cells :: "race_cells \<Rightarrow> client_core \<Rightarrow> client_core" where
  "with_cells s c = c
     \<lparr>co_observers := rs_observers s, co_pending := rs_pending s, co_disconnect_requested := rs_disconnect_requested s,
      co_negotiated := rs_negotiated s, co_failure := rs_failure s, co_server_shutdown := rs_server_shutdown s,
      co_session_ended := rs_session_ended s, co_pending_kick := rs_pending_kick s, co_kick_reported := rs_kick_reported s,
      co_heartbeat_config := rs_heartbeat_config s, co_probe_wake := rs_probe_wake s\<rparr>"

definition detached_cells :: "client_config \<Rightarrow> race_cells" where
  "detached_cells cfg =
     \<lparr>rs_observers = [], rs_pending = [], rs_disconnect_requested = False, rs_negotiated = False, rs_failure = None,
      rs_server_shutdown = False, rs_session_ended = None, rs_pending_kick = None, rs_kick_reported = False,
      rs_heartbeat_config = cl_heartbeat cfg, rs_probe_wake = False\<rparr>"

record race_client =
  rx_ref :: nat
  rx_client :: transport_client

text \<open>An operation of a client reads and writes the cells at its address.\<close>

definition on_cells ::
  "(transport_client \<Rightarrow> transport_client \<times> 'r) \<Rightarrow> race_client \<Rightarrow> store \<Rightarrow> race_client \<times> store \<times> 'r" where
  "on_cells op x st =
     (let t = rx_client x in
      case op (t\<lparr>tc_core := with_cells (st (rx_ref x)) (tc_core t)\<rparr>) of
        (t', res) \<Rightarrow> (x\<lparr>rx_client := t'\<rparr>, st(rx_ref x := cells_of (tc_core t')), res))"

definition share_race_state_from :: "nat \<Rightarrow> race_client \<Rightarrow> race_client" where
  "share_race_state_from shared x = x\<lparr>rx_ref := shared\<rparr>"

text \<open>\<open>fresh\<close> is the address of the new cells.\<close>

definition detach_race_state :: "nat \<Rightarrow> race_client \<Rightarrow> store \<Rightarrow> race_client \<times> store" where
  "detach_race_state fresh x st =
     (x\<lparr>rx_ref := fresh\<rparr>, st(fresh := detached_cells (co_config (tc_core (rx_client x)))))"

section \<open>Creating clients\<close>

text \<open>What a race depends on: the environment and network of its clients, the transports that are compiled in, the
  creation of a QUIC endpoint, generated connection ids, and the debug form of durations.\<close>

record race_env =
  he_env :: client_env
  he_net :: net_env
  he_features :: "transport_protocol \<Rightarrow> bool"
  he_endpoint :: "tls_config \<Rightarrow> unit result"
  he_id :: "transport_protocol \<Rightarrow> string"
  he_duration :: "duration \<Rightarrow> string"

record hybrid_client =
  hy_inner :: race_client
  hy_last_known :: bool
  hy_active :: transport_protocol
  hy_core :: "client_core option"

primrec protocol_debug :: "transport_protocol \<Rightarrow> string" where
  "protocol_debug WebSocket = ''WebSocket''"
| "protocol_debug QUIC = ''QUIC''"
| "protocol_debug TCP = ''TCP''"

definition transport_feature_disabled :: "transport_protocol \<Rightarrow> flare_error" where
  "transport_feature_disabled p = localized OperationNotSupported (protocol_debug p @ '' transport feature is disabled'')"

text \<open>Without an endpoint given to it, the QUIC client panics when it cannot create one.\<close>

definition create_protocol_client :: "race_env \<Rightarrow> client_config \<Rightarrow> client_core \<Rightarrow> transport_client result option" where
  "create_protocol_client he cfg core =
     (let p = cl_transport cfg in
      if \<not> he_features he p then Some (Inl (transport_feature_disabled p))
      else if p = QUIC \<and> isl (he_endpoint he (cl_tls cfg)) then None
      else Some (Inr (tr_with_core p (he_id he p) cfg core)))"

definition hybrid_of :: "nat \<Rightarrow> transport_protocol \<Rightarrow> client_core option \<Rightarrow> transport_client \<Rightarrow> hybrid_client" where
  "hybrid_of ref p core t =
     \<lparr>hy_inner = \<lparr>rx_ref = ref, rx_client = t\<rparr>, hy_last_known = False, hy_active = p, hy_core = core\<rparr>"

text \<open>The core is shared whole with the inner client, which is written \<open>None\<close>; \<open>ref\<close> is the address of its cells.\<close>

definition create_single_protocol ::
  "race_env \<Rightarrow> nat \<Rightarrow> client_config \<Rightarrow> transport_protocol \<Rightarrow> client_core \<Rightarrow> hybrid_client result option" where
  "create_single_protocol he ref cfg p core =
     (let c1 = cfg\<lparr>cl_transport := p, cl_transports := None\<rparr>;
          c2 = c1\<lparr>cl_server_url := get_protocol_url p c1\<rparr>
      in map_option (map_sum id (hybrid_of ref p None)) (create_protocol_client he c2 core))"

definition create_race_mode_placeholder ::
  "race_env \<Rightarrow> nat \<Rightarrow> client_config \<Rightarrow> transport_protocol \<Rightarrow> client_core \<Rightarrow> hybrid_client result option" where
  "create_race_mode_placeholder he ref cfg p core =
     (let c1 = cfg\<lparr>cl_server_url := get_protocol_url p cfg, cl_transport := p\<rparr>
      in map_option (map_sum id (hybrid_of ref p None)) (create_protocol_client he c1 core))"

definition hybrid_new :: "race_env \<Rightarrow> nat \<Rightarrow> client_config \<Rightarrow> hybrid_client result option" where
  "hybrid_new he ref cfg =
     (let core = client_core_new (ce_now (he_env he)) cfg in
      case get_protocols cfg of
        [] \<Rightarrow> None
      | [p] \<Rightarrow> create_single_protocol he ref cfg p core
      | p # _ \<Rightarrow> create_race_mode_placeholder he ref cfg p core)"

section \<open>The race\<close>

datatype race_join = Joined transport_protocol nat "race_client result" duration | JoinError

text \<open>WebSocket and TCP.\<close>

definition establish_plain_network ::
  "race_env \<Rightarrow> transport_protocol \<Rightarrow> client_config \<Rightarrow> client_core \<Rightarrow> transport_client result" where
  "establish_plain_network he p cfg core =
     (case establish_network_connection (he_net he) (tr_with_core p (he_id he p) cfg core) of
        (t, Inl e) \<Rightarrow> Inl e
      | (t, Inr n) \<Rightarrow> Inr t)"

definition establish_quic_network :: "race_env \<Rightarrow> client_config \<Rightarrow> client_core \<Rightarrow> transport_client result" where
  "establish_quic_network he cfg core =
     (case he_endpoint he (cl_tls cfg) of
        Inl e \<Rightarrow> Inl e
      | Inr _ \<Rightarrow>
          (case establish_network_connection (he_net he) (tr_with_core QUIC (he_id he QUIC) cfg core) of
             (t, Inl e) \<Rightarrow> Inl e
           | (t, Inr n) \<Rightarrow> Inr t))"

definition establish_protocol_network ::
  "race_env \<Rightarrow> transport_protocol \<Rightarrow> client_config \<Rightarrow> client_core \<Rightarrow> transport_client result" where
  "establish_protocol_network he p cfg core =
     (if \<not> he_features he p then Inl (transport_feature_disabled p)
      else if p = QUIC then establish_quic_network he cfg core
      else establish_plain_network he p cfg core)"

text \<open>The task of the \<open>index\<close>th protocol, which took \<open>elapsed\<close>; \<open>own\<close> is where its core had its cells before it shares
  those of the race.\<close>

definition connection_task ::
  "race_env \<Rightarrow> nat \<Rightarrow> nat \<Rightarrow> client_config \<Rightarrow> nat \<Rightarrow> duration \<Rightarrow> race_join" where
  "connection_task he shared own cfg index elapsed =
     (let p = get_protocols cfg ! index;
          cfg' = cfg\<lparr>cl_server_url := get_protocol_url p cfg, cl_transport := p, cl_transports := None\<rparr>;
          core = client_core_new (ce_now (he_env he)) cfg'
      in Joined p index
           (map_sum id (\<lambda>t. share_race_state_from shared \<lparr>rx_ref = own, rx_client = t\<rparr>)
              (establish_protocol_network he p cfg' core)) elapsed)"

text \<open>The winner, the failures before it, and the results that are left.\<close>

fun wait_for_first_connection ::
  "race_join list \<Rightarrow> (nat \<times> transport_protocol \<times> race_client \<times> duration) option
     \<times> (nat \<times> transport_protocol \<times> flare_error \<times> duration) list \<times> race_join list" where
  "wait_for_first_connection [] = (None, [], [])"
| "wait_for_first_connection (JoinError # js) = wait_for_first_connection js"
| "wait_for_first_connection (Joined p i (Inr x) d # js) = (Some (i, p, x, d), [], js)"
| "wait_for_first_connection (Joined p i (Inl e) d # js) =
     (case wait_for_first_connection js of (w, errors, rest) \<Rightarrow> (w, (i, p, e, d) # errors, rest))"

definition close_race_loser :: "client_env \<Rightarrow> nat \<Rightarrow> race_client \<Rightarrow> store \<Rightarrow> race_client \<times> store" where
  "close_race_loser ce fresh x st =
     (case detach_race_state fresh x st of
        (x1, st1) \<Rightarrow>
          (case on_cells (\<lambda>t. (tr_set_disconnect_requested True t, ())) x1 st1 of
             (x2, st2, _) \<Rightarrow>
               (case on_cells (\<lambda>t. (tr_disconnect ce t, ())) x2 st2 of (x3, st3, _) \<Rightarrow> (x3, st3))))"

text \<open>The losers that were open when the race was decided are closed one by one; \<open>fresh\<close> gives the addresses of their
  own cells.\<close>

fun close_race_losers :: "client_env \<Rightarrow> nat list \<Rightarrow> race_join list \<Rightarrow> store \<Rightarrow> race_client list \<times> store" where
  "close_race_losers ce (a # fresh) (Joined p i (Inr x) d # js) st =
     (case close_race_loser ce a x st of
        (x', st') \<Rightarrow> (case close_race_losers ce fresh js st' of (xs, st'') \<Rightarrow> (x' # xs, st'')))"
| "close_race_losers ce fresh (_ # js) st = close_race_losers ce fresh js st"
| "close_race_losers ce fresh [] st = ([], st)"

definition utf8_text :: "nat list \<Rightarrow> string" where
  "utf8_text bs = map char_of bs"

definition build_all_failed_error ::
  "race_env \<Rightarrow> (nat \<times> transport_protocol \<times> flare_error \<times> duration) list \<Rightarrow> flare_error" where
  "build_all_failed_error he errors =
     connection_failed
       (utf8_text [230, 137, 128, 230, 156, 137, 229, 141, 143, 232, 174, 174, 232, 191, 158, 230, 142, 165, 233, 131, 189,
          229, 164, 177, 232, 180, 165, 239, 188, 136, 230, 140, 137, 228, 188, 152, 229, 133, 136, 231, 186, 167, 233, 161,
          186, 229, 186, 143, 239, 188, 137, 58, 32]
        @ join_str '', ''
            (map (\<lambda>(i, p, e, d). ''['' @ dec_str i @ ''] '' @ protocol_debug p
                    @ utf8_text [32, 40, 232, 128, 151, 230, 151, 182, 58, 32] @ he_duration he d @ ''): ''
                    @ ce_display (he_env he) e)
               (sort_key fst errors)))"

text \<open>The core of the race, to which the success is told; the network at a reconnection is \<open>ne'\<close>.\<close>

definition process_race_results ::
  "race_env \<Rightarrow> net_env \<Rightarrow> nat \<Rightarrow> (client_core \<Rightarrow> client_core) \<Rightarrow> (nat \<times> transport_protocol \<times> race_client \<times> duration) option
   \<Rightarrow> (nat \<times> transport_protocol \<times> flare_error \<times> duration) list \<Rightarrow> client_core \<Rightarrow> store
   \<Rightarrow> store \<times> client_core \<times> (race_client \<times> transport_protocol) result" where
  "process_race_results he ne' r during winner errors core st =
     (case winner of
        None \<Rightarrow> (st, core, Inl (build_all_failed_error he errors))
      | Some (i, p, x, d) \<Rightarrow>
          (case on_cells (tr_connect (he_env he) (he_net he) ne' r during) x st of
             (x', st', Inl e) \<Rightarrow> (st', core, Inl e)
           | (x', st', Inr _) \<Rightarrow>
               (st', core\<lparr>co_state := set_connected (ce_now (he_env he)) (co_state core)\<rparr>, Inr (x', p))))"

definition race_connect ::
  "race_env \<Rightarrow> net_env \<Rightarrow> nat \<Rightarrow> (client_core \<Rightarrow> client_core) \<Rightarrow> nat list \<Rightarrow> race_join list \<Rightarrow> client_core \<Rightarrow> store
   \<Rightarrow> store \<times> client_core \<times> (race_client \<times> transport_protocol) result" where
  "race_connect he ne' r during fresh js core st =
     (case wait_for_first_connection js of
        (winner, errors, rest) \<Rightarrow>
          (case close_race_losers (he_env he) fresh rest st of
             (_, st1) \<Rightarrow> process_race_results he ne' r during winner errors core st1))"

definition hybrid_connect ::
  "race_env \<Rightarrow> net_env \<Rightarrow> nat \<Rightarrow> (client_core \<Rightarrow> client_core) \<Rightarrow> hybrid_client \<Rightarrow> store \<Rightarrow> hybrid_client \<times> store \<times> unit result" where
  "hybrid_connect he ne' r during h st =
     (case on_cells (tr_connect (he_env he) (he_net he) ne' r during) (hy_inner h) st of
        (x, st', res) \<Rightarrow> (h\<lparr>hy_inner := x\<rparr>, st', res))"

definition connect_with_config ::
  "race_env \<Rightarrow> net_env \<Rightarrow> nat \<Rightarrow> (client_core \<Rightarrow> client_core) \<Rightarrow> nat \<Rightarrow> client_config \<Rightarrow> store \<Rightarrow> (store \<times> hybrid_client result) option"
  where
  "connect_with_config he ne' r during ref cfg st =
     (case hybrid_new he ref cfg of
        None \<Rightarrow> None
      | Some (Inl e) \<Rightarrow> Some (st, Inl e)
      | Some (Inr h) \<Rightarrow>
          (case hybrid_connect he ne' r during h (st(ref := cells_of (tc_core (rx_client (hy_inner h))))) of
             (h', st', Inl e) \<Rightarrow> Some (st', Inl e)
           | (h', st', Inr _) \<Rightarrow> Some (st', Inr h')))"

text \<open>When the race is over: the winner was found and CONNECT took \<open>connecting\<close>, or every task failed.\<close>

definition race_end :: "client_config \<Rightarrow> duration \<Rightarrow> race_join list \<Rightarrow> duration option" where
  "race_end cfg connecting js =
     (case wait_for_first_connection js of
        (Some (i, p, x, d), _, _) \<Rightarrow> Some (d + connecting)
      | (None, errors, _) \<Rightarrow>
          if length js = length (get_protocols cfg) then Some (Max (insert 0 (set (map (\<lambda>(i, p, e, d). d) errors)))) else None)"

definition connect_with_race ::
  "race_env \<Rightarrow> net_env \<Rightarrow> nat \<Rightarrow> (client_core \<Rightarrow> client_core) \<Rightarrow> nat list \<Rightarrow> duration \<Rightarrow> race_join list \<Rightarrow> nat \<Rightarrow> client_config \<Rightarrow> store
   \<Rightarrow> (store \<times> hybrid_client result) option" where
  "connect_with_race he ne' r during fresh connecting js ref cfg st =
     (if \<not> is_race_mode cfg then connect_with_config he ne' r during ref cfg st
      else
        (let core = client_core_new (ce_now (he_env he)) cfg;
             limit = unwrap_or (from_secs 5) (cl_race_timeout cfg);
             timed_out = Inl (connection_failed (''Protocol race timed out after '' @ he_duration he limit))
         in case race_connect he ne' r during fresh js core (st(ref := cells_of core)) of
              (st', core', res) \<Rightarrow>
                (if (case race_end cfg connecting js of None \<Rightarrow> True | Some t \<Rightarrow> t > limit) then Some (st', timed_out)
                 else Some (st',
                        case res of
                          Inl e \<Rightarrow> Inl e
                        | Inr (x, p) \<Rightarrow> Inr \<lparr>hy_inner = x, hy_last_known = False, hy_active = p, hy_core = Some core'\<rparr>))))"

section \<open>Operations of the hybrid client\<close>

definition hybrid_disconnect :: "client_env \<Rightarrow> hybrid_client \<Rightarrow> store \<Rightarrow> hybrid_client \<times> store" where
  "hybrid_disconnect ce h st =
     (case on_cells (\<lambda>t. (tr_disconnect ce t, ())) (hy_inner h) st of (x, st', _) \<Rightarrow> (h\<lparr>hy_inner := x\<rparr>, st'))"

definition hybrid_send_frame ::
  "client_env \<Rightarrow> net_env \<Rightarrow> nat \<Rightarrow> (client_core \<Rightarrow> client_core) \<Rightarrow> frame \<Rightarrow> hybrid_client \<Rightarrow> store
   \<Rightarrow> hybrid_client \<times> store \<times> unit result" where
  "hybrid_send_frame ce ne r during f h st =
     (case on_cells (tr_send_frame ce ne r during f) (hy_inner h) st of (x, st', res) \<Rightarrow> (h\<lparr>hy_inner := x\<rparr>, st', res))"

text \<open>\<open>locked\<close>: the inner client is in use.\<close>

definition hybrid_is_connected :: "bool \<Rightarrow> hybrid_client \<Rightarrow> store \<Rightarrow> hybrid_client \<times> bool" where
  "hybrid_is_connected locked h st =
     (if locked then (h, hy_last_known h)
      else (let t = rx_client (hy_inner h);
                connected = tr_is_connected (t\<lparr>tc_core := with_cells (st (rx_ref (hy_inner h))) (tc_core t)\<rparr>)
            in (h\<lparr>hy_last_known := connected\<rparr>, connected)))"

definition hybrid_connection_id :: "bool \<Rightarrow> hybrid_client \<Rightarrow> string option" where
  "hybrid_connection_id locked h = (if locked then None else Some (tc_connection_id (rx_client (hy_inner h))))"

definition hybrid_add_observer :: "nat \<Rightarrow> hybrid_client \<Rightarrow> store \<Rightarrow> store" where
  "hybrid_add_observer x h st =
     (let a = rx_ref (hy_inner h) in st(a := (st a)\<lparr>rs_observers := rs_observers (st a) @ [x]\<rparr>))"

definition hybrid_remove_observer :: "nat \<Rightarrow> hybrid_client \<Rightarrow> store \<Rightarrow> store" where
  "hybrid_remove_observer x h st =
     (let a = rx_ref (hy_inner h) in st(a := (st a)\<lparr>rs_observers := filter (\<lambda>y. y \<noteq> x) (rs_observers (st a))\<rparr>))"

text \<open>The waiting requests are in the shared cells.\<close>

definition hybrid_send_frame_and_wait ::
  "client_env \<Rightarrow> net_env \<Rightarrow> nat \<Rightarrow> (client_core \<Rightarrow> client_core) \<Rightarrow> nat \<Rightarrow> wait_outcome \<Rightarrow> (client_core \<Rightarrow> client_core)
   \<Rightarrow> frame \<Rightarrow> hybrid_client \<Rightarrow> store \<Rightarrow> hybrid_client \<times> store \<times> frame result" where
  "hybrid_send_frame_and_wait ce ne r during waiter w meanwhile f h st =
     (case on_cells (ws_send_frame_and_wait ce ne r during waiter w meanwhile f) (hy_inner h) st of
        (x, st', res) \<Rightarrow> (h\<lparr>hy_inner := x\<rparr>, st', res))"

section \<open>Cells and their owners\<close>

lemma cells_of_with_cells [simp]: "cells_of (with_cells s c) = s"
  by (simp add: cells_of_def with_cells_def)

lemma with_cells_fields [simp]:
  "co_observers (with_cells s c) = rs_observers s" "co_log (with_cells s c) = co_log c" "co_config (with_cells s c) = co_config c"
  by (simp_all add: with_cells_def)

text \<open>An operation sees and changes the cells at the address of its client only.\<close>

lemma on_cells_frame: "on_cells op x st = (x', st', res) \<Longrightarrow> a \<noteq> rx_ref x \<Longrightarrow> st' a = st a"
  by (auto simp: on_cells_def Let_def split: prod.splits)

lemma on_cells_ref: "on_cells op x st = (x', st', res) \<Longrightarrow> rx_ref x' = rx_ref x"
  by (auto simp: on_cells_def Let_def split: prod.splits)

lemma on_cells_local:
  assumes "st1 (rx_ref x) = st2 (rx_ref x)" "on_cells op x st1 = (x1, s1, res1)" "on_cells op x st2 = (x2, s2, res2)"
  shows "x1 = x2 \<and> res1 = res2 \<and> s1 (rx_ref x) = s2 (rx_ref x)"
  using assms by (auto simp: on_cells_def Let_def split: prod.splits)

text \<open>What a core logs goes to its own observers.\<close>

definition logs_to_own :: "client_core \<Rightarrow> client_core \<Rightarrow> bool" where
  "logs_to_own c c' \<longleftrightarrow>
     co_observers c' = co_observers c \<and> (\<exists>ys. co_log c' = co_log c @ ys \<and> fst ` set ys \<subseteq> {co_observers c})"

lemma logs_to_own_refl [simp]: "co_observers c' = co_observers c \<Longrightarrow> co_log c' = co_log c \<Longrightarrow> logs_to_own c c'"
  by (simp add: logs_to_own_def)

lemma logs_to_own_trans: "logs_to_own c c1 \<Longrightarrow> logs_to_own c1 c2 \<Longrightarrow> logs_to_own c c2"
  unfolding logs_to_own_def by (elim conjE exE, rule conjI, simp, rule exI, rule conjI, simp) (auto simp: image_Un)

lemma logs_to_own_report [simp]: "logs_to_own c (report_event r e c)"
  by (auto simp: logs_to_own_def report_event_def notify_observers_def split: close_report.splits)

lemma logs_to_own_event: "logs_to_own c (handle_connection_event ce e c)"
proof -
  have g: "logs_to_own c (connection_gone f during d c)" for f during d c
    by (rule logs_to_own_refl)
      (simp_all add: connection_gone_def stop_heartbeat_def fail_negotiation_on_close_def spawn_def Let_def split: option.splits)
  have o: "logs_to_own c (on_connected ce c)" for c
    by (rule logs_to_own_refl) (simp_all add: on_connected_def reset_negotiation_state_def Let_def)
  have k: "logs_to_own c (fst (close_report_of c))" for c
    by (rule logs_to_own_refl) (simp_all add: close_report_of_def split: option.splits)
  have h: "logs_to_own c (call_handler x c)" "logs_to_own c (c\<lparr>co_server_shutdown := b\<rparr>)" for x b c
    by (rule logs_to_own_refl; simp add: call_handler_def)+
  note t = logs_to_own_trans
  have d: "logs_to_own c (report_event r e (connection_gone f during det (fst (close_report_of c))))" for c r e f during det
    by (rule t [OF t [OF k g] logs_to_own_report])
  have "logs_to_own (call_handler (OnConnection e) c) (handle_connection_event ce e c)"
    by (cases e) (auto simp: handle_connection_event_def case_prod_beta Let_def intro: t [OF o logs_to_own_report] d t [OF h(2) d])
  with h(1) show ?thesis by (rule t)
qed

lemma logs_to_own_close: "logs_to_own c (close_connection ce n reason c)"
proof -
  have "logs_to_own c (on_event ce (Disconnected reason) (c\<lparr>co_open := os\<rparr>))" for os
    using logs_to_own_event [of "c\<lparr>co_open := os\<rparr>" ce "Disconnected reason"]
    by (auto simp: on_event_def spawn_def logs_to_own_def)
  then show ?thesis by (simp add: close_connection_def)
qed

lemma logs_to_own_disconnect: "logs_to_own c (disconnect_internal ce n c)"
proof -
  let ?c1 = "clear_client_connection (stop_heartbeat (set_disconnect_requested True
    (c\<lparr>co_state := set_state (ce_now ce) StDisconnecting (co_state c)\<rparr>)))"
  let ?c2 = "case n of None \<Rightarrow> ?c1 | Some m \<Rightarrow> close_connection ce m (ce_closed_text ce) ?c1"
  have 1: "logs_to_own c ?c1"
    by (rule logs_to_own_refl)
      (simp_all add: clear_client_connection_def stop_heartbeat_def set_disconnect_requested_def split: option.splits)
  have 2: "logs_to_own ?c1 ?c2" by (cases n) (simp_all add: logs_to_own_close)
  have 3: "logs_to_own ?c2 (cancel_all_pending_responses ?c2)" by (rule logs_to_own_refl) (simp_all add: cancel_all_pending_responses_def)
  show ?thesis
    unfolding disconnect_internal_def Let_def
    by (rule logs_to_own_trans [OF logs_to_own_trans [OF logs_to_own_trans [OF 1 2] 3] logs_to_own_event])
qed

lemma close_race_loser_frame:
  assumes "close_race_loser ce fresh x st = (x', st')"
  shows "a \<noteq> fresh \<Longrightarrow> st' a = st a" "rx_ref x' = fresh" "tc_connection (rx_client x') = None"
    "\<exists>ys. co_log (tc_core (rx_client x')) = co_log (tc_core (rx_client x)) @ ys \<and> fst ` set ys \<subseteq> {[]}"
proof -
  let ?t = "tr_set_disconnect_requested True ((rx_client x)\<lparr>tc_core := with_cells (detached_cells (co_config (tc_core (rx_client x)))) (tc_core (rx_client x))\<rparr>)"
  let ?u = "?t\<lparr>tc_core := with_cells (cells_of (tc_core ?t)) (tc_core ?t)\<rparr>"
  have x': "x' = \<lparr>rx_ref = fresh, rx_client = tr_disconnect ce ?u\<rparr>" and st': "\<And>a. a \<noteq> fresh \<Longrightarrow> st' a = st a"
    using assms by (auto simp: close_race_loser_def detach_race_state_def on_cells_def Let_def)
  have "logs_to_own (tc_core ?u) (tc_core (tr_disconnect ce ?u))"
    by (simp add: tr_disconnect_def logs_to_own_disconnect)
  moreover have "co_observers (tc_core ?u) = []" "co_log (tc_core ?u) = co_log (tc_core (rx_client x))"
    by (simp_all add: tr_set_disconnect_requested_def set_disconnect_requested_def cells_of_def detached_cells_def)
  ultimately show "\<exists>ys. co_log (tc_core (rx_client x')) = co_log (tc_core (rx_client x)) @ ys \<and> fst ` set ys \<subseteq> {[]}"
    by (simp add: x' logs_to_own_def)
  show "a \<noteq> fresh \<Longrightarrow> st' a = st a" by (rule st')
  show "rx_ref x' = fresh" "tc_connection (rx_client x') = None" by (simp_all add: x' tr_disconnect_def)
qed

text \<open>The clients among results that have a connection.\<close>

fun open_losers :: "race_join list \<Rightarrow> race_client list" where
  "open_losers [] = []"
| "open_losers (Joined p i (Inr x) d # js) = x # open_losers js"
| "open_losers (_ # js) = open_losers js"

fun failed_join :: "race_join \<Rightarrow> bool" where
  "failed_join (Joined p i (Inr x) d) = False"
| "failed_join _ = True"

lemma open_losers_Nil: "open_losers (j # js) = [] \<longleftrightarrow> failed_join j \<and> open_losers js = []"
  by (cases j rule: failed_join.cases) auto

lemma wait_append: "\<forall>j \<in> set pre. failed_join j \<Longrightarrow>
  wait_for_first_connection (pre @ Joined p i (Inr x) d # rest) = (Some (i, p, x, d), fst (snd (wait_for_first_connection pre)), rest)"
proof (induction pre)
  case (Cons j js)
  show ?case using Cons by (cases j rule: failed_join.cases) (auto split: prod.splits)
qed simp

lemma close_race_losers_frame:
  "close_race_losers ce fresh js st = (xs, st') \<Longrightarrow> a \<notin> set fresh \<Longrightarrow> st' a = st a"
proof (induction ce fresh js st arbitrary: xs st' rule: close_race_losers.induct)
  case (1 ce b fresh p i x d js st)
  obtain x1 st1 where 2: "close_race_loser ce b x st = (x1, st1)" by fastforce
  obtain ys st2 where 3: "close_race_losers ce fresh js st1 = (ys, st2)" by fastforce
  have "st2 a = st1 a" using "1.IH" [OF 2 [symmetric] 3] "1.prems" by simp
  moreover have "st1 a = st a" using close_race_loser_frame(1) [OF 2] "1.prems" by simp
  ultimately show ?case using "1.prems"(1) 2 3 by simp
qed auto

lemma race_decided:
  assumes "is_race_mode cfg" "\<forall>j \<in> set pre. failed_join j" "rx_ref x = ref" "ref \<notin> set fresh"
    and time: "d + connecting \<le> unwrap_or (from_secs 5) (cl_race_timeout cfg)"
    and core: "core = client_core_new (ce_now (he_env he)) cfg"
    and connect: "on_cells (tr_connect (he_env he) (he_net he) ne' r during) x (st(ref := cells_of core)) = (x', st1, res)"
  shows "\<exists>st2. connect_with_race he ne' r during fresh connecting (pre @ Joined p i (Inr x) d # rest) ref cfg st =
      Some (st2, case res of
          Inl e \<Rightarrow> Inl e
        | Inr _ \<Rightarrow> Inr \<lparr>hy_inner = x', hy_last_known = False, hy_active = p,
            hy_core = Some (core\<lparr>co_state := set_connected (ce_now (he_env he)) (co_state core)\<rparr>)\<rparr>)
    \<and> st2 ref = st1 ref"
proof -
  let ?js = "pre @ Joined p i (Inr x) d # rest" and ?st = "st(ref := cells_of core)"
  obtain ls st0 where 1: "close_race_losers (he_env he) fresh rest ?st = (ls, st0)" by fastforce
  obtain x2 st2 res2 where 2: "on_cells (tr_connect (he_env he) (he_net he) ne' r during) x st0 = (x2, st2, res2)"
    by (metis prod_cases3)
  have "st0 ref = ?st ref" using close_race_losers_frame [OF 1] assms(4) by simp
  then have s: "x2 = x'" "res2 = res" "st2 ref = st1 ref"
    using on_cells_local [OF _ 2 connect] assms(3) by simp_all
  have "race_connect he ne' r during fresh ?js core ?st =
      (st2, case res of Inl e \<Rightarrow> core | Inr _ \<Rightarrow> core\<lparr>co_state := set_connected (ce_now (he_env he)) (co_state core)\<rparr>,
       case res of Inl e \<Rightarrow> Inl e | Inr _ \<Rightarrow> Inr (x', p))"
    using 1 2 s by (cases res) (simp_all add: race_connect_def wait_append [OF assms(2)] process_race_results_def)
  moreover have "race_end cfg connecting ?js = Some (d + connecting)"
    by (simp add: race_end_def wait_append [OF assms(2)])
  ultimately show ?thesis
    using s assms(1) time unfolding connect_with_race_def core [symmetric] Let_def by (cases res) simp_all
qed

section \<open>Properties\<close>

text \<open>C36: Closing the losers of a race leaves the winner alone. The losers share observers, waiting requests, the mark of
  a requested disconnection and the negotiation state with the winner while they race; closing all of them changes none
  of the cells the winner uses, gives no event to the observers of the race, and leaves every loser without a connection
  and on cells of its own.\<close>

theorem race_losers_isolated:
  assumes "close_race_losers ce fresh js st = (xs, st')"
    and "shared \<notin> set fresh" "length (open_losers js) \<le> length fresh"
  shows "st' shared = st shared
    \<and> list_all2 (\<lambda>x x'. rx_ref x' \<noteq> shared \<and> tc_connection (rx_client x') = None
         \<and> (\<exists>ys. co_log (tc_core (rx_client x')) = co_log (tc_core (rx_client x)) @ ys \<and> fst ` set ys \<subseteq> {[]})) (open_losers js) xs"
  using assms
proof (induction ce fresh js st arbitrary: xs st' rule: close_race_losers.induct)
  case (1 ce b fresh p i x d js st)
  obtain x1 st1 where 2: "close_race_loser ce b x st = (x1, st1)" by fastforce
  obtain ys st2 where 3: "close_race_losers ce fresh js st1 = (ys, st2)" by fastforce
  note ih = "1.IH" [OF 2 [symmetric] 3] and l = close_race_loser_frame [OF 2]
  show ?case using ih l "1.prems" 2 3 by auto
qed (auto simp: open_losers_Nil)

text \<open>C37: The first open connection wins, and slow protocols do not delay it. When the first task to succeed does so in time
  for CONNECT, the outcome of connecting is the outcome of CONNECT on that connection, whatever failed before and
  whatever the other tasks do afterwards, finished or not; and with it the state that the application sees.\<close>

theorem first_connection_wins:
  assumes "is_race_mode cfg" "\<forall>j \<in> set pre. failed_join j" "rx_ref x = ref" "ref \<notin> set fresh"
    and time: "d + connecting \<le> unwrap_or (from_secs 5) (cl_race_timeout cfg)"
    and core: "core = client_core_new (ce_now (he_env he)) cfg"
    and connect: "on_cells (tr_connect (he_env he) (he_net he) ne' r during) x (st(ref := cells_of core)) = (x', st1, res)"
  shows "\<exists>st2. connect_with_race he ne' r during fresh connecting (pre @ Joined p i (Inr x) d # rest) ref cfg st =
      Some (st2, case res of
          Inl e \<Rightarrow> Inl e
        | Inr _ \<Rightarrow> Inr \<lparr>hy_inner = x', hy_last_known = False, hy_active = p,
            hy_core = Some (core\<lparr>co_state := set_connected (ce_now (he_env he)) (co_state core)\<rparr>)\<rparr>)
    \<and> st2 ref = st1 ref"
  by (rule race_decided [OF assms])

section \<open>Examples\<close>

definition ex_he :: race_env where
  "ex_he = \<lparr>he_env = ex_tr_env, he_net = ex_net DialTimeout, he_features = (\<lambda>_. True), he_endpoint = (\<lambda>_. Inr ()),
     he_id = (\<lambda>_. ''c''), he_duration = (\<lambda>_. ''5s'')\<rparr>"

definition ex_racer :: "nat \<Rightarrow> race_client" where
  "ex_racer n = \<lparr>rx_ref = 0, rx_client = ex_tcp\<lparr>tc_connection := Some n, tc_prepared := True\<rparr>\<rparr>"

definition ex_race_config :: client_config where
  "ex_race_config = client_config_default\<lparr>cl_transports := Some [QUIC, TCP, WebSocket]\<rparr>"

definition ex_failed :: race_join where
  "ex_failed = Joined QUIC 0 (Inl (connection_failed ''refused'')) 1"

theorem race_losers_isolated_witness:
  "let js = [ex_failed, Joined TCP 1 (Inr (ex_racer 7)) 2, JoinError, Joined TCP 2 (Inr (ex_racer 8)) 3];
       st = (\<lambda>_. detached_cells ex_race_config)(0 := (detached_cells ex_race_config)\<lparr>rs_observers := [5]\<rparr>)
   in snd (close_race_losers ex_tr_env [1, 2] js st) 0 = st 0"
proof -
  let ?js = "[ex_failed, Joined TCP 1 (Inr (ex_racer 7)) 2, JoinError, Joined TCP 2 (Inr (ex_racer 8)) 3]"
  let ?st = "(\<lambda>_. detached_cells ex_race_config)(0 := (detached_cells ex_race_config)\<lparr>rs_observers := [5]\<rparr>)"
  obtain xs st' where r: "close_race_losers ex_tr_env [1, 2] ?js ?st = (xs, st')" by fastforce
  have "(0::nat) \<notin> set [1, 2]" "length (open_losers ?js) \<le> length [1, 2 :: nat]" by (simp_all add: ex_failed_def)
  from race_losers_isolated [OF r this] r show ?thesis by simp
qed

lemma ex_racer_connects:
  "snd (snd (on_cells (tr_connect ex_tr_env ne ne' r during) (ex_racer 7) st)) = Inr ()"
proof -
  have f: "\<not> is_force_format (co_config ((with_cells s (tc_core ex_tcp))\<lparr>co_state := m\<rparr>))" for s m by simp
  have s: "tr_state (ex_tcp\<lparr>tc_connection := a, tc_prepared := b, tc_core := with_cells s (tc_core ex_tcp)\<rparr>) = StDisconnected" for a b s
    using ex_tcp_fields(4) by (simp add: tr_state_def with_cells_def)
  show ?thesis
    using ex_connect [OF f [of "start_connecting (ce_now ex_tr_env) (co_state (with_cells (st 0) (tc_core ex_tcp)))" "st 0"], of 7]
    by (auto simp: on_cells_def ex_racer_def tr_connect_def s can_connect_def internal_connect_def connection_for_connect_def
        setup_connection_with_observer_def tr_set_state_def Let_def split: prod.splits sum.splits)
qed

lemma ex_race_facts:
  "is_race_mode ex_race_config" "\<forall>j \<in> set [ex_failed]. failed_join j" "rx_ref (ex_racer 7) = 0" "(0::nat) \<notin> set [1]"
  "2 + 1 \<le> unwrap_or (from_secs 5) (cl_race_timeout ex_race_config)"
  by (simp_all add: is_race_mode_def ex_race_config_def ex_failed_def ex_racer_def client_config_default_def from_secs_def)

lemma ex_race_connect:
  "\<exists>x st1. on_cells (tr_connect (he_env ex_he) (he_net ex_he) (ex_net DialTimeout) 0 (\<lambda>c. c)) (ex_racer 7) st = (x, st1, Inr ())"
  using ex_racer_connects [of "ex_net DialTimeout" "ex_net DialTimeout" 0 "\<lambda>c. c" st] by (simp add: ex_he_def) (metis prod_cases3 snd_conv)

definition ex_race_result :: "(store \<times> hybrid_client result) option" where
  "ex_race_result = connect_with_race ex_he (ex_net DialTimeout) 0 (\<lambda>c. c) [1] 1 [ex_failed, Joined TCP 1 (Inr (ex_racer 7)) 2] 0 ex_race_config
     (\<lambda>_. detached_cells ex_race_config)"

lemma ex_race_succeeds: "\<exists>st h. ex_race_result = Some (st, Inr h)"
proof -
  obtain x st1 where c: "on_cells (tr_connect (he_env ex_he) (he_net ex_he) (ex_net DialTimeout) 0 (\<lambda>c. c)) (ex_racer 7)
    ((\<lambda>_. detached_cells ex_race_config)(0 := cells_of (client_core_new (ce_now (he_env ex_he)) ex_race_config))) = (x, st1, Inr ())"
    using ex_race_connect by blast
  from race_decided [OF ex_race_facts refl c, of TCP 1 "[]"] show ?thesis by (auto simp: ex_race_result_def)
qed

theorem first_connection_wins_witness: "\<exists>st h. ex_race_result = Some (st, Inr h) \<and> hy_active h = TCP"
proof -
  obtain x st1 where c: "on_cells (tr_connect (he_env ex_he) (he_net ex_he) (ex_net DialTimeout) 0 (\<lambda>c. c)) (ex_racer 7)
    ((\<lambda>_. detached_cells ex_race_config)(0 := cells_of (client_core_new (ce_now (he_env ex_he)) ex_race_config))) = (x, st1, Inr ())"
    using ex_race_connect by blast
  from first_connection_wins [OF ex_race_facts refl c, of TCP 1 "[]"] show ?thesis by (auto simp: ex_race_result_def)
qed

end
