(* ===== verification/ClientBuilder.thy ===== *)
theory ClientBuilder
  imports HybridClient Pipeline
begin

text \<open>
  What the client builders make of a hybrid client (\<open>src/src/client/builder\<close>): the wrapper that reconnects before it
  sends (\<open>common.rs\<close>), the client with a message pipeline (\<open>flare.rs\<close>), and the building of the clients with an
  observer and with closures (\<open>observer.rs\<close>, \<open>simple.rs\<close>).

  A wrapper asks the core that the hybrid client holds, its outer core.  A client over one protocol holds a clone of its
  inner client's core, which shares everything but the event handler; a client from a race holds the core of the race, which
  shares the cells of \<open>HybridClient\<close> only.
\<close>

section \<open>The wrapper\<close>

record client_wrapper =
  cw_client :: hybrid_client
  cw_handler :: bool

definition wrapper_new :: "hybrid_client \<Rightarrow> client_wrapper" where
  "wrapper_new h = \<lparr>cw_client = h, cw_handler = False\<rparr>"

definition inner_core :: "hybrid_client \<Rightarrow> store \<Rightarrow> client_core" where
  "inner_core h st = with_cells (st (rx_ref (hy_inner h))) (tc_core (rx_client (hy_inner h)))"

definition outer_core :: "hybrid_client \<Rightarrow> store \<Rightarrow> client_core" where
  "outer_core h st =
     (case hy_core h of
        None \<Rightarrow> inner_core h st
      | Some c \<Rightarrow> with_cells (st (rx_ref (hy_inner h))) c)"

definition wrapper_is_connected :: "client_wrapper \<Rightarrow> store \<Rightarrow> bool" where
  "wrapper_is_connected w st = snd (hybrid_is_connected False (cw_client w) st)"

definition wrapper_connect ::
  "race_env \<Rightarrow> net_env \<Rightarrow> nat \<Rightarrow> (client_core \<Rightarrow> client_core) \<Rightarrow> client_wrapper \<Rightarrow> store \<Rightarrow> client_wrapper \<times> store \<times> unit result" where
  "wrapper_connect he ne' r during w st =
     (case hybrid_connect he ne' r during (cw_client w) st of (h, st', res) \<Rightarrow> (w\<lparr>cw_client := h\<rparr>, st', res))"

definition wrapper_disconnect :: "client_env \<Rightarrow> client_wrapper \<Rightarrow> store \<Rightarrow> client_wrapper \<times> store" where
  "wrapper_disconnect ce w st = (case hybrid_disconnect ce (cw_client w) st of (h, st') \<Rightarrow> (w\<lparr>cw_client := h\<rparr>, st'))"

definition wrapper_add_observer :: "nat \<Rightarrow> client_wrapper \<Rightarrow> store \<Rightarrow> store" where
  "wrapper_add_observer x w st = hybrid_add_observer x (cw_client w) st"

text \<open>The handler is a field of the outer core.\<close>

definition wrapper_set_event_handler :: "bool \<Rightarrow> client_wrapper \<Rightarrow> client_wrapper" where
  "wrapper_set_event_handler b w = w\<lparr>cw_handler := b\<rparr>"

definition parser_snapshot :: "client_wrapper \<Rightarrow> store \<Rightarrow> message_parser" where
  "parser_snapshot w st = co_parser (outer_core (cw_client w) st)"

text \<open>The heartbeat settings are cells of the race and belong to the running manager of the inner client.\<close>

definition on_inner :: "(client_core \<Rightarrow> client_core) \<Rightarrow> client_wrapper \<Rightarrow> store \<Rightarrow> client_wrapper \<times> store" where
  "on_inner f w st =
     (let h = cw_client w in
      case on_cells (\<lambda>t. (t\<lparr>tc_core := f (tc_core t)\<rparr>, ())) (hy_inner h) st of (x, st', _) \<Rightarrow> (w\<lparr>cw_client := h\<lparr>hy_inner := x\<rparr>\<rparr>, st'))"

definition wrapper_update_heartbeat_config :: "heartbeat_config \<Rightarrow> client_wrapper \<Rightarrow> store \<Rightarrow> client_wrapper \<times> store" where
  "wrapper_update_heartbeat_config cfg = on_inner (update_heartbeat_config (\<lambda>_. cfg))"

definition wrapper_set_heartbeat_app_state :: "app_state \<Rightarrow> client_wrapper \<Rightarrow> store \<Rightarrow> client_wrapper \<times> store" where
  "wrapper_set_heartbeat_app_state s = on_inner (set_heartbeat_app_state s)"

definition wrapper_set_heartbeat_nat_timeout :: "duration option \<Rightarrow> client_wrapper \<Rightarrow> store \<Rightarrow> client_wrapper \<times> store" where
  "wrapper_set_heartbeat_nat_timeout t = on_inner (set_heartbeat_nat_timeout t)"

definition heartbeat_effective_interval :: "client_wrapper \<Rightarrow> store \<Rightarrow> duration" where
  "heartbeat_effective_interval w st = effective_interval (co_heartbeat_config (outer_core (cw_client w) st))"

section \<open>Ready to send\<close>

definition not_connected_reconnect_left_to_caller :: flare_error where
  "not_connected_reconnect_left_to_caller =
     localized NotConnected ''not connected; reconnect_on_send is off, reconnecting is left to the caller''"

definition session_ended_by_server_error :: "string \<Rightarrow> flare_error" where
  "session_ended_by_server_error reason =
     localized NotConnected (reason @ '': the server ended this session; not reconnecting'')"

definition is_send_ready :: "client_wrapper \<Rightarrow> store \<Rightarrow> bool" where
  "is_send_ready w st \<longleftrightarrow>
     wrapper_is_connected w st \<and> can_send (sm_state (co_state (outer_core (cw_client w) st)))
     \<and> co_negotiated (outer_core (cw_client w) st)"

definition early_refusal :: "client_wrapper \<Rightarrow> store \<Rightarrow> flare_error option" where
  "early_refusal w st =
     (let c = outer_core (cw_client w) st in
      if wrapper_is_connected w st then None
      else case co_session_ended c of
        Some reason \<Rightarrow> Some (session_ended_by_server_error reason)
      | None \<Rightarrow> if \<not> cl_reconnect_on_send (co_config c) then Some not_connected_reconnect_left_to_caller else None)"

definition late_refusal :: "client_wrapper \<Rightarrow> store \<Rightarrow> flare_error option" where
  "late_refusal w st =
     (let c = outer_core (cw_client w) st in
      if \<not> cl_reconnect_on_send (co_config c) then Some not_connected_reconnect_left_to_caller
      else case co_session_ended c of
        Some reason \<Rightarrow> Some (session_ended_by_server_error reason)
      | None \<Rightarrow>
          if co_disconnect_requested c
          then Some (connection_failed ''client was disconnected on request; not reconnecting'')
          else None)"

text \<open>The pause after a server shutdown, which takes the mark back.\<close>

definition reconnect_pause :: "nat \<Rightarrow> client_wrapper \<Rightarrow> store \<Rightarrow> store \<times> duration" where
  "reconnect_pause r w st =
     (if wrapper_is_connected w st then (st, 0)
      else case reconnect_delay 0 r (outer_core (cw_client w) st) of
        (c, pause) \<Rightarrow> (st(rx_ref (hy_inner (cw_client w)) := cells_of c), pause))"

text \<open>Other tasks work on the client while this one waits for the single-flight gate (\<open>gate\<close>), during the pause (\<open>asleep\<close>), and
  while it connects (\<open>during\<close>); \<open>polls\<close> are the states in which the wait for CONNECT_ACK is woken.\<close>

definition ensure_ready_for_send ::
  "race_env \<Rightarrow> net_env \<Rightarrow> nat \<Rightarrow> (client_core \<Rightarrow> client_core) \<Rightarrow> (client_wrapper \<times> store \<Rightarrow> client_wrapper \<times> store)
   \<Rightarrow> (client_wrapper \<times> store \<Rightarrow> client_wrapper \<times> store) \<Rightarrow> (client_wrapper \<times> store \<Rightarrow> client_core list)
   \<Rightarrow> client_wrapper \<Rightarrow> store \<Rightarrow> client_wrapper \<times> store \<times> unit result" where
  "ensure_ready_for_send he ne' r during gate asleep polls w st =
     (if is_send_ready w st then (w, st, Inr ())
      else case early_refusal w st of
        Some e \<Rightarrow> (w, st, Inl e)
      | None \<Rightarrow>
          (case gate (w, st) of
             (w1, st1) \<Rightarrow>
               if is_send_ready w1 st1 then (w1, st1, Inr ())
               else case reconnect_pause r w1 st1 of
                 (st2, pause) \<Rightarrow>
                   (case (if pause > 0 then asleep (w1, st2) else (w1, st2)) of
                      (w3, st3) \<Rightarrow>
                        if wrapper_is_connected w3 st3 then (w3, st3, wait_for_negotiation ''10s'' (polls (w3, st3)))
                        else case late_refusal w3 st3 of
                          Some e \<Rightarrow> (w3, st3, Inl e)
                        | None \<Rightarrow>
                            (case wrapper_connect he ne' r during w3 st3 of
                               (w4, st4, Inl e) \<Rightarrow> (w4, st4, Inl e)
                             | (w4, st4, Inr _) \<Rightarrow> (w4, st4, wait_for_negotiation ''10s'' (polls (w4, st4)))))))"

definition wrapper_send_frame ::
  "race_env \<Rightarrow> net_env \<Rightarrow> nat \<Rightarrow> (client_core \<Rightarrow> client_core) \<Rightarrow> (client_wrapper \<times> store \<Rightarrow> client_wrapper \<times> store)
   \<Rightarrow> (client_wrapper \<times> store \<Rightarrow> client_wrapper \<times> store) \<Rightarrow> (client_wrapper \<times> store \<Rightarrow> client_core list)
   \<Rightarrow> frame \<Rightarrow> client_wrapper \<Rightarrow> store \<Rightarrow> client_wrapper \<times> store \<times> unit result" where
  "wrapper_send_frame he ne' r during gate asleep polls f w st =
     (case ensure_ready_for_send he ne' r during gate asleep polls w st of
        (w1, st1, Inl e) \<Rightarrow> (w1, st1, Inl e)
      | (w1, st1, Inr _) \<Rightarrow>
          (case hybrid_send_frame (he_env he) ne' r during f (cw_client w1) st1 of
             (h, st2, res) \<Rightarrow> (w1\<lparr>cw_client := h\<rparr>, st2, res)))"

definition wrapper_send_frame_and_wait ::
  "race_env \<Rightarrow> net_env \<Rightarrow> nat \<Rightarrow> (client_core \<Rightarrow> client_core) \<Rightarrow> (client_wrapper \<times> store \<Rightarrow> client_wrapper \<times> store)
   \<Rightarrow> (client_wrapper \<times> store \<Rightarrow> client_wrapper \<times> store) \<Rightarrow> (client_wrapper \<times> store \<Rightarrow> client_core list)
   \<Rightarrow> nat \<Rightarrow> wait_outcome \<Rightarrow> (client_core \<Rightarrow> client_core) \<Rightarrow> frame \<Rightarrow> client_wrapper \<Rightarrow> store
   \<Rightarrow> client_wrapper \<times> store \<times> frame result" where
  "wrapper_send_frame_and_wait he ne' r during gate asleep polls waiter out meanwhile f w st =
     (case ensure_ready_for_send he ne' r during gate asleep polls w st of
        (w1, st1, Inl e) \<Rightarrow> (w1, st1, Inl e)
      | (w1, st1, Inr _) \<Rightarrow>
          (case hybrid_send_frame_and_wait (he_env he) ne' r during waiter out meanwhile f (cw_client w1) st1 of
             (h, st2, res) \<Rightarrow> (w1\<lparr>cw_client := h\<rparr>, st2, res)))"

section \<open>Clients with a pipeline\<close>

text \<open>The listener is user code over a state of its own.\<close>

datatype listener_call = OnConnect | OnDisconnect string | OnError string

definition listener_processor :: "(frame \<Rightarrow> 's \<Rightarrow> 's \<times> frame option result) \<Rightarrow> nat \<Rightarrow> 's processor" where
  "listener_processor on_message i =
     \<lparr>pr_id = i, pr_name = ''ListenerProcessor'',
      pr_process = (\<lambda>ctx s. case on_message (mc_frame ctx) s of (s', res) \<Rightarrow> ((s', ctx), res))\<rparr>"

definition connect_ack_command :: "codec_env \<Rightarrow> bytes \<Rightarrow> (frame \<times> system_command) option" where
  "connect_ack_command env d =
     (case parse env PRE_NEGOTIATION_PARSER d of
        Inl _ \<Rightarrow> None
      | Inr f \<Rightarrow>
          (case frame_system_command f of
             None \<Rightarrow> None
           | Some c \<Rightarrow> if sc_type c = system_type_as_i32 SysConnectAck then Some (f, c) else None))"

text \<open>A message is handled in a task of its own: it works on the pipeline shared with the others.\<close>

definition flare_message :: "codec_env \<Rightarrow> bytes \<Rightarrow> bytes \<Rightarrow> 's pipeline \<Rightarrow> 's \<Rightarrow> 's pipeline \<times> 's" where
  "flare_message env nonce d pl s =
     (case connect_ack_command env d of
        Some (f, c) \<Rightarrow>
          (let format = unwrap_or Json (serialization_format_from_i32 (sc_format c));
               cmpr = unwrap_or CompNone (compression_from_str (sc_compression c));
               enc = unwrap_or EncNone (encryption_from_str (sc_encryption c));
               pl1 = update_parser (parser_new format cmpr enc) pl
           in (pl1, fst (process_frame pl1 f None s)))
      | None \<Rightarrow> (pl, fst (process_raw env nonce pl d None s)))"

text \<open>\<open>debug\<close> is the debug form of an error.  What is told to the listener, and the pipeline and user state after a message.\<close>

definition flare_on_event ::
  "codec_env \<Rightarrow> bytes \<Rightarrow> (flare_error \<Rightarrow> string) \<Rightarrow> connection_event \<Rightarrow> 's pipeline \<Rightarrow> 's \<Rightarrow> listener_call list \<times> 's pipeline \<times> 's" where
  "flare_on_event env nonce debug e pl s =
     (case e of
        Connected \<Rightarrow> ([OnConnect], pl, s)
      | Disconnected reason \<Rightarrow> ([OnDisconnect reason], pl, s)
      | ErrorEvent error \<Rightarrow> ([OnError (debug error)], pl, s)
      | Message d \<Rightarrow> (case flare_message env nonce d pl s of (pl', s') \<Rightarrow> ([], pl', s')))"

record 's flare_builder =
  fb_config :: client_config
  fb_listener :: "(frame \<Rightarrow> 's \<Rightarrow> 's \<times> frame option result) option"
  fb_middlewares :: "'s middleware list"
  fb_processors :: "'s processor list"
  fb_observers :: "nat list"

definition build_pipeline :: "(frame \<Rightarrow> 's \<Rightarrow> 's \<times> frame option result) \<Rightarrow> nat \<Rightarrow> 's flare_builder \<Rightarrow> 's pipeline" where
  "build_pipeline listener i b =
     fold add_processor (fb_processors b)
       (add_processor (listener_processor listener i)
          (fold add_middleware (fb_middlewares b) (pipeline_new PRE_NEGOTIATION_PARSER)))"

text \<open>\<open>own\<close> is the observer of the client; \<open>arrived\<close> is what happens to the pipeline and to the client while it waits for CONNECT_ACK.\<close>

definition flare_build_with_race ::
  "race_env \<Rightarrow> net_env \<Rightarrow> nat \<Rightarrow> (client_core \<Rightarrow> client_core) \<Rightarrow> nat list \<Rightarrow> duration \<Rightarrow> race_join list \<Rightarrow> nat \<Rightarrow> nat
   \<Rightarrow> ('s pipeline \<times> client_wrapper \<times> store \<Rightarrow> 's pipeline \<times> client_wrapper \<times> store) \<Rightarrow> (client_wrapper \<times> store \<Rightarrow> client_core list)
   \<Rightarrow> 's flare_builder \<Rightarrow> store \<Rightarrow> (store \<times> (client_wrapper \<times> 's pipeline) result) option" where
  "flare_build_with_race he ne' r during fresh connecting js ref own arrived polls b st =
     (case fb_listener b of
        None \<Rightarrow> Some (st, Inl (protocol_error ''MessageListener is required''))
      | Some listener \<Rightarrow>
          (let pl = build_pipeline listener own b in
           case connect_with_race he ne' r during fresh connecting js ref (fb_config b) st of
             None \<Rightarrow> None
           | Some (st1, Inl e) \<Rightarrow> Some (st1, Inl e)
           | Some (st1, Inr h) \<Rightarrow>
               (let w = wrapper_new h;
                    st2 = fold (\<lambda>x s. wrapper_add_observer x w s) (own # fb_observers b) st1
                in case arrived (pl, w, st2) of
                     (pl3, w3, st3) \<Rightarrow>
                       (case wait_for_negotiation ''10s'' (polls (w3, st3)) of
                          Inl e \<Rightarrow> Some (st3, Inl e)
                        | Inr _ \<Rightarrow> Some (st3, Inr (w3, update_parser (parser_snapshot w3 st3) pl3))))))"

section \<open>Clients with an observer or with closures\<close>

definition observer_build_with_race ::
  "race_env \<Rightarrow> net_env \<Rightarrow> nat \<Rightarrow> (client_core \<Rightarrow> client_core) \<Rightarrow> nat list \<Rightarrow> duration \<Rightarrow> race_join list \<Rightarrow> nat
   \<Rightarrow> nat option \<Rightarrow> bool \<Rightarrow> client_config \<Rightarrow> store \<Rightarrow> (store \<times> client_wrapper result) option" where
  "observer_build_with_race he ne' r during fresh connecting js ref observer handler cfg st =
     (case observer of
        None \<Rightarrow> Some (st, Inl (localized GeneralError ''Observer is required''))
      | Some x \<Rightarrow>
          (case connect_with_race he ne' r during fresh connecting js ref cfg st of
             None \<Rightarrow> None
           | Some (st1, Inl e) \<Rightarrow> Some (st1, Inl e)
           | Some (st1, Inr h) \<Rightarrow>
               (let w = (if handler then wrapper_set_event_handler True (wrapper_new h) else wrapper_new h)
                in Some (wrapper_add_observer x w st1, Inr w))))"

definition observer_build :: "race_env \<Rightarrow> nat \<Rightarrow> nat option \<Rightarrow> bool \<Rightarrow> client_config \<Rightarrow> client_wrapper result option" where
  "observer_build he ref observer handler cfg =
     (case observer of
        None \<Rightarrow> Some (Inl (localized GeneralError ''Observer is required''))
      | Some x \<Rightarrow>
          map_option (map_sum id (\<lambda>h. if handler then wrapper_set_event_handler True (wrapper_new h) else wrapper_new h))
            (hybrid_new he ref cfg))"

definition observed_connect ::
  "race_env \<Rightarrow> net_env \<Rightarrow> nat \<Rightarrow> (client_core \<Rightarrow> client_core) \<Rightarrow> nat option \<Rightarrow> client_wrapper \<Rightarrow> store
   \<Rightarrow> client_wrapper \<times> store \<times> unit result" where
  "observed_connect he ne' r during observer w st =
     wrapper_connect he ne' r during w (case observer of None \<Rightarrow> st | Some x \<Rightarrow> wrapper_add_observer x w st)"

definition simple_build :: "race_env \<Rightarrow> nat \<Rightarrow> client_config \<Rightarrow> client_wrapper result option" where
  "simple_build he ref cfg = map_option (map_sum id wrapper_new) (hybrid_new he ref cfg)"

text \<open>What the observer of a simple client gives to its closures: the event, and the frame of a message that parses.\<close>

definition simple_on_event :: "codec_env \<Rightarrow> bool \<Rightarrow> bool \<Rightarrow> connection_event \<Rightarrow> connection_event list \<times> frame list" where
  "simple_on_event env has_message_handler has_event_handler e =
     (if has_event_handler then [e] else [],
      case e of
        Message d \<Rightarrow>
          if has_message_handler
          then (case parse env (parser_new Protobuf CompNone EncNone) d of Inr f \<Rightarrow> [f] | Inl _ \<Rightarrow> [])
          else []
      | _ \<Rightarrow> [])"

section \<open>Lemmas\<close>

text \<open>A client that must not be brought back by a send.\<close>

definition stays_down :: "client_wrapper \<times> store \<Rightarrow> bool" where
  "stays_down x \<longleftrightarrow>
     (case x of
        (w, st) \<Rightarrow>
          \<not> wrapper_is_connected w st
          \<and> (let c = outer_core (cw_client w) st
             in co_disconnect_requested c \<or> co_session_ended c \<noteq> None \<or> \<not> cl_reconnect_on_send (co_config c)))"

lemma map_result_Some: "map_option (map_sum id f) built = Some (Inr y) \<longleftrightarrow> (\<exists>x. built = Some (Inr x) \<and> y = f x)"
proof (cases built)
  case (Some a)
  then show ?thesis by (cases a) auto
qed simp

lemma reconnect_pause_down:
  assumes "stays_down (w, st)" "reconnect_pause r w st = (st2, pause)"
  shows "stays_down (w, st2)"
proof -
  let ?a = "rx_ref (hy_inner (cw_client w))"
  have "st2 = st(?a := (st ?a)\<lparr>rs_server_shutdown := False\<rparr>)"
    using assms
    by (cases "hy_core (cw_client w)")
      (auto simp: stays_down_def reconnect_pause_def reconnect_delay_def outer_core_def inner_core_def cells_of_def with_cells_def)
  then show ?thesis
    using assms(1)
    by (cases "hy_core (cw_client w)")
      (auto simp: stays_down_def wrapper_is_connected_def hybrid_is_connected_def tr_is_connected_def tr_state_def outer_core_def
        inner_core_def with_cells_def Let_def)
qed

lemma stays_down_refused: "stays_down (w, st) \<Longrightarrow> \<not> wrapper_is_connected w st \<and> late_refusal w st \<noteq> None"
  by (auto simp: stays_down_def late_refusal_def Let_def split: option.splits)

lemma connect_with_race_core:
  assumes "is_race_mode cfg" "connect_with_race he ne' r during fresh connecting js ref cfg st = Some (st', Inr h)"
  shows "\<exists>c. hy_core h = Some c \<and> co_parser c = co_parser (client_core_new (ce_now (he_env he)) cfg)"
proof -
  let ?core = "client_core_new (ce_now (he_env he)) cfg"
  obtain st1 core' res where r: "race_connect he ne' r during fresh js ?core (st(ref := cells_of ?core)) = (st1, core', res)"
    by (metis prod_cases3)
  have "co_parser core' = co_parser ?core"
    using r by (auto simp: race_connect_def process_race_results_def split: prod.splits option.splits sum.splits)
  then show ?thesis
    using assms r by (auto simp: connect_with_race_def Let_def split: if_splits sum.splits option.splits prod.splits)
qed

section \<open>Properties\<close>

text \<open>A send does not bring back a client that is to stay down. When the application disconnected it, the server ended its
  session, or reconnecting is left to the application, a send through the wrapper fails and the inner client and
  its connection are not touched, as long as the tasks that run while the send waits do not bring the client back either.\<close>

theorem send_does_not_revive:
  assumes down: "stays_down (w, st)"
    and gate: "\<And>x. stays_down x \<Longrightarrow> stays_down (gate x) \<and> hy_inner (cw_client (fst (gate x))) = hy_inner (cw_client (fst x))"
    and asleep: "\<And>x. stays_down x \<Longrightarrow> stays_down (asleep x) \<and> hy_inner (cw_client (fst (asleep x))) = hy_inner (cw_client (fst x))"
  shows "\<exists>w' st' e. wrapper_send_frame he ne' r during gate asleep polls f w st = (w', st', Inl e)
    \<and> hy_inner (cw_client w') = hy_inner (cw_client w)"
proof (cases "early_refusal w st")
  case (Some e)
  then show ?thesis
    using stays_down_refused [OF down] by (auto simp: wrapper_send_frame_def ensure_ready_for_send_def is_send_ready_def)
next
  case None
  obtain w1 st1 where 1: "gate (w, st) = (w1, st1)" by fastforce
  have d1: "stays_down (w1, st1)" "hy_inner (cw_client w1) = hy_inner (cw_client w)" using gate [OF down] 1 by auto
  obtain st2 pause where 2: "reconnect_pause r w1 st1 = (st2, pause)" by fastforce
  note d2 = reconnect_pause_down [OF d1(1) 2]
  obtain w3 st3 where 3: "(if pause > 0 then asleep (w1, st2) else (w1, st2)) = (w3, st3)" by fastforce
  have d3: "stays_down (w3, st3)" "hy_inner (cw_client w3) = hy_inner (cw_client w1)"
    using asleep [OF d2] 3 d2 by (auto split: if_splits)
  show ?thesis
    using stays_down_refused [OF down] stays_down_refused [OF d1(1)] stays_down_refused [OF d3(1)] None 1 2 3 d1 d3
    by (auto simp: wrapper_send_frame_def ensure_ready_for_send_def is_send_ready_def)
qed

text \<open>The pipeline reads CONNECT_ACK as the core does. When the core accepts a CONNECT_ACK, the observer of the pipeline
  installs the parser that the core installs for it, with the same format, compression and encryption.\<close>

theorem pipeline_follows_negotiation:
  assumes "parse env PRE_NEGOTIATION_PARSER d = Inr f" "handle_connect_ack f = Inr (format, cmpr, enc)"
  shows "pl_parser (fst (flare_message env nonce d pl s)) = co_parser (core_update_parser ce format cmpr enc c)"
proof -
  have "co_parser (core_update_parser ce format cmpr enc c) = parser_new format cmpr enc"
    by (simp add: core_update_parser_def try_start_heartbeat_def split: option.splits)
  moreover obtain a where "frame_system_command f = Some a" "system_type_from_i32 (sc_type a) = Some SysConnectAck"
    "format = unwrap_or Json (serialization_format_from_i32 (sc_format a))"
    "cmpr = unwrap_or CompNone (compression_from_str (sc_compression a))" "enc = unwrap_or EncNone (encryption_from_str (sc_encryption a))"
    using assms(2) by (auto simp: handle_connect_ack_def split: option.splits if_splits)
  ultimately show ?thesis
    using assms(1) by (auto simp: flare_message_def connect_ack_command_def update_parser_def Let_def system_type_from_i32_def split: if_splits)
qed

text \<open>A client built with a race loses the negotiated encryption. Its builder gives the pipeline the parser of the core of the
  race, which the negotiation does not reach: whatever was negotiated, and even if the pipeline has seen CONNECT_ACK, the
  pipeline ends up with the parser from before the negotiation, which does not decrypt.\<close>

theorem raced_pipeline_unnegotiated:
  assumes "is_race_mode (fb_config b)"
    and "flare_build_with_race he ne' r during fresh connecting js ref own arrived polls b st = Some (st', Inr (w, pl))"
    and "\<And>pl w st pl' w' st'. arrived (pl, w, st) = (pl', w', st') \<Longrightarrow> hy_core (cw_client w') = hy_core (cw_client w)"
  shows "mp_default_encryption (pl_parser pl) = EncNone
    \<and> pl_parser pl = (case determine_initial_format (fb_config b) of (format, cmpr) \<Rightarrow> parser_new format cmpr EncNone)"
proof -
  obtain listener where l: "fb_listener b = Some listener"
    using assms(2) by (auto simp: flare_build_with_race_def split: option.splits)
  let ?pl = "build_pipeline listener own b"
  obtain st1 h where c: "connect_with_race he ne' r during fresh connecting js ref (fb_config b) st = Some (st1, Inr h)"
    using assms(2) l by (auto simp: flare_build_with_race_def Let_def split: option.splits sum.splits)
  let ?st2 = "fold (\<lambda>x s. wrapper_add_observer x (wrapper_new h) s) (own # fb_observers b) st1"
  obtain pl3 w3 st3 where a: "arrived (?pl, wrapper_new h, ?st2) = (pl3, w3, st3)" by (metis prod_cases3)
  have "pl = update_parser (parser_snapshot w3 st3) pl3"
    using assms(2) l c a by (auto simp: flare_build_with_race_def Let_def split: sum.splits)
  moreover obtain c where "hy_core (cw_client w3) = Some c" "co_parser c = co_parser (client_core_new (ce_now (he_env he)) (fb_config b))"
    using connect_with_race_core [OF assms(1) c] assms(3) [OF a] by (auto simp: wrapper_new_def)
  ultimately show ?thesis
    by (auto simp: update_parser_def parser_snapshot_def outer_core_def with_cells_def client_core_new_def parser_new_def split: prod.splits)
qed

text \<open>An event handler given to the builder is not called: it is set on the outer core after the inner client got
  its clone.\<close>

theorem event_handler_unreached:
  assumes "observer_build he ref (Some x) True cfg = Some (Inr w)"
  shows "cw_handler w \<and> call_handler k (inner_core (cw_client w) st) = inner_core (cw_client w) st"
proof -
  have core: "\<not> co_has_handler (client_core_new now c)" for now c by (simp add: client_core_new_def split: prod.splits)
  obtain h where h: "hybrid_new he ref cfg = Some (Inr h)" "w = wrapper_set_event_handler True (wrapper_new h)"
    using assms by (auto simp: observer_build_def map_result_Some simp del: map_option_eq_Some)
  have inner: "\<not> co_has_handler (tc_core t)" if "create_protocol_client he c (client_core_new now cfg) = Some (Inr t)" for c t now
    using that core by (auto simp: create_protocol_client_def tr_with_core_def Let_def split: if_splits)
  have m: "\<not> co_has_handler (tc_core (rx_client (hy_inner h)))"
    if built: "map_option (map_sum id (hybrid_of ref p None)) (create_protocol_client he c (client_core_new now cfg)) = Some (Inr h)" for p c now
  proof -
    obtain t where "create_protocol_client he c (client_core_new now cfg) = Some (Inr t)" "h = hybrid_of ref p None t"
      using built by (auto simp: map_result_Some simp del: map_option_eq_Some)
    then show ?thesis using inner by (auto simp: hybrid_of_def)
  qed
  have "\<not> co_has_handler (tc_core (rx_client (hy_inner h)))"
    using h(1) m
    by (auto simp: hybrid_new_def create_single_protocol_def create_race_mode_placeholder_def Let_def split: list.splits)
  then show ?thesis
    using h(2) by (simp add: wrapper_set_event_handler_def wrapper_new_def call_handler_def inner_core_def with_cells_def)
qed

section \<open>Examples\<close>

definition ex_down :: "client_wrapper \<times> store" where
  "ex_down = (wrapper_new (hybrid_of 0 TCP None ex_tcp), \<lambda>_. (detached_cells ex_race_config)\<lparr>rs_disconnect_requested := True\<rparr>)"

theorem send_does_not_revive_witness:
  "\<exists>w st e. wrapper_send_frame ex_he (ex_net (Dialled 7)) 0 (\<lambda>c. c) (\<lambda>x. x) (\<lambda>x. x) (\<lambda>_. []) ex_frame (fst ex_down) (snd ex_down) = (w, st, Inl e)
     \<and> tc_connection (rx_client (hy_inner (cw_client w))) = None"
proof -
  have "tc_connection ex_tcp = None" by simp
  then have "stays_down (fst ex_down, snd ex_down)"
    by (simp add: ex_down_def stays_down_def wrapper_is_connected_def hybrid_is_connected_def tr_is_connected_def wrapper_new_def
        hybrid_of_def outer_core_def inner_core_def with_cells_def Let_def)
  from send_does_not_revive [OF this, where gate = "\<lambda>x. x" and asleep = "\<lambda>x. x" and he = ex_he and ne' = "ex_net (Dialled 7)" and r = 0
      and during = "\<lambda>c. c" and polls = "\<lambda>_. []" and f = ex_frame]
  show ?thesis by (auto simp: ex_down_def wrapper_new_def hybrid_of_def)
qed

definition ex_builder :: "unit flare_builder" where
  "ex_builder = \<lparr>fb_config = ex_race_config, fb_listener = Some (\<lambda>f s. (s, Inr None)), fb_middlewares = [], fb_processors = [], fb_observers = []\<rparr>"

definition ex_built :: "(store \<times> (client_wrapper \<times> unit pipeline) result) option" where
  "ex_built = flare_build_with_race ex_he (ex_net DialTimeout) 0 (\<lambda>c. c) [1] 1 [ex_failed, Joined TCP 1 (Inr (ex_racer 7)) 2] 0 9
     (\<lambda>x. x) (\<lambda>_. [(client_core_new 0 ex_race_config)\<lparr>co_negotiated := True\<rparr>]) ex_builder (\<lambda>_. detached_cells ex_race_config)"

theorem raced_pipeline_unnegotiated_witness:
  "\<exists>st w pl. ex_built = Some (st, Inr (w, pl)) \<and> mp_default_encryption (pl_parser pl) = EncNone"
proof -
  obtain st1 h where "ex_race_result = Some (st1, Inr h)" using ex_race_succeeds by blast
  then obtain st w pl where b: "ex_built = Some (st, Inr (w, pl))"
    by (auto simp: ex_built_def ex_builder_def flare_build_with_race_def ex_race_result_def negotiation_poll_def Let_def)
  moreover have "is_race_mode (fb_config ex_builder)" using ex_race_facts(1) by (simp add: ex_builder_def)
  ultimately show ?thesis using raced_pipeline_unnegotiated [OF _ b [unfolded ex_built_def]] by auto
qed

end
