(* ===== verification/Spec2Isabelle.thy ===== *)
theory Spec2Isabelle
  imports DeviceManager Agreement Heartbeat Sockets Conversation Inbound ServerBuilder Pinning
    ClientManager ClientBuilder
begin

text \<open>
  Verification of flare-core, a long-connection messaging library in Rust (\<open>src/src\<close>).

  \<^bold>\<open>The program.\<close>  A server accepts connections over WebSocket, QUIC or TCP and keeps each in a connection
  manager; a client opens one and sends CONNECT.  The server authenticates it, negotiates the serialization
  format, compression and encryption, resolves conflicts with the user's other devices, and answers
  CONNECT_ACK; the client answers NEGOTIATION_READY.  From then on frames travel through a message parser
  (serialize, compress, encrypt) at each end, through an optional pipeline of middlewares and processors, to
  the event handlers of the application.  Heartbeats, kicks, timeouts and shutdowns end connections.

  \<^bold>\<open>Conventions.\<close>  A Rust struct is a record, an enumeration a datatype, a method a function that takes and
  returns the state; a fallible method returns \<open>flare_error + 'a\<close>.  Strings and byte vectors are lists of
  characters (bytes).  Atomic counters and lengths on the wire are machine words; sizes that are only compared
  are natural numbers.  Instants and durations are numbers of nanoseconds and, like random numbers and message
  id stamps, arguments.  Code outside the repository (codecs, hashes, the event handler, the authenticator,
  sockets) is a parameter, with what is relied on stated as a hypothesis (\<open>Codec.lib_laws\<close>).  Concurrency is a
  step relation whose steps are the work between two accesses to shared state or two awaits; where a step is coarser
  than that, the theory says so.  Among the coarser ones are CONNECT on the server (\<open>ServerCore.handle_connect_message\<close>, with
  the authenticator's answer and the delay before device conflicts are handled), the taking and sending of one item by a
  writer (\<open>WriteQueue.writer_step\<close>), the decision of the client's heartbeat with the closing it brings about, and the
  closing of the losers of a race, which the code does in the background.  The drop of a transport is not part of
  \<open>Transport.observed_run\<close>, and \<open>to_lowercase\<close> is that of ASCII.

  \<^bold>\<open>Foundations.\<close>
  \<^item> \<open>Prelude\<close>: strings, options, association lists; \<open>Errors\<close>: \<open>common/error\<close>, the error codes and the error type.
  \<^item> \<open>Protocol\<close>: \<open>common/protocol\<close>, frames, commands, enumerations with their wire numbers, builders.
  \<^item> \<open>Config\<close>: \<open>common/config_types.rs\<close>; normalisation of addresses and the heartbeat interval stay
    within their documented form and bounds.
  \<^item> \<open>Pinning\<close>: \<open>common/cert/pinning.rs\<close>; pinning accepts only what the ordinary verifier accepts, and tests the presented
    certificates rather than the verified path.
  \<^item> \<open>Kick\<close>: \<open>common/kick.rs\<close> and \<open>common/shutdown.rs\<close>; the client understands every typed reason the server builds.
  \<^item> \<open>Conversation\<close>: \<open>common/conversation.rs\<close>; generated ids are valid, of their type and of the documented
    form; the alphabet of a temporary id is not tested by the validation.

  \<^bold>\<open>Messages.\<close>
  \<^item> \<open>Codec\<close>: \<open>common/serializer\<close>, \<open>common/compression\<close>, \<open>common/encryption\<close>, the implementations and registries.
  \<^item> \<open>Parser\<close>: \<open>common/message/parser.rs\<close>; what one end serializes the other parses, in whatever order the
    serializers are tried, except JSON text that is also a protobuf message; a strict parser accepts nothing that is
    not encrypted and compressed as configured; decompression is bounded, and what is larger is refused.
  \<^item> \<open>Pipeline\<close>: \<open>common/message/pipeline.rs\<close>, \<open>middleware.rs\<close>, \<open>processor.rs\<close>, \<open>handler.rs\<close>; middlewares run by priority and
    a frame refused by validation goes no further.
  \<^item> \<open>Framing\<close>, \<open>Transport\<close>: \<open>transport/framing.rs\<close>, \<open>common/protobuf_decoder.rs\<close>, \<open>transport/tcp.rs\<close>, \<open>transport/events.rs\<close>;
    frames survive the stream however it is cut, and every observer hears of the end of a connection once.
  \<^item> \<open>Sockets\<close>: \<open>transport/websocket.rs\<close>, \<open>transport/quic.rs\<close>; their read tasks keep the contract of the observers, the locale
    \<open>observed_reader\<close>, as that of TCP does; a QUIC frame over the limit is sent and ends the peer's read task.

  \<^bold>\<open>Server.\<close>
  \<^item> \<open>Device\<close>, \<open>DeviceManager\<close>: \<open>common/device.rs\<close>, \<open>server/device/manager.rs\<close>; the registry refines a map from
    connections to devices, is consistent in every run, and enforces the conflict strategy for one owner only.
    The strategies share the locale \<open>relational_strategy\<close>.
  \<^item> \<open>Sharding\<close>, \<open>WriteQueue\<close>, \<open>ConnManager\<close>, \<open>ConnOps\<close>, \<open>Fanout\<close>, \<open>Delivery\<close>, \<open>ConnRun\<close>: \<open>server/connection/manager\<close>.  The sharded
    tables implement the locale \<open>keyed_store\<close>; the sending operations share the locales \<open>snapshot_sender\<close> and
    \<open>delivering_sender\<close>, interpreted on the raw, framed, authentication-checked and shared sends.  \<open>ConnRun.mgr_run\<close>
    interleaves the parts of registrations (slot, table) and removals (table, slot, index) with all other operations: the
    limit, the counters and the negotiation state are right in every run, and the index lists the registered
    connections and those whose removal is under way, as long as no id is registered again in the meantime; writes leave in order, the gate holds back frames
    for connections that are not authenticated, and a slow consumer is isolated.
  \<^item> \<open>Negotiation\<close>, \<open>ServerCore\<close>: \<open>server/connection/negotiation.rs\<close>, \<open>device_handler.rs\<close>, \<open>server/auth\<close> and the handling of
    CONNECT in \<open>server/transports/server_core.rs\<close>; identities come from the authenticator, conflicts stay within
    one owner, a refused CONNECT leaves no trace.
  \<^item> \<open>Inbound\<close>: \<open>server/events/observer.rs\<close>, \<open>event_wrapper.rs\<close>, the inbound queue with its consumer and the calls of the
    event handler; messages of a connection are handled in order, a removed connection is silent, a confirmed one
    is read strictly, a connection that ends is cleaned up, and messages before CONNECT are handled.
  \<^item> \<open>ServerConfig\<close>, \<open>ServerLife\<close>: \<open>server/config.rs\<close>, \<open>server/handle/default.rs\<close>, \<open>server/heartbeat/detector.rs\<close>,
    \<open>server/transports/common.rs\<close>; a sweep of the detector closes the idle connections one after the other and
    then removes them; silent connections are removed in time when closings end, one closing that does not end stalls the
    detector, and a shutdown ends in bounded time in any case.
  \<^item> \<open>ServerTransport\<close>: \<open>server/transports/{tcp,websocket,quic,hybrid}.rs\<close>, the accept loops with their gates and permits and the
    server of several protocols; handshakes are limited, a closed gate admits nobody, a stop takes the time of one
    shutdown whatever the number of protocols, and a handshake under way outlives it.
  \<^item> \<open>ServerBuilder\<close>: \<open>server/builder\<close>; two of the builders refuse authentication without an authenticator, the third builds a
    server that asks for it and registers its connections as authenticated.

  \<^bold>\<open>Client.\<close>
  \<^item> \<open>ClientConfig\<close>, \<open>ClientConnect\<close>, \<open>ClientCore\<close>: \<open>client/config.rs\<close>, \<open>client/connection/state.rs\<close>, \<open>client/router.rs\<close>,
    \<open>client/transports/client_core.rs\<close>, \<open>client_core_connect.rs\<close>, \<open>common.rs\<close>.
  \<^item> \<open>ClientRun\<close>: the interleaving of the client's tasks and of the application's disconnects on one connection, with the decision to
    report and the telling of the observers as steps of their own; a kick is reported to the application once, with its
    reason, and no ordinary close after it unless the application disconnects itself.
  \<^item> \<open>Heartbeat\<close>: \<open>client/heartbeat/manager.rs\<close>; only a peer that left a ping unanswered is closed, and a silent peer is
    found in time.
  \<^item> \<open>ClientManager\<close>: \<open>client/manager.rs\<close>; reconnecting is spaced (by 800 milliseconds at least) and limited, and a connection the client loses by itself is
    not reconnected.
  \<^item> \<open>ClientTransport\<close>: \<open>client/transports/{tcp,quic,websocket}.rs\<close>; connecting ends connected or able to connect again, CONNECT goes
    to a fresh connection only, and a client that reconnects after a requested disconnection is deaf to kicks.
  \<^item> \<open>HybridClient\<close>: \<open>client/transports/hybrid.rs\<close>, the race of protocols over a store of shared cells; the first open connection wins,
    whatever the others do, and closing the losers does not touch what the winner uses.
  \<^item> \<open>ClientBuilder\<close>: \<open>client/builder\<close>; a send does not bring back a client that is to stay down, and the pipeline of a raced client
    does not get the negotiated parser.
  \<^item> \<open>Agreement\<close>: client and server together end up with the same parser.

  \<^bold>\<open>Bounds and fuel.\<close>  No definition uses fuel.  \<open>ServerLife.grace_loop\<close> ends because each round moves the clock at
  least a poll interval towards its deadline; the decoders and loops over lists recurse on what is left to read.
  The shard count, queue capacities and limits are those of the source.

  \<^bold>\<open>Not modelled.\<close>  Sockets and TLS are third-party libraries, whose answers are arguments; the browser WebSocket
  (\<open>transport/websocket_wasm.rs\<close>) and the transport factory only call them.  Setters of the builders that hand a value to the
  configuration, and methods of the servers that forward to their handle, are the functions they call.  Certificates
  are loaded and converted (\<open>common/cert\<close>) on files and rustls types.  Platform shims, error conversions and module files
  have no behaviour of their own.  A panic in user code, poisoned locks and what is only logged are left out.
\<close>

end
